(* ===== verification/Prelude.thy ===== *)
theory Prelude
  imports Main "HOL-Library.Word"
begin

unbundle bit_operations_syntax

text \<open>
  Shared vocabulary of the development: the machine integers of the Rust code as words,
  little-endian byte conversions, the number formats of Rust's \<open>format!\<close>, the total
  versions of slice access, and the generic lemmas the components use.
  A byte string (\<open>Vec<u8>\<close>, \<open>&[u8]\<close>) is a list of bytes; a Rust \<open>String\<close> is
  its UTF-8 byte sequence, one \<open>char\<close> per byte.
\<close>

type_synonym u8 = "8 word"
type_synonym u16 = "16 word"
type_synonym u32 = "32 word"
type_synonym u64 = "64 word"

type_synonym bytes = "u8 list"

named_theorems le_simps \<open>conversions between words and their little-endian bytes\<close>
named_theorems key_defs \<open>the definitions of the request keys\<close>

section \<open>Slices\<close>

definition get_opt :: "'a list \<Rightarrow> nat \<Rightarrow> 'a option" where
  "get_opt xs i = (if i < length xs then Some (xs ! i) else None)"

lemma get_opt_nth [simp]: "i < length xs \<Longrightarrow> get_opt xs i = Some (xs ! i)"
  by (simp add: get_opt_def)

lemma get_opt_None [simp]: "length xs \<le> i \<Longrightarrow> get_opt xs i = None"
  by (simp add: get_opt_def)

lemma get_opt_eq_None_iff: "get_opt xs i = None \<longleftrightarrow> length xs \<le> i"
  by (auto simp: get_opt_def)

text \<open>Rust's \<open>xs.get(from..to)\<close>: the subslice, or \<open>None\<close> when it is out of range.\<close>

definition slice_opt :: "'a list \<Rightarrow> nat \<Rightarrow> nat \<Rightarrow> 'a list option" where
  "slice_opt xs i j = (if i \<le> j \<and> j \<le> length xs then Some (take (j - i) (drop i xs)) else None)"

lemma slice_opt_length: "slice_opt xs i j = Some ys \<Longrightarrow> length ys = j - i"
  by (auto simp: slice_opt_def split: if_splits)

lemma slice_opt_append_right:
  "length xs = i \<Longrightarrow> length ys = n \<Longrightarrow> slice_opt (xs @ ys @ zs) i (i + n) = Some ys"
  by (simp add: slice_opt_def)

section \<open>Little-endian bytes\<close>

definition u16_from_le_bytes :: "u8 \<Rightarrow> u8 \<Rightarrow> u16" where
  "u16_from_le_bytes a b = ucast a OR push_bit 8 (ucast b)"

definition u16_to_le_bytes :: "u16 \<Rightarrow> bytes" where
  "u16_to_le_bytes w = [ucast w, ucast (drop_bit 8 w)]"

definition u32_from_le_bytes :: "u8 \<Rightarrow> u8 \<Rightarrow> u8 \<Rightarrow> u8 \<Rightarrow> u32" where
  "u32_from_le_bytes a b c d =
     ucast a OR push_bit 8 (ucast b) OR push_bit 16 (ucast c) OR push_bit 24 (ucast d)"

definition u32_to_le_bytes :: "u32 \<Rightarrow> bytes" where
  "u32_to_le_bytes w =
     [ucast w, ucast (drop_bit 8 w), ucast (drop_bit 16 w), ucast (drop_bit 24 w)]"

definition u32_to_be_bytes :: "u32 \<Rightarrow> bytes" where
  "u32_to_be_bytes w = rev (u32_to_le_bytes w)"

definition u32_from_be_bytes :: "u8 \<Rightarrow> u8 \<Rightarrow> u8 \<Rightarrow> u8 \<Rightarrow> u32" where
  "u32_from_be_bytes a b c d = u32_from_le_bytes d c b a"

text \<open>The four bytes \<open>raw[0..4]\<close> as one little-endian word; callers check the length.\<close>

definition le32_at :: "bytes \<Rightarrow> nat \<Rightarrow> u32" where
  "le32_at r i = u32_from_le_bytes (r ! i) (r ! (i + 1)) (r ! (i + 2)) (r ! (i + 3))"

definition le16_at :: "bytes \<Rightarrow> nat \<Rightarrow> u16" where
  "le16_at r i = u16_from_le_bytes (r ! i) (r ! (i + 1))"

lemma byte_bit_bound: "bit b n \<Longrightarrow> n < 8" for b :: u8
  using bit_imp_le_length [of b n] by simp

lemma unat_byte_less [simp]: "unat b < 256" for b :: u8
  using unsigned_less [of b, where 'a = nat] by simp

lemma uint_byte_less [simp]: "uint b < 256" for b :: u8
  using unsigned_less [of b, where 'a = int] by simp

lemma u32_le_roundtrip [le_simps, simp]:
  "u32_from_le_bytes (ucast w) (ucast (drop_bit 8 w)) (ucast (drop_bit 16 w))
     (ucast (drop_bit 24 w)) = w" for w :: u32
proof (rule bit_word_eqI)
  fix n assume "n < LENGTH(32)"
  then consider "n < 8" | "8 \<le> n" "n < 16" | "16 \<le> n" "n < 24" | "24 \<le> n" "n < 32"
    by fastforce
  then show "bit (u32_from_le_bytes (ucast w) (ucast (drop_bit 8 w)) (ucast (drop_bit 16 w))
     (ucast (drop_bit 24 w))) n = bit w n"
    by cases (auto simp: u32_from_le_bytes_def bit_simps)
qed

lemma u16_le_roundtrip [le_simps, simp]:
  "u16_from_le_bytes (ucast w) (ucast (drop_bit 8 w)) = w" for w :: u16
  by (rule bit_word_eqI) (auto simp: u16_from_le_bytes_def bit_simps not_less not_le)

lemma u32_to_from_le [le_simps]:
  "u32_to_le_bytes (u32_from_le_bytes a b c d) = [a, b, c, d]"
  unfolding u32_to_le_bytes_def u32_from_le_bytes_def
  by (simp, intro conjI; rule bit_word_eqI; auto simp: bit_simps dest: byte_bit_bound)

lemma u16_to_from_le [le_simps]: "u16_to_le_bytes (u16_from_le_bytes a b) = [a, b]"
  unfolding u16_to_le_bytes_def u16_from_le_bytes_def
  by (simp, intro conjI; rule bit_word_eqI; auto simp: bit_simps dest: byte_bit_bound)

lemma length_u32_to_le_bytes [simp]: "length (u32_to_le_bytes w) = 4"
  by (simp add: u32_to_le_bytes_def)

lemma length_u16_to_le_bytes [simp]: "length (u16_to_le_bytes w) = 2"
  by (simp add: u16_to_le_bytes_def)

lemma le32_at_to_le [le_simps, simp]: "le32_at (u32_to_le_bytes w) 0 = w"
  by (simp add: le32_at_def u32_to_le_bytes_def)

lemma le32_at_prefix [le_simps]: "length xs = i \<Longrightarrow> le32_at (xs @ u32_to_le_bytes w @ ys) i = w"
  by (simp add: le32_at_def u32_to_le_bytes_def nth_append)

section \<open>Masks\<close>

named_theorems mask_simps \<open>low-bit masks as truncations\<close>

lemma and_masks [mask_simps]:
  "x AND 0x3 = take_bit 2 x" "x AND 0x7 = take_bit 3 x" "x AND 0x1F = take_bit 5 x"
  "x AND 0x3F = take_bit 6 x" "x AND 0xFF = take_bit 8 x" "x AND 0x3FFFF = take_bit 18 x"
  "x AND 0xFFFFFF = take_bit 24 x" "x AND 0x1FFFFFFF = take_bit 29 x"
  for x :: "'a::len word"
  by (simp_all add: take_bit_eq_mask mask_eq_exp_minus_1)

section \<open>Numbers in strings\<close>

definition digit_char :: "nat \<Rightarrow> char" where
  "digit_char d = (if d < 10 then char_of (48 + d) else char_of (55 + d))"

definition digit_val :: "char \<Rightarrow> nat" where
  "digit_val c = (let n = of_char c :: nat in if n < 58 then n - 48 else n - 55)"

text \<open>The digits of \<open>n\<close> in base \<open>b\<close> (2 to 36), most significant first, letters in upper
  case, no leading zero.\<close>

function digits_in :: "nat \<Rightarrow> nat \<Rightarrow> string" where
  "digits_in b n =
     (if n < b \<or> b < 2 then [digit_char n] else digits_in b (n div b) @ [digit_char (n mod b)])"
  by pat_completeness auto
termination
  by (relation "measure snd") auto

declare digits_in.simps [simp del]

definition undigits :: "nat \<Rightarrow> string \<Rightarrow> nat" where
  "undigits b s = foldl (\<lambda>a c. a * b + digit_val c) 0 s"

text \<open>\<open>{:0wX}\<close>: upper-case hexadecimal, zero-padded to width \<open>w\<close>, never cut.\<close>

definition fmt_hex :: "nat \<Rightarrow> nat \<Rightarrow> string" where
  "fmt_hex w n = (let ds = digits_in 16 n in replicate (w - length ds) (CHR ''0'') @ ds)"

definition fmt_dec :: "nat \<Rightarrow> string" where
  "fmt_dec n = digits_in 10 n"

lemma digit_val_char [simp]: "d < 36 \<Longrightarrow> digit_val (digit_char d) = d"
  by (auto simp: digit_val_def digit_char_def of_char_of)

lemma undigits_append_single: "undigits b (s @ [c]) = undigits b s * b + digit_val c"
  by (simp add: undigits_def)

lemma undigits_digits_in: "2 \<le> b \<Longrightarrow> b \<le> 36 \<Longrightarrow> undigits b (digits_in b n) = n"
proof (induction b n rule: digits_in.induct)
  case (1 b n)
  show ?case
  proof (cases "n < b")
    case True
    with "1.prems" show ?thesis
      by (simp add: digits_in.simps [of b n] undigits_def)
  next
    case False
    then have "undigits b (digits_in b (n div b)) = n div b"
      using "1" by simp
    moreover have "n mod b < 36"
      using "1.prems" by (metis bot_nat_0.not_eq_extremum less_le_trans mod_less_divisor not_numeral_le_zero)
    ultimately show ?thesis
      using False "1.prems" by (simp add: digits_in.simps [of b n] undigits_append_single)
  qed
qed

lemma undigits_zeros: "undigits b (replicate k (CHR ''0'') @ s) = undigits b s"
  by (induction k) (auto simp: undigits_def digit_val_def)

lemma undigits_fmt_hex: "undigits 16 (fmt_hex w n) = n"
  by (simp add: fmt_hex_def Let_def undigits_zeros undigits_digits_in)

lemma fmt_hex_inject [simp]: "fmt_hex w m = fmt_hex w n \<longleftrightarrow> m = n"
  by (metis undigits_fmt_hex)

lemma undigits_fmt_dec: "undigits 10 (fmt_dec n) = n"
  by (simp add: fmt_dec_def undigits_digits_in)

lemma fmt_dec_inject [simp]: "fmt_dec m = fmt_dec n \<longleftrightarrow> m = n"
  by (metis undigits_fmt_dec)

section \<open>Keys: parts joined by colons\<close>

definition no_colon :: "string \<Rightarrow> bool" where
  "no_colon s \<longleftrightarrow> CHR '':'' \<notin> set s"

fun join_colon :: "string list \<Rightarrow> string" where
  "join_colon [] = []"
| "join_colon [s] = s"
| "join_colon (s # t # ss) = s @ CHR '':'' # join_colon (t # ss)"

lemma digit_char_no_colon: "d < 36 \<Longrightarrow> digit_char d \<noteq> CHR '':''"
proof
  assume d: "d < 36" and "digit_char d = CHR '':''"
  then have "d = digit_val CHR '':''" using digit_val_char [OF d] by simp
  then have "d = 3" by (simp add: digit_val_def)
  then have "of_char (digit_char d) = (51 :: nat)" by (simp add: digit_char_def)
  with \<open>digit_char d = CHR '':''\<close> show False by simp
qed

lemma no_colon_digits_in: "2 \<le> b \<Longrightarrow> b \<le> 36 \<Longrightarrow> no_colon (digits_in b n)"
proof (induction b n rule: digits_in.induct)
  case (1 b n)
  show ?case
  proof (cases "n < b")
    case True
    with "1.prems" digit_char_no_colon [of n] show ?thesis
      by (auto simp: digits_in.simps [of b n] no_colon_def)
  next
    case False
    have "n mod b < 36"
      using "1.prems" by (metis bot_nat_0.not_eq_extremum less_le_trans mod_less_divisor not_numeral_le_zero)
    with False "1" digit_char_no_colon [of "n mod b"] show ?thesis
      by (auto simp: digits_in.simps [of b n] no_colon_def)
  qed
qed

lemma no_colon_fmt [simp]: "no_colon (fmt_hex w n)" "no_colon (fmt_dec n)"
  using no_colon_digits_in [of 16 n] no_colon_digits_in [of 10 n]
  by (auto simp: fmt_hex_def fmt_dec_def no_colon_def Let_def)

lemma colon_append_eq:
  "no_colon s \<Longrightarrow> no_colon t \<Longrightarrow>
     s @ CHR '':'' # xs = t @ CHR '':'' # ys \<longleftrightarrow> s = t \<and> xs = ys"
  by (induction s arbitrary: t; case_tac t) (auto simp: no_colon_def)

lemma no_colon_neq: "no_colon s \<Longrightarrow> s \<noteq> t @ CHR '':'' # xs"
  by (auto simp: no_colon_def)

text \<open>Keys are equal exactly when their parts are.\<close>

lemma join_colon_inject:
  "list_all no_colon xs \<Longrightarrow> list_all no_colon ys \<Longrightarrow> xs \<noteq> [] \<Longrightarrow> ys \<noteq> [] \<Longrightarrow>
     join_colon xs = join_colon ys \<longleftrightarrow> xs = ys"
proof (induction xs arbitrary: ys rule: join_colon.induct)
  case (2 s)
  then show ?case
    by (cases ys rule: join_colon.cases) (auto dest: no_colon_neq)
next
  case (3 s t ss)
  then show ?case
    by (cases ys rule: join_colon.cases) (auto simp: colon_append_eq dest: no_colon_neq)
qed simp

end
