(* ===== verification/Codec.thy ===== *)
theory Codec
  imports Prelude
begin

text \<open>
  The interface two transports share: frames written one after the other on a byte stream
  and read back. \<open>frame_codec\<close> states what the reader relies on; its lemmas say that a
  stream of frames is read back whole, and that a stream cut anywhere gives only the frames
  that were complete. The relay's socket format and the USB link's records interpret it.
\<close>

text \<open>Read frames off a stream until one cannot be read; \<open>n\<close> bounds the number of frames.\<close>

fun read_frames :: "('b list \<Rightarrow> ('f \<times> 'b list) option) \<Rightarrow> nat \<Rightarrow> 'b list \<Rightarrow> 'f list" where
  "read_frames rd 0 bs = []"
| "read_frames rd (Suc n) bs =
     (case rd bs of None \<Rightarrow> [] | Some (f, rest) \<Rightarrow> f # read_frames rd n rest)"

locale frame_codec =
  fixes enc :: "'f \<Rightarrow> 'b list"
    and rd :: "'b list \<Rightarrow> ('f \<times> 'b list) option"
    and ok :: "'f \<Rightarrow> bool"
  assumes rd_enc: "ok f \<Longrightarrow> rd (enc f @ rest) = Some (f, rest)"
    and rd_cut: "ok f \<Longrightarrow> n < length (enc f) \<Longrightarrow> rd (take n (enc f)) = None"
    and rd_Nil: "rd [] = None"
begin

lemma stream_whole:
  "list_all ok fs \<Longrightarrow> length fs \<le> n \<Longrightarrow> rd rest = None \<Longrightarrow>
     read_frames rd n (concat (map enc fs) @ rest) = fs"
proof (induction fs arbitrary: n)
  case Nil
  then show ?case by (cases n) simp_all
next
  case (Cons f fs)
  then obtain m where "n = Suc m" by (cases n) auto
  with Cons show ?case by (simp add: rd_enc)
qed

text \<open>Asked for exactly as many frames as there are, whatever follows is not looked at.\<close>

lemma stream_exact:
  "list_all ok fs \<Longrightarrow> read_frames rd (length fs) (concat (map enc fs) @ rest) = fs"
  by (induction fs) (simp_all add: rd_enc)

text \<open>A cut stream gives complete frames only, the first \<open>j\<close> of those sent.\<close>

lemma stream_cut:
  "list_all ok fs \<Longrightarrow>
     \<exists>j \<le> length fs. read_frames rd n (take k (concat (map enc fs))) = take j fs
       \<and> length (concat (map enc (take j fs))) \<le> k"
proof (induction fs arbitrary: n k)
  case Nil
  then show ?case by (cases n) (simp_all add: rd_Nil)
next
  case (Cons f fs)
  then have f: "ok f" by simp
  show ?case
  proof (cases "n = 0 \<or> k < length (enc f)")
    case True
    then have "read_frames rd n (take k (concat (map enc (f # fs)))) = take 0 (f # fs)"
      using f by (cases n) (auto simp: rd_cut)
    then show ?thesis by (intro exI [of _ 0]) simp
  next
    case False
    then obtain m where n: "n = Suc m" and k: "length (enc f) \<le> k" by (cases n) auto
    obtain j where j: "j \<le> length fs"
      "read_frames rd m (take (k - length (enc f)) (concat (map enc fs))) = take j fs"
      "length (concat (map enc (take j fs))) \<le> k - length (enc f)"
      using Cons.IH [of m "k - length (enc f)"] Cons.prems by auto
    have "read_frames rd n (take k (concat (map enc (f # fs)))) = take (Suc j) (f # fs)"
      using k n j(2) f by (simp add: rd_enc)
    then show ?thesis using j k by (intro exI [of _ "Suc j"]) simp
  qed
qed

end

end
