(* ===== verification/RustStr.thy ===== *)
theory RustStr
  imports Prelude
begin

text \<open>
  The string functions of Rust's standard library the code uses, on UTF-8 byte sequences:
  \<open>lines\<close>, \<open>split\<close>, \<open>split_once\<close>, \<open>strip_prefix\<close>, \<open>trim\<close> and its variants,
  \<open>from_str_radix\<close>, ASCII case folding, and characters of a string.
\<close>

definition nl :: char where "nl = char_of (10 :: nat)"
definition cr :: char where "cr = char_of (13 :: nat)"
definition dquote :: char where "dquote = char_of (34 :: nat)"

lemma unat_of_char [simp]: "unat (of_char c :: u8) = of_char c"
proof -
  have "(of_char c :: u8) = of_nat (of_char c)" by (simp only: of_nat_of_char)
  then show ?thesis by (simp add: unsigned_of_nat take_bit_nat_eq_self_iff)
qed

section \<open>Splitting\<close>

fun split_on :: "('a \<Rightarrow> bool) \<Rightarrow> 'a list \<Rightarrow> 'a list list" where
  "split_on P [] = [[]]"
| "split_on P (c # cs) =
     (if P c then [] # split_on P cs
      else (case split_on P cs of [] \<Rightarrow> [[c]] | w # ws \<Rightarrow> (c # w) # ws))"

text \<open>\<open>str::lines\<close>: pieces ended by a newline, a carriage return before it dropped; a
  final newline starts no further line.\<close>

definition strip_cr :: "string \<Rightarrow> string" where
  "strip_cr s = (if s \<noteq> [] \<and> last s = cr then butlast s else s)"

definition rust_lines :: "string \<Rightarrow> string list" where
  "rust_lines s =
     (let ps = split_on (\<lambda>c. c = nl) s; body = map strip_cr (butlast ps)
      in if last ps = [] then body else body @ [last ps])"

fun split_once :: "char \<Rightarrow> string \<Rightarrow> (string \<times> string) option" where
  "split_once d [] = None"
| "split_once d (c # cs) =
     (if c = d then Some ([], cs)
      else map_option (\<lambda>(a, b). (c # a, b)) (split_once d cs))"

fun strip_prefix :: "string \<Rightarrow> string \<Rightarrow> string option" where
  "strip_prefix [] s = Some s"
| "strip_prefix (p # ps) [] = None"
| "strip_prefix (p # ps) (c # cs) = (if p = c then strip_prefix ps cs else None)"

section \<open>Trimming\<close>

definition bytes_str :: "nat list \<Rightarrow> string" where
  "bytes_str ns = map char_of ns"

text \<open>The UTF-8 sequences of the characters with the Unicode property White\_Space.\<close>

definition white_space :: "string list" where
  "white_space = map bytes_str
     ([[9], [10], [11], [12], [13], [32], [0xC2, 0x85], [0xC2, 0xA0], [0xE1, 0x9A, 0x80]]
      @ map (\<lambda>k. [0xE2, 0x80, 0x80 + k]) [0 ..< 11]
      @ [[0xE2, 0x80, 0xA8], [0xE2, 0x80, 0xA9], [0xE2, 0x80, 0xAF], [0xE2, 0x81, 0x9F],
         [0xE3, 0x80, 0x80]])"

text \<open>Drop leading occurrences of any of the (non-empty) patterns.\<close>

fun find_prefix :: "string list \<Rightarrow> string \<Rightarrow> string option" where
  "find_prefix [] s = None"
| "find_prefix (p # ps) s =
     (case strip_prefix p s of Some r \<Rightarrow> (if p = [] then find_prefix ps s else Some r)
      | None \<Rightarrow> find_prefix ps s)"

lemma strip_prefix_Some: "strip_prefix p s = Some r \<longleftrightarrow> s = p @ r"
  by (induction p s rule: strip_prefix.induct) auto

lemma find_prefix_shorter: "find_prefix ps s = Some r \<Longrightarrow> length r < length s"
  by (induction ps s rule: find_prefix.induct)
     (auto simp: strip_prefix_Some split: option.splits if_splits)

function trim_start_of :: "string list \<Rightarrow> string \<Rightarrow> string" where
  "trim_start_of ps s = (case find_prefix ps s of Some r \<Rightarrow> trim_start_of ps r | None \<Rightarrow> s)"
  by pat_completeness auto
termination
  by (relation "measure (\<lambda>(ps, s). length s)") (auto dest: find_prefix_shorter)

declare trim_start_of.simps [simp del]

definition trim_end_of :: "string list \<Rightarrow> string \<Rightarrow> string" where
  "trim_end_of ps s = rev (trim_start_of (map rev ps) (rev s))"

definition rust_trim :: "string \<Rightarrow> string" where
  "rust_trim s = trim_end_of white_space (trim_start_of white_space s)"

definition rust_trim_end :: "string \<Rightarrow> string" where
  "rust_trim_end s = trim_end_of white_space s"

definition trim_matches :: "char \<Rightarrow> string \<Rightarrow> string" where
  "trim_matches c s = trim_end_of [[c]] (trim_start_of [[c]] s)"

section \<open>Numbers\<close>

definition hex_digit_val :: "char \<Rightarrow> nat option" where
  "hex_digit_val c =
     (let n = of_char c :: nat
      in if 48 \<le> n \<and> n < 58 then Some (n - 48)
         else if 65 \<le> n \<and> n < 71 then Some (n - 55)
         else if 97 \<le> n \<and> n < 103 then Some (n - 87) else None)"

fun radix_digits :: "nat \<Rightarrow> nat \<Rightarrow> string \<Rightarrow> nat option" where
  "radix_digits b a [] = Some a"
| "radix_digits b a (c # cs) =
     (case hex_digit_val c of
        Some d \<Rightarrow> if d < b then radix_digits b (a * b + d) cs else None
      | None \<Rightarrow> None)"

text \<open>\<open>from_str_radix\<close> of an unsigned type of \<open>w\<close> bits: digits, after one optional
  plus sign; empty, a bad digit or too large is an error.\<close>

definition from_str_radix :: "nat \<Rightarrow> nat \<Rightarrow> string \<Rightarrow> nat option" where
  "from_str_radix w b s =
     (let ds = (case s of c # cs \<Rightarrow> if c = CHR ''+'' \<and> cs \<noteq> [] then cs else s | [] \<Rightarrow> s)
      in if ds = [] then None
         else (case radix_digits b 0 ds of
             Some n \<Rightarrow> if n < 2 ^ w then Some n else None
           | None \<Rightarrow> None))"

definition to_ascii_lowercase :: "string \<Rightarrow> string" where
  "to_ascii_lowercase =
     map (\<lambda>c. let n = of_char c :: nat in if 65 \<le> n \<and> n < 91 then char_of (n + 32) else c)"

section \<open>Characters\<close>

text \<open>\<open>c as char\<close> of a byte, pushed on a \<open>String\<close>: one or two UTF-8 bytes.\<close>

definition latin1_utf8 :: "u8 \<Rightarrow> string" where
  "latin1_utf8 c =
     (if unat c < 128 then bytes_str [unat c]
      else bytes_str [192 + unat c div 64, 128 + unat c mod 64])"

text \<open>The characters of a string: each lead byte with the continuation bytes after it.\<close>

definition is_cont :: "char \<Rightarrow> bool" where
  "is_cont c \<longleftrightarrow> (of_char c :: nat) div 64 = 2"

fun utf8_chars :: "string \<Rightarrow> string list" where
  "utf8_chars [] = []"
| "utf8_chars (c # cs) =
     (case utf8_chars cs of
        [] \<Rightarrow> [[c]]
      | w # ws \<Rightarrow> (if is_cont (hd w) then (c # w) # ws else [c] # w # ws))"

section \<open>Facts\<close>

lemma split_on_not_Nil [simp]: "split_on P s \<noteq> []"
  by (induction s) (auto split: list.splits)

lemma split_on_none: "list_all (\<lambda>c. \<not> P c) s \<Longrightarrow> split_on P s = [s]"
  by (induction s) auto

lemma split_on_append_sep:
  "list_all (\<lambda>c. \<not> P c) s \<Longrightarrow> P d \<Longrightarrow> split_on P (s @ d # t) = s # split_on P t"
  by (induction s) auto

lemma hd_split_on: "hd (split_on P s) = takeWhile (\<lambda>c. \<not> P c) s"
  by (induction s) (auto split: list.splits)

lemma split_once_append:
  "d \<notin> set k \<Longrightarrow> split_once d (k @ d # v) = Some (k, v)"
  by (induction k) auto

lemma split_once_None: "split_once d s = None \<longleftrightarrow> d \<notin> set s"
  by (induction s) auto

lemma rust_lines_cons:
  "nl \<notin> set s \<Longrightarrow> s = [] \<or> last s \<noteq> cr \<Longrightarrow> rust_lines (s @ nl # t) = s # rust_lines t"
proof -
  assume s: "nl \<notin> set s" and c: "s = [] \<or> last s \<noteq> cr"
  have "split_on (\<lambda>c. c = nl) (s @ nl # t) = s # split_on (\<lambda>c. c = nl) t"
    using s by (intro split_on_append_sep) (auto simp: list_all_iff)
  moreover have "strip_cr s = s" using c by (auto simp: strip_cr_def)
  ultimately show ?thesis by (simp add: rust_lines_def Let_def)
qed

lemma rust_lines_Nil [simp]: "rust_lines [] = []"
  by (simp add: rust_lines_def)

lemma trim_start_of_id: "find_prefix ps s = None \<Longrightarrow> trim_start_of ps s = s"
  by (simp add: trim_start_of.simps)

lemma trim_start_of_shorter: "length (trim_start_of ps s) \<le> length s"
proof (induction ps s rule: trim_start_of.induct)
  case (1 ps s)
  show ?case
  proof (cases "find_prefix ps s")
    case None
    then show ?thesis by (simp add: trim_start_of_id)
  next
    case (Some r)
    with 1 find_prefix_shorter [OF Some] show ?thesis
      by (simp add: trim_start_of.simps [of ps s])
  qed
qed

text \<open>Visible ASCII is no white space, so trimming stops at it.\<close>

definition visible :: "char \<Rightarrow> bool" where
  "visible c \<longleftrightarrow> 33 \<le> (of_char c :: nat) \<and> (of_char c :: nat) < 127"

lemma find_prefix_hd:
  "list_all (\<lambda>p. p \<noteq> [] \<and> hd p \<noteq> c) ps \<Longrightarrow> find_prefix ps (c # cs) = None"
proof (induction ps)
  case (Cons p ps)
  then show ?case by (cases p) auto
qed simp

lemma find_prefix_Nil: "list_all (\<lambda>p. p \<noteq> []) ps \<Longrightarrow> find_prefix ps [] = None"
proof (induction ps)
  case (Cons p ps)
  then show ?case by (cases p) auto
qed simp

lemma white_space_heads:
  "visible c \<Longrightarrow> list_all (\<lambda>p. p \<noteq> [] \<and> hd p \<noteq> c) white_space"
  "visible c \<Longrightarrow> list_all (\<lambda>p. p \<noteq> [] \<and> hd p \<noteq> c) (map rev white_space)"
  "list_all (\<lambda>p. p \<noteq> []) white_space" "list_all (\<lambda>p. p \<noteq> []) (map rev white_space)"
  by (auto simp: white_space_def bytes_str_def visible_def upt_rec list_all_iff)

lemma trim_start_visible: "s = [] \<or> visible (hd s) \<Longrightarrow> trim_start_of white_space s = s"
  by (cases s) (auto intro!: trim_start_of_id find_prefix_hd find_prefix_Nil white_space_heads)

lemma trim_end_visible: "s = [] \<or> visible (last s) \<Longrightarrow> rust_trim_end s = s"
  unfolding rust_trim_end_def trim_end_of_def
  by (cases s rule: rev_cases)
     (auto simp del: list.map simp: trim_start_of_id find_prefix_hd find_prefix_Nil white_space_heads)

lemma rust_trim_visible:
  "s = [] \<or> visible (hd s) \<and> visible (last s) \<Longrightarrow> rust_trim s = s"
  using trim_end_visible [of s] trim_start_visible [of s]
  by (auto simp: rust_trim_def rust_trim_end_def)

lemma trim_end_nl: "s = [] \<or> visible (last s) \<Longrightarrow> rust_trim_end (s @ [nl]) = s"
proof -
  assume s: "s = [] \<or> visible (last s)"
  have "find_prefix (map rev white_space) (nl # rev s) = Some (rev s)"
    by (simp add: white_space_def bytes_str_def nl_def)
  then have "trim_start_of (map rev white_space) (nl # rev s) =
      trim_start_of (map rev white_space) (rev s)"
    by (simp add: trim_start_of.simps [of _ "nl # rev s"])
  then have "rust_trim_end (s @ [nl]) = rust_trim_end s"
    by (simp add: rust_trim_end_def trim_end_of_def)
  then show ?thesis using trim_end_visible [OF s] by simp
qed

text \<open>Lower-case hexadecimal text.\<close>

definition lower_hex :: "nat \<Rightarrow> nat \<Rightarrow> string" where
  "lower_hex w n = to_ascii_lowercase (fmt_hex w n)"

definition lower_digit :: "char \<Rightarrow> bool" where
  "lower_digit c \<longleftrightarrow> (of_char c :: nat) \<in> {48 ..< 58} \<union> {97 ..< 103}"

lemma lower_digit_visible: "lower_digit c \<Longrightarrow> visible c"
  by (auto simp: lower_digit_def visible_def)

lemma lower_digit_char: "d < 16 \<Longrightarrow> list_all lower_digit (to_ascii_lowercase [digit_char d])"
  by (auto simp: digit_char_def to_ascii_lowercase_def lower_digit_def Let_def)

lemma to_ascii_lowercase_append [simp]:
  "to_ascii_lowercase (s @ t) = to_ascii_lowercase s @ to_ascii_lowercase t"
  by (simp add: to_ascii_lowercase_def)

lemma length_to_ascii_lowercase [simp]: "length (to_ascii_lowercase s) = length s"
  by (simp add: to_ascii_lowercase_def)

lemma lower_digits: "list_all lower_digit (to_ascii_lowercase (digits_in 16 n))"
proof (induction "16 :: nat" n rule: digits_in.induct)
  case (1 n)
  then show ?case
    using lower_digit_char [of n] lower_digit_char [of "n mod 16"]
    by (simp add: digits_in.simps [of 16 n])
qed

lemma lower_hex_digits: "list_all lower_digit (lower_hex w n)"
proof -
  have "list_all lower_digit (to_ascii_lowercase (replicate k (CHR ''0'')))" for k
    by (simp add: to_ascii_lowercase_def lower_digit_def list_all_iff)
  with lower_digits [of n] show ?thesis by (simp add: lower_hex_def fmt_hex_def Let_def)
qed

lemma length_digits_in: "n < 16 ^ Suc k \<Longrightarrow> length (digits_in 16 n) \<le> Suc k"
proof (induction k arbitrary: n)
  case (Suc k)
  have "n div 16 < 16 ^ Suc k" using Suc.prems by (simp add: less_mult_imp_div_less)
  with Suc.IH [of "n div 16"] show ?case by (simp add: digits_in.simps [of 16 n])
qed (simp add: digits_in.simps)

lemma length_fmt_hex: "n < 16 ^ Suc k \<Longrightarrow> length (fmt_hex (Suc k) n) = Suc k"
  using length_digits_in [of n k] by (simp add: fmt_hex_def Let_def)

end
