(* ===== verification/F32.thy ===== *)
theory F32
  imports Prelude
begin

text \<open>
  IEEE-754 single precision as the Rust code uses it: an \<open>f32\<close> is its 32-bit pattern (the
  pattern is what goes on the wire), and a finite value is the integer \<open>f32_val\<close> in units
  of \<open>2 ^ -149\<close>, the least positive single. The conversions are Rust's: \<open>as\<close>
  truncates, saturates and takes NaN to 0; \<open>round\<close> goes half away from zero; arithmetic
  and integer-to-float conversion round to nearest, ties to even.
\<close>

type_synonym f32 = u32
type_synonym f64 = u64

section \<open>Fields and classes\<close>

definition f32_sign :: "f32 \<Rightarrow> bool" where
  "f32_sign x \<longleftrightarrow> 2 ^ 31 \<le> unat x"

definition f32_exp :: "f32 \<Rightarrow> nat" where
  "f32_exp x = (unat x div 2 ^ 23) mod 256"

definition f32_frac :: "f32 \<Rightarrow> nat" where
  "f32_frac x = unat x mod 2 ^ 23"

definition f32_is_nan :: "f32 \<Rightarrow> bool" where
  "f32_is_nan x \<longleftrightarrow> f32_exp x = 255 \<and> f32_frac x \<noteq> 0"

definition f32_is_inf :: "f32 \<Rightarrow> bool" where
  "f32_is_inf x \<longleftrightarrow> f32_exp x = 255 \<and> f32_frac x = 0"

definition f32_is_finite :: "f32 \<Rightarrow> bool" where
  "f32_is_finite x \<longleftrightarrow> f32_exp x \<noteq> 255"

definition f32_mag :: "f32 \<Rightarrow> nat" where
  "f32_mag x = (if f32_exp x = 0 then f32_frac x
                else (2 ^ 23 + f32_frac x) * 2 ^ (f32_exp x - 1))"

definition f32_val :: "f32 \<Rightarrow> int" where
  "f32_val x = (if f32_sign x then - int (f32_mag x) else int (f32_mag x))"

definition f32_nan :: f32 where "f32_nan = 0x7FC00000"
definition f32_one :: f32 where "f32_one = 0x3F800000"
definition f32_zero :: f32 where "f32_zero = 0"

section \<open>Conversions to integers\<close>

definition saturate :: "int \<Rightarrow> int \<Rightarrow> int \<Rightarrow> int" where
  "saturate lo hi z = max lo (min hi z)"

definition f32_trunc :: "f32 \<Rightarrow> int" where
  "f32_trunc x = sgn (f32_val x) * (\<bar>f32_val x\<bar> div 2 ^ 149)"

definition f32_round_away :: "f32 \<Rightarrow> int" where
  "f32_round_away x = sgn (f32_val x) * ((\<bar>f32_val x\<bar> + 2 ^ 148) div 2 ^ 149)"

definition f32_cast :: "int \<Rightarrow> int \<Rightarrow> (f32 \<Rightarrow> int) \<Rightarrow> f32 \<Rightarrow> int" where
  "f32_cast lo hi f x =
     (if f32_is_nan x then 0
      else if f32_is_inf x then (if f32_sign x then lo else hi)
      else saturate lo hi (f x))"

text \<open>\<open>x as i64\<close>, \<open>x as u32\<close>, \<open>x.round() as i32\<close>, \<open>x.round() as u16\<close>.\<close>

definition f32_as_i64 :: "f32 \<Rightarrow> int" where
  "f32_as_i64 = f32_cast (- (2 ^ 63)) (2 ^ 63 - 1) f32_trunc"

definition f32_as_u32 :: "f32 \<Rightarrow> nat" where
  "f32_as_u32 x = nat (f32_cast 0 (2 ^ 32 - 1) f32_trunc x)"

definition f32_round_as_i32 :: "f32 \<Rightarrow> int" where
  "f32_round_as_i32 = f32_cast (- (2 ^ 31)) (2 ^ 31 - 1) f32_round_away"

definition f32_round_as_u16 :: "f32 \<Rightarrow> u16" where
  "f32_round_as_u16 x = word_of_int (f32_cast 0 (2 ^ 16 - 1) f32_round_away x)"

section \<open>Comparison\<close>

definition f32_ord :: "f32 \<Rightarrow> int" where
  "f32_ord x = (if f32_is_inf x then (if f32_sign x then - (2 ^ 300) else 2 ^ 300) else f32_val x)"

definition f32_le :: "f32 \<Rightarrow> f32 \<Rightarrow> bool" where
  "f32_le x y \<longleftrightarrow> \<not> f32_is_nan x \<and> \<not> f32_is_nan y \<and> f32_ord x \<le> f32_ord y"

definition f32_eq :: "f32 \<Rightarrow> f32 \<Rightarrow> bool" where
  "f32_eq x y \<longleftrightarrow> \<not> f32_is_nan x \<and> \<not> f32_is_nan y \<and> f32_ord x = f32_ord y"

section \<open>Rounding and arithmetic\<close>

fun nbits :: "nat \<Rightarrow> nat" where
  "nbits n = (if n = 0 then 0 else Suc (nbits (n div 2)))"

declare nbits.simps [simp del]

definition shift_rne :: "nat \<Rightarrow> nat \<Rightarrow> nat" where
  "shift_rne s m =
     (let d = 2 ^ s; q = m div d; r = m mod d
      in if d < 2 * r \<or> (2 * r = d \<and> odd q) then q + 1 else q)"

text \<open>The pattern (without the sign bit) of the single nearest to \<open>m * 2 ^ -(149 + k)\<close>.\<close>

definition f32_round_bits :: "nat \<Rightarrow> nat \<Rightarrow> nat" where
  "f32_round_bits k m =
     (let s = max k (nbits m - 24); b = (s - k) * 2 ^ 23 + shift_rne s m
      in min b 0x7F800000)"

definition f32_make :: "bool \<Rightarrow> nat \<Rightarrow> f32" where
  "f32_make neg b = word_of_nat (if neg then b + 2 ^ 31 else b)"

definition f32_of_int :: "int \<Rightarrow> f32" where
  "f32_of_int i = f32_make (i < 0) (f32_round_bits 0 (nat \<bar>i\<bar> * 2 ^ 149))"

definition f32_abs :: "f32 \<Rightarrow> f32" where
  "f32_abs x = f32_make False (unat x mod 2 ^ 31)"

definition f32_neg :: "f32 \<Rightarrow> f32" where
  "f32_neg x = f32_make (\<not> f32_sign x) (unat x mod 2 ^ 31)"

definition f32_sub :: "f32 \<Rightarrow> f32 \<Rightarrow> f32" where
  "f32_sub x y =
     (if f32_is_nan x \<or> f32_is_nan y then f32_nan
      else if f32_is_inf x \<and> f32_is_inf y \<and> f32_sign x = f32_sign y then f32_nan
      else if f32_is_inf x then x
      else if f32_is_inf y then f32_neg y
      else let d = f32_val x - f32_val y
           in if d = 0 then f32_make (f32_val x = 0 \<and> f32_sign x \<and> \<not> f32_sign y) 0
              else f32_make (d < 0) (f32_round_bits 0 (nat \<bar>d\<bar>)))"

definition f32_mul :: "f32 \<Rightarrow> f32 \<Rightarrow> f32" where
  "f32_mul x y =
     (let neg = (f32_sign x \<noteq> f32_sign y)
      in if f32_is_nan x \<or> f32_is_nan y then f32_nan
         else if f32_is_inf x \<or> f32_is_inf y
           then (if f32_val x = 0 \<and> \<not> f32_is_inf x \<or> f32_val y = 0 \<and> \<not> f32_is_inf y
                 then f32_nan else f32_make neg 0x7F800000)
         else f32_make neg (f32_round_bits 149 (f32_mag x * f32_mag y)))"

definition f32_max :: "f32 \<Rightarrow> f32 \<Rightarrow> f32" where
  "f32_max x y = (if f32_is_nan x then y else if f32_is_nan y then x
                  else if f32_le x y then y else x)"

text \<open>\<open>x as f64\<close>: every single is a double; a subnormal single is a normal double.\<close>

definition f32_as_f64 :: "f32 \<Rightarrow> f64" where
  "f32_as_f64 x =
     (let e = f32_exp x; f = f32_frac x;
          b = (if e = 255 then 2047 * 2 ^ 52 + (if f = 0 then 0 else 2 ^ 51) + (f mod 2 ^ 22) * 2 ^ 29
               else if 0 < e then (e + 896) * 2 ^ 52 + f * 2 ^ 29
               else if f = 0 then 0
               else (873 + nbits f) * 2 ^ 52 + (f * 2 ^ (53 - nbits f)) mod 2 ^ 52)
      in word_of_nat (if f32_sign x then b + 2 ^ 63 else b))"

section \<open>Facts\<close>

lemma f32_frac_bound [simp]: "f32_frac x < 8388608"
  by (simp add: f32_frac_def)

lemma f32_exp_bound: "f32_exp x < 256"
  by (simp add: f32_exp_def)

lemma unat_f32_make: "b < 2 ^ 31 \<Longrightarrow> unat (f32_make neg b) = (if neg then b + 2 ^ 31 else b)"
  by (simp add: f32_make_def unat_of_nat)

lemma f32_sign_make [simp]: "b < 2 ^ 31 \<Longrightarrow> f32_sign (f32_make neg b) = neg"
  by (simp add: f32_sign_def unat_f32_make)

lemma f32_exp_make: "b < 2 ^ 31 \<Longrightarrow> f32_exp (f32_make neg b) = b div 2 ^ 23"
proof -
  assume b: "b < 2 ^ 31"
  then have "b div 2 ^ 23 < 256" by simp
  moreover have "(b + 2 ^ 31) div 2 ^ 23 = b div 2 ^ 23 + 256" by simp
  ultimately show ?thesis using b by (simp add: f32_exp_def unat_f32_make)
qed

lemma f32_frac_make: "b < 2 ^ 31 \<Longrightarrow> f32_frac (f32_make neg b) = b mod 2 ^ 23"
proof -
  assume b: "b < 2 ^ 31"
  have "(2::nat) ^ 31 = 2 ^ 8 * 2 ^ 23" by simp
  then have "(b + 2 ^ 31) mod 2 ^ 23 = b mod (2 ^ 23 :: nat)" by (simp only: mod_mult_self3 mod_mult_self1)
  with b show ?thesis by (simp add: f32_frac_def unat_f32_make)
qed

lemma nbits_0 [simp]: "nbits 0 = 0"
  by (simp add: nbits.simps)

lemma nbits_double: "0 < n \<Longrightarrow> nbits (2 * n) = Suc (nbits n)"
  by (simp add: nbits.simps [of "2 * n"])

lemma nbits_shift: "0 < n \<Longrightarrow> nbits (n * 2 ^ k) = nbits n + k"
proof (induction k)
  case (Suc k)
  have "nbits (n * 2 ^ Suc k) = nbits (2 * (n * 2 ^ k))" by (simp add: mult.left_commute)
  then show ?case using Suc by (simp add: nbits_double)
qed simp

lemma nbits_bounds: "0 < n \<Longrightarrow> 2 ^ (nbits n - 1) \<le> n \<and> n < 2 ^ nbits n \<and> 0 < nbits n"
proof (induction n rule: nbits.induct)
  case (1 n)
  show ?case
  proof (cases "n div 2 = 0")
    case True
    with "1.prems" have "n = 1" by simp
    then show ?thesis by (simp add: nbits.simps)
  next
    case False
    with "1" have ih: "2 ^ (nbits (n div 2) - 1) \<le> n div 2" "n div 2 < 2 ^ nbits (n div 2)"
        "0 < nbits (n div 2)" by simp_all
    have nb: "nbits n = Suc (nbits (n div 2))"
      using "1.prems" by (simp add: nbits.simps [of n])
    from ih(1,3) have "2 ^ nbits (n div 2) \<le> 2 * (n div 2)"
      by (cases "nbits (n div 2)") simp_all
    moreover have "2 * (n div 2) \<le> n" "n < 2 * (n div 2 + 1)" by simp_all
    moreover have "2 * (n div 2 + 1) \<le> 2 * 2 ^ nbits (n div 2)" using ih(2) by simp
    ultimately show ?thesis unfolding nb by (simp del: mult_Suc_right) linarith
  qed
qed

lemma nbits_le: "n < 2 ^ k \<Longrightarrow> nbits n \<le> k"
proof (cases "n = 0")
  case False
  assume "n < 2 ^ k"
  moreover have "2 ^ (nbits n - 1) \<le> n" "0 < nbits n"
    using False nbits_bounds [of n] by simp_all
  ultimately have "(2::nat) ^ (nbits n - 1) < 2 ^ k" by linarith
  then have "nbits n - 1 < k" by (rule power_less_imp_less_exp [rotated]) simp
  with \<open>0 < nbits n\<close> show ?thesis by simp
qed simp

text \<open>An integer that fits in 24 bits is exact as a single.\<close>

lemma f32_round_bits_small:
  assumes "0 < n" "n < 2 ^ 24"
  shows "f32_round_bits 0 (n * 2 ^ 149) =
           (nbits n + 125) * 2 ^ 23 + n * 2 ^ (24 - nbits n)"
    and "2 ^ 23 \<le> n * 2 ^ (24 - nbits n)" and "n * 2 ^ (24 - nbits n) < 2 ^ 24"
proof -
  let ?k = "nbits n" let ?q = "n * 2 ^ (24 - ?k)"
  have k: "?k \<le> 24" "0 < ?k" and lo: "2 ^ (?k - 1) \<le> n" and hi: "n < 2 ^ ?k"
    using assms nbits_le [of n 24] nbits_bounds [of n] by simp_all
  have "(2::nat) ^ 23 = 2 ^ (?k - 1) * 2 ^ (24 - ?k)"
    using k by (simp add: power_add [symmetric])
  also have "\<dots> \<le> ?q" using lo by simp
  finally show q1: "2 ^ 23 \<le> ?q" .
  have "?q < 2 ^ ?k * 2 ^ (24 - ?k)" using hi by simp
  also have "\<dots> = (2::nat) ^ 24" using k by (simp add: power_add [symmetric])
  finally show q2: "?q < 2 ^ 24" .
  have s: "nbits (n * 2 ^ 149) - 24 = ?k + 125"
    using assms(1) by (simp add: nbits_shift del: power_numeral)
  have "(2::nat) ^ 149 = 2 ^ (24 - ?k) * 2 ^ (?k + 125)"
    using k by (simp only: power_add [symmetric]) simp
  then have m: "n * 2 ^ 149 = ?q * 2 ^ (?k + 125)"
    by (simp only: mult.assoc)
  have "shift_rne (?k + 125) (n * 2 ^ 149) = ?q"
    unfolding m shift_rne_def Let_def by (simp del: power_numeral)
  moreover have "(?k + 125) * 2 ^ 23 + ?q \<le> 0x7F800000"
    using k q2 by simp
  ultimately show "f32_round_bits 0 (n * 2 ^ 149) = (?k + 125) * 2 ^ 23 + ?q"
    by (simp add: f32_round_bits_def Let_def s del: power_numeral)
qed

lemma f32_val_of_int:
  assumes "\<bar>i\<bar> < 2 ^ 24"
  shows "f32_val (f32_of_int i) = i * 2 ^ 149" and "f32_is_finite (f32_of_int i)"
proof -
  have "f32_val (f32_of_int i) = i * 2 ^ 149 \<and> f32_is_finite (f32_of_int i)"
  proof (cases "i = 0")
    case True
    then show ?thesis
      by (simp add: f32_of_int_def f32_round_bits_def shift_rne_def f32_val_def f32_mag_def
          f32_is_finite_def f32_exp_make f32_frac_make Let_def)
  next
    case False
    let ?n = "nat \<bar>i\<bar>" let ?k = "nbits ?n" let ?q = "?n * 2 ^ (24 - ?k)"
    have n: "0 < ?n" "?n < 2 ^ 24" using False assms by simp_all
    note r = f32_round_bits_small [OF n]
    let ?b = "(?k + 125) * 2 ^ 23 + ?q"
    have k: "?k \<le> 24" using n(2) by (rule nbits_le)
    have b: "?b < 2 ^ 31" using k r(3) by simp
    have half: "q - a < a" if "a \<le> q" "q < 2 * a" for a q :: nat using that by arith
    have q: "?q - 2 ^ 23 < 2 ^ 23" using r(2,3) by (intro half) simp_all
    have "?b = (?k + 126) * 2 ^ 23 + (?q - 2 ^ 23)" using r(2) by simp
    moreover have "(c * e + r) div e = c \<and> (c * e + r) mod e = r" if "r < e" for c e r :: nat
      using that by simp
    ultimately have d: "?b div 2 ^ 23 = ?k + 126" "?b mod 2 ^ 23 = ?q - 2 ^ 23"
      using q by metis+
    have fi: "f32_of_int i = f32_make (i < 0) ?b"
      by (simp only: f32_of_int_def r(1))
    have e: "f32_exp (f32_of_int i) = ?k + 126" "f32_frac (f32_of_int i) = ?q - 2 ^ 23"
      unfolding fi using b d by (simp_all only: f32_exp_make f32_frac_make)
    have "(2::nat) ^ 149 = 2 ^ (24 - ?k) * 2 ^ (?k + 125)"
      using k by (simp only: power_add [symmetric]) simp
    then have "f32_mag (f32_of_int i) = ?n * 2 ^ 149"
      using r(2) by (simp only: f32_mag_def e) (simp del: power_numeral add: mult.assoc)
    then have "int (f32_mag (f32_of_int i)) = \<bar>i\<bar> * 2 ^ 149"
      by (simp del: power_numeral)
    moreover have "f32_sign (f32_of_int i) = (i < 0)"
      unfolding fi using b by (rule f32_sign_make)
    moreover have "f32_is_finite (f32_of_int i)"
      using e(1) k by (simp add: f32_is_finite_def)
    ultimately show ?thesis by (simp add: f32_val_def)
  qed
  then show "f32_val (f32_of_int i) = i * 2 ^ 149" "f32_is_finite (f32_of_int i)" by simp_all
qed

lemma finite_not_special: "f32_is_finite x \<Longrightarrow> \<not> f32_is_nan x \<and> \<not> f32_is_inf x"
  by (simp add: f32_is_finite_def f32_is_nan_def f32_is_inf_def)

lemma f32_cast_finite: "f32_is_finite x \<Longrightarrow> f32_cast lo hi f x = saturate lo hi (f x)"
  by (simp add: f32_cast_def finite_not_special)

lemma saturate_id: "lo \<le> z \<Longrightarrow> z \<le> hi \<Longrightarrow> saturate lo hi z = z"
  by (simp add: saturate_def)

lemma saturate_bounds: "lo \<le> hi \<Longrightarrow> lo \<le> saturate lo hi z \<and> saturate lo hi z \<le> hi"
  by (auto simp: saturate_def)

lemma f32_cast_bounds:
  "lo \<le> 0 \<Longrightarrow> 0 \<le> hi \<Longrightarrow> lo \<le> f32_cast lo hi f x \<and> f32_cast lo hi f x \<le> hi"
  using saturate_bounds [of lo hi "f x"] by (auto simp: f32_cast_def)

lemma f32_trunc_of_int: "\<bar>i\<bar> < 2 ^ 24 \<Longrightarrow> f32_trunc (f32_of_int i) = i"
  by (simp only: f32_trunc_def f32_val_of_int)
     (simp add: sgn_mult abs_mult sgn_mult_abs del: power_numeral)

lemma f32_round_away_of_int: "\<bar>i\<bar> < 2 ^ 24 \<Longrightarrow> f32_round_away (f32_of_int i) = i"
proof -
  assume i: "\<bar>i\<bar> < 2 ^ 24"
  have "(\<bar>i\<bar> * 2 ^ 149 + 2 ^ 148) div 2 ^ 149 = \<bar>i\<bar>" by simp
  with i show ?thesis
    by (simp only: f32_round_away_def f32_val_of_int) (simp add: sgn_mult abs_mult sgn_mult_abs)
qed

text \<open>An option index goes out as a single and comes back by rounding: nothing is lost.\<close>

lemma f32_index_roundtrip: "\<bar>i\<bar> < 2 ^ 24 \<Longrightarrow> f32_round_as_i32 (f32_of_int i) = i"
  by (simp add: f32_round_as_i32_def f32_cast_finite f32_val_of_int(2) f32_round_away_of_int
      saturate_id)

lemma f32_as_i64_of_int: "\<bar>i\<bar> < 2 ^ 24 \<Longrightarrow> f32_as_i64 (f32_of_int i) = i"
  by (simp add: f32_as_i64_def f32_cast_finite f32_val_of_int(2) f32_trunc_of_int saturate_id)

lemma f32_round_as_i32_bounds: "- (2 ^ 31) \<le> f32_round_as_i32 x \<and> f32_round_as_i32 x < 2 ^ 31"
  using f32_cast_bounds [of "- (2 ^ 31)" "2 ^ 31 - 1" f32_round_away x]
  by (simp add: f32_round_as_i32_def)

lemma f32_as_u32_bounds: "f32_as_u32 x < 2 ^ 32"
  using f32_cast_bounds [of 0 "2 ^ 32 - 1" f32_trunc x] by (simp add: f32_as_u32_def nat_less_iff)

lemma f32_round_bits_le: "f32_round_bits k m \<le> 0x7F800000"
  by (simp add: f32_round_bits_def Let_def)

lemma f32_make_bits:
  assumes "b \<le> 0x7F800000"
  shows "\<not> f32_is_nan (f32_make neg b)" and "0 \<le> f32_ord (f32_make False b)"
proof -
  have b: "b < 2 ^ 31" using assms by simp
  have "b = b div 2 ^ 23 * 2 ^ 23 + b mod 2 ^ 23" by (rule div_mult_mod_eq [symmetric])
  then have "b div 2 ^ 23 = 255 \<Longrightarrow> b mod 2 ^ 23 = 0" using assms by simp
  then show "\<not> f32_is_nan (f32_make neg b)"
    using b by (simp add: f32_is_nan_def f32_exp_make f32_frac_make)
  show "0 \<le> f32_ord (f32_make False b)"
    using b by (simp add: f32_ord_def f32_val_def)
qed

lemma f32_zero_le: "b \<le> 0x7F800000 \<Longrightarrow> f32_le (f32_make False 0) (f32_make False b)"
  using f32_make_bits(1) [of b False] f32_make_bits(2) [of b] f32_make_bits(1) [of 0 False]
  by (simp add: f32_le_def) (simp add: f32_ord_def f32_is_inf_def f32_exp_make f32_val_def
      f32_mag_def f32_frac_make)

lemma f32_sub_self: "f32_is_finite x \<Longrightarrow> f32_sub x x = f32_make False 0"
  by (simp add: f32_sub_def finite_not_special)

lemma f32_eq_refl: "f32_eq x x \<longleftrightarrow> \<not> f32_is_nan x"
  by (simp add: f32_eq_def)

end
