(* ===== verification/Model.thy ===== *)
theory Model
  imports F32
begin

text \<open>
  The data model of the client: \<open>crates/masterbus/src/model.rs\<close> (tabs, access levels,
  field ids, field, group and schema records), \<open>value.rs\<close> (values and write requests),
  \<open>error.rs\<close> (the errors) and the visualisation types of \<open>protocol/mod.rs\<close>.
\<close>

section \<open>Errors (error.rs)\<close>

datatype error =
    Connection string
  | DeviceNotFound u32
  | GroupNotAvailable int
  | FieldNotAvailable int
  | NotReady
  | Timeout
  | WrongType string
  | ReadOnly
  | NotAnOutput int
  | BusIdInUse u32
  | InvalidBusId u32
  | InvalidText nat string
  | Protocol string
  | CommitFieldOccupied int int string

type_synonym 'a result = "error + 'a"

section \<open>Tabs and access levels (model.rs)\<close>

datatype device_status =
  Offline | Sleeping | On | OnWarning | OffFault | OffError | Updating | Unknown

datatype access_level = EndUser | Installer | Distributor | MvService

fun level_byte :: "access_level \<Rightarrow> u8" where
  "level_byte EndUser = 0"
| "level_byte Installer = 1"
| "level_byte Distributor = 2"
| "level_byte MvService = 3"

definition level_from_byte :: "u8 \<Rightarrow> access_level option" where
  "level_from_byte b =
     (if b = 0 then Some EndUser else if b = 1 then Some Installer
      else if b = 2 then Some Distributor else if b = 3 then Some MvService else None)"

lemma level_byte_roundtrip [simp]: "level_from_byte (level_byte l) = Some l"
  by (cases l) (simp_all add: level_from_byte_def)

lemma level_from_byte_Some: "level_from_byte b = Some l \<Longrightarrow> level_byte l = b"
  by (auto simp: level_from_byte_def split: if_splits)

datatype menu = Monitoring | Alarm | History | Configuration

definition menu_ALL :: "menu list" where
  "menu_ALL = [Monitoring, Alarm, History, Configuration]"

lemma set_menu_ALL [simp]: "set menu_ALL = UNIV"
  by (auto simp: menu_ALL_def intro: menu.exhaust)

lemma distinct_menu_ALL [simp]: "distinct menu_ALL"
  by (simp add: menu_ALL_def)

text \<open>The derived \<open>Ord\<close> of the Rust enum: the order of declaration.\<close>

fun menu_rank :: "menu \<Rightarrow> nat" where
  "menu_rank Monitoring = 0"
| "menu_rank Alarm = 1"
| "menu_rank History = 2"
| "menu_rank Configuration = 3"

lemma menu_rank_inject [simp]: "menu_rank a = menu_rank b \<longleftrightarrow> a = b"
  by (cases a; cases b) simp_all

instantiation menu :: linorder
begin

definition less_eq_menu :: "menu \<Rightarrow> menu \<Rightarrow> bool" where
  "less_eq_menu a b \<longleftrightarrow> menu_rank a \<le> menu_rank b"

definition less_menu :: "menu \<Rightarrow> menu \<Rightarrow> bool" where
  "less_menu a b \<longleftrightarrow> menu_rank a < menu_rank b"

instance
  by standard (auto simp: less_eq_menu_def less_menu_def)

end

lemma sorted_menu_ALL: "sorted menu_ALL"
  by (simp add: menu_ALL_def less_eq_menu_def)

fun groups_selector :: "menu \<Rightarrow> u8" where
  "groups_selector Monitoring = 0x02"
| "groups_selector Alarm = 0x08"
| "groups_selector History = 0x04"
| "groups_selector Configuration = 0x06"

fun values_selector :: "menu \<Rightarrow> u8" where
  "values_selector Monitoring = 0x01"
| "values_selector Alarm = 0x07"
| "values_selector History = 0x03"
| "values_selector Configuration = 0x05"

fun menu_code :: "menu \<Rightarrow> u16" where
  "menu_code Monitoring = 0"
| "menu_code Configuration = 1"
| "menu_code Alarm = 2"
| "menu_code History = 3"

fun menu_tag :: "menu \<Rightarrow> string" where
  "menu_tag Monitoring = ''monitoring''"
| "menu_tag Alarm = ''alarm''"
| "menu_tag History = ''history''"
| "menu_tag Configuration = ''configuration''"

lemma menu_tag_inject [simp]: "menu_tag a = menu_tag b \<longleftrightarrow> a = b"
  by (cases a; cases b) simp_all

section \<open>Field ids (model.rs, module field\_id)\<close>

type_synonym device_id = u32
type_synonym field_id = u16

definition field_id_new :: "menu \<Rightarrow> u8 \<Rightarrow> field_id" where
  "field_id_new m index = push_bit 8 (menu_code m) OR ucast index"

definition field_id_monitoring :: "u8 \<Rightarrow> field_id" where
  "field_id_monitoring index = field_id_new Monitoring index"

definition field_id_configuration :: "u8 \<Rightarrow> field_id" where
  "field_id_configuration index = field_id_new Configuration index"

definition field_id_menu :: "field_id \<Rightarrow> menu" where
  "field_id_menu fid =
     (let c = drop_bit 8 fid AND 0x3
      in if c = 0 then Monitoring else if c = 1 then Configuration
         else if c = 2 then Alarm else History)"

definition field_id_index :: "field_id \<Rightarrow> u8" where
  "field_id_index fid = ucast (fid AND 0xFF)"

lemma field_id_index_new [simp]: "field_id_index (field_id_new m i) = i"
  by (rule bit_word_eqI) (auto simp: field_id_index_def field_id_new_def mask_simps bit_simps)

lemma drop_field_id_new: "drop_bit 8 (field_id_new m i) = menu_code m"
proof -
  have "drop_bit 8 (field_id_new m i) = take_bit 8 (menu_code m)"
    by (rule bit_word_eqI) (auto simp: field_id_new_def bit_simps dest: byte_bit_bound)
  then show ?thesis by (cases m) simp_all
qed

lemma field_id_menu_new [simp]: "field_id_menu (field_id_new m i) = m"
  by (cases m) (simp_all add: field_id_menu_def drop_field_id_new Let_def)

lemma field_id_new_inject [simp]:
  "field_id_new m i = field_id_new n j \<longleftrightarrow> m = n \<and> i = j"
  by (metis field_id_index_new field_id_menu_new)

section \<open>Visualisation types (protocol/mod.rs)\<close>

datatype viz =
    Viz_Float | GrayVisualization | CheckBox | ToggleButton | PushButton
  | Viz_Time | Viz_Date | Radio | DropDown | Viz_Eventable | DeviceList | EventCommand | Viz_Text

definition viz_from_wire :: "u8 \<Rightarrow> viz" where
  "viz_from_wire code =
     (if code = 0x01 then Viz_Float
      else if code = 0x03 then DropDown
      else if code = 0x04 then Viz_Eventable
      else if code = 0x05 then CheckBox
      else if code = 0x06 then Viz_Text
      else if code = 0x07 then Viz_Time
      else if code = 0x08 then Viz_Date
      else if code = 0x09 then DeviceList
      else if code = 0x0A then EventCommand
      else Viz_Float)"

section \<open>Schema records (model.rs)\<close>

record field_info =
  fi_index :: field_id
  fi_name :: string
  fi_unit :: string
  fi_viz :: viz
  fi_writeable :: bool
  fi_eventable :: bool
  fi_min :: f64
  fi_max :: f64
  fi_step :: f64
  fi_options :: "string list"

record group_info =
  gi_id :: int
  gi_name :: string
  gi_menu :: menu
  gi_fields :: "field_info list"

definition group_field :: "group_info \<Rightarrow> field_id \<Rightarrow> field_info option" where
  "group_field g fid = find (\<lambda>f. fi_index f = fid) (gi_fields g)"

record device_identity =
  di_article :: string
  di_serial :: string
  di_revision :: string
  di_name :: string
  di_firmware :: string

record device_schema =
  ds_article :: string
  ds_serial :: string
  ds_revision :: string
  ds_name :: string
  ds_firmware :: string
  ds_groups :: "group_info list"

definition schema_from_identity :: "device_identity \<Rightarrow> group_info list \<Rightarrow> device_schema" where
  "schema_from_identity i gs =
     \<lparr>ds_article = di_article i, ds_serial = di_serial i, ds_revision = di_revision i,
      ds_name = di_name i, ds_firmware = di_firmware i, ds_groups = gs\<rparr>"

definition schema_identity :: "device_schema \<Rightarrow> device_identity" where
  "schema_identity s =
     \<lparr>di_article = ds_article s, di_serial = ds_serial s, di_revision = ds_revision s,
      di_name = ds_name s, di_firmware = ds_firmware s\<rparr>"

text \<open>\<open>find_map\<close> over a list: the first result that is there.\<close>

fun find_map :: "('a \<Rightarrow> 'b option) \<Rightarrow> 'a list \<Rightarrow> 'b option" where
  "find_map f [] = None"
| "find_map f (x # xs) = (case f x of Some y \<Rightarrow> Some y | None \<Rightarrow> find_map f xs)"

definition schema_field :: "device_schema \<Rightarrow> field_id \<Rightarrow> field_info option" where
  "schema_field s fid = find_map (\<lambda>g. group_field g fid) (ds_groups s)"

definition schema_menu_groups :: "device_schema \<Rightarrow> menu \<Rightarrow> group_info list" where
  "schema_menu_groups s m = filter (\<lambda>g. gi_menu g = m) (ds_groups s)"

lemma schema_identity_from [simp]: "schema_identity (schema_from_identity i gs) = i"
  by (simp add: schema_identity_def schema_from_identity_def)

lemma schema_groups_from [simp]: "ds_groups (schema_from_identity i gs) = gs"
  by (simp add: schema_from_identity_def)

lemma find_map_None_iff: "find_map f xs = None \<longleftrightarrow> (\<forall>x \<in> set xs. f x = None)"
  by (induction xs) (auto split: option.splits)

lemma find_map_Some: "find_map f xs = Some y \<Longrightarrow> \<exists>x \<in> set xs. f x = Some y"
  by (induction xs) (auto split: option.splits)

lemma find_map_append:
  "find_map f (xs @ ys) = (case find_map f xs of Some y \<Rightarrow> Some y | None \<Rightarrow> find_map f ys)"
  by (induction xs) (auto split: option.splits)

lemma find_Some_sat: "find P xs = Some x \<Longrightarrow> P x \<and> x \<in> set xs"
  by (induction xs) (auto split: if_splits)

lemma schema_field_index: "schema_field s fid = Some f \<Longrightarrow> fi_index f = fid"
  by (auto simp: schema_field_def group_field_def dest!: find_map_Some find_Some_sat)

section \<open>Values (value.rs)\<close>

record date =
  d_day :: int
  d_mon :: int
  d_year :: int

record time =
  t_sec :: int
  t_min :: int
  t_hour :: int
  t_days :: u32

datatype bus_value =
    Float f32
  | Date date
  | Time time
  | Boolean bool
  | List int "string list"
  | Text u16 string
  | DeviceRef int "u32 list"
  | Eventable int "string list"
  | Invalid

datatype write_value = WBool bool | WFloat f32 | WListIndex int | WText u16 string

fun with_options :: "bus_value \<Rightarrow> string list \<Rightarrow> bus_value" where
  "with_options (List index _) options = List index options"
| "with_options (Eventable index _) options = Eventable index options"
| "with_options other _ = other"

fun value_index :: "bus_value \<Rightarrow> int option" where
  "value_index (List index _) = Some index"
| "value_index (DeviceRef index _) = Some index"
| "value_index (Eventable index _) = Some index"
| "value_index _ = None"

text \<open>\<open>*index as usize\<close> wraps a negative index to the top of the 64-bit range.\<close>

definition as_usize :: "int \<Rightarrow> nat" where
  "as_usize i = nat (i mod 2 ^ 64)"

fun value_label :: "bus_value \<Rightarrow> string option" where
  "value_label (List index options) = get_opt options (as_usize index)"
| "value_label (Eventable index labels) = get_opt labels (as_usize index)"
| "value_label _ = None"

text \<open>The derived \<open>PartialEq\<close>: singles compare as IEEE numbers, so NaN differs from itself.\<close>

fun value_eq :: "bus_value \<Rightarrow> bus_value \<Rightarrow> bool" where
  "value_eq (Float a) (Float b) = f32_eq a b"
| "value_eq a b = (a = b)"

lemma value_index_with_options [simp]: "value_index (with_options v os) = value_index v"
  by (cases v) simp_all

lemma value_eq_refl: "value_eq v v \<longleftrightarrow> (\<forall>x. v = Float x \<longrightarrow> \<not> f32_is_nan x)"
  by (cases v) (simp_all add: f32_eq_refl)

text \<open>A list value carries index and meaning: the label is the option at the index.\<close>

lemma value_label_with_options:
  assumes "0 \<le> i" "i < int (length os)" "length os < 2 ^ 64"
  shows "value_label (with_options (List i x) os) = Some (os ! nat i)"
proof -
  have "i < 2 ^ 64" using assms(2,3) by simp
  then have "i mod 2 ^ 64 = i" using assms(1) by (rule mod_pos_pos_trivial [rotated])
  then show ?thesis using assms by (simp add: as_usize_def nat_less_iff)
qed

lemma value_label_negative:
  assumes "i < 0" "- (2 ^ 31) \<le> i" "length os < 2 ^ 63"
  shows "value_label (List i os) = None"
proof -
  have "i mod 2 ^ 64 = i + 2 ^ 64"
    using assms by (subst mod_pos_pos_trivial [of "i + 2 ^ 64" "2 ^ 64", symmetric]) simp_all
  then show ?thesis using assms by (simp add: as_usize_def get_opt_eq_None_iff)
qed

section \<open>Rust integer division and narrowing\<close>

definition tdiv :: "int \<Rightarrow> int \<Rightarrow> int" where
  "tdiv a b = sgn a * sgn b * (\<bar>a\<bar> div \<bar>b\<bar>)"

definition trem :: "int \<Rightarrow> int \<Rightarrow> int" where
  "trem a b = a - b * tdiv a b"

text \<open>\<open>z as i32\<close> of an \<open>i64\<close>: the low 32 bits as two's complement.\<close>

definition as_i32 :: "int \<Rightarrow> int" where
  "as_i32 z = (z + 2 ^ 31) mod 2 ^ 32 - 2 ^ 31"

lemma tdiv_nonneg [simp]: "0 \<le> a \<Longrightarrow> 0 < b \<Longrightarrow> tdiv a b = a div b"
  by (cases "a = 0") (simp_all add: tdiv_def sgn_if)

lemma trem_nonneg [simp]: "0 \<le> a \<Longrightarrow> 0 < b \<Longrightarrow> trem a b = a mod b"
  by (simp add: trem_def minus_mult_div_eq_mod)

lemma as_i32_id [simp]: "- (2 ^ 31) \<le> z \<Longrightarrow> z < 2 ^ 31 \<Longrightarrow> as_i32 z = z"
  by (simp add: as_i32_def)

end
