(* ===== verification/Tab.thy ===== *)
theory Tab
  imports Model
begin

text \<open>
  The CAN classes of a device's four tabs: \<open>crates/masterbus/src/protocol/tab.rs\<close>.
  Every tab has three kinds of message, each with a request, an answer and a
  ``not available'' answer on a class and an address half of its own.
\<close>

definition HIGH :: u32 where "HIGH = 0x800000"

record wire =
  w_class :: u8
  w_high :: bool

definition wire_real :: "u8 \<Rightarrow> wire" where
  "wire_real c = \<lparr>w_class = c, w_high = False\<rparr>"

definition wire_hi :: "u8 \<Rightarrow> wire" where
  "wire_hi c = \<lparr>w_class = c, w_high = True\<rparr>"

definition wire_can_id :: "wire \<Rightarrow> u32 \<Rightarrow> u32" where
  "wire_can_id w device_addr =
     (let addr = (if w_high w then device_addr OR HIGH else device_addr AND NOT HIGH)
      in push_bit 24 (ucast (w_class w)) OR (addr AND 0x00FFFFFF))"

definition wire_is :: "wire \<Rightarrow> u8 \<Rightarrow> u32 \<Rightarrow> bool" where
  "wire_is w c device_addr \<longleftrightarrow> w_class w = c \<and> (device_addr AND HIGH \<noteq> 0) = w_high w"

record exchange_rec =
  ex_req :: wire
  ex_info :: wire
  ex_na :: wire

datatype kind = Data | Property | Group

definition exch :: "wire \<Rightarrow> wire \<Rightarrow> wire \<Rightarrow> exchange_rec" where
  "exch req info na = \<lparr>ex_req = req, ex_info = info, ex_na = na\<rparr>"

fun exchange :: "menu \<Rightarrow> kind \<Rightarrow> exchange_rec" where
  "exchange Monitoring Data = exch (wire_real 0x18) (wire_real 0x08) (wire_real 0x10)"
| "exchange Monitoring Property = exch (wire_hi 0x18) (wire_hi 0x08) (wire_hi 0x10)"
| "exchange Monitoring Group = exch (wire_real 0x19) (wire_real 0x09) (wire_real 0x11)"
| "exchange Alarm Data = exch (wire_real 0x03) (wire_real 0x02) (wire_hi 0x02)"
| "exchange Alarm Property = exch (wire_hi 0x19) (wire_hi 0x09) (wire_hi 0x11)"
| "exchange Alarm Group = exch (wire_real 0x1A) (wire_real 0x0A) (wire_real 0x12)"
| "exchange History Data = exch (wire_hi 0x1D) (wire_hi 0x0D) (wire_hi 0x15)"
| "exchange History Property = exch (wire_hi 0x1A) (wire_hi 0x0A) (wire_hi 0x12)"
| "exchange History Group = exch (wire_real 0x1B) (wire_real 0x0B) (wire_real 0x13)"
| "exchange Configuration Data = exch (wire_hi 0x1B) (wire_hi 0x0B) (wire_hi 0x13)"
| "exchange Configuration Property = exch (wire_real 0x1C) (wire_real 0x0C) (wire_real 0x14)"
| "exchange Configuration Group = exch (wire_hi 0x1C) (wire_hi 0x0C) (wire_hi 0x14)"

definition kind_ALL :: "kind list" where
  "kind_ALL = [Data, Property, Group]"

definition menu_kinds :: "(menu \<times> kind) list" where
  "menu_kinds = List.product menu_ALL kind_ALL"

definition answer_one :: "u8 \<Rightarrow> u32 \<Rightarrow> menu \<times> kind \<Rightarrow> (menu \<times> kind \<times> bool) option" where
  "answer_one c device_addr mk =
     (let e = exchange (fst mk) (snd mk)
      in if wire_is (ex_info e) c device_addr then Some (fst mk, snd mk, False)
         else if wire_is (ex_na e) c device_addr then Some (fst mk, snd mk, True)
         else None)"

definition answer :: "u8 \<Rightarrow> u32 \<Rightarrow> (menu \<times> kind \<times> bool) option" where
  "answer c device_addr = find_map (answer_one c device_addr) menu_kinds"

section \<open>Keys\<close>

definition group_key :: "menu \<Rightarrow> u32 \<Rightarrow> u8 \<Rightarrow> u8 \<Rightarrow> string" where
  [key_defs]: "group_key m addr op g =
     join_colon [''group'', menu_tag m, fmt_hex 6 (unat addr), fmt_hex 2 (unat op),
       fmt_dec (unat g)]"

definition group_field_key :: "menu \<Rightarrow> u32 \<Rightarrow> u8 \<Rightarrow> u8 \<Rightarrow> string" where
  [key_defs]: "group_field_key m addr g i =
     join_colon [''group'', menu_tag m, fmt_hex 6 (unat addr), ''03'', fmt_dec (unat g),
       fmt_dec (unat i)]"

definition property_key :: "menu \<Rightarrow> u32 \<Rightarrow> u8 \<Rightarrow> u8 \<Rightarrow> string" where
  [key_defs]: "property_key m addr op index =
     join_colon [''prop'', menu_tag m, fmt_hex 6 (unat addr), fmt_hex 2 (unat op),
       fmt_dec (unat index)]"

definition option_key :: "menu \<Rightarrow> u32 \<Rightarrow> u8 \<Rightarrow> u8 \<Rightarrow> string" where
  [key_defs]: "option_key m addr index opt =
     join_colon [''prop'', menu_tag m, fmt_hex 6 (unat addr), ''26'', fmt_dec (unat index),
       fmt_dec (unat opt)]"

definition tab_waiter_key :: "u8 \<Rightarrow> u32 \<Rightarrow> bytes \<Rightarrow> string option" where
  "tab_waiter_key c device_addr data =
     (case answer c device_addr of
        None \<Rightarrow> None
      | Some (m, k, _) \<Rightarrow>
          let addr = device_addr AND NOT HIGH
          in if length data < 2 then None
             else (case k of
                 Data \<Rightarrow> None
               | Property \<Rightarrow>
                   if data ! 0 = 0x26 \<and> 4 \<le> length data
                   then Some (option_key m addr (data ! 1) (data ! 3))
                   else Some (property_key m addr (data ! 0) (data ! 1))
               | Group \<Rightarrow>
                   if data ! 0 = 0x03
                   then (if 4 \<le> length data
                         then Some (group_field_key m addr (data ! 1) (data ! 3)) else None)
                   else Some (group_key m addr (data ! 0) (data ! 1))))"

section \<open>Facts\<close>

lemma set_menu_kinds [simp]: "set menu_kinds = UNIV"
proof -
  have "set kind_ALL = UNIV" by (auto simp: kind_ALL_def intro: kind.exhaust)
  then show ?thesis by (simp add: menu_kinds_def)
qed

lemmas wire_defs = exch_def wire_real_def wire_hi_def wire_is_def

text \<open>No two answers share a class and address half.\<close>

lemma answer_wires_distinct:
  "wire_is (if n then ex_na (exchange m k) else ex_info (exchange m k)) c a \<Longrightarrow>
   wire_is (if n' then ex_na (exchange m' k') else ex_info (exchange m' k')) c a \<Longrightarrow>
   m = m' \<and> k = k' \<and> n = n'"
  by (cases m; cases k; cases n; cases m'; cases k'; cases n') (simp_all add: wire_defs)

lemma answer_iff:
  "answer c a = Some (m, k, n) \<longleftrightarrow>
     wire_is (if n then ex_na (exchange m k) else ex_info (exchange m k)) c a"
proof
  assume "answer c a = Some (m, k, n)"
  then obtain mk where "answer_one c a mk = Some (m, k, n)"
    unfolding answer_def by (blast dest: find_map_Some)
  then show "wire_is (if n then ex_na (exchange m k) else ex_info (exchange m k)) c a"
    by (auto simp: answer_one_def Let_def split: if_splits)
next
  assume w: "wire_is (if n then ex_na (exchange m k) else ex_info (exchange m k)) c a"
  then have "answer_one c a (m, k) \<noteq> None"
    by (auto simp: answer_one_def Let_def split: if_splits)
  then have "answer c a \<noteq> None"
    unfolding answer_def find_map_None_iff by (metis UNIV_I set_menu_kinds)
  then obtain m' k' n' where a: "answer c a = Some (m', k', n')" by auto
  then obtain mk where "answer_one c a mk = Some (m', k', n')"
    unfolding answer_def by (blast dest: find_map_Some)
  then have "wire_is (if n' then ex_na (exchange m' k') else ex_info (exchange m' k')) c a"
    by (auto simp: answer_one_def Let_def split: if_splits)
  with w a show "answer c a = Some (m, k, n)"
    using answer_wires_distinct by blast
qed

lemma no_colon_tag [simp]: "no_colon (menu_tag m)"
  by (cases m) (simp_all add: no_colon_def)

end
