(* ===== verification/Encode.thy ===== *)
theory Encode
  imports Tab
begin

text \<open>
  Requests and writes as raw frames: \<open>crates/masterbus/src/protocol/encode.rs\<close>, and this
  program's own BusID: \<open>bus_id.rs\<close>. A frame is a 29-bit CAN id with up to eight data
  bytes. The random bits of a fresh BusID are an argument of the model.
\<close>

type_synonym frame = "u32 \<times> bytes"

definition can_id_of :: "u8 \<Rightarrow> u32 \<Rightarrow> u32" where
  "can_id_of c device_addr = push_bit 24 (ucast c) OR (device_addr AND 0x00FFFFFF)"

definition heartbeat_raw :: "u32 \<Rightarrow> frame" where
  "heartbeat_raw master_addr = (can_id_of 0x05 master_addr, [])"

definition value_read_raw :: "menu \<Rightarrow> u32 \<Rightarrow> u8 \<Rightarrow> frame" where
  "value_read_raw m device_addr index =
     (wire_can_id (ex_req (exchange m Data)) device_addr, [index, 0x00])"

definition value_write_raw :: "menu \<Rightarrow> u32 \<Rightarrow> u8 \<Rightarrow> f32 \<Rightarrow> frame" where
  "value_write_raw m device_addr index v =
     (wire_can_id (ex_req (exchange m Data)) device_addr, [index, 0x00] @ u32_to_le_bytes v)"

definition fw_req_raw :: "u32 \<Rightarrow> u8 \<Rightarrow> frame" where
  "fw_req_raw device_addr n = (can_id_of 0x07 device_addr, [0x82, n])"

definition group_count_req_raw :: "u32 \<Rightarrow> u8 \<Rightarrow> frame" where
  "group_count_req_raw device_addr selector = (can_id_of 0x07 device_addr, [0x08, selector])"

definition prop_str_id_req_raw :: "u32 \<Rightarrow> u8 \<Rightarrow> frame" where
  "prop_str_id_req_raw device_addr n = (can_id_of 0x07 device_addr, [0x09, n])"

definition string_chunk_req_raw :: "u32 \<Rightarrow> u16 \<Rightarrow> u8 \<Rightarrow> frame" where
  "string_chunk_req_raw device_addr str_id sq =
     (can_id_of 0x07 device_addr, [0x30] @ u16_to_le_bytes str_id @ [sq])"

definition string_chunk_write_raw :: "u32 \<Rightarrow> u16 \<Rightarrow> u8 \<Rightarrow> bytes \<Rightarrow> frame" where
  "string_chunk_write_raw device_addr str_id sq chars =
     (can_id_of 0x07 device_addr, [0x30] @ u16_to_le_bytes str_id @ [sq] @ chars)"

definition group_req_raw :: "menu \<Rightarrow> u32 \<Rightarrow> u8 \<Rightarrow> u8 \<Rightarrow> frame" where
  "group_req_raw m device_addr op g =
     (wire_can_id (ex_req (exchange m Group)) device_addr, [op, g, 0x00])"

definition group_field_id_req_raw :: "menu \<Rightarrow> u32 \<Rightarrow> u8 \<Rightarrow> u8 \<Rightarrow> frame" where
  "group_field_id_req_raw m device_addr g i =
     (wire_can_id (ex_req (exchange m Group)) device_addr, [0x03, g, 0x00, i])"

definition property_req_raw :: "menu \<Rightarrow> u32 \<Rightarrow> u8 \<Rightarrow> u8 \<Rightarrow> frame" where
  "property_req_raw m device_addr op index =
     (wire_can_id (ex_req (exchange m Property)) device_addr, [op, index, 0x00])"

definition property_option_req_raw :: "menu \<Rightarrow> u32 \<Rightarrow> u8 \<Rightarrow> u8 \<Rightarrow> frame" where
  "property_option_req_raw m device_addr index opt =
     (wire_can_id (ex_req (exchange m Property)) device_addr, [0x26, index, 0x00, opt])"

definition encode_set_float :: "u32 \<Rightarrow> u8 \<Rightarrow> f32 \<Rightarrow> frame" where
  "encode_set_float device_addr field_index v =
     (can_id_of 0x18 device_addr, [field_index, 0x00] @ u32_to_le_bytes v)"

definition encode_set_boolean :: "u32 \<Rightarrow> u8 \<Rightarrow> bool \<Rightarrow> frame" where
  "encode_set_boolean device_addr field_index v =
     encode_set_float device_addr field_index (if v then f32_one else f32_zero)"

definition encode_set_list :: "u32 \<Rightarrow> u8 \<Rightarrow> int \<Rightarrow> frame" where
  "encode_set_list device_addr field_index index =
     encode_set_float device_addr field_index (f32_of_int index)"

definition commit_value :: "u32 \<Rightarrow> bytes" where
  "commit_value bus_id =
     (let b = u32_to_le_bytes bus_id in [b ! 3, b ! 0, b ! 1, b ! 2])"

definition bus_id_for_addr :: "u32 \<Rightarrow> u32" where
  "bus_id_for_addr addr =
     push_bit 24 (drop_bit 18 (addr AND 0x00FFFFFF)) OR (addr AND 0x3FFFF)"

definition addr_for_bus_id :: "u32 \<Rightarrow> u32" where
  "addr_for_bus_id bus_id = push_bit 18 (drop_bit 24 bus_id) OR (bus_id AND 0x3FFFF)"

definition encode_commit :: "u32 \<Rightarrow> u8 \<Rightarrow> u32 \<Rightarrow> frame" where
  "encode_commit device_addr cmd_field bus_id =
     (can_id_of 0x18 device_addr, [cmd_field, 0x00] @ commit_value bus_id)"

definition encode_login_read :: "u32 \<Rightarrow> frame" where
  "encode_login_read device_addr = (can_id_of 0x07 device_addr, [0x08, 0x19])"

definition encode_login_write :: "u32 \<Rightarrow> u8 \<Rightarrow> f32 \<Rightarrow> frame" where
  "encode_login_write device_addr level code =
     (can_id_of 0x07 device_addr, [0x08, 0x19, level, 0x00] @ u32_to_le_bytes code)"

definition encode_logout :: "u32 \<Rightarrow> frame" where
  "encode_logout device_addr = (can_id_of 0x07 device_addr, [0x08, 0x19, 0x00, 0x00])"

section \<open>Our own BusID (bus\_id.rs)\<close>

definition bus_id_CLASS :: u8 where "bus_id_CLASS = 0x1C"

definition bus_id_is_valid :: "u32 \<Rightarrow> bool" where
  "bus_id_is_valid bus_id \<longleftrightarrow>
     bus_id AND 0xE0FC0000 = 0 \<and>
     \<not> (drop_bit 24 bus_id \<le> 0x09 \<or> drop_bit 24 bus_id = 0x1F)"

text \<open>\<open>h\<close> is the hasher's output.\<close>

definition bus_id_generate :: "u64 \<Rightarrow> u32" where
  "bus_id_generate h =
     (let low = max (ucast h AND 0x3FFFF) 1 in push_bit 24 (ucast bus_id_CLASS) OR low)"

section \<open>Facts\<close>

lemmas encode_defs = heartbeat_raw_def value_read_raw_def value_write_raw_def fw_req_raw_def
  group_count_req_raw_def prop_str_id_req_raw_def string_chunk_req_raw_def
  string_chunk_write_raw_def group_req_raw_def group_field_id_req_raw_def property_req_raw_def
  property_option_req_raw_def encode_set_float_def encode_set_boolean_def encode_set_list_def
  encode_commit_def encode_login_read_def encode_login_write_def encode_logout_def

lemma commit_value_eq:
  "commit_value b = [ucast (drop_bit 24 b), ucast b, ucast (drop_bit 8 b), ucast (drop_bit 16 b)]"
  by (simp add: commit_value_def u32_to_le_bytes_def Let_def)

lemma length_commit_value [simp]: "length (commit_value b) = 4"
  by (simp add: commit_value_eq)

lemma commit_value_names_the_writer:
  "commit_value b = [b3, b0, b1, b2] \<longleftrightarrow> b = u32_from_le_bytes b0 b1 b2 b3"
proof
  assume "commit_value b = [b3, b0, b1, b2]"
  then show "b = u32_from_le_bytes b0 b1 b2 b3"
    by (auto simp: commit_value_eq)
next
  assume "b = u32_from_le_bytes b0 b1 b2 b3"
  then have "u32_to_le_bytes b = [b0, b1, b2, b3]" by (simp only: u32_to_from_le)
  then show "commit_value b = [b3, b0, b1, b2]"
    by (simp add: commit_value_def)
qed

lemma addr_for_bus_id_for_addr: "addr < 2 ^ 24 \<Longrightarrow> addr_for_bus_id (bus_id_for_addr addr) = addr"
proof -
  assume "addr < 2 ^ 24"
  then have a: "take_bit 24 addr = addr"
    using less_mask_eq [of addr 24] by (simp add: take_bit_eq_mask)
  then have hi: "bit addr n \<Longrightarrow> n < 24" for n
    by (metis bit_take_bit_iff)
  show ?thesis
    by (rule bit_word_eqI)
       (auto simp: addr_for_bus_id_def bus_id_for_addr_def mask_simps bit_simps a dest: hi)
qed

end
