(* ===== verification/Usb.thy ===== *)
theory Usb
  imports Codec RustStr Encode
begin

text \<open>
  The Mastervolt USB link: \<open>crates/masterbus/src/transport/usb.rs\<close>. Both directions use
  64-byte HID reports of 14-byte records whose address high byte is scrambled over two
  bytes. The HID device itself is a parameter: a read returns an error or the report bytes.
\<close>

definition REPORT_LEN :: nat where "REPORT_LEN = 64"
definition REC_LEN :: nat where "REC_LEN = 14"
definition MAX_DATA :: nat where "MAX_DATA = 8"
definition VID :: nat where "VID = 0x1A64"

section \<open>Records\<close>

definition decode_can_id :: "bytes \<Rightarrow> u32" where
  "decode_can_id rec =
     (let c = ucast (drop_bit 3 (rec ! 0)) :: u32;
          addr_hi = push_bit 5 (ucast (rec ! 0 AND 0x07)) OR
                    push_bit 2 (ucast (drop_bit 5 (rec ! 1)) AND 0x07) OR
                    ucast (rec ! 1 AND 0x03) :: u32;
          addr = push_bit 16 addr_hi OR push_bit 8 (ucast (rec ! 2)) OR ucast (rec ! 3)
      in push_bit 24 c OR addr)"

definition record_frame :: "bytes \<Rightarrow> frame" where
  "record_frame rec =
     (let dlc = min (unat (rec ! 4)) MAX_DATA in (decode_can_id rec, take dlc (drop 5 rec)))"

fun parse_records :: "bytes \<Rightarrow> nat \<Rightarrow> nat \<Rightarrow> frame list" where
  "parse_records report i 0 = []"
| "parse_records report i (Suc n) =
     (case slice_opt report (1 + i * REC_LEN) (1 + i * REC_LEN + REC_LEN) of
        None \<Rightarrow> []
      | Some rec \<Rightarrow> record_frame rec # parse_records report (Suc i) n)"

text \<open>\<open>parse_report\<close>: the frames pushed on the receive queue.\<close>

definition parse_report :: "bytes \<Rightarrow> frame list" where
  "parse_report report =
     (let count = (case report of [] \<Rightarrow> 0 | b # _ \<Rightarrow> unat b) in parse_records report 0 count)"

definition build_record :: "frame \<Rightarrow> bytes" where
  "build_record f =
     (let can_id = fst f; data = snd f;
          c = drop_bit 24 can_id AND 0x1F;
          addr_hi = drop_bit 16 can_id AND 0xFF;
          dlc = min (length data) MAX_DATA
      in [ucast (push_bit 3 c OR drop_bit 5 addr_hi),
          ucast (push_bit 5 (drop_bit 2 addr_hi AND 0x07) OR (addr_hi AND 0x03)),
          ucast (drop_bit 8 can_id AND 0xFF), ucast (can_id AND 0xFF), word_of_nat dlc]
         @ take dlc data @ replicate (REC_LEN - 5 - dlc) 0)"

text \<open>\<open>build_report\<close>: report id 0, one record, the rest of the report zero.\<close>

definition build_report :: "u32 \<Rightarrow> bytes \<Rightarrow> bytes" where
  "build_report can_id data =
     [0x00, 1] @ build_record (can_id, data) @ replicate (REPORT_LEN - 1 - REC_LEN) 0"

section \<open>The receive half\<close>

text \<open>
  \<open>recv\<close> pops the queue, and reads a report only when it is empty. \<open>reads\<close> are the
  results the HID device will give, in order; a read of 0 bytes is a timeout.
\<close>

type_synonym hid_read = "string + bytes"

definition usb_recv ::
  "frame list \<times> hid_read list \<Rightarrow> (string + frame option) \<times> frame list \<times> hid_read list" where
  "usb_recv st =
     (case st of
        (f # queue, reads) \<Rightarrow> (Inr (Some f), queue, reads)
      | ([], []) \<Rightarrow> (Inr None, [], [])
      | ([], Inl e # reads) \<Rightarrow> (Inl (''USB read: '' @ e), [], reads)
      | ([], Inr report # reads) \<Rightarrow>
          if report = [] then (Inr None, [], reads)
          else (case parse_report report of
              [] \<Rightarrow> (Inr None, [], reads)
            | f # queue \<Rightarrow> (Inr (Some f), queue, reads)))"

fun usb_recv_run ::
  "nat \<Rightarrow> frame list \<times> hid_read list \<Rightarrow> frame list \<times> frame list \<times> hid_read list" where
  "usb_recv_run 0 st = ([], st)"
| "usb_recv_run (Suc n) st =
     (case usb_recv st of (r, st') \<Rightarrow>
        (case usb_recv_run n st' of (fs, st'') \<Rightarrow>
           ((case r of Inr (Some f) \<Rightarrow> f # fs | _ \<Rightarrow> fs), st'')))"

text \<open>The frames of a sequence of reads.\<close>

definition read_frames_of :: "hid_read list \<Rightarrow> frame list" where
  "read_frames_of reads =
     concat (map (\<lambda>r. case r of Inl e \<Rightarrow> [] | Inr report \<Rightarrow> parse_report report) reads)"

section \<open>Finding the link\<close>

definition uevent_value :: "string \<Rightarrow> string \<Rightarrow> string option" where
  "uevent_value key line =
     (case strip_prefix key line of None \<Rightarrow> None | Some r \<Rightarrow> strip_prefix ''='' r)"

fun find_value :: "string \<Rightarrow> string list \<Rightarrow> string option" where
  "find_value key [] = None"
| "find_value key (l # ls) =
     (case uevent_value key l of Some v \<Rightarrow> Some v | None \<Rightarrow> find_value key ls)"

definition link_serial :: "string \<Rightarrow> string option" where
  "link_serial uevent =
     (let ls = rust_lines uevent
      in case find_value ''HID_ID'' ls of
           None \<Rightarrow> None
         | Some v \<Rightarrow>
             (case get_opt (split_on (\<lambda>c. c = CHR '':'') v) 1 of
                None \<Rightarrow> None
              | Some vendor \<Rightarrow>
                  (case from_str_radix 32 16 vendor of
                     None \<Rightarrow> None
                   | Some n \<Rightarrow>
                       if n \<noteq> VID then None
                       else Some (case find_value ''HID_UNIQ'' ls of Some s \<Rightarrow> s | None \<Rightarrow> []))))"

section \<open>Facts\<close>

lemma length_build_record [simp]: "length (build_record f) = REC_LEN"
  by (simp add: build_record_def Let_def REC_LEN_def MAX_DATA_def)

lemma length_build_report [simp]: "length (build_report i d) = REPORT_LEN + 1"
  by (simp add: build_report_def REPORT_LEN_def REC_LEN_def)

lemma bits8: "n = 0 \<or> n = 1 \<or> n = 2 \<or> n = 3 \<or> n = 4 \<or> n = 5 \<or> n = 6 \<or> n = 7 \<or> 8 \<le> n" for n :: nat by arith

lemma unscramble_class:
  fixes c hi :: u32
  assumes "take_bit 5 c = c"
  shows "ucast (drop_bit 3 (ucast (push_bit 3 c OR drop_bit 5 hi) :: u8)) = take_bit 5 (c OR drop_bit 8 hi)"
  by (rule bit_word_eqI) (auto simp: bit_simps add.commute)

lemma unscramble_hi:
  fixes c hi :: u32
  assumes "take_bit 8 hi = hi"
  shows "push_bit 5 (ucast ((ucast (push_bit 3 c OR drop_bit 5 hi) :: u8) AND 0x07)) OR
         push_bit 2 (ucast (drop_bit 5 (ucast (push_bit 5 (drop_bit 2 hi AND 0x07) OR (hi AND 0x03)) :: u8)) AND 0x07) OR
         ucast ((ucast (push_bit 5 (drop_bit 2 hi AND 0x07) OR (hi AND 0x03)) :: u8) AND 0x03) = hi" (is "?l = hi")
proof (rule bit_word_eqI)
  fix n
  have hi: "\<not> bit hi n" if "8 \<le> n" using that assms by (metis bit_take_bit_iff not_le)
  show "bit ?l n = bit hi n"
    using bits8 [of n] by (elim disjE) (simp_all add: mask_simps bit_simps hi)
qed

lemma join_id:
  "push_bit 24 (take_bit 5 (drop_bit 24 i)) OR (push_bit 16 (take_bit 8 (drop_bit 16 i)) OR
     push_bit 8 (ucast (ucast (take_bit 8 (drop_bit 8 i)) :: u8)) OR ucast (ucast (take_bit 8 i) :: u8)) = take_bit 29 i" for i :: u32
proof (rule bit_word_eqI)
  fix n :: nat
  consider "n < 8" | "8 \<le> n" "n < 16" | "16 \<le> n" "n < 24" | "24 \<le> n"
    by fastforce
  then show "bit (push_bit 24 (take_bit 5 (drop_bit 24 i)) OR (push_bit 16 (take_bit 8 (drop_bit 16 i)) OR
     push_bit 8 (ucast (ucast (take_bit 8 (drop_bit 8 i)) :: u8)) OR ucast (ucast (take_bit 8 i) :: u8))) n = bit (take_bit 29 i) n"
    by cases (auto simp: bit_simps)
qed

text \<open>Unscrambling undoes scrambling: the 29 bits of an id survive the link.\<close>

lemma decode_build_id: "decode_can_id (build_record f @ rest) = fst f AND 0x1FFFFFFF"
proof -
  let ?i = "fst f" let ?c = "drop_bit 24 ?i AND 0x1F" let ?hi = "drop_bit 16 ?i AND 0xFF"
  have c: "take_bit 5 ?c = ?c" and hi: "take_bit 8 ?hi = ?hi" "drop_bit 8 ?hi = 0"
    by (simp_all add: mask_simps) (rule bit_word_eqI, simp add: bit_simps)
  let ?b0 = "ucast (push_bit 3 ?c OR drop_bit 5 ?hi) :: u8"
  let ?b1 = "ucast (push_bit 5 (drop_bit 2 ?hi AND 0x07) OR (?hi AND 0x03)) :: u8"
  have nths: "(build_record f @ rest) ! 0 = ?b0" "(build_record f @ rest) ! 1 = ?b1"
    "(build_record f @ rest) ! 2 = ucast (drop_bit 8 ?i AND 0xFF)"
    "(build_record f @ rest) ! 3 = ucast (?i AND 0xFF)"
    by (simp_all add: build_record_def Let_def)
  have "decode_can_id (build_record f @ rest) =
    push_bit 24 (take_bit 5 (?c OR drop_bit 8 ?hi)) OR (push_bit 16 ?hi OR
     push_bit 8 (ucast (ucast (drop_bit 8 ?i AND 0xFF) :: u8)) OR ucast (ucast (?i AND 0xFF) :: u8))"
    unfolding decode_can_id_def Let_def nths unscramble_class [OF c] unscramble_hi [OF hi(1)] ..
  also have "\<dots> = ?i AND 0x1FFFFFFF"
    using c hi(2) by (simp add: mask_simps join_id)
  finally show ?thesis .
qed

text \<open>Reading one record off a report, and the report as a stream of records.\<close>

definition read_record :: "bytes \<Rightarrow> (frame \<times> bytes) option" where
  "read_record bs =
     (if length bs < REC_LEN then None
      else Some (record_frame (take REC_LEN bs), drop REC_LEN bs))"

definition usb_frame_ok :: "frame \<Rightarrow> bool" where
  "usb_frame_ok f \<longleftrightarrow> fst f < 2 ^ 29 \<and> length (snd f) \<le> MAX_DATA"

lemma record_frame_build:
  "record_frame (build_record f) = (fst f AND 0x1FFFFFFF, take MAX_DATA (snd f))"
proof -
  let ?d = "min (length (snd f)) MAX_DATA"
  have "unat (word_of_nat ?d :: u8) = ?d"
    by (subst unat_of_nat) (simp add: MAX_DATA_def)
  moreover have "build_record f ! 4 = word_of_nat ?d"
    by (simp add: build_record_def Let_def)
  moreover have "drop 5 (build_record f) = take ?d (snd f) @ replicate (REC_LEN - 5 - ?d) 0"
    by (simp add: build_record_def Let_def)
  moreover have "min ?d MAX_DATA = ?d" by simp
  ultimately show ?thesis
    using decode_build_id [of f "[]"] by (simp add: record_frame_def Let_def min_def)
qed

lemma fits_29: "i < 2 ^ 29 \<Longrightarrow> i AND 0x1FFFFFFF = i" for i :: u32
  using less_mask_eq [of i 29] by (simp add: mask_simps take_bit_eq_mask)

interpretation usb: frame_codec build_record read_record usb_frame_ok
proof unfold_locales
  fix f :: frame and rest assume f: "usb_frame_ok f"
  then have "record_frame (build_record f) = f"
    by (simp add: record_frame_build usb_frame_ok_def fits_29 MAX_DATA_def)
  then show "read_record (build_record f @ rest) = Some (f, rest)"
    by (simp add: read_record_def)
next
  fix f :: frame and n assume "n < length (build_record f)"
  then show "read_record (take n (build_record f)) = None"
    by (simp add: read_record_def)
next
  show "read_record [] = None" by (simp add: read_record_def REC_LEN_def)
qed

lemma parse_records_stream:
  "parse_records report i n = read_frames read_record n (drop (1 + i * REC_LEN) report)"
proof (induction n arbitrary: i)
  case (Suc n)
  have d: "drop REC_LEN (drop (1 + i * REC_LEN) report) = drop (1 + Suc i * REC_LEN) report"
    by (simp add: add.commute add.left_commute)
  show ?case
  proof (cases "1 + i * REC_LEN + REC_LEN \<le> length report")
    case True
    with Suc d show ?thesis by (simp add: slice_opt_def read_record_def)
  next
    case False
    then show ?thesis by (simp add: slice_opt_def read_record_def REC_LEN_def)
  qed
qed simp

lemma usb_recv_step:
  "usb_recv (queue, reads) = (r, queue', reads') \<Longrightarrow>
     (case r of Inr (Some f) \<Rightarrow> [f] | _ \<Rightarrow> []) @ queue' @ read_frames_of reads' =
     queue @ read_frames_of reads"
  by (auto simp: usb_recv_def read_frames_of_def parse_report_def
      split: list.splits sum.splits if_splits)

section \<open>Properties\<close>

text \<open>A report of up to 255 records, as the link batches them, is parsed back into exactly
  the frames it carries, in order; and the report built for a sent frame carries that frame,
  its id cut to 29 bits and its data to eight bytes.\<close>

theorem usb_report_roundtrip:
  "(list_all usb_frame_ok fs \<and> length fs < 256 \<longrightarrow>
      parse_report (word_of_nat (length fs) # concat (map build_record fs) @ trailer) = fs) \<and>
   parse_report (tl (build_report can_id data)) = [(can_id AND 0x1FFFFFFF, take 8 data)]"
proof
  show "list_all usb_frame_ok fs \<and> length fs < 256 \<longrightarrow>
      parse_report (word_of_nat (length fs) # concat (map build_record fs) @ trailer) = fs"
    by (auto simp: parse_report_def parse_records_stream unat_of_nat usb.stream_exact)
  have "read_record (build_record (can_id, data) @ rest) =
      Some ((can_id AND 0x1FFFFFFF, take 8 data), rest)" for rest
    by (simp add: read_record_def record_frame_build MAX_DATA_def)
  then show "parse_report (tl (build_report can_id data)) = [(can_id AND 0x1FFFFFFF, take 8 data)]"
    by (simp add: parse_report_def build_report_def parse_records_stream)
qed

theorem usb_report_roundtrip_witness:
  "parse_report (2 # concat (map build_record [(0x186E96CF, [0x8B, 0]), (0x04188EA2, [])]) @ []) =
     [(0x186E96CF, [0x8B, 0]), (0x04188EA2, [])]"
  using usb_report_roundtrip [of "[(0x186E96CF, [0x8B, 0]), (0x04188EA2, [])]" "[]" 0 "[]"]
  by (simp add: usb_frame_ok_def MAX_DATA_def)

text \<open>The receive half neither loses, repeats nor reorders a frame: after any number of
  calls, the frames handed out, then those queued, then those of the reads still to come are
  the frames queued and read at the start.\<close>

theorem usb_recv_is_fifo:
  "case usb_recv_run n (queue, reads) of (fs, queue', reads') \<Rightarrow>
     fs @ queue' @ read_frames_of reads' = queue @ read_frames_of reads"
proof (induction n arbitrary: queue reads)
  case (Suc n)
  obtain r q rs where st: "usb_recv (queue, reads) = (r, q, rs)" by (cases "usb_recv (queue, reads)") auto
  show ?case
    using Suc [of q rs] usb_recv_step [OF st]
    by (auto simp: st split: prod.splits sum.splits option.splits)
qed simp

end
