(* ===== verification/Relay.thy ===== *)
theory Relay
  imports Codec RustStr Encode
begin

text \<open>
  Sharing one bus connection between processes: \<open>crates/masterbus/src/transport/relay.rs\<close>.
  The socket format, the client hand-shake, and the owner's relay as a state machine over the
  events of the wire, of joining clients and of their frames. Sockets, threads and the
  announcement file are parameters: what a read gives and whether a write succeeds.
\<close>

section \<open>The socket format\<close>

text \<open>\<open>encode\<close>: big-endian id, length byte, data (at most eight bytes).\<close>

definition relay_encode :: "frame \<Rightarrow> bytes" where
  "relay_encode f =
     (let len = min (length (snd f)) 8
      in u32_to_be_bytes (fst f) @ [word_of_nat len] @ take len (snd f))"

text \<open>\<open>read_frame\<close>: \<open>read_exact\<close> of the head, then of the data.\<close>

definition relay_read_frame :: "bytes \<Rightarrow> string + (frame \<times> bytes)" where
  "relay_read_frame bs =
     (if length bs < 5 then Inl ''unexpected end of file''
      else let len = unat (bs ! 4)
           in if 8 < len then Inl ''frame longer than 8 bytes''
              else if length bs < 5 + len then Inl ''unexpected end of file''
              else Inr ((u32_from_be_bytes (bs ! 0) (bs ! 1) (bs ! 2) (bs ! 3),
                         take len (drop 5 bs)), drop (5 + len) bs))"

definition relay_rd :: "bytes \<Rightarrow> (frame \<times> bytes) option" where
  "relay_rd bs = (case relay_read_frame bs of Inl _ \<Rightarrow> None | Inr x \<Rightarrow> Some x)"

definition relay_frame_ok :: "frame \<Rightarrow> bool" where
  "relay_frame_ok f \<longleftrightarrow> length (snd f) \<le> 8"

lemma u32_be_roundtrip:
  "u32_from_be_bytes (u32_to_be_bytes w ! 0) (u32_to_be_bytes w ! 1) (u32_to_be_bytes w ! 2)
     (u32_to_be_bytes w ! 3) = w"
  by (simp add: u32_from_be_bytes_def u32_to_be_bytes_def u32_to_le_bytes_def)

lemma length_be [simp]: "length (u32_to_be_bytes w) = 4"
  by (simp add: u32_to_be_bytes_def)

lemma relay_rd_encode: "relay_rd (relay_encode f @ rest) = Some ((fst f, take 8 (snd f)), rest)"
proof -
  let ?n = "min (length (snd f)) 8" let ?bs = "relay_encode f @ rest"
  have u: "unat (word_of_nat ?n :: u8) = ?n" by (subst unat_of_nat) simp
  have b: "?bs = u32_to_be_bytes (fst f) @ word_of_nat ?n # take ?n (snd f) @ rest"
    by (simp add: relay_encode_def Let_def)
  have h: "?bs ! 4 = word_of_nat ?n" "?bs ! 0 = u32_to_be_bytes (fst f) ! 0"
    "?bs ! 1 = u32_to_be_bytes (fst f) ! 1" "?bs ! 2 = u32_to_be_bytes (fst f) ! 2"
    "?bs ! 3 = u32_to_be_bytes (fst f) ! 3"
    unfolding b by (simp_all add: nth_append)
  have d: "drop 5 ?bs = take ?n (snd f) @ rest" "drop (5 + ?n) ?bs = rest" "5 + ?n \<le> length ?bs"
    unfolding b by simp_all
  have t: "take ?n (take ?n (snd f) @ rest) = take 8 (snd f)" by (simp add: min_def)
  show ?thesis
    unfolding relay_rd_def relay_read_frame_def Let_def h u d t u32_be_roundtrip
    using d(3) by simp
qed

lemma relay_rd_cut: "n < length (relay_encode f) \<Longrightarrow> relay_rd (take n (relay_encode f)) = None"
proof -
  let ?n = "min (length (snd f)) 8" let ?e = "relay_encode f"
  assume n: "n < length ?e"
  have u: "unat (word_of_nat ?n :: u8) = ?n" by (subst unat_of_nat) simp
  have l: "length ?e = 5 + ?n" by (simp add: relay_encode_def Let_def)
  show ?thesis
  proof (cases "n < 5")
    case True
    then have "length (take n ?e) < 5" by simp
    then show ?thesis by (simp only: relay_rd_def relay_read_frame_def if_True sum.case)
  next
    case False
    then have "take n ?e ! 4 = word_of_nat ?n"
      by (simp add: relay_encode_def Let_def nth_append)
    with False n l u show ?thesis
      by (simp add: relay_rd_def relay_read_frame_def Let_def del: min_less_iff_disj)
  qed
qed

interpretation relay: frame_codec relay_encode relay_rd relay_frame_ok
  by unfold_locales
     (simp_all add: relay_rd_encode relay_frame_ok_def relay_rd_cut,
      simp add: relay_rd_def relay_read_frame_def)

section \<open>Joining\<close>

definition bytes_to_str :: "bytes \<Rightarrow> string" where
  "bytes_to_str bs = map (\<lambda>b. char_of (unat b)) bs"

text \<open>\<open>read_line\<close>: up to and with the newline, or to the end of the stream.\<close>

fun read_line :: "bytes \<Rightarrow> bytes \<times> bytes" where
  "read_line [] = ([], [])"
| "read_line (b # bs) = (if b = 10 then ([b], bs) else (case read_line bs of (l, r) \<Rightarrow> (b # l, r)))"

text \<open>
  \<open>serve_client\<close> on everything the client sends: whether it joined (and got its
  \<open>OK\<close>), and the frames put on the wire for it, to the first that cannot be read.
\<close>

definition serve_client :: "string \<Rightarrow> bytes \<Rightarrow> bool \<times> frame list" where
  "serve_client token inp =
     (case read_line inp of (line, rest) \<Rightarrow>
        if rust_trim_end (bytes_to_str line) \<noteq> token then (False, [])
        else (True, read_frames relay_rd (length rest) rest))"

text \<open>\<open>new_token\<close> from two 64-bit hashes: 32 lower-case hex digits.\<close>

definition new_token :: "u64 \<Rightarrow> u64 \<Rightarrow> string" where
  "new_token h1 h2 =
     lower_hex 16 (unat h1) @ lower_hex 16 (unat h2)"

text \<open>\<open>find\<close>: the first announced relay that accepts us. \<open>announced\<close> reads an
  announcement, \<open>connect\<close> joins.\<close>

definition relay_find :: "('d \<Rightarrow> ('a \<times> string) option) \<Rightarrow> ('a \<Rightarrow> string \<Rightarrow> string + 't) \<Rightarrow> 'd list \<Rightarrow> 't option" where
  "relay_find announced connect dirs =
     find_map (\<lambda>d. case announced d of
         None \<Rightarrow> None
       | Some (addr, token) \<Rightarrow> (case connect addr token of Inl _ \<Rightarrow> None | Inr t \<Rightarrow> Some t)) dirs"

text \<open>The receive halves: a channel either gives an item, times out or is disconnected.\<close>

datatype 'a chan_recv = Got 'a | ChanTimeout | Disconnected

fun owned_recv :: "(error + frame) chan_recv \<Rightarrow> error + frame option" where
  "owned_recv (Got (Inr f)) = Inr (Some f)"
| "owned_recv (Got (Inl e)) = Inl e"
| "owned_recv ChanTimeout = Inr None"
| "owned_recv Disconnected = Inl (Connection ''relay stopped'')"

fun client_recv :: "frame chan_recv \<Rightarrow> error + frame option" where
  "client_recv (Got f) = Inr (Some f)"
| "client_recv ChanTimeout = Inr None"
| "client_recv Disconnected = Inl (Connection ''the daemon sharing the bus went away'')"

section \<open>The owner's relay\<close>

text \<open>Clients with the bytes written to each, the owner's channel, the frames on the wire.\<close>

record relay_state =
  rl_clients :: "(nat \<times> bytes) list"
  rl_own :: "(error + frame) list"
  rl_wire :: "frame list"

datatype relay_event =
    WireRecv "error + frame option" "nat list"
  | Join nat
  | ClientFrame frame
  | OwnSend frame

text \<open>
  One event: a receive on the wire (with the clients whose write fails, which are dropped), a
  client let in, a frame from a client, a frame from the owner's engine.
\<close>

fun relay_step :: "relay_state \<Rightarrow> relay_event \<Rightarrow> relay_state" where
  "relay_step s (WireRecv (Inr (Some f)) failing) =
     s\<lparr>rl_clients := map (\<lambda>(c, bs). (c, bs @ relay_encode f))
                       (filter (\<lambda>(c, bs). c \<notin> set failing) (rl_clients s)),
       rl_own := rl_own s @ [Inr f]\<rparr>"
| "relay_step s (WireRecv (Inr None) failing) = s"
| "relay_step s (WireRecv (Inl e) failing) = s\<lparr>rl_own := rl_own s @ [Inl e]\<rparr>"
| "relay_step s (Join c) = s\<lparr>rl_clients := rl_clients s @ [(c, [])]\<rparr>"
| "relay_step s (ClientFrame f) = s\<lparr>rl_wire := rl_wire s @ [f]\<rparr>"
| "relay_step s (OwnSend f) = s\<lparr>rl_wire := rl_wire s @ [f]\<rparr>"

fun relay_run :: "relay_state \<Rightarrow> relay_event list \<Rightarrow> relay_state" where
  "relay_run s [] = s"
| "relay_run s (e # es) = relay_run (relay_step s e) es"

definition relay_init :: relay_state where
  "relay_init = \<lparr>rl_clients = [], rl_own = [], rl_wire = []\<rparr>"

text \<open>The frames received from the wire, and put on it, in a run.\<close>

fun frames_received :: "relay_event list \<Rightarrow> frame list" where
  "frames_received [] = []"
| "frames_received (WireRecv (Inr (Some f)) failing # es) = f # frames_received es"
| "frames_received (e # es) = frames_received es"

fun frames_sent :: "relay_event list \<Rightarrow> frame list" where
  "frames_sent [] = []"
| "frames_sent (ClientFrame f # es) = f # frames_sent es"
| "frames_sent (OwnSend f # es) = f # frames_sent es"
| "frames_sent (e # es) = frames_sent es"

text \<open>A run in which no write to client \<open>c\<close> fails and no other client is named \<open>c\<close>.\<close>

fun keeps_up :: "nat \<Rightarrow> relay_event list \<Rightarrow> bool" where
  "keeps_up c [] = True"
| "keeps_up c (WireRecv r failing # es) = (c \<notin> set failing \<and> keeps_up c es)"
| "keeps_up c (Join d # es) = (d \<noteq> c \<and> keeps_up c es)"
| "keeps_up c (e # es) = keeps_up c es"

lemma relay_run_append [simp]: "relay_run s (es1 @ es2) = relay_run (relay_run s es1) es2"
  by (induction es1 arbitrary: s) simp_all

lemma map_of_sent:
  "c \<notin> set failing \<Longrightarrow>
     map_of (map (\<lambda>(c, bs). (c, bs @ relay_encode f)) (filter (\<lambda>(c, bs). c \<notin> set failing) cs)) c =
     map_option (\<lambda>bs. bs @ relay_encode f) (map_of cs c)"
  by (induction cs) auto

lemma relay_run_client:
  "keeps_up c es \<Longrightarrow> map_of (rl_clients s) c = Some bs \<Longrightarrow>
     map_of (rl_clients (relay_run s es)) c = Some (bs @ concat (map relay_encode (frames_received es)))"
  by (induction es arbitrary: s bs rule: frames_received.induct) (auto simp: map_of_sent map_add_Some_iff)

lemma map_of_sent_None:
  "map_of cs c = None \<Longrightarrow>
     map_of (map (\<lambda>(c, bs). (c, bs @ relay_encode f)) (filter (\<lambda>(c, bs). c \<notin> set failing) cs)) c = None"
  by (induction cs) (auto split: if_splits)

lemma relay_step_absent:
  "e \<noteq> Join c \<Longrightarrow> map_of (rl_clients s) c = None \<Longrightarrow> map_of (rl_clients (relay_step s e)) c = None"
  by (induction s e rule: relay_step.induct)
     (simp_all del: map_of_eq_None_iff add: map_of_sent_None map_add_def)

lemma relay_run_absent:
  "Join c \<notin> set es \<Longrightarrow> map_of (rl_clients s) c = None \<Longrightarrow> map_of (rl_clients (relay_run s es)) c = None"
proof (induction es arbitrary: s)
  case (Cons e es)
  then show ?case using relay_step_absent [of e c s] by auto
qed simp

text \<open>What a client reads of a complete stream: there are at least as many bytes as frames.\<close>

lemma relay_reads_whole:
  assumes "list_all relay_frame_ok fs"
  shows "read_frames relay_rd (length (concat (map relay_encode fs))) (concat (map relay_encode fs)) = fs"
proof -
  have "length fs \<le> length (concat (map relay_encode fs))"
    by (induction fs) (simp_all add: relay_encode_def Let_def)
  from relay.stream_whole [OF assms this, of "[]"] show ?thesis
    by (simp add: relay.rd_Nil)
qed

lemma read_line_append: "10 \<notin> set bs \<Longrightarrow> read_line (bs @ 10 # rest) = (bs @ [10], rest)"
  by (induction bs) auto

lemma new_token_digits: "list_all lower_digit (new_token h1 h2)" "length (new_token h1 h2) = 32"
proof -
  have "length (lower_hex 16 (unat h)) = 16" for h :: u64
    using length_fmt_hex [of "unat h" 15] unsigned_less [of h]
    by (simp add: lower_hex_def)
  then show "length (new_token h1 h2) = 32" by (simp add: new_token_def)
  show "list_all lower_digit (new_token h1 h2)"
    by (simp add: new_token_def lower_hex_digits)
qed

lemma joins_with_token:
  assumes t: "t \<noteq> []" "list_all lower_digit t"
  shows "serve_client t (map of_char t @ 10 # rest) = (True, read_frames relay_rd (length rest) rest)"
proof -
  have "(10 :: u8) \<notin> set (map of_char t)"
  proof
    assume "(10 :: u8) \<in> set (map of_char t)"
    then obtain c where c: "c \<in> set t" "(10 :: u8) = of_char c" by auto
    from c(2) have "unat (10 :: u8) = unat (of_char c :: u8)" by simp
    then have "of_char c = (10 :: nat)" by (simp add: unat_of_char)
    with c t show False by (auto simp: list_all_iff lower_digit_def)
  qed
  then have "read_line (map of_char t @ 10 # rest) = (map of_char t @ [10], rest)"
    by (rule read_line_append)
  moreover have "bytes_to_str (map of_char t @ [10]) = t @ [nl]"
    by (simp add: bytes_to_str_def comp_def nl_def unat_of_char)
  moreover have "visible (last t)"
    using t by (auto simp: list_all_iff intro: lower_digit_visible)
  ultimately show ?thesis using trim_end_nl [of t] by (simp add: serve_client_def)
qed

section \<open>Properties\<close>

text \<open>C32. A client of the relay that keeps up gets, from the moment it has joined, exactly the
  frames the wire gave, in order and whole, whatever the other clients and the owner do in
  between; and when its connection is cut at any byte it has decoded a prefix of them, never a
  torn frame.\<close>

theorem relay_client_gets_every_frame:
  assumes "Join c \<notin> set es1" and "keeps_up c es2" and "list_all relay_frame_ok (frames_received es2)"
  shows "\<exists>bs. map_of (rl_clients (relay_run relay_init (es1 @ Join c # es2))) c = Some bs \<and>
     read_frames relay_rd (length bs) bs = frames_received es2 \<and>
     (\<forall>k n. \<exists>j \<le> length (frames_received es2).
        read_frames relay_rd n (take k bs) = take j (frames_received es2))"
proof -
  let ?s = "relay_run relay_init es1" let ?bs = "concat (map relay_encode (frames_received es2))"
  have "map_of (rl_clients ?s) c = None"
    using assms(1) by (intro relay_run_absent) (simp_all add: relay_init_def)
  then have "map_of (rl_clients (relay_step ?s (Join c))) c = Some []"
    by (simp add: map_add_Some_iff)
  from relay_run_client [OF assms(2) this]
  have "map_of (rl_clients (relay_run relay_init (es1 @ Join c # es2))) c = Some ?bs" by simp
  moreover have "\<exists>j \<le> length (frames_received es2).
        read_frames relay_rd n (take k ?bs) = take j (frames_received es2)" for k n
    using relay.stream_cut [OF assms(3), of n k] by blast
  ultimately show ?thesis using relay_reads_whole [OF assms(3)] by blast
qed

theorem relay_client_gets_every_frame_witness:
  "\<exists>bs. map_of (rl_clients (relay_run relay_init
      ([WireRecv (Inr (Some (1, [7]))) []] @ Join 4 # [WireRecv (Inr (Some (2, [8, 9]))) [5],
         OwnSend (3, []), Join 5, WireRecv (Inr (Some (6, []))) []]))) 4 = Some bs \<and>
     read_frames relay_rd (length bs) bs = [(2, [8, 9]), (6, [])]"
  using relay_client_gets_every_frame [of 4 "[WireRecv (Inr (Some (1, [7]))) []]"
      "[WireRecv (Inr (Some (2, [8, 9]))) [5], OwnSend (3, []), Join 5, WireRecv (Inr (Some (6, []))) []]"]
  by (auto simp: relay_frame_ok_def simp del: relay_run_append relay_run.simps append_Cons)

text \<open>Only a client that sends the owner's token is let in, and it gets none of its bytes on
  the wire otherwise; with the token (32 hex digits) every frame the client sends after it is
  put on the wire, whole and in order.\<close>

theorem relay_admits_by_token:
  "(fst (serve_client token inp) \<longleftrightarrow>
      rust_trim_end (bytes_to_str (fst (read_line inp))) = token) \<and>
   (\<not> fst (serve_client token inp) \<longrightarrow> snd (serve_client token inp) = []) \<and>
   length (new_token h1 h2) = 32 \<and>
   (list_all relay_frame_ok fs \<longrightarrow>
      serve_client (new_token h1 h2)
        (map of_char (new_token h1 h2) @ 10 # concat (map relay_encode fs)) = (True, fs))"
proof (intro conjI impI)
  assume fs: "list_all relay_frame_ok fs"
  have "new_token h1 h2 \<noteq> []" using new_token_digits(2) [of h1 h2] by auto
  from joins_with_token [OF this new_token_digits(1)] relay_reads_whole [OF fs]
  show "serve_client (new_token h1 h2)
      (map of_char (new_token h1 h2) @ 10 # concat (map relay_encode fs)) = (True, fs)" by simp
qed (auto simp: serve_client_def new_token_digits split: prod.splits if_splits)

theorem relay_admits_by_token_witness:
  "serve_client (new_token 0xAB 1) (map of_char (new_token 0xAB 1) @ 10 #
     concat (map relay_encode [(1, [2]), (3, [])])) = (True, [(1, [2]), (3, [])])"
  using relay_admits_by_token [of "new_token 0xAB 1" "[]" "0xAB" 1 "[(1, [2]), (3, [])]"]
  by (simp add: relay_frame_ok_def)

end
