(* ===== verification/Reconnect.thy ===== *)
theory Reconnect
  imports Model Encode
begin

text \<open>
  A transport that opens its link again after it is lost:
  \<open>crates/masterbus/src/transport/reconnect.rs\<close>, with the connected flag of
  \<open>transport/mod.rs\<close>. The links themselves are a type parameter \<open>'l\<close>; what the current
  link's receive gives, when it returns, and what the opener gives are inputs of a step.
  Time is in milliseconds.
\<close>

section \<open>State and operations\<close>

record 'l reconn =
  rc_inner :: "'l option"
  rc_slot :: "'l option"
  rc_link :: bool
  rc_retry :: nat
  rc_next_try :: nat
  rc_opened :: nat

text \<open>\<open>Reconnecting::new\<close> and \<open>split\<close> at time \<open>now\<close>: both halves of the first link.\<close>

definition reconn_split :: "'l \<Rightarrow> nat \<Rightarrow> nat \<Rightarrow> 'l reconn" where
  "reconn_split l retry now =
     \<lparr>rc_inner = Some l, rc_slot = Some l, rc_link = True, rc_retry = retry,
      rc_next_try = now, rc_opened = now\<rparr>"

text \<open>What one receive meets: the time it starts, what the link's own receive returns and
  when, and what the opener returns.\<close>

record 'l surroundings =
  sr_now :: nat
  sr_recv :: "error + frame option"
  sr_after :: nat
  sr_reopen :: "error + 'l"

text \<open>A receive gives its result, whether it asked the opener, and how long it slept.\<close>

definition reconn_recv ::
  "nat \<Rightarrow> 'l surroundings \<Rightarrow> 'l reconn \<Rightarrow> (error + frame option) \<times> bool \<times> nat \<times> 'l reconn" where
  "reconn_recv timeout e s =
     (case rc_inner s of
        Some l \<Rightarrow>
          (case sr_recv e of
             Inl err \<Rightarrow>
               (Inl err, False, 0,
                s\<lparr>rc_inner := None, rc_slot := None, rc_link := False,
                  rc_next_try := max (rc_opened s + rc_retry s) (sr_after e)\<rparr>)
           | Inr f \<Rightarrow> (Inr f, False, 0, s))
      | None \<Rightarrow>
          let now = sr_now e
          in if rc_next_try s \<le> now
             then (case sr_reopen e of
                 Inr l \<Rightarrow>
                   (Inr None, True, 0,
                    s\<lparr>rc_inner := Some l, rc_slot := Some l, rc_link := True, rc_opened := now\<rparr>)
               | Inl err \<Rightarrow>
                   let s' = s\<lparr>rc_next_try := now + rc_retry s\<rparr>
                   in (Inr None, True, min timeout (rc_next_try s' - now), s'))
             else (Inr None, False, min timeout (rc_next_try s - now), s))"

text \<open>The transmit half: \<open>wire l f\<close> is what sending \<open>f\<close> on link \<open>l\<close> gives.\<close>

definition reconn_send ::
  "string \<Rightarrow> ('l \<Rightarrow> frame \<Rightarrow> error + unit) \<Rightarrow> 'l reconn \<Rightarrow> frame \<Rightarrow> error + unit" where
  "reconn_send what wire s f =
     (case rc_slot s of
        Some l \<Rightarrow> wire l f
      | None \<Rightarrow> Inl (Connection (''the '' @ what @ '' is lost'')))"

section \<open>Runs\<close>

text \<open>
  A run of the receive half: the transport, the clock, the times the opener was asked
  (oldest first) and the last link opened. Each receive starts no earlier than the one before
  it ended.
\<close>

record 'l reconn_run =
  rr_conn :: "'l reconn"
  rr_clock :: nat
  rr_tries :: "nat list"
  rr_last :: 'l

definition reconn_start :: "'l \<Rightarrow> nat \<Rightarrow> nat \<Rightarrow> 'l reconn_run" where
  "reconn_start l retry now =
     \<lparr>rr_conn = reconn_split l retry now, rr_clock = now, rr_tries = [], rr_last = l\<rparr>"

inductive reconn_step :: "'l reconn_run \<Rightarrow> 'l reconn_run \<Rightarrow> bool" where
  receive:
    "rr_clock w \<le> sr_now e \<Longrightarrow> sr_now e \<le> sr_after e \<Longrightarrow>
     reconn_recv timeout e (rr_conn w) = (r, asked, slept, s') \<Longrightarrow>
     reconn_step w
       (w\<lparr>rr_conn := s', rr_clock := max (sr_after e) (sr_now e + slept),
          rr_tries := (if asked then rr_tries w @ [sr_now e] else rr_tries w),
          rr_last := (case (asked, sr_reopen e) of (True, Inr l) \<Rightarrow> l | _ \<Rightarrow> rr_last w)\<rparr>)"

inductive_cases reconn_stepE: "reconn_step w w'"

inductive reconn_reaches :: "'l reconn_run \<Rightarrow> 'l reconn_run \<Rightarrow> bool" where
  here: "reconn_reaches w w"
| more: "reconn_reaches w w' \<Longrightarrow> reconn_step w' w'' \<Longrightarrow> reconn_reaches w w''"

text \<open>
  The two halves belong to the last link opened or are both gone, the flag says which, and
  the opener has been asked at most once per retry period and is due again within one.
\<close>

definition tries_spaced :: "nat \<Rightarrow> nat \<Rightarrow> nat list \<Rightarrow> bool" where
  "tries_spaced retry first ts = sorted_wrt (\<lambda>a b. a + retry \<le> b) (first # ts)"

definition reconn_inv :: "nat \<Rightarrow> nat \<Rightarrow> 'l reconn_run \<Rightarrow> bool" where
  "reconn_inv retry first w =
     (let s = rr_conn w
      in rc_retry s = retry \<and> rc_slot s = rc_inner s \<and> rc_link s = (rc_inner s \<noteq> None) \<and>
         (rc_inner s \<noteq> None \<longrightarrow> rc_inner s = Some (rr_last w)) \<and>
         rc_opened s \<le> rr_clock w \<and>
         tries_spaced retry first (rr_tries w) \<and>
         list_all (\<lambda>t. t + retry \<le> (if rc_inner s = None then rc_next_try s else rc_opened s + retry))
           (first # rr_tries w) \<and>
         (rc_inner s = None \<longrightarrow> rc_next_try s \<le> rr_clock w + retry))"

lemma tries_spaced_snoc:
  "tries_spaced retry first ts \<Longrightarrow> list_all (\<lambda>t. t + retry \<le> now) (first # ts) \<Longrightarrow>
     tries_spaced retry first (ts @ [now])"
  by (auto simp: tries_spaced_def sorted_wrt_append list_all_iff)

lemma reconn_inv_step:
  assumes inv: "reconn_inv retry first w" and st: "reconn_step w w'"
  shows "reconn_inv retry first w'"
  using st
proof cases
  case (receive e timeout r asked slept s')
  let ?s = "rr_conn w"
  show ?thesis
  proof (cases "rc_inner ?s")
    case (Some l)
    then show ?thesis using inv receive
      by (cases "sr_recv e")
         (auto simp: reconn_inv_def reconn_recv_def Let_def list_all_iff max_def)
  next
    case None
    show ?thesis
    proof (cases "rc_next_try ?s \<le> sr_now e")
      case True
      have "list_all (\<lambda>t. t + retry \<le> sr_now e) (first # rr_tries w)"
        using inv None True by (auto simp: reconn_inv_def Let_def list_all_iff)
      then have sp: "tries_spaced retry first (rr_tries w @ [sr_now e])"
        using inv tries_spaced_snoc by (auto simp: reconn_inv_def Let_def)
      show ?thesis using inv receive None True sp
        by (cases "sr_reopen e")
           (auto simp: reconn_inv_def reconn_recv_def Let_def list_all_iff)
    next
      case False
      then show ?thesis using inv receive None
        by (auto simp: reconn_inv_def reconn_recv_def Let_def list_all_iff)
    qed
  qed
qed

lemma reconn_reaches_inv: "reconn_reaches w w' \<Longrightarrow> reconn_inv retry first w \<Longrightarrow> reconn_inv retry first w'"
  by (induction rule: reconn_reaches.induct) (auto intro: reconn_inv_step)

lemma reconn_start_inv: "reconn_inv retry now (reconn_start l retry now)"
  by (simp add: reconn_inv_def reconn_start_def reconn_split_def tries_spaced_def)

lemma reconn_reachable_inv:
  "reconn_reaches (reconn_start l retry now) w \<Longrightarrow> reconn_inv retry now w"
  by (rule reconn_reaches_inv [OF _ reconn_start_inv])

text \<open>A concrete run: the link fails, an early and a late try fail, the next one succeeds.\<close>

definition reconn_next :: "nat \<Rightarrow> 'l surroundings \<Rightarrow> 'l reconn_run \<Rightarrow> 'l reconn_run" where
  "reconn_next timeout e w =
     (case reconn_recv timeout e (rr_conn w) of (r, asked, slept, s') \<Rightarrow>
        w\<lparr>rr_conn := s', rr_clock := max (sr_after e) (sr_now e + slept),
          rr_tries := (if asked then rr_tries w @ [sr_now e] else rr_tries w),
          rr_last := (case (asked, sr_reopen e) of (True, Inr l) \<Rightarrow> l | _ \<Rightarrow> rr_last w)\<rparr>)"

lemma reconn_next_step:
  assumes "rr_clock w \<le> sr_now e" and "sr_now e \<le> sr_after e"
  shows "reconn_step w (reconn_next timeout e w)"
proof -
  obtain r asked slept s' where r: "reconn_recv timeout e (rr_conn w) = (r, asked, slept, s')"
    by (cases "reconn_recv timeout e (rr_conn w)") auto
  show ?thesis
    using reconn_step.receive [OF assms r] by (simp only: reconn_next_def r prod.case)
qed

definition sr_fails :: "nat \<Rightarrow> nat surroundings" where
  "sr_fails t = \<lparr>sr_now = t, sr_recv = Inl Timeout, sr_after = t, sr_reopen = Inl Timeout\<rparr>"

definition lost_run :: "nat reconn_run" where
  "lost_run = \<lparr>rr_conn = \<lparr>rc_inner = None, rc_slot = None, rc_link = False, rc_retry = 1000,
      rc_next_try = 2200, rc_opened = 0\<rparr>, rr_clock = 1400, rr_tries = [1200], rr_last = 7\<rparr>"

lemma lost_run_steps:
  "lost_run = reconn_next 200 (sr_fails 1200) (reconn_next 200 (sr_fails 900)
     (reconn_next 200 (sr_fails 5) (reconn_start 7 1000 0)))"
  by (simp add: reconn_next_def sr_fails_def reconn_recv_def reconn_start_def reconn_split_def
      lost_run_def)

lemma lost_run_reached: "reconn_reaches (reconn_start 7 1000 0) lost_run"
proof -
  let ?w0 = "reconn_start (7 :: nat) 1000 0"
  let ?w1 = "reconn_next 200 (sr_fails 5) ?w0" let ?w2 = "reconn_next 200 (sr_fails 900) ?w1"
  have c: "rr_clock ?w0 = 0" "rr_clock ?w1 = 5" "rr_clock ?w2 = 1000"
    by (simp_all add: reconn_next_def sr_fails_def reconn_recv_def reconn_start_def reconn_split_def)
  have n: "sr_now (sr_fails t) = t" "sr_after (sr_fails t) = t" for t
    by (simp_all add: sr_fails_def)
  have "reconn_step ?w0 ?w1" "reconn_step ?w1 ?w2" "reconn_step ?w2 lost_run"
    unfolding lost_run_steps by (rule reconn_next_step; simp add: c n)+
  then show ?thesis by (meson reconn_reaches.intros)
qed

section \<open>Properties\<close>

text \<open>However the link comes and goes, both halves are those of the link opened last or
  both are dropped, and the connected flag says which; a frame is sent on that link, or fails
  at once when there is none.\<close>

theorem reconnecting_halves_agree:
  assumes "reconn_reaches (reconn_start l retry now) w"
  shows "rc_slot (rr_conn w) = rc_inner (rr_conn w) \<and>
     rc_inner (rr_conn w) \<in> {None, Some (rr_last w)} \<and>
     (rc_link (rr_conn w) \<longleftrightarrow> rc_inner (rr_conn w) \<noteq> None) \<and>
     reconn_send what wire (rr_conn w) f =
       (if rc_link (rr_conn w) then wire (rr_last w) f
        else Inl (Connection (''the '' @ what @ '' is lost'')))"
  using reconn_reachable_inv [OF assms]
  by (cases "rc_inner (rr_conn w)") (auto simp: reconn_inv_def Let_def reconn_send_def)

theorem reconnecting_halves_agree_witness:
  "rc_slot (rr_conn lost_run) = rc_inner (rr_conn lost_run) \<and>
   reconn_send ''USB link'' (\<lambda>l f. Inr ()) (rr_conn lost_run) (0, []) =
     Inl (Connection (''the '' @ ''USB link'' @ '' is lost''))"
  using reconnecting_halves_agree [OF lost_run_reached, of "''USB link''" "\<lambda>l f. Inr ()" "(0, [])"]
  by (simp add: lost_run_def)

text \<open>The opener is asked at most once per retry period, the period after the first open
  included, and never while the link is up; and once the link is lost, a receive a retry
  period later asks it, and gets the link back when it opens.\<close>

theorem reconnecting_retries_paced:
  assumes "reconn_reaches (reconn_start l retry now) w"
  shows "sorted_wrt (\<lambda>a b. a + retry \<le> b) (now # rr_tries w) \<and>
     (rc_link (rr_conn w) \<longrightarrow> \<not> fst (snd (reconn_recv timeout e (rr_conn w)))) \<and>
     (\<not> rc_link (rr_conn w) \<and> rr_clock w + retry \<le> sr_now e \<and> sr_reopen e = Inr l' \<longrightarrow>
        (case reconn_recv timeout e (rr_conn w) of (r, asked, slept, s') \<Rightarrow>
           r = Inr None \<and> asked \<and> rc_link s' \<and> rc_inner s' = Some l' \<and> rc_slot s' = Some l'))"
  using reconn_reachable_inv [OF assms]
  by (auto simp: reconn_inv_def tries_spaced_def Let_def reconn_recv_def split: option.splits sum.splits)

theorem reconnecting_retries_paced_witness:
  "rr_tries lost_run = [1200] \<and> sorted_wrt (\<lambda>a b. a + 1000 \<le> b) (0 # rr_tries lost_run)"
  using reconnecting_retries_paced [OF lost_run_reached, of 0 "sr_fails 3000" 2]
  by (simp add: lost_run_def)

end
