(* ===== verification/Decode.thy ===== *)
theory Decode
  imports Encode
begin

text \<open>
  Raw frames into messages, values and request keys:
  \<open>crates/masterbus/src/protocol/decode.rs\<close> and the frame types of
  \<open>protocol/mod.rs\<close>. Every waiter of the client is found by the key computed here.
\<close>

section \<open>Frames and messages (protocol/mod.rs)\<close>

record mb_frame =
  mf_device_addr :: u32
  mf_can_class :: u8
  mf_data :: bytes

definition mb_frame_can_id :: "mb_frame \<Rightarrow> u32" where
  "mb_frame_can_id f = push_bit 24 (ucast (mf_can_class f)) OR (mf_device_addr f AND 0x00FFFFFF)"

datatype mb_message =
    DeviceBroadcast u32 u8 u8 u16
  | MonitoringReq u32 u8 u8
  | MonitoringData u32 u8 u8 bytes
  | UnknownMsg u32 u8 bytes

section \<open>Decoding (protocol/decode.rs)\<close>

definition frame_from_raw :: "u32 \<Rightarrow> bytes \<Rightarrow> mb_frame" where
  "frame_from_raw raw_can_id data =
     (let can_id = raw_can_id AND 0x1FFFFFFF
      in \<lparr>mf_device_addr = can_id AND 0x00FFFFFF,
          mf_can_class = ucast (drop_bit 24 can_id AND 0x1F),
          mf_data = data\<rparr>)"

definition parse_broadcast :: "u32 \<Rightarrow> bytes \<Rightarrow> mb_message" where
  "parse_broadcast device_addr data =
     (if length data < 6 then UnknownMsg device_addr 0x04 data
      else DeviceBroadcast device_addr (data ! 0) (data ! 3)
             (u16_from_le_bytes (data ! 4) (data ! 5)))"

definition parse_monitoring :: "u32 \<Rightarrow> u8 \<Rightarrow> bytes \<Rightarrow> mb_message" where
  "parse_monitoring device_addr c data =
     (if length data < 2 then UnknownMsg device_addr c data
      else if length data = 2 then MonitoringReq device_addr (data ! 0) (data ! 1)
      else if 6 \<le> length data then MonitoringData device_addr (data ! 0) (data ! 1) (drop 2 data)
      else UnknownMsg device_addr c data)"

definition parse_frame :: "mb_frame \<Rightarrow> mb_message" where
  "parse_frame f =
     (let addr = mf_device_addr f; data = mf_data f; c = mf_can_class f
      in if c = 0x04 then parse_broadcast addr data
         else if c = 0x08 \<or> c = 0x18 then parse_monitoring addr c data
         else UnknownMsg addr c data)"

definition time_unknown :: time where
  "time_unknown = \<lparr>t_sec = -1, t_min = 0, t_hour = 0, t_days = 0\<rparr>"

definition date_unknown :: date where
  "date_unknown = \<lparr>d_day = -1, d_mon = -1, d_year = -1\<rparr>"

definition decode_time :: "int \<Rightarrow> time" where
  "decode_time t =
     \<lparr>t_sec = as_i32 (trem t 60), t_min = as_i32 (tdiv (trem t 3600) 60),
      t_hour = as_i32 (tdiv (trem t 86400) 3600), t_days = word_of_int (tdiv t 86400)\<rparr>"

definition decode_date :: "int \<Rightarrow> date" where
  "decode_date t =
     \<lparr>d_day = as_i32 (trem t 32), d_mon = as_i32 (trem (tdiv t 32) 13),
      d_year = as_i32 (tdiv t 416)\<rparr>"

text \<open>The first byte, or 0; and an index as a single where four bytes are there.\<close>

definition first_byte :: "bytes \<Rightarrow> int" where
  "first_byte raw = (case raw of [] \<Rightarrow> 0 | b # _ \<Rightarrow> int (unat b))"

definition index_of :: "bytes \<Rightarrow> int" where
  "index_of raw = (if 4 \<le> length raw then f32_round_as_i32 (le32_at raw 0) else first_byte raw)"

definition text_sid :: "f32 \<Rightarrow> u16" where
  "text_sid f =
     (if f32_is_finite f \<and> f32_le f32_zero f \<and> f32_le f 0x477FFF00 then f32_round_as_u16 f else 0)"

fun decode_value :: "bytes \<Rightarrow> viz \<Rightarrow> bus_value" where
  "decode_value raw Viz_Float = Float (if length raw < 4 then f32_nan else le32_at raw 0)"
| "decode_value raw GrayVisualization = Float (if length raw < 4 then f32_nan else le32_at raw 0)"
| "decode_value raw CheckBox = Boolean (list_ex (\<lambda>b. b \<noteq> 0) (take 4 raw))"
| "decode_value raw ToggleButton = Boolean (list_ex (\<lambda>b. b \<noteq> 0) (take 4 raw))"
| "decode_value raw PushButton = Boolean (list_ex (\<lambda>b. b \<noteq> 0) (take 4 raw))"
| "decode_value raw Viz_Time =
     Time (if length raw < 4 then time_unknown
           else let f = le32_at raw 0
                in if \<not> f32_is_finite f then time_unknown else decode_time (f32_as_i64 f))"
| "decode_value raw Viz_Date =
     Date (if length raw < 4 then date_unknown
           else let f = le32_at raw 0
                in if \<not> f32_is_finite f then date_unknown else decode_date (f32_as_i64 f))"
| "decode_value raw Radio = List (index_of raw) []"
| "decode_value raw DropDown = List (index_of raw) []"
| "decode_value raw Viz_Eventable = Eventable (first_byte raw) []"
| "decode_value raw DeviceList = DeviceRef (index_of raw) []"
| "decode_value raw EventCommand = List (index_of raw) []"
| "decode_value raw Viz_Text =
     (if length raw < 4 then Text 0 [] else Text (text_sid (le32_at raw 0)) [])"

section \<open>Request keys\<close>

definition p_key :: "u32 \<Rightarrow> u8 \<Rightarrow> u8 \<Rightarrow> string" where
  [key_defs]: "p_key addr a b =
     join_colon [''p'', fmt_hex 6 (unat addr), fmt_hex 2 (unat a), fmt_hex 2 (unat b)]"

definition str_key :: "u32 \<Rightarrow> u16 \<Rightarrow> u8 \<Rightarrow> string" where
  [key_defs]: "str_key addr sid sq =
     join_colon [''str'', fmt_hex 6 (unat addr), fmt_hex 4 (unat sid), fmt_dec (unat sq)]"

definition waiter_key_for_frame :: "u8 \<Rightarrow> u32 \<Rightarrow> bytes \<Rightarrow> string option" where
  "waiter_key_for_frame c device_addr data =
     (if c = 0x06 then
        (if length data < 2 then None
         else if device_addr AND HIGH \<noteq> 0 then
           (if length data = 2 \<and> data ! 0 = 0x08 \<and> 0x3F \<le> data ! 1
            then Some (p_key (device_addr AND NOT HIGH) 0x08 (data ! 1)) else None)
         else if data ! 0 = 0x30 \<and> 4 \<le> length data
           then Some (str_key device_addr (u16_from_le_bytes (data ! 1) (data ! 2)) (data ! 3))
         else Some (p_key device_addr (data ! 0) (data ! 1)))
      else tab_waiter_key c device_addr data)"

section \<open>Facts\<close>

lemma frame_from_raw_can_id:
  "fr = frame_from_raw raw data \<Longrightarrow>
     mb_frame_can_id fr = raw AND 0x1FFFFFFF \<and> mf_data fr = data"
proof
  assume fr: "fr = frame_from_raw raw data"
  show "mb_frame_can_id fr = raw AND 0x1FFFFFFF"
    unfolding fr
    by (rule bit_word_eqI)
       (auto simp: mb_frame_can_id_def frame_from_raw_def Let_def mask_simps bit_simps)
  show "mf_data fr = data" unfolding fr by (simp add: frame_from_raw_def Let_def)
qed

lemma first_byte_bounds: "0 \<le> first_byte raw \<and> first_byte raw < 256"
  by (auto simp: first_byte_def split: list.splits)

lemma index_of_le_bytes [simp]: "index_of (u32_to_le_bytes f) = f32_round_as_i32 f"
  by (simp add: index_of_def)

lemma index_of_bounds: "- (2 ^ 31) \<le> index_of raw \<and> index_of raw < 2 ^ 31"
  using f32_round_as_i32_bounds [of "le32_at raw 0"] first_byte_bounds [of raw]
  by (auto simp: index_of_def)

text \<open>What a frame sent on a wire to or from a device's real address decodes to.\<close>

lemma bit_23_HIGH: "bit HIGH n \<longleftrightarrow> n = 23"
proof -
  have "HIGH = push_bit 23 1" by (simp add: HIGH_def)
  show ?thesis
    unfolding \<open>HIGH = push_bit 23 1\<close> bit_push_bit_iff by (auto simp: bit_1_iff)
qed

lemma wire_class_lt: "w_class (ex_info (exchange m k)) < 32" "w_class (ex_na (exchange m k)) < 32"
  "w_class (ex_req (exchange m k)) < 32"
  by (cases m; cases k; simp add: wire_defs)+

lemma real_addr_bits: "addr < 0x800000 \<Longrightarrow> bit addr n \<Longrightarrow> n < 23" for addr :: u32
proof -
  assume "addr < 0x800000" "bit addr n"
  then have "take_bit 23 addr = addr" using less_mask_eq [of addr 23] by (simp add: take_bit_eq_mask)
  then show ?thesis using \<open>bit addr n\<close> by (metis bit_take_bit_iff)
qed

lemma byte_lt_32_bits: "c < 32 \<Longrightarrow> bit c n \<Longrightarrow> n < 5" for c :: u8
proof -
  assume "c < 32" "bit c n"
  then have "take_bit 5 c = c" using less_mask_eq [of c 5] by (simp add: take_bit_eq_mask)
  then show ?thesis using \<open>bit c n\<close> by (metis bit_take_bit_iff)
qed

lemma frame_from_wire:
  assumes "addr < 0x800000" "w_class w < 32"
  shows "frame_from_raw (wire_can_id w addr) data =
    \<lparr>mf_device_addr = (if w_high w then addr OR HIGH else addr), mf_can_class = w_class w, mf_data = data\<rparr>"
proof -
  have hi: "bit addr n \<Longrightarrow> n < 23" for n using assms(1) real_addr_bits by blast
  have cl: "bit (w_class w) n \<Longrightarrow> n < 5" for n using assms(2) byte_lt_32_bits by blast
  have "mf_device_addr (frame_from_raw (wire_can_id w addr) data) = (if w_high w then addr OR HIGH else addr)"
    by (rule bit_word_eqI) (auto simp: frame_from_raw_def wire_can_id_def Let_def mask_simps bit_simps bit_23_HIGH dest: hi cl)
  moreover have "mf_can_class (frame_from_raw (wire_can_id w addr) data) = w_class w"
    by (rule bit_word_eqI) (auto simp: frame_from_raw_def wire_can_id_def Let_def mask_simps bit_simps bit_23_HIGH dest: hi cl)
  ultimately show ?thesis by (simp add: frame_from_raw_def Let_def)
qed

end
