(* ===== verification/Keys.thy ===== *)
theory Keys
  imports Decode
begin

text \<open>
  Requests and their keys. A MasterBus answer carries no token, so the client registers a
  key before it sends a request and computes a key from every incoming frame
  (\<open>waiter_key_for_frame\<close>, \<open>value_key\<close>). This theory puts the requests of
  \<open>encode.rs\<close> side by side with the keys \<open>discovery.rs\<close> and \<open>scheduler.rs\<close>
  register for them, and shows that the two computations meet and never cross.
\<close>

definition value_key :: "u32 \<Rightarrow> field_id \<Rightarrow> string" where
  [key_defs]: "value_key addr field =
     join_colon [''val'', fmt_hex 6 (unat addr), fmt_hex 4 (unat field)]"

datatype request =
    ReqP u8 u8
  | ReqStr u16 u8
  | ReqGroup menu u8 u8
  | ReqGroupField menu u8 u8
  | ReqProp menu u8 u8
  | ReqOption menu u8 u8
  | ReqValue field_id

text \<open>The key registered for a request, and the request as it goes on the wire.\<close>

fun request_key :: "u32 \<Rightarrow> request \<Rightarrow> string" where
  "request_key addr (ReqP a b) = p_key addr a b"
| "request_key addr (ReqStr sid sq) = str_key addr sid sq"
| "request_key addr (ReqGroup m op g) = group_key m addr op g"
| "request_key addr (ReqGroupField m g i) = group_field_key m addr g i"
| "request_key addr (ReqProp m op i) = property_key m addr op i"
| "request_key addr (ReqOption m i opt) = option_key m addr i opt"
| "request_key addr (ReqValue fid) = value_key addr fid"

fun request_frame :: "u32 \<Rightarrow> request \<Rightarrow> frame" where
  "request_frame addr (ReqP a b) = (can_id_of 0x07 addr, [a, b])"
| "request_frame addr (ReqStr sid sq) = string_chunk_req_raw addr sid sq"
| "request_frame addr (ReqGroup m op g) = group_req_raw m addr op g"
| "request_frame addr (ReqGroupField m g i) = group_field_id_req_raw m addr g i"
| "request_frame addr (ReqProp m op i) = property_req_raw m addr op i"
| "request_frame addr (ReqOption m i opt) = property_option_req_raw m addr i opt"
| "request_frame addr (ReqValue fid) =
     value_read_raw (field_id_menu fid) addr (field_id_index fid)"

text \<open>
  The wire a device answers on (\<open>na\<close>: its ``not available'' answer). Answers to the
  class-7 requests come on class 6 from the real address.
\<close>

fun answer_wire :: "bool \<Rightarrow> request \<Rightarrow> wire" where
  "answer_wire na (ReqP a b) = wire_real 0x06"
| "answer_wire na (ReqStr sid sq) = wire_real 0x06"
| "answer_wire na (ReqGroup m op g) =
     (if na then ex_na (exchange m Group) else ex_info (exchange m Group))"
| "answer_wire na (ReqGroupField m g i) =
     (if na then ex_na (exchange m Group) else ex_info (exchange m Group))"
| "answer_wire na (ReqProp m op i) =
     (if na then ex_na (exchange m Property) else ex_info (exchange m Property))"
| "answer_wire na (ReqOption m i opt) =
     (if na then ex_na (exchange m Property) else ex_info (exchange m Property))"
| "answer_wire na (ReqValue fid) =
     (if na then ex_na (exchange (field_id_menu fid) Data)
      else ex_info (exchange (field_id_menu fid) Data))"

text \<open>The opcodes the client uses each request shape with.\<close>

fun discovery_request :: "request \<Rightarrow> bool" where
  "discovery_request (ReqP a b) = (a \<noteq> 0x30)"
| "discovery_request (ReqStr sid sq) = True"
| "discovery_request (ReqGroup m op g) = (op \<noteq> 0x03)"
| "discovery_request (ReqGroupField m g i) = True"
| "discovery_request (ReqProp m op i) = (op \<noteq> 0x26)"
| "discovery_request (ReqOption m i opt) = True"
| "discovery_request (ReqValue fid) = False"

section \<open>Keys never cross\<close>

lemma no_colon_literals [simp]:
  "no_colon ''p''" "no_colon ''str''" "no_colon ''group''" "no_colon ''prop''" "no_colon ''val''"
  "no_colon ''03''" "no_colon ''26''"
  by (simp_all add: no_colon_def)

lemma request_key_inject:
  "request_key a r = request_key a' r' \<longleftrightarrow> a = a' \<and> r = r'"
  by (cases r; cases r') (auto simp: key_defs join_colon_inject simp del: join_colon.simps
      intro: unsigned_word_eqI)

section \<open>An answer finds its request\<close>

lemma and_not_HIGH: "a < 0x800000 \<Longrightarrow> a AND NOT HIGH = a" "a < 0x800000 \<Longrightarrow> a AND HIGH = 0"
  "a < 0x800000 \<Longrightarrow> (a OR HIGH) AND NOT HIGH = a" "(a OR HIGH) AND HIGH \<noteq> 0" for a :: u32
proof -
  assume a: "a < 0x800000"
  have hi: "bit a n \<Longrightarrow> n < 23" for n using a real_addr_bits by blast
  show "a AND NOT HIGH = a" "a AND HIGH = 0" "(a OR HIGH) AND NOT HIGH = a"
    by (rule bit_word_eqI; auto simp: bit_simps bit_23_HIGH dest: hi)+
next
  have "bit ((a OR HIGH) AND HIGH) 23" by (simp add: bit_simps bit_23_HIGH)
  then show "(a OR HIGH) AND HIGH \<noteq> 0" by auto
qed

lemma HIGH_not_0 [simp]: "HIGH \<noteq> 0"
  by (simp add: HIGH_def)

lemma wire_is_decoded:
  "a < 0x800000 \<Longrightarrow> wire_is w c (if w_high w then a OR HIGH else a) \<longleftrightarrow> w_class w = c"
  by (auto simp: wire_is_def and_not_HIGH)

lemma decoded_addr: "a < 0x800000 \<Longrightarrow> (if h then a OR HIGH else a) AND NOT HIGH = a"
  by (simp add: and_not_HIGH)

lemma exchange_class_not_property: "w_class (ex_info (exchange m k)) \<noteq> 0x06"
  "w_class (ex_na (exchange m k)) \<noteq> 0x06"
  by (cases m; cases k; simp add: wire_defs)+

text \<open>Whatever half an answer came from, its key is computed from the real address.\<close>

lemma tab_key_of_answer:
  assumes "a < 0x800000"
    and "w = (if na then ex_na (exchange m k) else ex_info (exchange m k))"
  shows "answer (w_class w) (if w_high w then a OR HIGH else a) = Some (m, k, na)"
  using assms wire_is_decoded [of a w "w_class w"] by (simp add: answer_iff)

lemma answer_finds_request_lemma:
  assumes a: "a < 0x800000" and r: "discovery_request r"
    and fr: "fr = frame_from_raw (wire_can_id (answer_wire na r) a) (snd (request_frame a r) @ rest)"
  shows "waiter_key_for_frame (mf_can_class fr) (mf_device_addr fr) (mf_data fr) =
           Some (request_key a r)"
proof -
  have w: "w_class (answer_wire na r) < 32"
    by (cases r) (simp_all add: wire_class_lt wire_real_def)
  note fr' = fr [unfolded frame_from_wire [OF a w]]
  show ?thesis
  proof (cases r)
    case (ReqP x y)
    with r show ?thesis
      by (simp add: fr' wire_real_def waiter_key_for_frame_def and_not_HIGH a)
  next
    case (ReqStr sid sq)
    then show ?thesis
      by (simp add: fr' wire_real_def waiter_key_for_frame_def and_not_HIGH a
          string_chunk_req_raw_def u16_to_le_bytes_def)
  next
    case (ReqGroup m op g)
    with r show ?thesis
      using tab_key_of_answer [OF a, of _ na m Group] exchange_class_not_property [of m Group]
      by (simp add: fr' waiter_key_for_frame_def tab_waiter_key_def group_req_raw_def decoded_addr [OF a])
  next
    case (ReqGroupField m g i)
    then show ?thesis
      using tab_key_of_answer [OF a, of _ na m Group] exchange_class_not_property [of m Group]
      by (simp add: fr' waiter_key_for_frame_def tab_waiter_key_def group_field_id_req_raw_def decoded_addr [OF a])
  next
    case (ReqProp m op i)
    with r show ?thesis
      using tab_key_of_answer [OF a, of _ na m Property] exchange_class_not_property [of m Property]
      by (simp add: fr' waiter_key_for_frame_def tab_waiter_key_def property_req_raw_def decoded_addr [OF a])
  next
    case (ReqOption m i opt)
    then show ?thesis
      using tab_key_of_answer [OF a, of _ na m Property] exchange_class_not_property [of m Property]
      by (simp add: fr' waiter_key_for_frame_def tab_waiter_key_def property_option_req_raw_def decoded_addr [OF a])
  qed (use r in simp)
qed

end
