(* ===== verification/Waiter.thy ===== *)
theory Waiter
  imports Prelude
begin

text \<open>
  Request/response correlation: \<open>crates/masterbus/src/runtime/waiter.rs\<close>. The scheduler
  registers a key before it sends, the reader delivers the payload, the scheduler collects it.
  The operations under the lock are functions on the map; a blocking wait is given the
  reader's actions that happen before its deadline and stops at the first that satisfies it.
\<close>

section \<open>Operations\<close>

record slot =
  sl_data :: "bytes option"
  sl_cancelled :: bool

type_synonym waiter = "string \<rightharpoonup> slot"

definition waiter_new :: waiter where
  "waiter_new = Map.empty"

definition register :: "string \<Rightarrow> waiter \<Rightarrow> waiter" where
  "register k w = w(k \<mapsto> \<lparr>sl_data = None, sl_cancelled = False\<rparr>)"

definition deliver :: "string \<Rightarrow> bytes \<Rightarrow> waiter \<Rightarrow> waiter" where
  "deliver k d w = (case w k of None \<Rightarrow> w | Some s \<Rightarrow> w(k \<mapsto> s\<lparr>sl_data := Some d\<rparr>))"

definition cancel_all :: "waiter \<Rightarrow> waiter" where
  "cancel_all w = (\<lambda>k. map_option (\<lambda>s. s\<lparr>sl_cancelled := True\<rparr>) (w k))"

text \<open>The condition a wait blocks on, and what it does once it no longer holds or the
  deadline has passed.\<close>

definition blocked :: "string \<Rightarrow> waiter \<Rightarrow> bool" where
  "blocked k w = (case w k of None \<Rightarrow> False | Some s \<Rightarrow> sl_data s = None \<and> \<not> sl_cancelled s)"

definition collect :: "string \<Rightarrow> waiter \<Rightarrow> bytes option \<times> waiter" where
  "collect k w =
     ((case w k of None \<Rightarrow> None | Some s \<Rightarrow> if sl_cancelled s then None else sl_data s), w(k := None))"

definition collect_or_keep :: "string \<Rightarrow> waiter \<Rightarrow> bytes option \<times> waiter" where
  "collect_or_keep k w = (if blocked k w then (None, w) else collect k w)"

fun position :: "('a \<Rightarrow> bool) \<Rightarrow> 'a list \<Rightarrow> nat option" where
  "position P [] = None"
| "position P (x # xs) = (if P x then Some 0 else map_option Suc (position P xs))"

definition ready :: "string list \<Rightarrow> waiter \<Rightarrow> nat option" where
  "ready ks w =
     position (\<lambda>k. case w k of None \<Rightarrow> True | Some s \<Rightarrow> sl_data s \<noteq> None \<or> sl_cancelled s) ks"

section \<open>Waiting\<close>

datatype reader_act = Delivered string bytes | Cancelled

fun act :: "reader_act \<Rightarrow> waiter \<Rightarrow> waiter" where
  "act (Delivered k d) w = deliver k d w"
| "act Cancelled w = cancel_all w"

text \<open>\<open>wait_timeout_while\<close>: let the reader act until the condition fails or the deadline
  has passed (the list is exhausted). Gives the actions that happen after it too.\<close>

fun wait_while :: "(waiter \<Rightarrow> bool) \<Rightarrow> reader_act list \<Rightarrow> waiter \<Rightarrow> waiter \<times> reader_act list" where
  "wait_while c [] w = (w, [])"
| "wait_while c (a # as) w = (if c w then wait_while c as (act a w) else (w, a # as))"

definition waiter_wait :: "string \<Rightarrow> reader_act list \<Rightarrow> waiter \<Rightarrow> bytes option \<times> waiter \<times> reader_act list" where
  "waiter_wait k as w =
     (case wait_while (blocked k) as w of (w', rest) \<Rightarrow>
        (case collect k w' of (r, w'') \<Rightarrow> (r, w'', rest)))"

definition waiter_wait_or_keep ::
  "string \<Rightarrow> reader_act list \<Rightarrow> waiter \<Rightarrow> bytes option \<times> waiter \<times> reader_act list" where
  "waiter_wait_or_keep k as w =
     (case wait_while (blocked k) as w of (w', rest) \<Rightarrow>
        (case collect_or_keep k w' of (r, w'') \<Rightarrow> (r, w'', rest)))"

definition waiter_wait_any ::
  "string list \<Rightarrow> reader_act list \<Rightarrow> waiter \<Rightarrow> nat option \<times> waiter \<times> reader_act list" where
  "waiter_wait_any ks as w =
     (case wait_while (\<lambda>w. ready ks w = None) as w of (w', rest) \<Rightarrow> (ready ks w', w', rest))"

section \<open>The contract of a table of replies\<close>

text \<open>What the users rely on: a registered key takes the payload delivered last, a key that
  is not registered takes nothing, and keys do not disturb each other.\<close>

datatype ('k, 'd) table_op = Reg 'k | Del 'k 'd | Take 'k

fun op_key :: "('k, 'd) table_op \<Rightarrow> 'k" where
  "op_key (Reg k) = k"
| "op_key (Del k d) = k"
| "op_key (Take k) = k"

locale reply_table =
  fixes reg :: "'k \<Rightarrow> 't \<Rightarrow> 't"
    and del :: "'k \<Rightarrow> 'd \<Rightarrow> 't \<Rightarrow> 't"
    and take_reply :: "'k \<Rightarrow> 't \<Rightarrow> 'd option \<times> 't"
    and holds :: "'k \<Rightarrow> 't \<Rightarrow> 'd option option"
  assumes holds_reg: "holds k (reg k t) = Some None"
    and holds_del: "holds k (del k d t) = map_option (\<lambda>_. Some d) (holds k t)"
    and take_holds: "fst (take_reply k t) = (case holds k t of Some r \<Rightarrow> r | None \<Rightarrow> None)"
    and holds_take: "holds k (snd (take_reply k t)) = None"
    and other_reg: "k \<noteq> j \<Longrightarrow> holds k (reg j t) = holds k t"
    and other_del: "k \<noteq> j \<Longrightarrow> holds k (del j d t) = holds k t"
    and other_take: "k \<noteq> j \<Longrightarrow> holds k (snd (take_reply j t)) = holds k t"
begin

fun table_step :: "('k, 'd) table_op \<Rightarrow> 't \<Rightarrow> 't" where
  "table_step (Reg k) t = reg k t"
| "table_step (Del k d) t = del k d t"
| "table_step (Take k) t = snd (take_reply k t)"

fun after :: "'k \<Rightarrow> 'd option option \<Rightarrow> ('k, 'd) table_op list \<Rightarrow> 'd option option" where
  "after k h [] = h"
| "after k h (Reg j # es) = after k (if j = k then Some None else h) es"
| "after k h (Del j d # es) = after k (if j = k then map_option (\<lambda>_. Some d) h else h) es"
| "after k h (Take j # es) = after k (if j = k then None else h) es"

lemma holds_after: "holds k (fold table_step es t) = after k (holds k t) es"
proof (induction es arbitrary: t)
  case (Cons e es)
  then show ?case
    by (cases e) (simp_all add: holds_reg holds_del holds_take other_reg other_del other_take)
qed simp

lemma after_quiet:
  "\<forall>e \<in> set es. op_key e \<noteq> k \<or> (\<exists>d. e = Del k d) \<Longrightarrow>
     after k (Some r) es =
       Some (fold (\<lambda>e r. case e of Del j d \<Rightarrow> (if j = k then Some d else r) | _ \<Rightarrow> r) es r)"
proof (induction es arbitrary: r)
  case (Cons e es)
  then show ?case by (cases e) auto
qed simp

lemma reply_kept:
  assumes "\<forall>e \<in> set es. op_key e \<noteq> k \<or> (\<exists>d. e = Del k d)"
  shows "fst (take_reply k (fold table_step es (reg k t))) =
     fold (\<lambda>e r. case e of Del j d \<Rightarrow> (if j = k then Some d else r) | _ \<Rightarrow> r) es None"
  by (simp add: take_holds holds_after holds_reg after_quiet [OF assms])

lemma unregistered_drops:
  assumes "holds k t = None" and "\<forall>e \<in> set es. e \<noteq> Reg k"
  shows "fst (take_reply k (fold table_step es t)) = None"
proof -
  have "after k None es = None" using assms(2)
  proof (induction es)
    case (Cons e es)
    then show ?case by (cases e) auto
  qed simp
  then show ?thesis by (simp add: take_holds holds_after assms(1))
qed

end

text \<open>A cancelled slot takes and gives nothing, as if it were not registered.\<close>

definition slot_holds :: "string \<Rightarrow> waiter \<Rightarrow> bytes option option" where
  "slot_holds k w =
     (case w k of None \<Rightarrow> None | Some s \<Rightarrow> if sl_cancelled s then None else Some (sl_data s))"

fun waiter_step :: "(string, bytes) table_op \<Rightarrow> waiter \<Rightarrow> waiter" where
  "waiter_step (Reg k) w = register k w"
| "waiter_step (Del k d) w = deliver k d w"
| "waiter_step (Take k) w = snd (collect k w)"

interpretation wt: reply_table register deliver collect slot_holds
  by unfold_locales
     (auto simp: register_def deliver_def collect_def slot_holds_def split: option.splits)

lemma waiter_step_table: "waiter_step = wt.table_step"
proof (rule ext, rule ext)
  fix e w
  show "waiter_step e w = wt.table_step e w" by (cases e) simp_all
qed

section \<open>Facts on waiting\<close>

fun concerns :: "string \<Rightarrow> reader_act \<Rightarrow> bool" where
  "concerns k (Delivered j d) = (j = k)"
| "concerns k Cancelled = True"

lemma act_other: "\<not> concerns k a \<Longrightarrow> act a w k = w k"
  by (cases a) (auto simp: deliver_def split: option.splits)

lemma blocked_cong: "w k = w' k \<Longrightarrow> blocked k w = blocked k w'"
  by (simp add: blocked_def)

lemma blocked_register [simp]: "blocked k (register k w)"
  by (simp add: blocked_def register_def)

lemma wait_while_quiet:
  "blocked k w \<Longrightarrow> \<forall>a \<in> set as. \<not> concerns k a \<Longrightarrow>
     wait_while (blocked k) (as @ bs) w = wait_while (blocked k) bs (fold act as w) \<and>
     fold act as w k = w k"
proof (induction as arbitrary: w)
  case (Cons a as)
  then have a: "act a w k = w k" by (simp add: act_other)
  then have "blocked k (act a w)" using Cons.prems(1) blocked_cong by metis
  with Cons a show ?case by simp
qed simp

lemma act_delivers:
  "blocked k w \<Longrightarrow> act (Delivered k d) w k = Some \<lparr>sl_data = Some d, sl_cancelled = False\<rparr>"
  by (auto simp: blocked_def deliver_def split: option.splits)

lemma wait_while_done: "\<not> c w \<Longrightarrow> wait_while c as w = (w, as)"
  by (cases as) simp_all

lemma wait_while_delivered:
  assumes b: "blocked k w" and q: "\<forall>a \<in> set as. \<not> concerns k a"
  shows "wait_while (blocked k) (as @ Delivered k d # bs) w =
     (act (Delivered k d) (fold act as w), bs)"
proof -
  let ?w = "fold act as w"
  have w: "blocked k ?w" using wait_while_quiet [OF b q, of bs] b by (simp add: blocked_def)
  have "\<not> blocked k (act (Delivered k d) ?w)"
    using act_delivers [OF w, of d] by (simp add: blocked_def)
  then show ?thesis
    using wait_while_quiet [OF b q, of "Delivered k d # bs"] w wait_while_done by simp
qed

lemma wait_while_timeout:
  "blocked k w \<Longrightarrow> \<forall>a \<in> set as. \<not> concerns k a \<Longrightarrow>
     wait_while (blocked k) as w = (fold act as w, []) \<and> fold act as w k = w k"
  using wait_while_quiet [of k w as "[]"] by simp

lemma position_Some: "position P xs = Some i \<Longrightarrow> i < length xs \<and> P (xs ! i) \<and> (\<forall>j < i. \<not> P (xs ! j))"
  by (induction xs arbitrary: i) (auto split: if_splits simp: less_Suc_eq_0_disj)

lemma position_None: "position P xs = None \<longleftrightarrow> (\<forall>x \<in> set xs. \<not> P x)"
  by (induction xs) auto

section \<open>Properties\<close>

text \<open>A reply is never lost to the traffic around it: from the registration of a key to its
  collection, whatever else is registered, delivered and collected, the collector gets the
  payload delivered last for its key, and nothing when there was none; what arrives for a key
  nobody registered is dropped.\<close>

theorem waiter_keeps_replies:
  "((\<forall>e \<in> set es. op_key e \<noteq> k \<or> (\<exists>d. e = Del k d)) \<longrightarrow>
     fst (collect k (fold waiter_step es (register k w))) =
       fold (\<lambda>e r. case e of Del j d \<Rightarrow> (if j = k then Some d else r) | _ \<Rightarrow> r) es None) \<and>
   (w k = None \<and> (\<forall>e \<in> set es. e \<noteq> Reg k) \<longrightarrow> fst (collect k (fold waiter_step es w)) = None)"
  unfolding waiter_step_table
  by (auto intro!: wt.reply_kept wt.unregistered_drops simp: slot_holds_def)

theorem waiter_keeps_replies_witness:
  "fst (collect ''a'' (fold waiter_step [Del ''b'' [1], Reg ''b'', Del ''a'' [2], Del ''b'' [3],
       Take ''b''] (register ''a'' waiter_new))) = Some [2]"
  using waiter_keeps_replies [of "[Del ''b'' [1], Reg ''b'', Del ''a'' [2], Del ''b'' [3], Take ''b'']"
      "''a''" waiter_new] by simp

text \<open>A wait returns the first reply to its key, at the moment it is delivered, leaving
  nothing behind; when none comes before its deadline, \<open>wait\<close> forgets the key, so a later reply
  is dropped, and \<open>wait_or_keep\<close> leaves it registered, so a later wait collects that reply.\<close>

theorem waiter_wait_returns_first_reply:
  assumes "\<forall>a \<in> set as. \<not> concerns k a"
  shows "fst (waiter_wait k (as @ Delivered k d # bs) (register k w)) = Some d \<and>
     snd (snd (waiter_wait k (as @ Delivered k d # bs) (register k w))) = bs \<and>
     fst (snd (waiter_wait k (as @ Delivered k d # bs) (register k w))) k = None \<and>
     (case waiter_wait k as (register k w) of (r, w', rest) \<Rightarrow>
        r = None \<and> rest = [] \<and> fst (waiter_wait k (Delivered k d # bs) w') = None) \<and>
     (case waiter_wait_or_keep k as (register k w) of (r, w', rest) \<Rightarrow>
        r = None \<and> rest = [] \<and> fst (waiter_wait k (Delivered k d # bs) w') = Some d)"
proof -
  let ?w = "register k w" let ?w' = "fold act as ?w"
  note hit = wait_while_delivered [OF blocked_register assms, of d bs w]
  note miss = wait_while_timeout [OF blocked_register assms, of w]
  have b: "blocked k ?w'" using miss by (simp add: blocked_def register_def)
  have got: "act (Delivered k d) ?w' k = Some \<lparr>sl_data = Some d, sl_cancelled = False\<rparr>"
    by (rule act_delivers [OF b])
  have first: "waiter_wait k (as @ Delivered k d # bs) ?w =
      (Some d, (act (Delivered k d) ?w')(k := None), bs)"
    using hit got by (simp add: waiter_wait_def collect_def)
  have gone: "waiter_wait k as ?w = (None, ?w'(k := None), [])"
    using miss by (simp add: waiter_wait_def collect_def register_def)
  have kept: "waiter_wait_or_keep k as ?w = (None, ?w', [])"
    using miss b by (simp add: waiter_wait_or_keep_def collect_or_keep_def)
  have late: "fst (waiter_wait k (Delivered k d # bs) ?w') = Some d"
    using wait_while_delivered [OF b, of "[]" d bs] got
    by (simp add: waiter_wait_def collect_def)
  have drop: "fst (waiter_wait k (Delivered k d # bs) (?w'(k := None))) = None"
    by (simp add: waiter_wait_def blocked_def collect_def)
  show ?thesis using first gone kept late drop by simp
qed

theorem waiter_wait_returns_first_reply_witness:
  "fst (waiter_wait ''a'' [Delivered ''b'' [1], Delivered ''a'' [2], Delivered ''a'' [3]]
      (register ''a'' (register ''b'' waiter_new))) = Some [2]"
  using waiter_wait_returns_first_reply [of "[Delivered ''b'' [1]]" "''a''" "[2]"
      "[Delivered ''a'' [3]]" "register ''b'' waiter_new"] by simp

end
