(* ===== verification/DevState.thy ===== *)
theory DevState
  imports Model
begin

text \<open>
  The shared device table: \<open>crates/masterbus/src/runtime/state.rs\<close>. One function per method,
  on the map the mutex guards; \<open>Instant::now()\<close> is the argument \<open>now\<close>, in milliseconds.
\<close>

section \<open>State\<close>

record cached_value =
  cv_value :: bus_value
  cv_at :: nat
  cv_outdated :: bool

type_synonym catalog_table = "u16 \<rightharpoonup> string"

record device_entry =
  de_addr :: u32
  de_first_seen :: nat
  de_last_seen :: nat
  de_type_code :: u8
  de_fw_hint :: u16
  de_identity :: "device_identity option"
  de_access_level :: "access_level option"
  de_schema :: "device_schema option"
  de_menus :: "menu set"
  de_all_fields :: "field_info list option"
  de_extra_fields :: "field_id \<rightharpoonup> field_info"
  de_values :: "field_id \<rightharpoonup> cached_value"
  de_catalog_attempted :: bool
  de_catalog_table :: "catalog_table option"

definition device_entry_new :: "u32 \<Rightarrow> nat \<Rightarrow> device_entry" where
  "device_entry_new addr now =
     \<lparr>de_addr = addr, de_first_seen = now, de_last_seen = now, de_type_code = 0, de_fw_hint = 0,
      de_identity = None, de_access_level = None, de_schema = None, de_menus = {},
      de_all_fields = None, de_extra_fields = Map.empty, de_values = Map.empty,
      de_catalog_attempted = False, de_catalog_table = None\<rparr>"

type_synonym dev_table = "u32 \<rightharpoonup> device_entry"

text \<open>\<open>entry(addr).or_insert_with(new)\<close>, then a change; and a change only if there.\<close>

definition entry_or_new :: "nat \<Rightarrow> u32 \<Rightarrow> (device_entry \<Rightarrow> device_entry) \<Rightarrow> dev_table \<Rightarrow> dev_table" where
  "entry_or_new now addr f st =
     st(addr \<mapsto> f (case st addr of Some e \<Rightarrow> e | None \<Rightarrow> device_entry_new addr now))"

definition entry_if :: "u32 \<Rightarrow> (device_entry \<Rightarrow> device_entry) \<Rightarrow> dev_table \<Rightarrow> dev_table" where
  "entry_if addr f st = (case st addr of None \<Rightarrow> st | Some e \<Rightarrow> st(addr \<mapsto> f e))"

section \<open>Operations\<close>

definition state_new :: dev_table where
  "state_new = Map.empty"

definition mark_alive :: "nat \<Rightarrow> u32 \<Rightarrow> u8 \<Rightarrow> u16 \<Rightarrow> dev_table \<Rightarrow> dev_table" where
  "mark_alive now addr type_code fw_hint =
     entry_or_new now addr
       (\<lambda>e. e\<lparr>de_last_seen := now, de_type_code := type_code, de_fw_hint := fw_hint\<rparr>)"

definition touch :: "nat \<Rightarrow> u32 \<Rightarrow> dev_table \<Rightarrow> dev_table" where
  "touch now addr = entry_or_new now addr (\<lambda>e. e\<lparr>de_last_seen := now\<rparr>)"

definition put_value :: "nat \<Rightarrow> u32 \<Rightarrow> field_id \<Rightarrow> bus_value \<Rightarrow> dev_table \<Rightarrow> dev_table" where
  "put_value now addr fid v =
     entry_or_new now addr
       (\<lambda>e. e\<lparr>de_values := (de_values e)(fid \<mapsto> \<lparr>cv_value = v, cv_at = now, cv_outdated = False\<rparr>)\<rparr>)"

definition mark_outdated :: "u32 \<Rightarrow> field_id \<Rightarrow> dev_table \<Rightarrow> dev_table" where
  "mark_outdated addr fid =
     entry_if addr
       (\<lambda>e. case de_values e fid of
              None \<Rightarrow> e
            | Some v \<Rightarrow> e\<lparr>de_values := (de_values e)(fid \<mapsto> v\<lparr>cv_outdated := True\<rparr>)\<rparr>)"

definition get_value :: "u32 \<Rightarrow> field_id \<Rightarrow> dev_table \<Rightarrow> cached_value option" where
  "get_value addr fid st = (case st addr of None \<Rightarrow> None | Some e \<Rightarrow> de_values e fid)"

definition put_identity :: "nat \<Rightarrow> u32 \<Rightarrow> device_identity \<Rightarrow> dev_table \<Rightarrow> dev_table" where
  "put_identity now addr i = entry_or_new now addr (\<lambda>e. e\<lparr>de_identity := Some i\<rparr>)"

definition has_identity :: "u32 \<Rightarrow> dev_table \<Rightarrow> bool" where
  "has_identity addr st =
     (case st addr of None \<Rightarrow> False | Some e \<Rightarrow> de_identity e \<noteq> None \<or> de_schema e \<noteq> None)"

definition state_identity :: "u32 \<Rightarrow> dev_table \<Rightarrow> device_identity option" where
  "state_identity addr st =
     (case st addr of
        None \<Rightarrow> None
      | Some e \<Rightarrow> (case de_schema e of Some s \<Rightarrow> Some (schema_identity s) | None \<Rightarrow> de_identity e))"

definition catalog_attempted :: "u32 \<Rightarrow> dev_table \<Rightarrow> bool" where
  "catalog_attempted addr st = (case st addr of None \<Rightarrow> False | Some e \<Rightarrow> de_catalog_attempted e)"

definition state_catalog_table :: "u32 \<Rightarrow> dev_table \<Rightarrow> catalog_table option" where
  "state_catalog_table addr st = (case st addr of None \<Rightarrow> None | Some e \<Rightarrow> de_catalog_table e)"

definition put_catalog :: "nat \<Rightarrow> u32 \<Rightarrow> catalog_table option \<Rightarrow> dev_table \<Rightarrow> dev_table" where
  "put_catalog now addr table =
     entry_or_new now addr (\<lambda>e. e\<lparr>de_catalog_attempted := True, de_catalog_table := table\<rparr>)"

definition state_access_level :: "u32 \<Rightarrow> dev_table \<Rightarrow> access_level option" where
  "state_access_level addr st = (case st addr of None \<Rightarrow> None | Some e \<Rightarrow> de_access_level e)"

definition put_access_level :: "nat \<Rightarrow> u32 \<Rightarrow> access_level \<Rightarrow> dev_table \<Rightarrow> dev_table" where
  "put_access_level now addr l = entry_or_new now addr (\<lambda>e. e\<lparr>de_access_level := Some l\<rparr>)"

definition no_identity :: device_identity where
  "no_identity = \<lparr>di_article = [], di_serial = [], di_revision = [], di_name = [], di_firmware = []\<rparr>"

definition put_menu :: "nat \<Rightarrow> u32 \<Rightarrow> menu \<Rightarrow> group_info list \<Rightarrow> dev_table \<Rightarrow> dev_table" where
  "put_menu now addr m groups =
     entry_or_new now addr
       (\<lambda>e. let i = (case de_identity e of Some i \<Rightarrow> i | None \<Rightarrow> no_identity);
                s = (case de_schema e of Some s \<Rightarrow> s | None \<Rightarrow> schema_from_identity i [])
            in e\<lparr>de_schema := Some (s\<lparr>ds_groups := filter (\<lambda>g. gi_menu g \<noteq> m) (ds_groups s) @ groups\<rparr>),
                 de_menus := insert m (de_menus e)\<rparr>)"

definition has_menu :: "u32 \<Rightarrow> menu \<Rightarrow> dev_table \<Rightarrow> bool" where
  "has_menu addr m st = (case st addr of None \<Rightarrow> False | Some e \<Rightarrow> m \<in> de_menus e)"

definition has_menus :: "u32 \<Rightarrow> menu list \<Rightarrow> dev_table \<Rightarrow> bool" where
  "has_menus addr ms st =
     (case st addr of None \<Rightarrow> False | Some e \<Rightarrow> list_all (\<lambda>m. m \<in> de_menus e) ms)"

definition state_field_info :: "u32 \<Rightarrow> field_id \<Rightarrow> dev_table \<Rightarrow> field_info option" where
  "state_field_info addr fid st =
     (case st addr of
        None \<Rightarrow> None
      | Some e \<Rightarrow>
          (case (case de_schema e of None \<Rightarrow> None | Some s \<Rightarrow> schema_field s fid) of
             Some f \<Rightarrow> Some f
           | None \<Rightarrow>
               (case (case de_all_fields e of None \<Rightarrow> None
                      | Some fs \<Rightarrow> find (\<lambda>f. fi_index f = fid) fs) of
                  Some f \<Rightarrow> Some f
                | None \<Rightarrow> de_extra_fields e fid)))"

definition has_field :: "u32 \<Rightarrow> field_id \<Rightarrow> dev_table \<Rightarrow> bool" where
  "has_field addr fid st \<longleftrightarrow> state_field_info addr fid st \<noteq> None"

definition put_extra_field :: "nat \<Rightarrow> u32 \<Rightarrow> field_info \<Rightarrow> dev_table \<Rightarrow> dev_table" where
  "put_extra_field now addr f =
     entry_or_new now addr (\<lambda>e. e\<lparr>de_extra_fields := (de_extra_fields e)(fi_index f \<mapsto> f)\<rparr>)"

definition state_schema :: "u32 \<Rightarrow> dev_table \<Rightarrow> device_schema option" where
  "state_schema addr st = (case st addr of None \<Rightarrow> None | Some e \<Rightarrow> de_schema e)"

definition forget_schema :: "u32 \<Rightarrow> dev_table \<Rightarrow> dev_table" where
  "forget_schema addr =
     entry_if addr
       (\<lambda>e. e\<lparr>de_schema := None, de_menus := {}, de_all_fields := None,
              de_extra_fields := Map.empty\<rparr>)"

definition has_all_fields :: "u32 \<Rightarrow> dev_table \<Rightarrow> bool" where
  "has_all_fields addr st = (case st addr of None \<Rightarrow> False | Some e \<Rightarrow> de_all_fields e \<noteq> None)"

definition state_all_fields :: "u32 \<Rightarrow> dev_table \<Rightarrow> field_info list option" where
  "state_all_fields addr st = (case st addr of None \<Rightarrow> None | Some e \<Rightarrow> de_all_fields e)"

definition put_all_fields :: "nat \<Rightarrow> u32 \<Rightarrow> field_info list \<Rightarrow> dev_table \<Rightarrow> dev_table" where
  "put_all_fields now addr fs = entry_or_new now addr (\<lambda>e. e\<lparr>de_all_fields := Some fs\<rparr>)"

text \<open>The table is finite, so its entries can be listed; \<open>alive_ids\<close> sorts what it lists.\<close>

definition alive_ids :: "nat \<Rightarrow> nat \<Rightarrow> dev_table \<Rightarrow> u32 list" where
  "alive_ids now liveness st =
     sort (map de_addr (filter (\<lambda>e. now - de_last_seen e \<le> liveness)
       (map (\<lambda>a. the (st a)) (sorted_list_of_set (dom st)))))"

definition any_device :: "dev_table \<Rightarrow> bool" where
  "any_device st \<longleftrightarrow> dom st \<noteq> {}"

definition newest_first_seen :: "dev_table \<Rightarrow> nat option" where
  "newest_first_seen st =
     (if dom st = {} then None else Some (Max (de_first_seen ` ran st)))"

definition device_status_of :: "nat \<Rightarrow> nat \<Rightarrow> u32 \<Rightarrow> dev_table \<Rightarrow> device_status" where
  "device_status_of now liveness addr st =
     (case st addr of
        None \<Rightarrow> Offline
      | Some e \<Rightarrow> if now - de_last_seen e \<le> liveness then On else Offline)"

section \<open>The operations as one type\<close>

datatype state_op =
    MarkAlive u32 u8 u16
  | Touch u32
  | PutValue u32 field_id bus_value
  | MarkOutdated u32 field_id
  | PutIdentity u32 device_identity
  | PutCatalog u32 "catalog_table option"
  | PutAccessLevel u32 access_level
  | PutMenu u32 menu "group_info list"
  | PutExtraField u32 field_info
  | ForgetSchema u32
  | PutAllFields u32 "field_info list"

fun state_apply :: "nat \<Rightarrow> state_op \<Rightarrow> dev_table \<Rightarrow> dev_table" where
  "state_apply now (MarkAlive a tc fw) = mark_alive now a tc fw"
| "state_apply now (Touch a) = touch now a"
| "state_apply now (PutValue a f v) = put_value now a f v"
| "state_apply now (MarkOutdated a f) = mark_outdated a f"
| "state_apply now (PutIdentity a i) = put_identity now a i"
| "state_apply now (PutCatalog a t) = put_catalog now a t"
| "state_apply now (PutAccessLevel a l) = put_access_level now a l"
| "state_apply now (PutMenu a m gs) = put_menu now a m gs"
| "state_apply now (PutExtraField a f) = put_extra_field now a f"
| "state_apply now (ForgetSchema a) = forget_schema a"
| "state_apply now (PutAllFields a fs) = put_all_fields now a fs"

fun state_run :: "(nat \<times> state_op) list \<Rightarrow> dev_table \<Rightarrow> dev_table" where
  "state_run [] st = st"
| "state_run ((now, x) # ops) st = state_run ops (state_apply now x st)"

lemmas state_op_defs =
  mark_alive_def touch_def put_value_def mark_outdated_def put_identity_def put_catalog_def
  put_access_level_def put_menu_def put_extra_field_def forget_schema_def put_all_fields_def

lemma entry_or_new_same [simp]:
  "entry_or_new now a f st a = Some (f (case st a of Some e \<Rightarrow> e | None \<Rightarrow> device_entry_new a now))"
  by (simp add: entry_or_new_def)

lemma entry_or_new_other [simp]: "b \<noteq> a \<Longrightarrow> entry_or_new now a f st b = st b"
  by (simp add: entry_or_new_def)

lemma entry_if_same [simp]: "entry_if a f st a = map_option f (st a)"
  by (simp add: entry_if_def split: option.splits)

lemma entry_if_other [simp]: "b \<noteq> a \<Longrightarrow> entry_if a f st b = st b"
  by (simp add: entry_if_def split: option.splits)

section \<open>The value cache\<close>

text \<open>The contract of a cache of observations: a put is what a get gives, a mark makes it
  outdated, and an operation of the set \<open>neutral\<close> leaves all of it alone.\<close>

datatype ('k, 'v, 't) cache_op = CPut 'k 'v | CMark 'k | CSkip "'t \<Rightarrow> 't"

fun cache_spec :: "'k \<Rightarrow> ('k, 'v, 't) cache_op \<Rightarrow> ('v \<times> bool) option \<Rightarrow> ('v \<times> bool) option" where
  "cache_spec k (CPut j v) r = (if j = k then Some (v, False) else r)"
| "cache_spec k (CMark j) r = (if j = k then map_option (\<lambda>(v, _). (v, True)) r else r)"
| "cache_spec k (CSkip f) r = r"

locale value_cache =
  fixes put :: "'k \<Rightarrow> 'v \<Rightarrow> 't \<Rightarrow> 't"
    and mark :: "'k \<Rightarrow> 't \<Rightarrow> 't"
    and look :: "'k \<Rightarrow> 't \<Rightarrow> ('v \<times> bool) option"
    and neutral :: "('t \<Rightarrow> 't) set"
  assumes look_put: "look k (put j v t) = (if j = k then Some (v, False) else look k t)"
    and look_mark: "look k (mark j t) = (if j = k then map_option (\<lambda>(v, _). (v, True)) (look k t) else look k t)"
    and look_neutral: "f \<in> neutral \<Longrightarrow> look k (f t) = look k t"
begin

fun cache_do :: "('k, 'v, 't) cache_op \<Rightarrow> 't \<Rightarrow> 't" where
  "cache_do (CPut k v) t = put k v t"
| "cache_do (CMark k) t = mark k t"
| "cache_do (CSkip f) t = f t"

lemma look_run:
  "\<forall>f. CSkip f \<in> set ops \<longrightarrow> f \<in> neutral \<Longrightarrow>
     look k (fold cache_do ops t) = fold (cache_spec k) ops (look k t)"
proof (induction ops arbitrary: t)
  case (Cons x ops)
  then show ?case by (cases x) (simp_all add: look_put look_mark look_neutral)
qed simp

lemma look_last_put:
  assumes "\<forall>f. CSkip f \<in> set ops \<longrightarrow> f \<in> neutral" and "\<forall>v. CPut k v \<notin> set ops"
  shows "look k (fold cache_do ops (put k v t)) = Some (v, CMark k \<in> set ops)"
proof -
  have "fold (cache_spec k) ops (Some (v, b)) = Some (v, b \<or> CMark k \<in> set ops)"
    if "\<forall>v. CPut k v \<notin> set ops" for b using that
  proof (induction ops arbitrary: b)
    case (Cons x ops)
    then show ?case by (cases x) auto
  qed simp
  from this [OF assms(2), of False] show ?thesis
    by (simp add: look_run [OF assms(1)] look_put)
qed

end

definition state_look :: "u32 \<times> field_id \<Rightarrow> dev_table \<Rightarrow> ((nat \<times> bus_value) \<times> bool) option" where
  "state_look k st =
     map_option (\<lambda>c. ((cv_at c, cv_value c), cv_outdated c)) (get_value (fst k) (snd k) st)"

fun touches_values :: "state_op \<Rightarrow> bool" where
  "touches_values (PutValue a f v) = True"
| "touches_values (MarkOutdated a f) = True"
| "touches_values x = False"

definition quiet_ops :: "(dev_table \<Rightarrow> dev_table) set" where
  "quiet_ops = {state_apply now x | now x. \<not> touches_values x}"

lemma entry_or_new_values:
  "\<forall>e. de_values (f e) = de_values e \<Longrightarrow>
     get_value b k (entry_or_new now a f st) = get_value b k st"
  by (auto simp: get_value_def entry_or_new_def device_entry_new_def split: option.splits)

lemma quiet_keeps_values: "\<not> touches_values x \<Longrightarrow> get_value b k (state_apply now x st) = get_value b k st"
  by (cases x) (auto simp: state_op_defs entry_or_new_values Let_def,
      auto simp: get_value_def entry_if_def split: option.splits)

interpretation cache: value_cache
  "\<lambda>k v. put_value (fst v) (fst k) (snd k) (snd v)" "\<lambda>k. mark_outdated (fst k) (snd k)"
  state_look quiet_ops
proof unfold_locales
  fix k j :: "u32 \<times> field_id" and v and t :: dev_table
  show "state_look k (put_value (fst v) (fst j) (snd j) (snd v) t) =
      (if j = k then Some (v, False) else state_look k t)"
    by (cases k; cases j)
       (auto simp: state_look_def get_value_def put_value_def entry_or_new_def device_entry_new_def
         split: option.splits)
  show "state_look k (mark_outdated (fst j) (snd j) t) =
      (if j = k then map_option (\<lambda>(v, _). (v, True)) (state_look k t) else state_look k t)"
    by (cases k; cases j)
       (auto simp: state_look_def get_value_def mark_outdated_def entry_if_def split: option.splits)
next
  fix f k t
  assume "f \<in> quiet_ops"
  then show "state_look k (f t) = state_look k t"
    by (auto simp: quiet_ops_def state_look_def quiet_keeps_values)
qed

fun as_cache_op :: "nat \<times> state_op \<Rightarrow> (u32 \<times> field_id, nat \<times> bus_value, dev_table) cache_op" where
  "as_cache_op (now, PutValue a f v) = CPut (a, f) (now, v)"
| "as_cache_op (now, MarkOutdated a f) = CMark (a, f)"
| "as_cache_op (now, x) = CSkip (state_apply now x)"

lemma state_run_cache: "state_run ops st = fold cache.cache_do (map as_cache_op ops) st"
proof (induction ops arbitrary: st)
  case (Cons x ops)
  obtain now y where "x = (now, y)" by (cases x)
  with Cons show ?case by (cases y) simp_all
qed simp

lemma as_cache_op_skip: "as_cache_op x = CSkip f \<Longrightarrow> f \<in> quiet_ops"
proof -
  assume f: "as_cache_op x = CSkip f"
  obtain now y where "x = (now, y)" by (cases x)
  with f have "f = state_apply now y \<and> \<not> touches_values y" by (cases y) auto
  then show ?thesis unfolding quiet_ops_def by blast
qed

lemma as_cache_op_put:
  "(\<exists>v. as_cache_op x = CPut (a, f) v) \<longleftrightarrow> (\<exists>now v. x = (now, PutValue a f v))"
  "as_cache_op x = CMark (a, f) \<longleftrightarrow> (\<exists>now. x = (now, MarkOutdated a f))"
proof -
  obtain now y where "x = (now, y)" by (cases x)
  then show "(\<exists>v. as_cache_op x = CPut (a, f) v) \<longleftrightarrow> (\<exists>now v. x = (now, PutValue a f v))"
    "as_cache_op x = CMark (a, f) \<longleftrightarrow> (\<exists>now. x = (now, MarkOutdated a f))"
    by (cases y; auto)+
qed

section \<open>Well-formed tables\<close>

text \<open>
  What holds of every device: its entry is under its own address, its times are in order, it
  has a schema exactly when a menu was discovered, a group belongs to a discovered menu, and a
  field is filed under its own id.
\<close>

definition entry_ok :: "nat \<Rightarrow> u32 \<Rightarrow> device_entry \<Rightarrow> bool" where
  "entry_ok now a e \<longleftrightarrow>
     de_addr e = a \<and> de_first_seen e \<le> de_last_seen e \<and> de_last_seen e \<le> now \<and>
     (de_schema e = None \<longleftrightarrow> de_menus e = {}) \<and>
     (\<forall>s. de_schema e = Some s \<longrightarrow> (\<forall>g \<in> set (ds_groups s). gi_menu g \<in> de_menus e)) \<and>
     (\<forall>fid f. de_extra_fields e fid = Some f \<longrightarrow> fi_index f = fid) \<and>
     (\<forall>fid c. de_values e fid = Some c \<longrightarrow> cv_at c \<le> now)"

definition table_ok :: "nat \<Rightarrow> dev_table \<Rightarrow> bool" where
  "table_ok now st \<longleftrightarrow> finite (dom st) \<and> (\<forall>a e. st a = Some e \<longrightarrow> entry_ok now a e)"

text \<open>The callers file groups under the menu they are of.\<close>

fun op_ok :: "state_op \<Rightarrow> bool" where
  "op_ok (PutMenu a m gs) = list_all (\<lambda>g. gi_menu g = m) gs"
| "op_ok x = True"

fun ops_ok :: "nat \<Rightarrow> (nat \<times> state_op) list \<Rightarrow> bool" where
  "ops_ok now [] = True"
| "ops_ok now ((t, x) # ops) = (now \<le> t \<and> op_ok x \<and> ops_ok t ops)"

fun end_time :: "nat \<Rightarrow> (nat \<times> state_op) list \<Rightarrow> nat" where
  "end_time now [] = now"
| "end_time now ((t, x) # ops) = end_time t ops"

lemma entry_ok_new [simp]: "entry_ok now a (device_entry_new a now)"
  by (simp add: entry_ok_def device_entry_new_def)

lemma entry_ok_mono: "entry_ok t a e \<Longrightarrow> t \<le> now \<Longrightarrow> entry_ok now a e"
  unfolding entry_ok_def by (meson le_trans)

lemma table_ok_mono: "table_ok t st \<Longrightarrow> t \<le> now \<Longrightarrow> table_ok now st"
  unfolding table_ok_def by (meson entry_ok_mono)

lemma table_ok_entry_or_new:
  assumes st: "table_ok now st" and f: "\<And>e. entry_ok now a e \<Longrightarrow> entry_ok now a (f e)"
  shows "table_ok now (entry_or_new now a f st)"
proof -
  have "entry_ok now a (f (case st a of Some e \<Rightarrow> e | None \<Rightarrow> device_entry_new a now))"
    using st by (intro f) (auto simp: table_ok_def split: option.splits)
  with st show ?thesis by (auto simp: table_ok_def entry_or_new_def)
qed

lemma table_ok_entry_if:
  "table_ok now st \<Longrightarrow> (\<And>e. entry_ok now a e \<Longrightarrow> entry_ok now a (f e)) \<Longrightarrow>
     table_ok now (entry_if a f st)"
  by (auto simp: table_ok_def entry_if_def split: option.splits)

lemma table_ok_apply: "table_ok now st \<Longrightarrow> op_ok x \<Longrightarrow> table_ok now (state_apply now x st)"
proof (cases x)
  case (MarkOutdated a f)
  assume "table_ok now st"
  then show ?thesis unfolding MarkOutdated state_apply.simps mark_outdated_def
    by (rule table_ok_entry_if) (auto simp: entry_ok_def split: option.splits)
next
  case (ForgetSchema a)
  assume "table_ok now st"
  then show ?thesis unfolding ForgetSchema state_apply.simps forget_schema_def
    by (rule table_ok_entry_if) (auto simp: entry_ok_def)
next
  case (PutMenu a m gs)
  assume "table_ok now st" "op_ok x"
  then show ?thesis unfolding PutMenu state_apply.simps put_menu_def
    by (intro table_ok_entry_or_new)
       (auto simp: entry_ok_def Let_def list_all_iff split: option.splits)
qed (auto simp: state_op_defs entry_ok_def intro!: table_ok_entry_or_new)

lemma table_ok_run: "table_ok now st \<Longrightarrow> ops_ok now ops \<Longrightarrow> table_ok (end_time now ops) (state_run ops st)"
proof (induction ops arbitrary: now st)
  case (Cons o' ops)
  obtain t x where o': "o' = (t, x)" by (cases o')
  with Cons.prems have "table_ok t (state_apply t x st)"
    by (auto intro: table_ok_apply table_ok_mono)
  with Cons o' show ?case by simp
qed simp

lemma table_ok_new: "table_ok now state_new"
  by (simp add: table_ok_def state_new_def)

text \<open>Listing the table: who is alive, sorted.\<close>

lemma alive_ids_set:
  assumes "table_ok t st"
  shows "set (alive_ids now liveness st) = {a. device_status_of now liveness a st = On}"
    and "sorted (alive_ids now liveness st)" and "distinct (alive_ids now liveness st)"
proof -
  let ?l = "sorted_list_of_set (dom st)"
  have fin: "finite (dom st)" using assms by (simp add: table_ok_def)
  have addr: "de_addr (the (st a)) = a" if "a \<in> dom st" for a
    using assms that by (auto simp: table_ok_def entry_ok_def)
  have eq: "map de_addr (filter (\<lambda>e. now - de_last_seen e \<le> liveness) (map (\<lambda>a. the (st a)) l)) =
      filter (\<lambda>a. now - de_last_seen (the (st a)) \<le> liveness) l" if "set l \<subseteq> dom st" for l
    using that by (induction l) (simp_all add: addr)
  have l: "set ?l = dom st" "distinct ?l" using fin by simp_all
  show "set (alive_ids now liveness st) = {a. device_status_of now liveness a st = On}"
    using l(1) by (auto simp: alive_ids_def eq device_status_of_def split: option.splits if_splits)
  show "sorted (alive_ids now liveness st)" by (simp add: alive_ids_def)
  show "distinct (alive_ids now liveness st)" using l by (simp add: alive_ids_def eq)
qed

section \<open>Properties\<close>

text \<open>C31. Whatever is done to the device table, an entry stays under its own address with its
  times in order, a device has a schema exactly when one of its menus was discovered, and the
  list of live devices is sorted, without repetition, and names exactly the devices whose
  status is On.\<close>

theorem state_table_invariant:
  assumes "ops_ok start ops"
  shows "table_ok (end_time start ops) (state_run ops state_new) \<and>
     sorted (alive_ids now liveness (state_run ops state_new)) \<and>
     distinct (alive_ids now liveness (state_run ops state_new)) \<and>
     set (alive_ids now liveness (state_run ops state_new)) =
       {a. device_status_of now liveness a (state_run ops state_new) = On}"
  using table_ok_run [OF table_ok_new assms] alive_ids_set by blast

theorem state_table_invariant_witness:
  "set (alive_ids 40 25 (state_run [(10, Touch 7), (20, MarkAlive 5 1 2), (30, ForgetSchema 7)] state_new)) =
     {a. device_status_of 40 25 a
           (state_run [(10, Touch 7), (20, MarkAlive 5 1 2), (30, ForgetSchema 7)] state_new) = On}"
  using state_table_invariant [of 0 "[(10, Touch 7), (20, MarkAlive 5 1 2), (30, ForgetSchema 7)]" 40 25]
  by simp

text \<open>The value cache: after an observation of a field and any operations on the table but
  another observation of that field, the cache still gives that value with its time, and it is
  outdated exactly when it has been marked so since.\<close>

theorem value_cache_coherent:
  assumes "\<forall>now v. (now, PutValue a f v) \<notin> set ops"
  shows "state_look (a, f) (state_run ops (put_value t a f x st)) =
     Some ((t, x), \<exists>now. (now, MarkOutdated a f) \<in> set ops)"
proof -
  let ?ops = "map as_cache_op ops"
  have "\<forall>g. CSkip g \<in> set ?ops \<longrightarrow> g \<in> quiet_ops"
    by (metis as_cache_op_skip imageE set_map)
  moreover have "\<forall>v. CPut (a, f) v \<notin> set ?ops"
    using assms as_cache_op_put(1) [of _ a f] by (metis imageE set_map)
  moreover have "CMark (a, f) \<in> set ?ops \<longleftrightarrow> (\<exists>now. (now, MarkOutdated a f) \<in> set ops)"
    by (simp add: image_iff eq_commute [of "CMark (a, f)"] as_cache_op_put(2)) blast
  ultimately show ?thesis
    using cache.look_last_put [of ?ops "(a, f)" "(t, x)" st] by (simp add: state_run_cache)
qed

theorem value_cache_coherent_witness:
  "state_look (5, 0x17) (state_run [(2, MarkOutdated 5 0x17), (3, PutValue 5 0x18 Invalid),
      (4, ForgetSchema 5)] (put_value 1 5 0x17 (Boolean True) state_new)) =
     Some ((1, Boolean True), True)"
  using value_cache_coherent [of 5 "0x17" "[(2, MarkOutdated 5 0x17), (3, PutValue 5 0x18 Invalid),
      (4, ForgetSchema 5)]" 1 "Boolean True" state_new] by simp

text \<open>Discovery results: a menu stored replaces exactly that menu's groups, whatever the
  device had before, and counts as discovered; forgetting the schema drops every menu, field
  list and probed field of that device and nothing else, so each is discovered anew, while its
  values, its own identity and every other device stay.\<close>

theorem schema_store_and_forget:
  assumes "list_all (\<lambda>g. gi_menu g = m) gs"
  shows "(\<exists>s. state_schema a (put_menu now a m gs st) = Some s \<and> schema_menu_groups s m = gs \<and>
       (\<forall>m'. m' \<noteq> m \<longrightarrow> schema_menu_groups s m' =
          (case state_schema a st of None \<Rightarrow> [] | Some s0 \<Rightarrow> schema_menu_groups s0 m'))) \<and>
     (\<forall>m'. has_menu a m' (put_menu now a m gs st) \<longleftrightarrow> m' = m \<or> has_menu a m' st) \<and>
     (\<forall>m'. \<not> has_menu a m' (forget_schema a st)) \<and> state_schema a (forget_schema a st) = None \<and>
     \<not> has_all_fields a (forget_schema a st) \<and> (\<forall>f. \<not> has_field a f (forget_schema a st)) \<and>
     (\<forall>f. get_value a f (forget_schema a st) = get_value a f st) \<and>
     state_identity a (forget_schema a st) =
       (case st a of None \<Rightarrow> None | Some e \<Rightarrow> de_identity e) \<and>
     (\<forall>b. b \<noteq> a \<longrightarrow> forget_schema a st b = st b)"
proof -
  have gs: "filter (\<lambda>g. gi_menu g = m) gs = gs" "m' \<noteq> m \<Longrightarrow> filter (\<lambda>g. gi_menu g = m') gs = []" for m'
    using assms by (auto simp: list_all_iff filter_id_conv filter_empty_conv)
  have keep: "m' \<noteq> m \<Longrightarrow> filter (\<lambda>g. gi_menu g \<noteq> m \<and> gi_menu g = m') l = filter (\<lambda>g. gi_menu g = m') l" for m' l
    by (induction l) auto
  show ?thesis
    by (auto simp: state_schema_def put_menu_def has_menu_def forget_schema_def has_all_fields_def
        has_field_def state_field_info_def get_value_def state_identity_def schema_menu_groups_def
        Let_def gs keep device_entry_new_def split: option.splits)
qed

theorem schema_store_and_forget_witness:
  "has_menu 5 Alarm (put_menu 1 5 Alarm [] state_new)"
  using schema_store_and_forget [of Alarm "[]" 5 1 state_new] by simp

end
