(* ===== verification/Reader.thy ===== *)
theory Reader
  imports Keys Waiter DevState
begin

text \<open>
  The reader thread: \<open>crates/masterbus/src/runtime/reader.rs\<close>. Every frame of the wire goes
  through \<open>handle_frame\<close>, which registers devices, wakes the waiter that asked, and caches
  values; after each receive the loop turns changes of liveness into presence events.
\<close>

section \<open>One frame\<close>

record shared =
  sh_state :: dev_table
  sh_waiter :: waiter

definition is_device_originated :: "u8 \<Rightarrow> bool" where
  "is_device_originated c \<longleftrightarrow>
     c \<in> {0x04, 0x06, 0x08, 0x09, 0x0A, 0x0B, 0x0C, 0x10, 0x11, 0x02, 0x0D} \<or>
     0x12 \<le> c \<and> c \<le> 0x15"

text \<open>The value taken from a data frame: cached when the field is known.\<close>

definition cache_value :: "nat \<Rightarrow> u32 \<Rightarrow> field_id \<Rightarrow> bytes \<Rightarrow> dev_table \<Rightarrow> dev_table" where
  "cache_value now addr fid raw st =
     (case state_field_info addr fid st of
        None \<Rightarrow> st
      | Some f \<Rightarrow> put_value now addr fid (with_options (decode_value raw (fi_viz f)) (fi_options f)) st)"

definition take_value :: "nat \<Rightarrow> u32 \<Rightarrow> field_id \<Rightarrow> bytes \<Rightarrow> shared \<Rightarrow> shared" where
  "take_value now addr fid raw s =
     s\<lparr>sh_waiter := deliver (value_key addr fid) raw (sh_waiter s),
       sh_state := cache_value now addr fid raw (touch now addr (sh_state s))\<rparr>"

definition other_tab_value :: "nat \<Rightarrow> mb_frame \<Rightarrow> shared \<Rightarrow> shared" where
  "other_tab_value now f s =
     (case answer (mf_can_class f) (mf_device_addr f) of
        Some (m, Data, False) \<Rightarrow>
          if m \<noteq> Monitoring \<and> 6 \<le> length (mf_data f)
          then take_value now (mf_device_addr f AND NOT HIGH) (field_id_new m (mf_data f ! 0))
                 (take 4 (drop 2 (mf_data f))) s
          else s
      | _ \<Rightarrow> s)"

definition handle_message :: "nat \<Rightarrow> mb_frame \<Rightarrow> shared \<Rightarrow> shared" where
  "handle_message now f s =
     (case parse_frame f of
        DeviceBroadcast a tc _ fw \<Rightarrow> s\<lparr>sh_state := mark_alive now a tc fw (sh_state s)\<rparr>
      | MonitoringData a i _ raw \<Rightarrow>
          if a AND HIGH = 0 then take_value now a (field_id_monitoring i) raw s
          else other_tab_value now f s
      | _ \<Rightarrow> other_tab_value now f s)"

definition handle_frame :: "nat \<Rightarrow> u32 \<Rightarrow> bytes \<Rightarrow> shared \<Rightarrow> shared" where
  "handle_frame now raw_id data s =
     (let f = frame_from_raw raw_id data;
          s1 = (if is_device_originated (mf_can_class f)
                then s\<lparr>sh_state := touch now (mf_device_addr f AND NOT HIGH) (sh_state s)\<rparr> else s);
          s2 = (case waiter_key_for_frame (mf_can_class f) (mf_device_addr f) data of
                  Some k \<Rightarrow> s1\<lparr>sh_waiter := deliver k data (sh_waiter s1)\<rparr>
                | None \<Rightarrow> s1)
      in handle_message now f s2)"

section \<open>The loop\<close>

text \<open>Presence events: the devices that appeared, then those that left.\<close>

definition presence_diff :: "u32 set \<Rightarrow> u32 set \<Rightarrow> u32 set \<times> u32 set" where
  "presence_diff alive now = (now - alive, alive - now)"

record reader =
  rd_shared :: shared
  rd_alive :: "u32 set"
  rd_events :: "(u32 set \<times> u32 set) list"

definition reader_start :: "shared \<Rightarrow> reader" where
  "reader_start s = \<lparr>rd_shared = s, rd_alive = {}, rd_events = []\<rparr>"

text \<open>One turn: what the receive gave, then the liveness of the moment.\<close>

definition reader_turn :: "nat \<Rightarrow> nat \<times> (error + frame option) \<Rightarrow> reader \<Rightarrow> reader" where
  "reader_turn liveness turn r =
     (let now = fst turn;
          s = (case snd turn of
                 Inr (Some (raw_id, data)) \<Rightarrow> handle_frame now raw_id data (rd_shared r)
               | Inr None \<Rightarrow> rd_shared r
               | Inl e \<Rightarrow> rd_shared r);
          alive = set (alive_ids now liveness (sh_state s))
      in \<lparr>rd_shared = s, rd_alive = alive,
          rd_events = rd_events r @ [presence_diff (rd_alive r) alive]\<rparr>)"

definition reader_loop :: "nat \<Rightarrow> (nat \<times> (error + frame option)) list \<Rightarrow> shared \<Rightarrow> reader" where
  "reader_loop liveness turns s =
     (let r = fold (reader_turn liveness) turns (reader_start s)
      in r\<lparr>rd_shared := (rd_shared r)\<lparr>sh_waiter := cancel_all (sh_waiter (rd_shared r))\<rparr>\<rparr>)"

section \<open>Facts\<close>

lemma shared_eqI: "sh_state s = sh_state t \<Longrightarrow> sh_waiter s = sh_waiter t \<Longrightarrow> s = (t :: shared)"
  by (cases s; cases t) simp

lemma touch_touch [simp]: "touch now a (touch now a st) = touch now a st"
  by (rule ext) (simp add: touch_def entry_or_new_def device_entry_new_def split: option.split)

text \<open>A tab's request wire is no answer of any tab.\<close>

lemma answer_of_request:
  "a < 0x800000 \<Longrightarrow> w = ex_req (exchange m k) \<Longrightarrow>
     answer (w_class w) (if w_high w then a OR HIGH else a) = None"
proof (rule ccontr)
  let ?w = "ex_req (exchange m k)"
  assume a: "a < 0x800000" and w: "w = ex_req (exchange m k)"
    and "answer (w_class w) (if w_high w then a OR HIGH else a) \<noteq> None"
  then obtain m' k' n where "answer (w_class ?w) (if w_high ?w then a OR HIGH else a) = Some (m', k', n)"
    by auto
  then have "wire_is (if n then ex_na (exchange m' k') else ex_info (exchange m' k'))
      (w_class ?w) (if w_high ?w then a OR HIGH else a)" by (simp add: answer_iff)
  then show False using and_not_HIGH(1-3) [OF a] and_not_HIGH(4) [of a]
    by (cases m; cases k; cases n; cases m'; cases k') (simp_all add: wire_defs)
qed

lemma request_class_not_device: "\<not> is_device_originated (w_class (ex_req (exchange m k)))"
  by (cases m; cases k) (simp_all add: wire_defs is_device_originated_def)

lemma request_class_not_property: "w_class (ex_req (exchange m k)) \<noteq> 0x06"
  "w_class (ex_req (exchange m k)) \<noteq> 0x04"
  by (cases m; cases k; simp add: wire_defs)+

lemma frame_from_can_id_of:
  assumes "c < 32"
  shows "frame_from_raw (can_id_of c a) data =
    \<lparr>mf_device_addr = a AND 0xFFFFFF, mf_can_class = c, mf_data = data\<rparr>"
proof -
  have cl: "bit c n \<Longrightarrow> n < 5" for n using assms byte_lt_32_bits by blast
  have "mf_device_addr (frame_from_raw (can_id_of c a) data) = a AND 0xFFFFFF"
    by (rule bit_word_eqI) (auto simp: frame_from_raw_def can_id_of_def Let_def mask_simps bit_simps)
  moreover have "mf_can_class (frame_from_raw (can_id_of c a) data) = c"
    by (rule bit_word_eqI)
       (auto simp: frame_from_raw_def can_id_of_def Let_def mask_simps bit_simps dest: cl)
  ultimately show ?thesis by (simp add: frame_from_raw_def Let_def)
qed

lemma other_tab_not_value:
  "answer (mf_can_class f) (mf_device_addr f) = None \<Longrightarrow> other_tab_value now f s = s"
  "answer (mf_can_class f) (mf_device_addr f) = Some (m, k, na) \<Longrightarrow> k \<noteq> Data \<or> na \<or> m = Monitoring \<Longrightarrow>
     other_tab_value now f s = s"
  by (auto simp: other_tab_value_def split: kind.splits bool.splits)

text \<open>Only a frame on the real half of classes 0x08 and 0x18 is taken for a Monitoring value.\<close>

lemma handle_message_unknown:
  "mf_can_class f \<noteq> 0x04 \<Longrightarrow>
   mf_can_class f \<notin> {0x08, 0x18} \<or> mf_device_addr f AND HIGH \<noteq> 0 \<or> length (mf_data f) < 6 \<Longrightarrow>
     handle_message now f s = other_tab_value now f s"
  by (auto simp: handle_message_def parse_frame_def parse_monitoring_def Let_def)

lemma answer_class_not_broadcast: "w_class (ex_info (exchange m k)) \<noteq> 0x04"
  "w_class (ex_na (exchange m k)) \<noteq> 0x04"
  by (cases m; cases k; simp add: wire_defs)+

lemma answer_class_device: "is_device_originated (w_class (ex_info (exchange m k)))"
  "is_device_originated (w_class (ex_na (exchange m k)))"
  by (cases m; cases k; simp add: wire_defs is_device_originated_def)+

lemma data_wire_real_8:
  "w_class (ex_info (exchange m k)) \<in> {0x08, 0x18} \<Longrightarrow> k \<noteq> Data \<or> m \<noteq> Monitoring \<Longrightarrow>
     w_high (ex_info (exchange m k))"
  "w_class (ex_na (exchange m k)) \<notin> {0x08, 0x18}"
  "w_class (ex_req (exchange m k)) \<in> {0x08, 0x18} \<Longrightarrow> k \<noteq> Data \<or> m \<noteq> Monitoring \<Longrightarrow>
     w_high (ex_req (exchange m k))"
  by (cases m; cases k; simp add: wire_defs)+

lemma no_key_for_request:
  "a < 0x800000 \<Longrightarrow> w = ex_req (exchange m k) \<Longrightarrow>
     waiter_key_for_frame (w_class w) (if w_high w then a OR HIGH else a) data = None"
  using answer_of_request [of a w m k] request_class_not_property [of m k]
  by (simp add: waiter_key_for_frame_def tab_waiter_key_def)

lemma handle_request_frame:
  assumes a: "a < 0x800000" and d: "m \<noteq> Monitoring \<or> k \<noteq> Data \<or> length data < 6"
  shows "handle_frame now (wire_can_id (ex_req (exchange m k)) a) data s = s"
proof -
  let ?w = "ex_req (exchange m k)"
  let ?f = "\<lparr>mf_device_addr = (if w_high ?w then a OR HIGH else a), mf_can_class = w_class ?w,
    mf_data = data\<rparr>"
  have f: "frame_from_raw (wire_can_id ?w a) data = ?f"
    by (rule frame_from_wire [OF a wire_class_lt(3)])
  have n: "answer (w_class ?w) (if w_high ?w then a OR HIGH else a) = None"
    by (rule answer_of_request [OF a refl])
  have "handle_message now ?f t = other_tab_value now ?f t" for t
    using data_wire_real_8(3) [of m k] request_class_not_property [of m k] d and_not_HIGH(4)
    by (intro handle_message_unknown) auto
  then have "handle_message now ?f t = t" for t
    using other_tab_not_value(1) [of ?f] n by simp
  then show ?thesis
    using no_key_for_request [OF a, of ?w m k] request_class_not_device
    by (simp add: handle_frame_def f Let_def)
qed

lemma answer_of_5_7:
  "c = 5 \<or> c = 7 \<Longrightarrow> answer c a = None"
proof -
  assume "c = 5 \<or> c = 7"
  then have "\<not> wire_is (if n then ex_na (exchange m k) else ex_info (exchange m k)) c a" for m k n
    by (cases m; cases k; cases n) (auto simp: wire_defs)
  then show ?thesis using answer_iff by (metis not_None_eq prod_cases3)
qed

lemma handle_master_frame:
  assumes "c = 5 \<or> c = 7"
  shows "handle_frame now (can_id_of c a) data s = s"
proof -
  have c: "c < 32" using assms by auto
  let ?f = "\<lparr>mf_device_addr = a AND 0xFFFFFF, mf_can_class = c, mf_data = data\<rparr>"
  have "handle_message now ?f t = t" for t
    using assms answer_of_5_7 [OF assms] other_tab_not_value(1) [of ?f] handle_message_unknown [of ?f]
    by auto
  moreover have "waiter_key_for_frame c (a AND 0xFFFFFF) data = None"
    using assms answer_of_5_7 [OF assms] by (auto simp: waiter_key_for_frame_def tab_waiter_key_def)
  moreover have "\<not> is_device_originated c" using assms by (auto simp: is_device_originated_def)
  ultimately show ?thesis by (simp add: handle_frame_def frame_from_can_id_of [OF c] Let_def)
qed

lemma handle_frame_no_key:
  "frame_from_raw raw_id data = f \<Longrightarrow> waiter_key_for_frame (mf_can_class f) (mf_device_addr f) data = None \<Longrightarrow>
   handle_message now f = g \<Longrightarrow> is_device_originated (mf_can_class f) \<Longrightarrow>
     handle_frame now raw_id data s = g (s\<lparr>sh_state := touch now (mf_device_addr f AND NOT HIGH) (sh_state s)\<rparr>)"
  by (simp add: handle_frame_def Let_def)

text \<open>What an answer does: it reaches the waiter and marks its device alive.\<close>

lemma handle_answer_frame:
  assumes a: "a < 0x800000"
    and w: "w = (if na then ex_na (exchange m k) else ex_info (exchange m k))"
    and k: "k \<noteq> Data \<or> na" and d: "6 \<le> length data \<longrightarrow> k \<noteq> Data"
  shows "handle_frame now (wire_can_id w a) data s =
     (let s1 = s\<lparr>sh_state := touch now a (sh_state s)\<rparr>
      in case waiter_key_for_frame (w_class w) (if w_high w then a OR HIGH else a) data of
           Some key \<Rightarrow> s1\<lparr>sh_waiter := deliver key data (sh_waiter s1)\<rparr> | None \<Rightarrow> s1)"
proof -
  let ?addr = "if w_high w then a OR HIGH else a"
  let ?f = "\<lparr>mf_device_addr = ?addr, mf_can_class = w_class w, mf_data = data\<rparr>"
  have c: "w_class w < 32" using w wire_class_lt by simp
  have an: "answer (w_class w) ?addr = Some (m, k, na)" by (rule tab_key_of_answer [OF a w])
  have "handle_message now ?f t = other_tab_value now ?f t" for t
    using w k data_wire_real_8(1,2) [of m k] answer_class_not_broadcast [of m k] d and_not_HIGH(4) [of a]
    by (intro handle_message_unknown) (auto split: if_splits)
  moreover have "other_tab_value now ?f t = t" for t
    using other_tab_not_value(2) [of ?f] an k by simp
  moreover have "is_device_originated (w_class w)" using w answer_class_device by simp
  ultimately show ?thesis
    by (simp add: handle_frame_def frame_from_wire [OF a c] Let_def and_not_HIGH(1,3) [OF a] split: option.split)
qed

lemma handle_property_frame:
  assumes a: "a < 0x800000"
  shows "handle_frame now (wire_can_id (wire_real 0x06) a) data s =
     (let s1 = s\<lparr>sh_state := touch now a (sh_state s)\<rparr>
      in case waiter_key_for_frame 0x06 a data of
           Some key \<Rightarrow> s1\<lparr>sh_waiter := deliver key data (sh_waiter s1)\<rparr> | None \<Rightarrow> s1)"
proof -
  let ?f = "\<lparr>mf_device_addr = a, mf_can_class = 0x06, mf_data = data\<rparr>"
  have f: "frame_from_raw (wire_can_id (wire_real 0x06) a) data = ?f"
    using frame_from_wire [OF a, of "wire_real 0x06" data] by (simp add: wire_real_def)
  have "\<not> wire_is (if n then ex_na (exchange m k) else ex_info (exchange m k)) 0x06 a" for m k n
    using exchange_class_not_property [of m k] by (auto simp: wire_is_def)
  then have "answer 0x06 a = None" using answer_iff by (metis not_None_eq prod_cases3)
  then have "handle_message now ?f t = t" for t
    using other_tab_not_value(1) [of ?f] handle_message_unknown [of ?f] by auto
  then show ?thesis
    by (simp add: handle_frame_def f Let_def and_not_HIGH a is_device_originated_def split: option.split)
qed

lemma discovery_answer_handled:
  assumes a: "a < 0x800000" and r: "discovery_request r"
  shows "handle_frame now (wire_can_id (answer_wire na r) a) (snd (request_frame a r) @ rest) s =
     \<lparr>sh_state = touch now a (sh_state s),
      sh_waiter = deliver (request_key a r) (snd (request_frame a r) @ rest) (sh_waiter s)\<rparr>"
proof -
  let ?w = "answer_wire na r" and ?d = "snd (request_frame a r) @ rest"
  have c: "w_class ?w < 32" by (cases r) (simp_all add: wire_class_lt wire_real_def)
  have key: "waiter_key_for_frame (w_class ?w) (if w_high ?w then a OR HIGH else a) ?d = Some (request_key a r)"
    using answer_finds_request_lemma [OF a r refl, of na rest] frame_from_wire [OF a c, of ?d] by simp
  have "handle_frame now (wire_can_id ?w a) ?d s =
     (let s1 = s\<lparr>sh_state := touch now a (sh_state s)\<rparr>
      in case waiter_key_for_frame (w_class ?w) (if w_high ?w then a OR HIGH else a) ?d of
           Some key \<Rightarrow> s1\<lparr>sh_waiter := deliver key ?d (sh_waiter s1)\<rparr> | None \<Rightarrow> s1)"
  proof (cases "?w = wire_real 0x06")
    case True
    then show ?thesis using handle_property_frame [OF a, of now ?d s] by (simp add: wire_real_def)
  next
    case False
    then obtain m k where "?w = (if na then ex_na (exchange m k) else ex_info (exchange m k))" "k \<noteq> Data"
      using r by (cases r) (auto split: if_splits)
    then show ?thesis by (intro handle_answer_frame [OF a]) auto
  qed
  then show ?thesis unfolding key Let_def by (simp add: shared_eqI)
qed

lemma value_answer_handled:
  assumes a: "a < 0x800000" and raw: "length raw = 4"
  shows "handle_frame now (wire_can_id (ex_info (exchange m Data)) a) ([i, x] @ raw) s =
     \<lparr>sh_state = cache_value now a (field_id_new m i) raw (touch now a (sh_state s)),
      sh_waiter = deliver (value_key a (field_id_new m i)) raw (sh_waiter s)\<rparr>"
proof -
  let ?w = "ex_info (exchange m Data)"
  let ?addr = "if w_high ?w then a OR HIGH else a"
  let ?f = "\<lparr>mf_device_addr = ?addr, mf_can_class = w_class ?w, mf_data = [i, x] @ raw\<rparr>"
  have f: "frame_from_raw (wire_can_id ?w a) ([i, x] @ raw) = ?f"
    by (rule frame_from_wire [OF a wire_class_lt(1)])
  have an: "answer (w_class ?w) ?addr = Some (m, Data, False)"
    by (rule tab_key_of_answer [OF a]) simp
  have key: "waiter_key_for_frame (w_class ?w) ?addr ([i, x] @ raw) = None"
    using an exchange_class_not_property(1) [of m Data]
    by (simp add: waiter_key_for_frame_def tab_waiter_key_def)
  have msg: "handle_message now ?f = take_value now a (field_id_new m i) raw"
  proof (rule ext, cases "m = Monitoring")
    fix t
    case True
    then show "handle_message now ?f t = take_value now a (field_id_new m i) raw t" using raw a
      by (simp add: handle_message_def parse_frame_def parse_monitoring_def wire_defs
          field_id_monitoring_def and_not_HIGH)
  next
    fix t
    case False
    then have "handle_message now ?f t = other_tab_value now ?f t"
      using data_wire_real_8(1) [of m Data] answer_class_not_broadcast [of m Data] and_not_HIGH(4) [of a]
      by (intro handle_message_unknown) auto
    then show "handle_message now ?f t = take_value now a (field_id_new m i) raw t"
      using False an raw a by (simp add: other_tab_value_def decoded_addr [OF a])
  qed
  have "handle_frame now (wire_can_id ?w a) ([i, x] @ raw) s =
      take_value now a (field_id_new m i) raw (s\<lparr>sh_state := touch now (?addr AND NOT HIGH) (sh_state s)\<rparr>)"
    using handle_frame_no_key [OF f _ msg] key answer_class_device(1) [of m Data] by simp
  then show ?thesis unfolding decoded_addr [OF a] by (simp add: take_value_def)
qed

text \<open>What a master writes on Monitoring's request wire.\<close>

lemma foreign_write_handled:
  assumes a: "a < 0x800000"
  shows "handle_frame now (fst (value_write_raw Monitoring a i v)) (snd (value_write_raw Monitoring a i v)) s =
     \<lparr>sh_state = cache_value now a (field_id_monitoring i) (u32_to_le_bytes v) (touch now a (sh_state s)),
      sh_waiter = deliver (value_key a (field_id_monitoring i)) (u32_to_le_bytes v) (sh_waiter s)\<rparr>"
proof -
  let ?w = "ex_req (exchange Monitoring Data)"
  let ?f = "\<lparr>mf_device_addr = a, mf_can_class = 0x18, mf_data = [i, 0] @ u32_to_le_bytes v\<rparr>"
  have f: "frame_from_raw (wire_can_id ?w a) ([i, 0] @ u32_to_le_bytes v) = ?f"
    using frame_from_wire [OF a wire_class_lt(3), of Monitoring Data "[i, 0] @ u32_to_le_bytes v"]
    by (simp add: wire_defs)
  have len: "length (u32_to_le_bytes v) = 4" by simp
  have key: "waiter_key_for_frame 0x18 a ([i, 0] @ u32_to_le_bytes v) = None"
    using no_key_for_request [OF a, of ?w Monitoring Data "[i, 0] @ u32_to_le_bytes v"]
    by (simp add: wire_defs)
  have "handle_message now ?f t = take_value now a (field_id_monitoring i) (u32_to_le_bytes v) t" for t
    using a len by (simp add: handle_message_def parse_frame_def parse_monitoring_def and_not_HIGH)
  then show ?thesis
    by (simp add: value_write_raw_def handle_frame_def f [simplified] key [simplified] Let_def
        is_device_originated_def take_value_def)
qed

text \<open>The bytes an answer hands to the waiter: values without their two-byte head.\<close>

fun answer_payload :: "u32 \<Rightarrow> request \<Rightarrow> bytes \<Rightarrow> bytes" where
  "answer_payload a (ReqValue fid) rest = rest"
| "answer_payload a r rest = snd (request_frame a r) @ rest"

definition answerable :: "bool \<Rightarrow> request \<Rightarrow> bytes \<Rightarrow> bool" where
  "answerable na r rest \<longleftrightarrow>
     discovery_request r \<or>
     (\<not> na \<and> length rest = 4 \<and> (\<exists>m i. r = ReqValue (field_id_new m i)))"

lemma cache_value_status:
  "device_status_of now l a (cache_value now b fid raw (touch now a st)) = On"
proof -
  have "de_last_seen (the (cache_value now b fid raw (touch now a st) a)) = now \<and>
      cache_value now b fid raw (touch now a st) a \<noteq> None"
    by (auto simp: cache_value_def touch_def put_value_def entry_or_new_def split: option.splits)
  then show ?thesis by (auto simp: device_status_of_def split: option.splits)
qed

lemma touch_status: "device_status_of now l a (touch now a st) = On"
  by (simp add: device_status_of_def touch_def)

lemma answer_handled:
  assumes a: "a < 0x800000" and r: "answerable na r rest"
  shows "sh_waiter (handle_frame now (wire_can_id (answer_wire na r) a) (snd (request_frame a r) @ rest) s) =
       deliver (request_key a r) (answer_payload a r rest) (sh_waiter s)"
    and "device_status_of now l a
       (sh_state (handle_frame now (wire_can_id (answer_wire na r) a) (snd (request_frame a r) @ rest) s)) = On"
proof -
  have "sh_waiter (handle_frame now (wire_can_id (answer_wire na r) a) (snd (request_frame a r) @ rest) s) =
       deliver (request_key a r) (answer_payload a r rest) (sh_waiter s) \<and>
     device_status_of now l a
       (sh_state (handle_frame now (wire_can_id (answer_wire na r) a) (snd (request_frame a r) @ rest) s)) = On"
  proof (cases "discovery_request r")
    case True
    then have "answer_payload a r rest = snd (request_frame a r) @ rest" by (cases r) simp_all
    then show ?thesis by (simp add: discovery_answer_handled [OF a True] touch_status)
  next
    case False
    then obtain m i where "r = ReqValue (field_id_new m i)" "\<not> na" "length rest = 4"
      using r by (auto simp: answerable_def)
    then show ?thesis
      using value_answer_handled [OF a, of rest now m i 0 s]
      by (simp add: value_read_raw_def cache_value_status)
  qed
  then show "sh_waiter (handle_frame now (wire_can_id (answer_wire na r) a) (snd (request_frame a r) @ rest) s) =
       deliver (request_key a r) (answer_payload a r rest) (sh_waiter s)"
    and "device_status_of now l a
       (sh_state (handle_frame now (wire_can_id (answer_wire na r) a) (snd (request_frame a r) @ rest) s)) = On"
    by blast+
qed

text \<open>What a listener to the presence events knows.\<close>

definition heard :: "u32 set \<times> u32 set \<Rightarrow> u32 set \<Rightarrow> u32 set" where
  "heard ev known = (known \<union> fst ev) - snd ev"

fun news :: "u32 set \<Rightarrow> (u32 set \<times> u32 set) list \<Rightarrow> bool" where
  "news known [] = True"
| "news known (ev # evs) =
     (fst ev \<inter> known = {} \<and> snd ev \<subseteq> known \<and> fst ev \<inter> snd ev = {} \<and> news (heard ev known) evs)"

lemma heard_diff [simp]: "heard (presence_diff known now) known = now"
  by (auto simp: heard_def presence_diff_def)

lemma news_snoc: "news known (evs @ [ev]) \<longleftrightarrow>
    news known evs \<and> news (fold heard evs known) [ev]"
  by (induction evs arbitrary: known) auto

lemma reader_turns_events:
  "news {} (rd_events r) \<and> fold heard (rd_events r) {} = rd_alive r \<Longrightarrow>
   r' = fold (reader_turn liveness) turns r \<Longrightarrow>
     news {} (rd_events r') \<and> fold heard (rd_events r') {} = rd_alive r'"
proof (induction turns arbitrary: r)
  case (Cons turn turns)
  let ?r = "reader_turn liveness turn r"
  have ev: "rd_events ?r = rd_events r @ [presence_diff (rd_alive r) (rd_alive ?r)]"
    by (simp add: reader_turn_def Let_def)
  have "news known [presence_diff known now]" for known now :: "u32 set"
    by (auto simp: presence_diff_def)
  then have "news {} (rd_events ?r) \<and> fold heard (rd_events ?r) {} = rd_alive ?r"
    using Cons.prems(1) unfolding ev news_snoc by (simp del: news.simps)
  from Cons.IH [OF this] Cons.prems(2) show ?case by simp
qed simp

section \<open>Properties\<close>

text \<open>C28. The answer a device gives to a request reaches the waiter of that request, whole, and
  no other request's waiter, whichever device, tab, opcode, index or part the other asked for;
  and the device that answered counts as alive.\<close>

theorem answer_wakes_only_its_request:
  assumes "a' < 0x800000" and "answerable na r' rest"
    and "s' = handle_frame now (wire_can_id (answer_wire na r') a') (snd (request_frame a' r') @ rest) s"
  shows "sh_waiter s' (request_key a r) =
       (if a = a' \<and> r = r'
        then map_option (\<lambda>sl. sl\<lparr>sl_data := Some (answer_payload a' r' rest)\<rparr>) (sh_waiter s (request_key a r))
        else sh_waiter s (request_key a r)) \<and>
     device_status_of now liveness a' (sh_state s') = On"
  using answer_handled(1) [OF assms(1,2), of now s] answer_handled(2) [OF assms(1,2), of now liveness s]
  by (cases "sh_waiter s (request_key a' r')")
     (auto simp add: assms(3) deliver_def request_key_inject
       simp del: request_key.simps answer_wire.simps request_frame.simps)

theorem answer_wakes_only_its_request_witness:
  "sh_waiter (handle_frame 9 (wire_can_id (answer_wire False (ReqValue (field_id_new Alarm 7))) 5)
        (snd (request_frame 5 (ReqValue (field_id_new Alarm 7))) @ [1, 2, 3, 4])
        \<lparr>sh_state = state_new,
         sh_waiter = register (request_key 5 (ReqValue (field_id_new Alarm 7))) waiter_new\<rparr>)
     (request_key 5 (ReqValue (field_id_new Alarm 7))) =
   Some \<lparr>sl_data = Some [1, 2, 3, 4], sl_cancelled = False\<rparr>" (is "sh_waiter ?s' _ = _")
proof -
  have "answerable False (ReqValue (field_id_new Alarm 7)) [1, 2, 3, 4]"
    unfolding answerable_def by auto
  from answer_wakes_only_its_request [of 5, OF _ this, of ?s'] show ?thesis
    by (simp add: register_def del: request_key.simps answer_wire.simps request_frame.simps)
qed

text \<open>Requests of a master, our own looped back or another's, never register a device, wake a
  waiter or reach the cache: on a tab's request wire (Monitoring writes apart), and on the
  classes of the heartbeat and of the property requests, logins and string writes.\<close>

theorem reader_ignores_requests:
  assumes "a < 0x800000"
  shows "(m \<noteq> Monitoring \<or> k \<noteq> Data \<or> length data < 6 \<longrightarrow>
       handle_frame now (wire_can_id (ex_req (exchange m k)) a) data s = s) \<and>
     (c \<in> {5, 7} \<longrightarrow> handle_frame now (can_id_of c b) data s = s)"
  using handle_request_frame [OF assms] handle_master_frame [of c] by auto

theorem reader_ignores_requests_witness:
  "handle_frame 3 (wire_can_id (ex_req (exchange Configuration Data)) 0x188EA2) [1, 0, 0, 0, 0x80, 0x3F]
     \<lparr>sh_state = state_new, sh_waiter = register ''a'' waiter_new\<rparr> =
   \<lparr>sh_state = state_new, sh_waiter = register ''a'' waiter_new\<rparr>"
  using reader_ignores_requests [of "0x188EA2" Configuration Data "[1, 0, 0, 0, 0x80, 0x3F]" 3
      "\<lparr>sh_state = state_new, sh_waiter = register ''a'' waiter_new\<rparr>" 5 0] by simp

text \<open>C29. The exception to that: another master's write of a Monitoring field, which this code
  also sends as six bytes on class 0x18, is taken for the device's own answer. It registers the
  device, wakes a pending read of the field with the written bytes, and puts the value that was
  asked for in the cache, whether or not the device accepts it.\<close>

theorem monitoring_write_taken_for_answer:
  assumes "a < 0x800000" and "state_field_info a (field_id_monitoring i) (sh_state s) = Some f"
  shows "handle_frame now (fst (value_write_raw Monitoring a i v)) (snd (value_write_raw Monitoring a i v)) s =
     \<lparr>sh_state = put_value now a (field_id_monitoring i)
        (with_options (decode_value (u32_to_le_bytes v) (fi_viz f)) (fi_options f)) (touch now a (sh_state s)),
      sh_waiter = deliver (value_key a (field_id_monitoring i)) (u32_to_le_bytes v) (sh_waiter s)\<rparr>"
proof -
  have "state_field_info a fid (touch now a st) = state_field_info a fid st" if st: "st a \<noteq> None" for fid st
  proof -
    obtain e where "st a = Some e" using st by auto
    then show ?thesis by (simp add: state_field_info_def touch_def split: option.split)
  qed
  moreover have "sh_state s a \<noteq> None"
    using assms(2) by (auto simp: state_field_info_def split: option.splits)
  ultimately show ?thesis
    using assms(2) by (simp add: foreign_write_handled [OF assms(1)] cache_value_def)
qed

definition one_field_state :: dev_table where
  "one_field_state = put_extra_field 0 5
     \<lparr>fi_index = field_id_monitoring 1, fi_name = ''Voltage'', fi_unit = ''V'', fi_viz = CheckBox,
      fi_writeable = True, fi_eventable = False, fi_min = 0, fi_max = 0, fi_step = 0, fi_options = []\<rparr>
     state_new"

theorem monitoring_write_taken_for_answer_witness:
  "map_option cv_value (get_value 5 (field_id_monitoring 1)
     (sh_state (handle_frame 9 (fst (value_write_raw Monitoring 5 1 0x3F800000))
        (snd (value_write_raw Monitoring 5 1 0x3F800000))
        \<lparr>sh_state = one_field_state, sh_waiter = waiter_new\<rparr>))) = Some (Boolean True)"
proof -
  have "state_field_info 5 (field_id_monitoring 1) one_field_state = Some
     \<lparr>fi_index = field_id_monitoring 1, fi_name = ''Voltage'', fi_unit = ''V'', fi_viz = CheckBox,
      fi_writeable = True, fi_eventable = False, fi_min = 0, fi_max = 0, fi_step = 0, fi_options = []\<rparr>"
    by (simp add: one_field_state_def state_field_info_def put_extra_field_def state_new_def
        device_entry_new_def)
  then show ?thesis
    using monitoring_write_taken_for_answer [of 5 1 "\<lparr>sh_state = one_field_state, sh_waiter = waiter_new\<rparr>"
        _ 9 "0x3F800000"]
    by (simp add: get_value_def put_value_def u32_to_le_bytes_def)
qed

text \<open>C30. Presence events are a faithful account of liveness: none repeats what a listener
  knows, none contradicts it, and a listener that has heard them all knows exactly the devices
  heard within the liveness window at the last turn. When the loop ends no request is left
  waiting.\<close>

theorem presence_events_account:
  "news {} (rd_events (reader_loop liveness turns s)) \<and>
   fold heard (rd_events (reader_loop liveness turns s)) {} = rd_alive (reader_loop liveness turns s) \<and>
   (\<forall>t r earlier. turns = earlier @ [(t, r)] \<longrightarrow>
      rd_alive (reader_loop liveness turns s) =
        set (alive_ids t liveness (sh_state (rd_shared (reader_loop liveness turns s))))) \<and>
   (\<forall>k. \<not> blocked k (sh_waiter (rd_shared (reader_loop liveness turns s))))"
proof -
  let ?r = "fold (reader_turn liveness) turns (reader_start s)"
  have "news {} (rd_events ?r) \<and> fold heard (rd_events ?r) {} = rd_alive ?r"
    by (rule reader_turns_events [OF _ refl]) (simp add: reader_start_def)
  moreover have "rd_alive ?r = set (alive_ids t liveness (sh_state (rd_shared ?r)))"
    if "turns = earlier @ [(t, x)]" for t x earlier
    using that by (simp add: reader_turn_def Let_def)
  moreover have "\<not> blocked k (cancel_all w)" for k w
    by (auto simp: blocked_def cancel_all_def split: option.splits)
  ultimately show ?thesis by (auto simp: reader_loop_def Let_def)
qed

theorem presence_events_account_witness:
  "rd_alive (reader_loop 60000 [(1, Inr None), (2, Inr (Some (0x04188EA2, [0x0B, 0, 0, 0, 2, 1])))]
       \<lparr>sh_state = state_new, sh_waiter = waiter_new\<rparr>) =
   set (alive_ids 2 60000 (sh_state (rd_shared (reader_loop 60000
       [(1, Inr None), (2, Inr (Some (0x04188EA2, [0x0B, 0, 0, 0, 2, 1])))]
       \<lparr>sh_state = state_new, sh_waiter = waiter_new\<rparr>))))"
  using presence_events_account [of 60000 "[(1, Inr None), (2, Inr (Some (0x04188EA2, [0x0B, 0, 0, 0, 2, 1])))]"
      "\<lparr>sh_state = state_new, sh_waiter = waiter_new\<rparr>"]
  by (metis append_Cons append_Nil)

end
