(* ===== verification/Bus.thy ===== *)
theory Bus
  imports Reader
begin

text \<open>
  The scheduler thread's view of the wire: a clock in milliseconds, the state it shares with
  the reader, the frames on their way to us, and the log of the frames sent. What the devices
  answer is a parameter \<open>b_net\<close>: given the log of everything sent, the frames the last one
  brings about, each with its delay; it may depend on all of the past, answer late, never or
  with anything. The clock moves only while the scheduler waits or sleeps, and the reader
  handles each frame at its time of arrival meanwhile. Also the configuration of
  \<open>crates/masterbus/src/runtime/mod.rs\<close>.
\<close>

section \<open>Configuration (runtime/mod.rs)\<close>

record config =
  cf_max_age :: nat
  cf_liveness :: nat
  cf_min_send_interval :: nat
  cf_discovery_timeout :: nat
  cf_discovery_retries :: nat
  cf_discovery_window :: nat
  cf_discovery_settle :: nat
  cf_connect_timeout :: nat
  cf_cache_path :: "string option"
  cf_heartbeat_master :: "u32 option"
  cf_heartbeat_interval :: nat
  cf_quiet_probe :: nat
  cf_bus_id :: "u32 option"

definition config_default :: config where
  "config_default =
     \<lparr>cf_max_age = 1500, cf_liveness = 5000, cf_min_send_interval = 1, cf_discovery_timeout = 150,
      cf_discovery_retries = 3, cf_discovery_window = 2000, cf_discovery_settle = 2000,
      cf_connect_timeout = 15000, cf_cache_path = None, cf_heartbeat_master = None,
      cf_heartbeat_interval = 1000, cf_quiet_probe = 30000, cf_bus_id = None\<rparr>"

section \<open>The bus\<close>

record bus =
  b_clock :: nat
  b_shared :: shared
  b_queue :: "(nat \<times> frame) list"
  b_sent :: "(nat \<times> frame) list"
  b_net :: "(nat \<times> frame) list \<Rightarrow> (nat \<times> frame) list"

abbreviation b_waiter :: "'a bus_scheme \<Rightarrow> waiter" where
  "b_waiter b \<equiv> sh_waiter (b_shared b)"

abbreviation b_state :: "'a bus_scheme \<Rightarrow> dev_table" where
  "b_state b \<equiv> sh_state (b_shared b)"

definition upd_waiter :: "(waiter \<Rightarrow> waiter) \<Rightarrow> 'a bus_scheme \<Rightarrow> 'a bus_scheme" where
  "upd_waiter f b = b\<lparr>b_shared := (b_shared b)\<lparr>sh_waiter := f (b_waiter b)\<rparr>\<rparr>"

definition upd_state :: "(dev_table \<Rightarrow> dev_table) \<Rightarrow> 'a bus_scheme \<Rightarrow> 'a bus_scheme" where
  "upd_state f b = b\<lparr>b_shared := (b_shared b)\<lparr>sh_state := f (b_state b)\<rparr>\<rparr>"

text \<open>The reader handles one frame; then the arrivals up to time \<open>t\<close>, while \<open>c\<close> holds.\<close>

definition arrive :: "nat \<Rightarrow> frame \<Rightarrow> 'a bus_scheme \<Rightarrow> 'a bus_scheme" where
  "arrive u f b =
     (let now = max u (b_clock b)
      in b\<lparr>b_clock := now, b_shared := handle_frame now (fst f) (snd f) (b_shared b)\<rparr>)"

fun run_until :: "(waiter \<Rightarrow> bool) \<Rightarrow> nat \<Rightarrow> (nat \<times> frame) list \<Rightarrow> 'a bus_scheme \<Rightarrow> 'a bus_scheme" where
  "run_until c t [] b =
     b\<lparr>b_queue := [], b_clock := (if c (b_waiter b) then max t (b_clock b) else b_clock b)\<rparr>"
| "run_until c t ((u, f) # q) b =
     (if \<not> c (b_waiter b) then b\<lparr>b_queue := (u, f) # q\<rparr>
      else if u \<le> t then run_until c t q (arrive u f b)
      else b\<lparr>b_queue := (u, f) # q, b_clock := max t (b_clock b)\<rparr>)"

definition bus_await :: "(waiter \<Rightarrow> bool) \<Rightarrow> nat \<Rightarrow> 'a bus_scheme \<Rightarrow> 'a bus_scheme" where
  "bus_await c timeout b = run_until c (b_clock b + timeout) (b_queue b) b"

text \<open>\<open>Waiter::register\<close>, \<open>wait\<close>, \<open>wait_or_keep\<close>, \<open>wait_any\<close>, and sleeping.\<close>

definition bus_register :: "string \<Rightarrow> 'a bus_scheme \<Rightarrow> 'a bus_scheme" where
  "bus_register k = upd_waiter (register k)"

definition bus_wait :: "string \<Rightarrow> nat \<Rightarrow> 'a bus_scheme \<Rightarrow> bytes option \<times> 'a bus_scheme" where
  "bus_wait k timeout b =
     (let b' = bus_await (blocked k) timeout b
      in (fst (collect k (b_waiter b')), upd_waiter (\<lambda>w. snd (collect k w)) b'))"

definition bus_wait_or_keep :: "string \<Rightarrow> nat \<Rightarrow> 'a bus_scheme \<Rightarrow> bytes option \<times> 'a bus_scheme" where
  "bus_wait_or_keep k timeout b =
     (let b' = bus_await (blocked k) timeout b
      in (fst (collect_or_keep k (b_waiter b')), upd_waiter (\<lambda>w. snd (collect_or_keep k w)) b'))"

definition bus_wait_any :: "string list \<Rightarrow> nat \<Rightarrow> 'a bus_scheme \<Rightarrow> nat option \<times> 'a bus_scheme" where
  "bus_wait_any ks timeout b =
     (let b' = bus_await (\<lambda>w. ready ks w = None) timeout b in (ready ks (b_waiter b'), b'))"

definition bus_sleep :: "nat \<Rightarrow> 'a bus_scheme \<Rightarrow> 'a bus_scheme" where
  "bus_sleep d b = bus_await (\<lambda>_. True) d b"

text \<open>A frame put on the wire; the result of the transport's send is ignored by every caller.\<close>

definition bus_send :: "frame \<Rightarrow> 'a bus_scheme \<Rightarrow> 'a bus_scheme" where
  "bus_send f b =
     (let sent = b_sent b @ [(b_clock b, f)]
      in b\<lparr>b_sent := sent,
           b_queue := sort_key fst (b_queue b @ map (\<lambda>(d, g). (b_clock b + d, g)) (b_net b sent))\<rparr>)"

section \<open>Facts\<close>

lemma upd_waiter_simps [simp]:
  "b_clock (upd_waiter f b) = b_clock b" "b_queue (upd_waiter f b) = b_queue b"
  "b_sent (upd_waiter f b) = b_sent b" "b_net (upd_waiter f b) = b_net b"
  "bus.more (upd_waiter f b) = bus.more b" "b_waiter (upd_waiter f b) = f (b_waiter b)"
  "b_state (upd_waiter f b) = b_state b"
  by (simp_all add: upd_waiter_def)

lemma upd_state_simps [simp]:
  "b_clock (upd_state f b) = b_clock b" "b_queue (upd_state f b) = b_queue b"
  "b_sent (upd_state f b) = b_sent b" "b_net (upd_state f b) = b_net b"
  "bus.more (upd_state f b) = bus.more b" "b_waiter (upd_state f b) = b_waiter b"
  "b_state (upd_state f b) = f (b_state b)"
  by (simp_all add: upd_state_def)

lemma arrive_simps [simp]:
  "b_clock (arrive u f b) = max u (b_clock b)" "b_queue (arrive u f b) = b_queue b"
  "b_sent (arrive u f b) = b_sent b" "b_net (arrive u f b) = b_net b"
  "bus.more (arrive u f b) = bus.more b"
  by (simp_all add: arrive_def Let_def)

lemma run_until_simps [simp]:
  "b_sent (run_until c t q b) = b_sent b" "b_net (run_until c t q b) = b_net b"
  "bus.more (run_until c t q b) = bus.more b"
  by (induction c t q b rule: run_until.induct) simp_all

lemma run_until_clock: "b_clock b \<le> b_clock (run_until c t q b)"
proof (induction c t q b rule: run_until.induct)
  case (2 c t u f q b)
  then show ?case by (auto intro: order.trans [rotated])
qed simp

lemma run_until_deadline: "b_clock (run_until c t q b) \<le> max t (b_clock b)"
  by (induction c t q b rule: run_until.induct) auto

lemma run_until_passes: "b_clock b \<le> t \<Longrightarrow> c (b_waiter (run_until c t q b)) \<Longrightarrow> b_clock (run_until c t q b) = t"
  by (induction c t q b rule: run_until.induct) (auto split: if_splits)

lemma bus_await_simps [simp]:
  "b_sent (bus_await c d b) = b_sent b" "b_net (bus_await c d b) = b_net b"
  "bus.more (bus_await c d b) = bus.more b"
  by (simp_all add: bus_await_def)

lemma bus_await_clock:
  "b_clock b \<le> b_clock (bus_await c d b)" "b_clock (bus_await c d b) \<le> b_clock b + d"
  using run_until_clock run_until_deadline [of c "b_clock b + d" "b_queue b" b]
  by (simp_all add: bus_await_def max_absorb1)

lemma bus_await_passes:
  "c (b_waiter (bus_await c d b)) \<Longrightarrow> b_clock (bus_await c d b) = b_clock b + d"
  by (simp add: bus_await_def run_until_passes)

lemma bus_sleep_clock [simp]: "b_clock (bus_sleep d b) = b_clock b + d"
  by (simp add: bus_sleep_def bus_await_passes)

lemma bus_sleep_simps [simp]:
  "b_sent (bus_sleep d b) = b_sent b" "b_net (bus_sleep d b) = b_net b"
  "bus.more (bus_sleep d b) = bus.more b"
  by (simp_all add: bus_sleep_def)

lemma bus_register_simps [simp]:
  "b_clock (bus_register k b) = b_clock b" "b_queue (bus_register k b) = b_queue b"
  "b_sent (bus_register k b) = b_sent b" "b_net (bus_register k b) = b_net b"
  "bus.more (bus_register k b) = bus.more b" "b_waiter (bus_register k b) = register k (b_waiter b)"
  "b_state (bus_register k b) = b_state b"
  by (simp_all add: bus_register_def)

lemma bus_send_simps [simp]:
  "b_clock (bus_send f b) = b_clock b" "b_sent (bus_send f b) = b_sent b @ [(b_clock b, f)]"
  "b_net (bus_send f b) = b_net b" "bus.more (bus_send f b) = bus.more b"
  "b_shared (bus_send f b) = b_shared b"
  by (simp_all add: bus_send_def Let_def)

lemma bus_wait_simps [simp]:
  "b_sent (snd (bus_wait k d b)) = b_sent b" "b_net (snd (bus_wait k d b)) = b_net b"
  "bus.more (snd (bus_wait k d b)) = bus.more b"
  "b_sent (snd (bus_wait_or_keep k d b)) = b_sent b" "b_net (snd (bus_wait_or_keep k d b)) = b_net b"
  "bus.more (snd (bus_wait_or_keep k d b)) = bus.more b"
  "b_sent (snd (bus_wait_any ks d b)) = b_sent b" "b_net (snd (bus_wait_any ks d b)) = b_net b"
  "bus.more (snd (bus_wait_any ks d b)) = bus.more b"
  by (simp_all add: bus_wait_def bus_wait_or_keep_def bus_wait_any_def Let_def)

lemma bus_wait_clock:
  "b_clock b \<le> b_clock (snd (bus_wait k d b))" "b_clock (snd (bus_wait k d b)) \<le> b_clock b + d"
  "b_clock b \<le> b_clock (snd (bus_wait_or_keep k d b))"
  "b_clock (snd (bus_wait_or_keep k d b)) \<le> b_clock b + d"
  "b_clock b \<le> b_clock (snd (bus_wait_any ks d b))" "b_clock (snd (bus_wait_any ks d b)) \<le> b_clock b + d"
  by (simp_all add: bus_wait_def bus_wait_or_keep_def bus_wait_any_def Let_def bus_await_clock)

text \<open>A key is free after a wait, and after a wait that keeps it, unless nothing came.\<close>

lemma bus_wait_frees: "b_waiter (snd (bus_wait k d b)) k = None"
  by (simp add: bus_wait_def Let_def collect_def)

lemma bus_wait_or_keep_Some: "fst (bus_wait_or_keep k d b) \<noteq> None \<Longrightarrow> b_waiter (snd (bus_wait_or_keep k d b)) k = None"
  by (auto simp: bus_wait_or_keep_def Let_def collect_or_keep_def collect_def split: if_splits)

text \<open>
  The frames of the queue that do not matter to a key, and the first that does. A wait hands
  out what the first answer brings, whatever arrived before it.
\<close>

definition passes_by :: "string \<Rightarrow> frame \<Rightarrow> bool" where
  "passes_by k f \<longleftrightarrow> (\<forall>now s. sh_waiter (handle_frame now (fst f) (snd f) s) k = sh_waiter s k)"

definition brings :: "string \<Rightarrow> bytes \<Rightarrow> frame \<Rightarrow> bool" where
  "brings k d f \<longleftrightarrow>
     (\<forall>now s. sh_waiter (handle_frame now (fst f) (snd f) s) k =
        map_option (\<lambda>sl. sl\<lparr>sl_data := Some d\<rparr>) (sh_waiter s k))"

lemma arrive_passes: "passes_by k f \<Longrightarrow> b_waiter (arrive u f b) k = b_waiter b k"
  by (simp add: passes_by_def arrive_def Let_def)

lemma arrive_brings:
  "brings k d f \<Longrightarrow> b_waiter b k = Some \<lparr>sl_data = None, sl_cancelled = False\<rparr> \<Longrightarrow>
     b_waiter (arrive u f b) k = Some \<lparr>sl_data = Some d, sl_cancelled = False\<rparr>"
  by (simp add: brings_def arrive_def Let_def)

definition waiting :: "string \<Rightarrow> 'a bus_scheme \<Rightarrow> bool" where
  "waiting k b \<longleftrightarrow> b_waiter b k = Some \<lparr>sl_data = None, sl_cancelled = False\<rparr>"

lemma waiting_blocked: "waiting k b \<Longrightarrow> blocked k (b_waiter b)"
  by (simp add: waiting_def blocked_def)

lemma waiting_register [simp]: "waiting k (bus_register k b)"
  by (simp add: waiting_def register_def)

lemma run_until_stop: "\<not> c (b_waiter b) \<Longrightarrow> b_waiter (run_until c t q b) = b_waiter b"
  by (cases "(c, t, q, b)" rule: run_until.cases) simp_all

lemma run_until_answered:
  assumes "waiting k b" and "\<forall>(t', g) \<in> set pre. t' \<le> t \<and> passes_by k g"
    and "u \<le> t" and "brings k d f"
  shows "b_waiter (run_until (blocked k) t (pre @ (u, f) # post) b) k =
     Some \<lparr>sl_data = Some d, sl_cancelled = False\<rparr>"
  using assms(1,2)
proof (induction pre arbitrary: b)
  case Nil
  have a: "b_waiter (arrive u f b) k = Some \<lparr>sl_data = Some d, sl_cancelled = False\<rparr>"
    using Nil(1) arrive_brings [OF assms(4)] by (simp add: waiting_def)
  then have "\<not> blocked k (b_waiter (arrive u f b))" by (simp add: blocked_def)
  then have "b_waiter (run_until (blocked k) t post (arrive u f b)) = b_waiter (arrive u f b)"
    by (rule run_until_stop)
  with Nil(1) assms(3) a show ?case by (simp add: waiting_blocked)
next
  case (Cons g pre)
  obtain t' h where g: "g = (t', h)" by (cases g)
  then have "waiting k (arrive t' h b)" using Cons.prems by (simp add: waiting_def arrive_passes)
  then show ?case using Cons g by (simp add: waiting_blocked)
qed

lemma run_until_silent:
  assumes "waiting k b" and "\<forall>(t', g) \<in> set q. t' \<le> t \<longrightarrow> passes_by k g"
  shows "waiting k (run_until (blocked k) t q b)"
  using assms
proof (induction q arbitrary: b)
  case (Cons g q)
  obtain t' h where g: "g = (t', h)" by (cases g)
  show ?case
  proof (cases "t' \<le> t")
    case True
    with Cons.prems g have "waiting k (arrive t' h b)" by (simp add: waiting_def arrive_passes)
    with Cons g True show ?thesis by (simp add: waiting_blocked)
  qed (use Cons.prems g in \<open>simp add: waiting_blocked waiting_def\<close>)
qed (simp add: waiting_def)

text \<open>A wait for a registered key: the first answer within the time, or nothing.\<close>

lemma bus_wait_answered:
  assumes "waiting k b" and "b_queue b = pre @ (u, f) # post"
    and "\<forall>(t', g) \<in> set pre. t' \<le> b_clock b + timeout \<and> passes_by k g"
    and "u \<le> b_clock b + timeout" and "brings k d f"
  shows "fst (bus_wait k timeout b) = Some d"
  using run_until_answered [OF assms(1,3,4,5)]
  by (simp add: bus_wait_def bus_await_def assms(2) Let_def collect_def)

lemma bus_wait_silent:
  assumes "waiting k b" and "\<forall>(t', g) \<in> set (b_queue b). t' \<le> b_clock b + timeout \<longrightarrow> passes_by k g"
  shows "fst (bus_wait k timeout b) = None"
    and "b_clock (snd (bus_wait k timeout b)) = b_clock b + timeout"
proof -
  have w: "waiting k (bus_await (blocked k) timeout b)"
    using run_until_silent [OF assms] by (simp add: bus_await_def)
  then show "fst (bus_wait k timeout b) = None"
    by (simp add: bus_wait_def Let_def collect_def waiting_def)
  show "b_clock (snd (bus_wait k timeout b)) = b_clock b + timeout"
    using bus_await_passes [of "blocked k", OF waiting_blocked [OF w]]
    by (simp add: bus_wait_def Let_def)
qed

end
