(* ===== verification/Requests.thy ===== *)
theory Requests
  imports Bus RustStr "HOL-Library.Monad_Syntax"
begin

text \<open>
  Discovery's requests: the first half of \<open>crates/masterbus/src/runtime/discovery.rs\<close>.
  Every operation passes the bus along and may not return (\<open>None\<close>): the string fetch asks for
  chunk after chunk as long as the device gives full ones. The scheduler's turn before each
  request, \<open>DiscBus::between\<close>, is the argument \<open>btw\<close>.
\<close>

type_synonym 'a turn = "'a bus_scheme \<Rightarrow> 'a bus_scheme option"
type_synonym req = "string \<times> frame"

definition OPTIONAL_RETRIES :: nat where "OPTIONAL_RETRIES = 1"
definition BEST_EFFORT_META_WAIT :: nat where "BEST_EFFORT_META_WAIT = 4"
definition PROBE_CHUNK :: nat where "PROBE_CHUNK = 64"

section \<open>One request\<close>

text \<open>\<open>req_with\<close>: \<open>n\<close> attempts are left; with \<open>keep\<close> the last one leaves the key registered.\<close>

fun req_with ::
  "'a turn \<Rightarrow> config \<Rightarrow> string \<Rightarrow> frame \<Rightarrow> nat \<Rightarrow> bool \<Rightarrow> 'a bus_scheme \<Rightarrow>
     (bytes option \<times> 'a bus_scheme) option" where
  "req_with btw cfg key fr 0 keep b = Some (None, b)"
| "req_with btw cfg key fr (Suc n) keep b =
     do {
       b1 \<leftarrow> btw b;
       let b2 = bus_send fr (bus_register key b1);
       let (r, b3) = (if keep \<and> n = 0 then bus_wait_or_keep key (cf_discovery_timeout cfg) b2
                      else bus_wait key (cf_discovery_timeout cfg) b2);
       (case r of Some d \<Rightarrow> Some (Some d, b3) | None \<Rightarrow> req_with btw cfg key fr n keep b3)
     }"

definition req_keeping ::
  "'a turn \<Rightarrow> config \<Rightarrow> string \<Rightarrow> frame \<Rightarrow> nat \<Rightarrow> 'a bus_scheme \<Rightarrow> (bytes option \<times> 'a bus_scheme) option" where
  "req_keeping btw cfg key fr n b = req_with btw cfg key fr n True b"

definition req_patient ::
  "'a turn \<Rightarrow> config \<Rightarrow> string \<Rightarrow> frame \<Rightarrow> 'a bus_scheme \<Rightarrow> (bytes option \<times> 'a bus_scheme) option" where
  "req_patient btw cfg key fr b =
     do {
       (r, b1) \<leftarrow> req_keeping btw cfg key fr (cf_discovery_retries cfg) b;
       (case r of
          Some d \<Rightarrow> Some (Some d, b1)
        | None \<Rightarrow> Some (bus_wait key (cf_discovery_timeout cfg) b1))
     }"

definition req_std ::
  "'a turn \<Rightarrow> config \<Rightarrow> string \<Rightarrow> frame \<Rightarrow> 'a bus_scheme \<Rightarrow> (bytes option \<times> 'a bus_scheme) option" where
  "req_std btw cfg key fr b = req_with btw cfg key fr (cf_discovery_retries cfg) False b"

text \<open>Waits for several keys until one deadline, each at least a millisecond.\<close>

fun wait_each :: "nat \<Rightarrow> string list \<Rightarrow> 'a bus_scheme \<Rightarrow> bytes option list \<times> 'a bus_scheme" where
  "wait_each deadline [] b = ([], b)"
| "wait_each deadline (k # ks) b =
     (let (r, b1) = bus_wait k (max (deadline - b_clock b) 1) b;
          (rs, b2) = wait_each deadline ks b1
      in (r # rs, b2))"

definition collect_late :: "config \<Rightarrow> string list \<Rightarrow> 'a bus_scheme \<Rightarrow> bytes option list \<times> 'a bus_scheme" where
  "collect_late cfg ks b = wait_each (b_clock b + cf_discovery_timeout cfg) ks b"

section \<open>Several requests at once\<close>

text \<open>Frames sent back to back with a gap between them.\<close>

fun send_spaced :: "nat \<Rightarrow> frame list \<Rightarrow> 'a bus_scheme \<Rightarrow> 'a bus_scheme" where
  "send_spaced gap [] b = b"
| "send_spaced gap (f # fs) b = fold (\<lambda>g b. bus_send g (bus_sleep gap b)) fs (bus_send f b)"

fun wait_round ::
  "bool \<Rightarrow> nat \<Rightarrow> req list \<Rightarrow> nat list \<Rightarrow> bytes option list \<Rightarrow> 'a bus_scheme \<Rightarrow>
     bytes option list \<times> 'a bus_scheme" where
  "wait_round final deadline reqs [] out b = (out, b)"
| "wait_round final deadline reqs (i # is) out b =
     (let k = fst (reqs ! i); left = max (deadline - b_clock b) 1;
          (r, b1) = (if final then bus_wait_or_keep k left b else bus_wait k left b)
      in wait_round final deadline reqs is (out[i := r]) b1)"

definition open_reqs :: "bytes option list \<Rightarrow> nat list" where
  "open_reqs out = filter (\<lambda>i. out ! i = None) [0 ..< length out]"

text \<open>The rounds of \<open>req_all\<close>, \<open>n\<close> left; all answered ends them early.\<close>

fun req_rounds ::
  "'a turn \<Rightarrow> config \<Rightarrow> req list \<Rightarrow> nat \<Rightarrow> bytes option list \<Rightarrow> 'a bus_scheme \<Rightarrow>
     (bytes option list \<times> 'a bus_scheme) option" where
  "req_rounds btw cfg reqs 0 out b = Some (out, b)"
| "req_rounds btw cfg reqs (Suc n) out b =
     (if open_reqs out = [] then Some (out, b)
      else do {
        b1 \<leftarrow> btw b;
        let b2 = fold (\<lambda>i. bus_register (fst (reqs ! i))) (open_reqs out) b1;
        let b3 = send_spaced (cf_min_send_interval cfg) (map (\<lambda>i. snd (reqs ! i)) (open_reqs out)) b2;
        let (out', b4) = wait_round (n = 0) (b_clock b3 + cf_discovery_timeout cfg) reqs (open_reqs out) out b3;
        req_rounds btw cfg reqs n out' b4
      })"

definition put_late :: "nat list \<Rightarrow> bytes option list \<Rightarrow> bytes option list \<Rightarrow> bytes option list" where
  "put_late is rs out =
     fold (\<lambda>(i, r) out. case r of Some d \<Rightarrow> out[i := Some d] | None \<Rightarrow> out) (zip is rs) out"

definition req_all ::
  "'a turn \<Rightarrow> config \<Rightarrow> req list \<Rightarrow> 'a bus_scheme \<Rightarrow> (bytes option list \<times> 'a bus_scheme) option" where
  "req_all btw cfg reqs b =
     do {
       (out, b1) \<leftarrow> req_rounds btw cfg reqs (cf_discovery_retries cfg) (replicate (length reqs) None) b;
       let late = open_reqs out;
       let (rs, b2) = collect_late cfg (map (\<lambda>i. fst (reqs ! i)) late) b1;
       Some (put_late late rs out, b2)
     }"

section \<open>Strings\<close>

text \<open>The memory of one discovery: fetched strings, and metadata ops that went unanswered.\<close>

record disc =
  dc_level :: access_level
  dc_catalog :: "catalog_table option"
  dc_known :: "(u32 \<times> u16) \<rightharpoonup> string"
  dc_unanswered :: "(u32 \<times> u16) \<rightharpoonup> nat"
  dc_ops :: "(u32 \<times> u8) \<rightharpoonup> nat"
  dc_silent :: "u32 \<rightharpoonup> nat"

definition disc_new :: "access_level \<Rightarrow> catalog_table option \<Rightarrow> disc" where
  "disc_new level catalog =
     \<lparr>dc_level = level, dc_catalog = catalog, dc_known = Map.empty, dc_unanswered = Map.empty,
      dc_ops = Map.empty, dc_silent = Map.empty\<rparr>"

definition UNANSWERED_META_LIMIT :: nat where "UNANSWERED_META_LIMIT = 2"
definition UNANSWERED_STR_LIMIT :: nat where "UNANSWERED_STR_LIMIT = 2"

definition count_of :: "('k \<rightharpoonup> nat) \<Rightarrow> 'k \<Rightarrow> nat" where
  "count_of m k = (case m k of Some n \<Rightarrow> n | None \<Rightarrow> 0)"

definition meta_retried :: "disc \<Rightarrow> u32 \<Rightarrow> u8 \<Rightarrow> bool" where
  "meta_retried d addr op \<longleftrightarrow> count_of (dc_ops d) (addr, op) < UNANSWERED_META_LIMIT"

definition meta_missed :: "u32 \<Rightarrow> u8 \<Rightarrow> disc \<Rightarrow> disc" where
  "meta_missed addr op d = d\<lparr>dc_ops := (dc_ops d)((addr, op) \<mapsto> count_of (dc_ops d) (addr, op) + 1)\<rparr>"

definition silent_retried :: "disc \<Rightarrow> u32 \<Rightarrow> bool" where
  "silent_retried d addr \<longleftrightarrow> count_of (dc_silent d) addr < UNANSWERED_META_LIMIT"

definition silent_retry :: "u32 \<Rightarrow> bool \<Rightarrow> disc \<Rightarrow> disc" where
  "silent_retry addr answered d =
     d\<lparr>dc_silent := (dc_silent d)(addr \<mapsto> (if answered then 0 else count_of (dc_silent d) addr + 1))\<rparr>"

record fetch =
  ft_id :: "u32 \<times> u16"
  ft_s :: string
  ft_seq :: u8
  ft_done :: bool

fun new_fetches :: "disc \<Rightarrow> (u32 \<times> u16) list \<Rightarrow> fetch list \<Rightarrow> fetch list" where
  "new_fetches d [] fs = fs"
| "new_fetches d (i # is) fs =
     (let done = dc_known d i \<noteq> None \<or>
                 (case dc_unanswered d i of Some n \<Rightarrow> UNANSWERED_STR_LIMIT \<le> n | None \<Rightarrow> False)
      in if \<not> done \<and> \<not> list_ex (\<lambda>f. ft_id f = i) fs
         then new_fetches d is (fs @ [\<lparr>ft_id = i, ft_s = [], ft_seq = 0, ft_done = False\<rparr>])
         else new_fetches d is fs)"

definition chunk_key :: "fetch \<Rightarrow> string" where
  "chunk_key f = str_key (fst (ft_id f)) (snd (ft_id f)) (ft_seq f)"

definition chunk_req :: "fetch \<Rightarrow> req" where
  "chunk_req f = (chunk_key f, string_chunk_req_raw (fst (ft_id f)) (snd (ft_id f)) (ft_seq f))"

text \<open>The characters of a chunk reply, to the first NUL; and whether it is the last one.\<close>

definition chunk_text :: "bytes \<Rightarrow> string" where
  "chunk_text r = concat (map latin1_utf8 (takeWhile (\<lambda>c. c \<noteq> 0) (drop 4 r)))"

definition chunk_last :: "bytes \<Rightarrow> bool" where
  "chunk_last r \<longleftrightarrow> length r < 8 \<or> 0 \<in> set (drop 4 r)"

definition take_chunk :: "bytes option \<Rightarrow> fetch \<Rightarrow> disc \<Rightarrow> fetch \<times> disc" where
  "take_chunk r f d =
     (case r of
        None \<Rightarrow>
          (f\<lparr>ft_done := True\<rparr>,
           if ft_seq f = 0
           then d\<lparr>dc_unanswered := (dc_unanswered d)(ft_id f \<mapsto> count_of (dc_unanswered d) (ft_id f) + 1)\<rparr>
           else d)
      | Some r \<Rightarrow>
          let s = ft_s f @ chunk_text r
          in if chunk_last r
             then (f\<lparr>ft_s := s, ft_done := True\<rparr>, d\<lparr>dc_known := (dc_known d)(ft_id f \<mapsto> s)\<rparr>)
             else (f\<lparr>ft_s := s, ft_seq := ft_seq f + 1\<rparr>, d))"

fun take_chunks :: "(nat \<times> bytes option) list \<Rightarrow> fetch list \<Rightarrow> disc \<Rightarrow> fetch list \<times> disc" where
  "take_chunks [] fs d = (fs, d)"
| "take_chunks ((i, r) # rs) fs d =
     (let (f, d1) = take_chunk r (fs ! i) d in take_chunks rs (fs[i := f]) d1)"

definition open_fetches :: "fetch list \<Rightarrow> nat list" where
  "open_fetches fs = filter (\<lambda>i. \<not> ft_done (fs ! i)) [0 ..< length fs]"

partial_function (option) fetch_rounds ::
  "'a turn \<Rightarrow> config \<Rightarrow> fetch list \<Rightarrow> disc \<Rightarrow> 'a bus_scheme \<Rightarrow>
     (fetch list \<times> disc \<times> 'a bus_scheme) option" where
  "fetch_rounds btw cfg fs d b =
     (if open_fetches fs = [] then Some (fs, d, b)
      else Option.bind (req_all btw cfg (map (\<lambda>i. chunk_req (fs ! i)) (open_fetches fs)) b)
        (\<lambda>x. fetch_rounds btw cfg
           (fst (take_chunks (zip (open_fetches fs) (fst x)) fs d))
           (snd (take_chunks (zip (open_fetches fs) (fst x)) fs d)) (snd x)))"

declare fetch_rounds.simps [code]

definition fetched_text :: "fetch list \<Rightarrow> disc \<Rightarrow> u32 \<times> u16 \<Rightarrow> string" where
  "fetched_text fs d i =
     (case dc_known d i of
        Some s \<Rightarrow> s
      | None \<Rightarrow> (case find (\<lambda>f. ft_id f = i) fs of Some f \<Rightarrow> ft_s f | None \<Rightarrow> []))"

definition fetch_strs_wire ::
  "'a turn \<Rightarrow> config \<Rightarrow> (u32 \<times> u16) list \<Rightarrow> disc \<Rightarrow> 'a bus_scheme \<Rightarrow>
     (string list \<times> disc \<times> 'a bus_scheme) option" where
  "fetch_strs_wire btw cfg ids d b =
     do {
       (fs, d1, b1) \<leftarrow> fetch_rounds btw cfg (new_fetches d ids []) d b;
       Some (map (fetched_text fs d1) ids, d1, b1)
     }"

definition fetch_str_wire ::
  "'a turn \<Rightarrow> config \<Rightarrow> u32 \<Rightarrow> u16 \<Rightarrow> disc \<Rightarrow> 'a bus_scheme \<Rightarrow> (string \<times> disc \<times> 'a bus_scheme) option" where
  "fetch_str_wire btw cfg addr sid d b =
     do { (ss, d1, b1) \<leftarrow> fetch_strs_wire btw cfg [(addr, sid)] d b; Some (hd ss, d1, b1) }"

definition fetch_str ::
  "'a turn \<Rightarrow> config \<Rightarrow> u32 \<Rightarrow> u16 \<Rightarrow> disc \<Rightarrow> 'a bus_scheme \<Rightarrow> (string \<times> disc \<times> 'a bus_scheme) option" where
  "fetch_str btw cfg addr sid d b =
     (case (case dc_catalog d of Some cat \<Rightarrow> cat sid | None \<Rightarrow> None) of
        Some s \<Rightarrow> Some (s, d, b)
      | None \<Rightarrow> fetch_str_wire btw cfg addr sid d b)"

end
