(* ===== verification/Discovery.thy ===== *)
theory Discovery
  imports Requests
begin

text \<open>
  Device discovery: the second half of \<open>crates/masterbus/src/runtime/discovery.rs\<close>. Field
  metadata in one pipelined round, the sweep of the index space, option labels, identities,
  the choice of an offline string table (with \<open>strings.rs\<close>), groups and menus, the device's
  eventable outputs, and the cache of menus on disk. A file's content is what was written;
  what reading a menu's JSON back gives, and whether a write succeeds, are parameters.
\<close>

type_synonym ('r, 'a) disc_res = "('r \<times> disc \<times> 'a bus_scheme) option"

section \<open>Metadata\<close>

definition op_NAME :: u8 where "op_NAME = 0x28"
definition op_VIZ :: u8 where "op_VIZ = 0x02"
definition op_MAX :: u8 where "op_MAX = 0x07"
definition op_UNIT :: u8 where "op_UNIT = 0x2C"
definition op_WRITEABLE :: u8 where "op_WRITEABLE = 0x0B"
definition op_EVENTABLE :: u8 where "op_EVENTABLE = 0x0D"

lemmas op_defs = op_NAME_def op_VIZ_def op_MAX_def op_UNIT_def op_WRITEABLE_def op_EVENTABLE_def

text \<open>Replies collected one key after the other; \<open>left\<close> is how long each may still take.\<close>

fun collect_ops ::
  "(u8 \<Rightarrow> string) \<Rightarrow> ('a bus_scheme \<Rightarrow> nat) \<Rightarrow> u8 list \<Rightarrow> 'a bus_scheme \<Rightarrow> (u8 \<times> bytes) list \<times> 'a bus_scheme" where
  "collect_ops key left [] b = ([], b)"
| "collect_ops key left (op # ops) b =
     (let (r, b1) = bus_wait (key op) (left b) b;
          (rs, b2) = collect_ops key left ops b1
      in ((case r of Some d \<Rightarrow> (op, d) # rs | None \<Rightarrow> rs), b2))"

definition meta_batch ::
  "'a turn \<Rightarrow> config \<Rightarrow> u32 \<Rightarrow> field_id \<Rightarrow> u8 list \<Rightarrow> u8 list \<Rightarrow> 'a bus_scheme \<Rightarrow>
     ((u8 \<times> bytes) list \<times> 'a bus_scheme) option" where
  "meta_batch btw cfg addr fid ops best_effort b =
     do {
       b1 \<leftarrow> btw b;
       let m = field_id_menu fid;
       let index = field_id_index fid;
       let key = (\<lambda>op. property_key m addr op index);
       let b2 = fold (\<lambda>op. bus_register (key op)) (ops @ best_effort) b1;
       let b3 = fold (\<lambda>op. bus_send (property_req_raw m addr op index)) (ops @ best_effort) b2;
       let deadline = b_clock b3 + cf_discovery_timeout cfg;
       let (out, b4) = collect_ops key (\<lambda>b. max (deadline - b_clock b) 1) ops b3;
       let (extra, b5) = collect_ops key (\<lambda>b. BEST_EFFORT_META_WAIT) best_effort b4;
       Some (extra @ out, b5)
     }"

text \<open>One chunk of the sweep, and the whole of it from index \<open>wire\<close>.\<close>

definition probe_chunk ::
  "'a turn \<Rightarrow> config \<Rightarrow> u32 \<Rightarrow> menu \<Rightarrow> u8 list \<Rightarrow> 'a bus_scheme \<Rightarrow> (u8 list \<times> 'a bus_scheme) option" where
  "probe_chunk btw cfg addr m ws b =
     do {
       b1 \<leftarrow> btw b;
       let key = property_key m addr op_VIZ;
       let b2 = fold (\<lambda>w. bus_register (key w)) ws b1;
       let b3 = fold (\<lambda>w b. bus_sleep (cf_min_send_interval cfg)
                   (bus_send (property_req_raw m addr op_VIZ w) b)) ws b2;
       let deadline = b_clock b3 + cf_discovery_timeout cfg;
       let (rs, b4) = collect_ops key (\<lambda>b. max (deadline - b_clock b) 1) ws b3;
       Some (map fst rs, b4)
     }"

function probe_existence ::
  "'a turn \<Rightarrow> config \<Rightarrow> u32 \<Rightarrow> menu \<Rightarrow> nat \<Rightarrow> nat \<Rightarrow> 'a bus_scheme \<Rightarrow> (u8 list \<times> 'a bus_scheme) option" where
  "probe_existence btw cfg addr m limit wire b =
     (if limit \<le> wire then Some ([], b)
      else let stop = min (wire + PROBE_CHUNK) limit
           in do {
             (found, b1) \<leftarrow> probe_chunk btw cfg addr m (map word_of_nat [wire ..< stop]) b;
             (more, b2) \<leftarrow> probe_existence btw cfg addr m limit stop b1;
             Some (found @ more, b2)
           })"
  by pat_completeness auto
termination
  by (relation "measure (\<lambda>(btw, cfg, addr, m, limit, wire, b). limit - wire)")
     (auto simp: PROBE_CHUNK_def)

declare probe_existence.simps [simp del]

text \<open>The option labels of a list field: each asked once, late replies taken in their place.\<close>

fun ask_options ::
  "'a turn \<Rightarrow> config \<Rightarrow> (u8 \<Rightarrow> req) \<Rightarrow> u8 list \<Rightarrow> 'a bus_scheme \<Rightarrow> (bytes option list \<times> 'a bus_scheme) option" where
  "ask_options btw cfg rq [] b = Some ([], b)"
| "ask_options btw cfg rq (opt # opts) b =
     do {
       (r, b1) \<leftarrow> req_keeping btw cfg (fst (rq opt)) (snd (rq opt)) OPTIONAL_RETRIES b;
       (rs, b2) \<leftarrow> ask_options btw cfg rq opts b1;
       Some (r # rs, b2)
     }"

definition late_replies ::
  "config \<Rightarrow> (nat \<Rightarrow> string) \<Rightarrow> bytes option list \<Rightarrow> 'a bus_scheme \<Rightarrow> bytes option list \<times> 'a bus_scheme" where
  "late_replies cfg key rs b =
     (let late = open_reqs rs; (ls, b1) = collect_late cfg (map key late) b
      in (put_late late ls rs, b1))"

definition option_labels ::
  "'a turn \<Rightarrow> config \<Rightarrow> u32 \<Rightarrow> field_id \<Rightarrow> nat \<Rightarrow> 'a bus_scheme \<Rightarrow> (u16 option list \<times> 'a bus_scheme) option" where
  "option_labels btw cfg addr fid n b =
     do {
       let m = field_id_menu fid;
       let index = field_id_index fid;
       let key = option_key m addr index;
       (rs, b1) \<leftarrow> ask_options btw cfg (\<lambda>opt. (key opt, property_option_req_raw m addr index opt))
                    (map word_of_nat [0 ..< n]) b;
       let (rs', b2) = late_replies cfg (\<lambda>i. key (word_of_nat i)) rs b1;
       Some (map (\<lambda>r. case r of
                 Some d \<Rightarrow> if 6 \<le> length d then Some (le16_at d 4) else None
               | None \<Rightarrow> None) rs', b2)
     }"

definition ask_selector ::
  "'a turn \<Rightarrow> config \<Rightarrow> u32 \<Rightarrow> u8 \<Rightarrow> 'a bus_scheme \<Rightarrow> (nat option option \<times> 'a bus_scheme) option" where
  "ask_selector btw cfg addr sel b =
     do {
       (r, b1) \<leftarrow> req_std btw cfg (p_key addr 0x08 sel) (group_count_req_raw addr sel) b;
       Some (map_option (\<lambda>d. if 4 \<le> length d then Some (unat (le16_at d 2)) else None) r, b1)
     }"

definition group_count ::
  "'a turn \<Rightarrow> config \<Rightarrow> u32 \<Rightarrow> u8 \<Rightarrow> 'a bus_scheme \<Rightarrow> (nat option \<times> 'a bus_scheme) option" where
  "group_count btw cfg addr sel b =
     do {
       (r, b1) \<leftarrow> ask_selector btw cfg addr sel b;
       Some ((case r of Some x \<Rightarrow> x | None \<Rightarrow> None), b1)
     }"

section \<open>Fields\<close>

definition u16_at4 :: "(u8 \<times> bytes) list \<Rightarrow> u8 \<Rightarrow> u16 option" where
  "u16_at4 meta op =
     (case map_of meta op of
        Some r \<Rightarrow> if 6 \<le> length r then Some (le16_at r 4) else None
      | None \<Rightarrow> None)"

definition byte4 :: "(u8 \<times> bytes) list \<Rightarrow> u8 \<Rightarrow> u8 option" where
  "byte4 meta op = (case map_of meta op of Some r \<Rightarrow> get_opt r 4 | None \<Rightarrow> None)"

definition f32_at4 :: "(u8 \<times> bytes) list \<Rightarrow> u8 \<Rightarrow> f32 option" where
  "f32_at4 meta op =
     (case map_of meta op of
        Some r \<Rightarrow> if 8 \<le> length r then Some (le32_at r 4) else None
      | None \<Rightarrow> None)"

text \<open>A string id that is there and not 0, fetched; else the empty string.\<close>

definition fetch_sid ::
  "'a turn \<Rightarrow> config \<Rightarrow> u32 \<Rightarrow> u16 option \<Rightarrow> disc \<Rightarrow> 'a bus_scheme \<Rightarrow> (string, 'a) disc_res" where
  "fetch_sid btw cfg addr sid d b =
     (case sid of
        Some s \<Rightarrow> if s \<noteq> 0 then fetch_str btw cfg addr s d b else Some ([], d, b)
      | None \<Rightarrow> Some ([], d, b))"

fun fetch_sids ::
  "'a turn \<Rightarrow> config \<Rightarrow> u32 \<Rightarrow> u16 option list \<Rightarrow> disc \<Rightarrow> 'a bus_scheme \<Rightarrow> (string list, 'a) disc_res" where
  "fetch_sids btw cfg addr [] d b = Some ([], d, b)"
| "fetch_sids btw cfg addr (s # ss) d b =
     do {
       (t, d1, b1) \<leftarrow> fetch_sid btw cfg addr s d b;
       (ts, d2, b2) \<leftarrow> fetch_sids btw cfg addr ss d1 b1;
       Some (t # ts, d2, b2)
     }"

definition meta_ops :: "u8 list" where
  "meta_ops = [op_NAME, op_VIZ, op_MAX, op_UNIT, op_WRITEABLE]"

text \<open>The metadata of a field, asked again once for what is missing.\<close>

definition field_meta ::
  "'a turn \<Rightarrow> config \<Rightarrow> u32 \<Rightarrow> field_id \<Rightarrow> bool \<Rightarrow> disc \<Rightarrow> 'a bus_scheme \<Rightarrow>
     ((u8 \<times> bytes) list, 'a) disc_res" where
  "field_meta btw cfg addr fid want_eventable d b =
     do {
       (meta, b1) \<leftarrow> meta_batch btw cfg addr fid meta_ops (if want_eventable then [op_EVENTABLE] else []) b;
       let silent = (meta = []);
       let missing = (if silent then (if silent_retried d addr then meta_ops else [])
                      else filter (\<lambda>op. map_of meta op = None \<and> meta_retried d addr op) meta_ops);
       (if missing = [] then Some (meta, d, b1)
        else do {
          (again, b2) \<leftarrow> meta_batch btw cfg addr fid missing [] b1;
          let meta2 = again @ meta;
          let d2 = (if silent then silent_retry addr (meta2 \<noteq> []) d
                    else fold (meta_missed addr) (filter (\<lambda>op. map_of meta2 op = None) missing) d);
          Some (meta2, d2, b2)
        })
     }"

definition enumerate_field ::
  "'a turn \<Rightarrow> config \<Rightarrow> u32 \<Rightarrow> field_id \<Rightarrow> bool \<Rightarrow> disc \<Rightarrow> 'a bus_scheme \<Rightarrow> (field_info option, 'a) disc_res" where
  "enumerate_field btw cfg addr fid want_eventable d b =
     do {
       (meta, d1, b1) \<leftarrow> field_meta btw cfg addr fid want_eventable d b;
       (if meta = [] then Some (None, d1, b1)
        else do {
          let viz = viz_from_wire (case byte4 meta op_VIZ of Some c \<Rightarrow> c | None \<Rightarrow> 0x01);
          let n_or_max = (case f32_at4 meta op_MAX of Some f \<Rightarrow> f | None \<Rightarrow> f32_zero);
          let n_opts = f32_as_u32 n_or_max;
          (options, d2, b2) \<leftarrow>
            (if (viz = DropDown \<or> viz = Viz_Eventable) \<and> 0 < n_opts \<and> n_opts \<le> 64
             then do {
               (sids, b') \<leftarrow> option_labels btw cfg addr fid n_opts b1;
               fetch_sids btw cfg addr sids d1 b'
             }
             else Some ([], d1, b1));
          (name, d3, b3) \<leftarrow> fetch_sid btw cfg addr (u16_at4 meta op_NAME) d2 b2;
          (unit, d4, b4) \<leftarrow> fetch_sid btw cfg addr (u16_at4 meta op_UNIT) d3 b3;
          Some (Some
            \<lparr>fi_index = fid, fi_name = name, fi_unit = unit, fi_viz = viz,
             fi_writeable = (case byte4 meta op_WRITEABLE of Some w \<Rightarrow> w \<noteq> 0 | None \<Rightarrow> False),
             fi_eventable = (case byte4 meta op_EVENTABLE of Some w \<Rightarrow> w \<noteq> 0 | None \<Rightarrow> False),
             fi_min = 0, fi_max = f32_as_f64 n_or_max, fi_step = 0, fi_options = options\<rparr>,
            d4, b4)
        })
     }"

fun enumerate_fields ::
  "'a turn \<Rightarrow> config \<Rightarrow> u32 \<Rightarrow> bool \<Rightarrow> field_id list \<Rightarrow> disc \<Rightarrow> 'a bus_scheme \<Rightarrow> (field_info list, 'a) disc_res" where
  "enumerate_fields btw cfg addr want [] d b = Some ([], d, b)"
| "enumerate_fields btw cfg addr want (fid # fids) d b =
     do {
       (f, d1, b1) \<leftarrow> enumerate_field btw cfg addr fid want d b;
       (fs, d2, b2) \<leftarrow> enumerate_fields btw cfg addr want fids d1 b1;
       Some ((case f of Some f \<Rightarrow> f # fs | None \<Rightarrow> fs), d2, b2)
     }"

definition probe_channel ::
  "'a turn \<Rightarrow> config \<Rightarrow> u32 \<Rightarrow> menu \<Rightarrow> disc \<Rightarrow> 'a bus_scheme \<Rightarrow> (field_info list, 'a) disc_res" where
  "probe_channel btw cfg addr m d b =
     do {
       (ws, b1) \<leftarrow> probe_existence btw cfg addr m 256 0 b;
       enumerate_fields btw cfg addr False (map (field_id_new m) ws) d b1
     }"

definition enumerate_all_fields ::
  "'a turn \<Rightarrow> config \<Rightarrow> u32 \<Rightarrow> disc \<Rightarrow> 'a bus_scheme \<Rightarrow> (field_info list, 'a) disc_res" where
  "enumerate_all_fields btw cfg addr d b =
     do {
       (fs, d1, b1) \<leftarrow> probe_channel btw cfg addr Monitoring d b;
       (gs, d2, b2) \<leftarrow> probe_channel btw cfg addr Configuration d1 b1;
       Some (fs @ gs, d2, b2)
     }"

section \<open>Groups\<close>

record group_shape =
  gs_name :: string
  gs_field_ids :: "field_id list"
  gs_counted :: bool

definition MAX_GROUP_FIELDS :: nat where "MAX_GROUP_FIELDS = 256"

definition shape_repeats :: "group_shape \<Rightarrow> group_shape \<Rightarrow> bool" where
  "shape_repeats s t \<longleftrightarrow>
     gs_field_ids s \<noteq> [] \<and> gs_name s = gs_name t \<and> gs_field_ids s = gs_field_ids t"

definition ask_field_count ::
  "'a turn \<Rightarrow> config \<Rightarrow> u32 \<Rightarrow> menu \<Rightarrow> u8 \<Rightarrow> 'a bus_scheme \<Rightarrow> (nat option \<times> 'a bus_scheme) option" where
  "ask_field_count btw cfg addr m g b =
     do {
       (r, b1) \<leftarrow> req_patient btw cfg (group_key m addr 0x07 g) (group_req_raw m addr 0x07 g) b;
       Some (map_option (\<lambda>d. if 8 \<le> length d then f32_as_u32 (le32_at d 4) else 0) r, b1)
     }"

fun ask_group_fields ::
  "'a turn \<Rightarrow> config \<Rightarrow> u32 \<Rightarrow> menu \<Rightarrow> u8 \<Rightarrow> u8 list \<Rightarrow> 'a bus_scheme \<Rightarrow>
     (bytes option list \<times> 'a bus_scheme) option" where
  "ask_group_fields btw cfg addr m g [] b = Some ([], b)"
| "ask_group_fields btw cfg addr m g (i # is) b =
     do {
       (r, b1) \<leftarrow> req_keeping btw cfg (group_field_key m addr g i) (group_field_id_req_raw m addr g i)
                   (cf_discovery_retries cfg) b;
       (rs, b2) \<leftarrow> ask_group_fields btw cfg addr m g is b1;
       Some (r # rs, b2)
     }"

text \<open>The field ids of the replies, each once, indices past 255 left out.\<close>

fun reply_field_ids :: "menu \<Rightarrow> bytes option list \<Rightarrow> field_id list \<Rightarrow> field_id list" where
  "reply_field_ids m [] ids = ids"
| "reply_field_ids m (r # rs) ids =
     (case r of
        Some d \<Rightarrow>
          if length d < 6 \<or> 255 < unat (le16_at d 4) then reply_field_ids m rs ids
          else let fid = field_id_new m (ucast (le16_at d 4))
               in reply_field_ids m rs (if fid \<in> set ids then ids else ids @ [fid])
      | None \<Rightarrow> reply_field_ids m rs ids)"

definition group_shape_of ::
  "'a turn \<Rightarrow> config \<Rightarrow> u32 \<Rightarrow> u8 \<Rightarrow> menu \<Rightarrow> disc \<Rightarrow> 'a bus_scheme \<Rightarrow> (group_shape option, 'a) disc_res" where
  "group_shape_of btw cfg addr g m d b =
     do {
       (nr, b1) \<leftarrow> req_std btw cfg (group_key m addr 0x28 g) (group_req_raw m addr 0x28 g) b;
       let name_sid = (case nr of Some r \<Rightarrow> if 6 \<le> length r then Some (le16_at r 4) else None | None \<Rightarrow> None);
       (first, b2) \<leftarrow> ask_field_count btw cfg addr m g b1;
       let n1 = (case first of Some n \<Rightarrow> n | None \<Rightarrow> 0);
       (n2, b3) \<leftarrow>
         (if MAX_GROUP_FIELDS < n1
          then do {
            (again, b') \<leftarrow> ask_field_count btw cfg addr m g b2;
            Some ((case again of Some n \<Rightarrow> n | None \<Rightarrow> n1), b')
          }
          else Some (n1, b2));
       (if MAX_GROUP_FIELDS < n2 then Some (None, d, b3)
        else do {
          (rs, b4) \<leftarrow> ask_group_fields btw cfg addr m g (map word_of_nat [0 ..< n2]) b3;
          let (rs', b5) = late_replies cfg (\<lambda>i. group_field_key m addr g (word_of_nat i)) rs b4;
          (name, d1, b6) \<leftarrow>
            (case name_sid of Some s \<Rightarrow> fetch_str btw cfg addr s d b5 | None \<Rightarrow> Some ([], d, b5));
          Some (Some \<lparr>gs_name = name, gs_field_ids = reply_field_ids m rs' [],
                      gs_counted = (first \<noteq> None)\<rparr>, d1, b6)
        })
     }"

definition finish_group ::
  "'a turn \<Rightarrow> config \<Rightarrow> u32 \<Rightarrow> u8 \<Rightarrow> menu \<Rightarrow> group_shape \<Rightarrow> disc \<Rightarrow> 'a bus_scheme \<Rightarrow> (group_info, 'a) disc_res" where
  "finish_group btw cfg addr g m shape d b =
     do {
       (fs, d1, b1) \<leftarrow> enumerate_fields btw cfg addr (m = Monitoring) (gs_field_ids shape) d b;
       Some (\<lparr>gi_id = int (unat g), gi_name = gs_name shape, gi_menu = m, gi_fields = fs\<rparr>, d1, b1)
     }"

text \<open>The groups \<open>gids\<close> of a menu, after the shape \<open>prev\<close>; whether every count was answered.\<close>

fun enumerate_groups ::
  "'a turn \<Rightarrow> config \<Rightarrow> u32 \<Rightarrow> menu \<Rightarrow> u8 list \<Rightarrow> group_shape option \<Rightarrow> disc \<Rightarrow> 'a bus_scheme \<Rightarrow>
     (group_info list \<times> bool, 'a) disc_res" where
  "enumerate_groups btw cfg addr m [] prev d b = Some (([], True), d, b)"
| "enumerate_groups btw cfg addr m (g # gs) prev d b =
     do {
       (shape, d1, b1) \<leftarrow> group_shape_of btw cfg addr g m d b;
       (case shape of
          None \<Rightarrow> enumerate_groups btw cfg addr m gs prev d1 b1
        | Some s \<Rightarrow>
            if (case prev of Some p \<Rightarrow> shape_repeats s p | None \<Rightarrow> False) then Some (([], True), d1, b1)
            else do {
              (gi, d2, b2) \<leftarrow> finish_group btw cfg addr g m s d1 b1;
              ((gis, complete), d3, b3) \<leftarrow> enumerate_groups btw cfg addr m gs (Some s) d2 b2;
              Some ((gi # gis, gs_counted s \<and> complete), d3, b3)
            })
     }"

definition enumerate_menu ::
  "'a turn \<Rightarrow> config \<Rightarrow> u32 \<Rightarrow> menu \<Rightarrow> disc \<Rightarrow> 'a bus_scheme \<Rightarrow>
     ((group_info list \<times> bool) option, 'a) disc_res" where
  "enumerate_menu btw cfg addr m d b =
     do {
       (count, b1) \<leftarrow> group_count btw cfg addr (groups_selector m) b;
       (case count of
          None \<Rightarrow> Some (None, d, b1)
        | Some n \<Rightarrow> do {
            (r, d2, b2) \<leftarrow> enumerate_groups btw cfg addr m (map word_of_nat [0 ..< min n 256]) None d b1;
            Some (Some r, d2, b2)
          })
     }"

section \<open>Eventable outputs\<close>

definition EVENTABLES :: u8 where "EVENTABLES = 0x3F"
definition EVENTABLE_0 :: u8 where "EVENTABLE_0 = 0x40"
definition MAX_EVENTABLES :: nat where "MAX_EVENTABLES = 32"

fun list_outputs ::
  "'a turn \<Rightarrow> config \<Rightarrow> u32 \<Rightarrow> nat list \<Rightarrow> 'a bus_scheme \<Rightarrow> (field_id list \<times> 'a bus_scheme) option" where
  "list_outputs btw cfg addr [] b = Some ([], b)"
| "list_outputs btw cfg addr (k # ks) b =
     do {
       (r, b1) \<leftarrow> group_count btw cfg addr (EVENTABLE_0 + word_of_nat k) b;
       (case r of
          Some index \<Rightarrow>
            if index < 0xFF
            then do {
              (fs, b2) \<leftarrow> list_outputs btw cfg addr ks b1;
              Some (field_id_monitoring (word_of_nat index) # fs, b2)
            }
            else Some ([], b1)
        | None \<Rightarrow> Some ([], b1))
     }"

definition eventable_outputs ::
  "'a turn \<Rightarrow> config \<Rightarrow> u32 \<Rightarrow> 'a bus_scheme \<Rightarrow> (field_id list \<times> 'a bus_scheme) option" where
  "eventable_outputs btw cfg addr b =
     do {
       (r, b1) \<leftarrow> ask_selector btw cfg addr EVENTABLES b;
       (case r of
          Some (Some n) \<Rightarrow> list_outputs btw cfg addr [0 ..< min n MAX_EVENTABLES] b1
        | Some None \<Rightarrow> Some ([], b1)
        | None \<Rightarrow> list_outputs btw cfg addr [0 ..< MAX_EVENTABLES] b1)
     }"

end
