(* ===== verification/Schema.thy ===== *)
theory Schema
  imports Discovery
begin

text \<open>
  Identities, the offline string table and the cached menus: the rest of
  \<open>crates/masterbus/src/runtime/discovery.rs\<close>, with \<open>crates/masterbus/src/strings.rs\<close>. The
  bundled catalog (a data file) is the argument \<open>catalog\<close>; the disk is part of the host.
\<close>

section \<open>Identities\<close>

definition fw_reqs :: "u32 list \<Rightarrow> req list" where
  "fw_reqs addrs = concat (map (\<lambda>a. map (\<lambda>n. (p_key a 0x82 n, fw_req_raw a n)) [0, 1]) addrs)"

definition sid_reqs :: "u32 list \<Rightarrow> req list" where
  "sid_reqs addrs =
     concat (map (\<lambda>a. map (\<lambda>n. (p_key a 0x09 n, prop_str_id_req_raw a n)) [1, 2, 3, 4]) addrs)"

definition byte_or_0 :: "bytes option \<Rightarrow> nat \<Rightarrow> nat" where
  "byte_or_0 r i = (case r of Some d \<Rightarrow> (case get_opt d i of Some x \<Rightarrow> unat x | None \<Rightarrow> 0) | None \<Rightarrow> 0)"

definition firmware_text :: "bytes option \<Rightarrow> bytes option \<Rightarrow> string" where
  "firmware_text r0 r1 =
     fmt_dec (byte_or_0 r0 3 + byte_or_0 r1 3) @ ''.'' @ fmt_dec (byte_or_0 r0 2 + byte_or_0 r1 2)"

definition reply_sid :: "bytes option \<Rightarrow> u16 option" where
  "reply_sid r = (case r of Some d \<Rightarrow> if 4 \<le> length d then Some (le16_at d 2) else None | None \<Rightarrow> None)"

text \<open>A property string: from the catalog, else as fetched, trimmed; empty when there is none.\<close>

definition prop_text :: "catalog_table option \<Rightarrow> ((u32 \<times> u16) \<rightharpoonup> string) \<Rightarrow> u32 \<Rightarrow> u16 option \<Rightarrow> string" where
  "prop_text catalog fetched addr sid =
     (case sid of
        None \<Rightarrow> []
      | Some s \<Rightarrow>
          (case (case catalog of Some c \<Rightarrow> c s | None \<Rightarrow> None) of
             Some t \<Rightarrow> rust_trim t
           | None \<Rightarrow> (case fetched (addr, s) of Some t \<Rightarrow> rust_trim t | None \<Rightarrow> [])))"

definition live_sids :: "catalog_table option \<Rightarrow> u32 list \<Rightarrow> u16 option list \<Rightarrow> (u32 \<times> u16) list" where
  "live_sids catalog addrs sids =
     filter (\<lambda>i. (case catalog of Some c \<Rightarrow> c (snd i) | None \<Rightarrow> None) = None)
       (concat (map (\<lambda>d. List.map_filter (\<lambda>p. map_option (Pair (addrs ! d)) (sids ! (4 * d + p))) [0, 1, 2, 3])
          [0 ..< length addrs]))"

definition identity_from ::
  "catalog_table option \<Rightarrow> ((u32 \<times> u16) \<rightharpoonup> string) \<Rightarrow> u32 \<Rightarrow> u16 option list \<Rightarrow> bytes option \<Rightarrow> bytes option \<Rightarrow>
     device_identity" where
  "identity_from catalog fetched addr sids r0 r1 =
     (let prop = (\<lambda>p. prop_text catalog fetched addr (sids ! p));
          serial = prop 1; r = prop 3
      in \<lparr>di_article = prop 0, di_serial = serial,
          di_revision = (if r = []
                         then (case get_opt (utf8_chars serial) 4 of Some c \<Rightarrow> c | None \<Rightarrow> []) else r),
          di_name = prop 2, di_firmware = firmware_text r0 r1\<rparr>)"

definition fetch_identities ::
  "'a turn \<Rightarrow> config \<Rightarrow> u32 list \<Rightarrow> disc \<Rightarrow> 'a bus_scheme \<Rightarrow> (device_identity list, 'a) disc_res" where
  "fetch_identities btw cfg addrs d b =
     do {
       (fw, b1) \<leftarrow> req_all btw cfg (fw_reqs addrs) b;
       (srs, b2) \<leftarrow> req_all btw cfg (sid_reqs addrs) b1;
       let sids = map reply_sid srs;
       let live = live_sids (dc_catalog d) addrs sids;
       (texts, d1, b3) \<leftarrow> fetch_strs_wire btw cfg live d b2;
       let fetched = map_of (rev (zip live texts));
       Some (map (\<lambda>k. identity_from (dc_catalog d) fetched (addrs ! k) (take 4 (drop (4 * k) sids))
                        (fw ! (2 * k)) (fw ! (2 * k + 1))) [0 ..< length addrs], d1, b3)
     }"

definition fetch_identity ::
  "'a turn \<Rightarrow> config \<Rightarrow> u32 \<Rightarrow> disc \<Rightarrow> 'a bus_scheme \<Rightarrow> (device_identity, 'a) disc_res" where
  "fetch_identity btw cfg addr d b =
     do { (ids, d1, b1) \<leftarrow> fetch_identities btw cfg [addr] d b; Some (hd ids, d1, b1) }"

section \<open>The offline string table (strings.rs)\<close>

record firmware_entry =
  fe_firmware :: string
  fe_spot_check :: "u16 list"
  fe_strings :: catalog_table

type_synonym catalog = "string \<rightharpoonup> firmware_entry list"

text \<open>A stable sort that puts the exact firmware first.\<close>

definition candidates :: "catalog \<Rightarrow> string \<Rightarrow> string \<Rightarrow> firmware_entry list" where
  "candidates catalog article firmware =
     (case catalog article of
        None \<Rightarrow> []
      | Some entries \<Rightarrow> sort_key (\<lambda>e. fe_firmware e \<noteq> firmware) entries)"

text \<open>The spot checks in order, up to the first that fails.\<close>

fun spot_checks ::
  "'a turn \<Rightarrow> config \<Rightarrow> u32 \<Rightarrow> catalog_table \<Rightarrow> u16 list \<Rightarrow> disc \<Rightarrow> 'a bus_scheme \<Rightarrow> (bool, 'a) disc_res" where
  "spot_checks btw cfg addr strs [] d b = Some (True, d, b)"
| "spot_checks btw cfg addr strs (sid # sids) d b =
     (case strs sid of
        None \<Rightarrow> Some (False, d, b)
      | Some want \<Rightarrow> do {
          (s, d1, b1) \<leftarrow> fetch_str_wire btw cfg addr sid d b;
          (if s = want then spot_checks btw cfg addr strs sids d1 b1 else Some (False, d1, b1))
        })"

fun try_entries ::
  "'a turn \<Rightarrow> config \<Rightarrow> u32 \<Rightarrow> firmware_entry list \<Rightarrow> disc \<Rightarrow> 'a bus_scheme \<Rightarrow> (catalog_table option, 'a) disc_res" where
  "try_entries btw cfg addr [] d b = Some (None, d, b)"
| "try_entries btw cfg addr (e # es) d b =
     do {
       (ok, d1, b1) \<leftarrow> spot_checks btw cfg addr (fe_strings e) (fe_spot_check e) d b;
       (if ok then Some (Some (fe_strings e), d1, b1) else try_entries btw cfg addr es d1 b1)
     }"

definition resolve_catalog ::
  "'a turn \<Rightarrow> config \<Rightarrow> catalog \<Rightarrow> u32 \<Rightarrow> device_identity \<Rightarrow> disc \<Rightarrow> 'a bus_scheme \<Rightarrow>
     (catalog_table option, 'a) disc_res" where
  "resolve_catalog btw cfg catalog addr i d b =
     try_entries btw cfg addr (candidates catalog (di_article i) (di_firmware i)) d b"

section \<open>Cached menus on disk\<close>

text \<open>A file holds a menu written as JSON, or the decimal count of a marker, or other text.\<close>

datatype disk_file = MenuFile "group_info list" | TextFile string

record host = bus +
  h_disk :: "string \<rightharpoonup> disk_file"
  h_writable :: "string \<Rightarrow> bool"
  h_json :: "group_info list \<Rightarrow> group_info list option"

definition CACHE_SCHEMA :: nat where "CACHE_SCHEMA = 3"
definition INCOMPLETE_READ_LIMIT :: nat where "INCOMPLETE_READ_LIMIT = 2"

definition ascii_alnum :: "char \<Rightarrow> bool" where
  "ascii_alnum c \<longleftrightarrow> (of_char c :: nat) \<in> {48 ..< 58} \<union> {65 ..< 91} \<union> {97 ..< 123}"

text \<open>Characters other than letters, digits, \<open>-\<close> and \<open>.\<close> become one \<open>_\<close> each.\<close>

definition safe_char :: "string \<Rightarrow> string" where
  "safe_char c =
     (case c of [x] \<Rightarrow> if ascii_alnum x \<or> x = CHR ''-'' \<or> x = CHR ''.'' then [x] else ''_'' | _ \<Rightarrow> ''_'')"

definition safe_name :: "string \<Rightarrow> string" where
  "safe_name s = concat (map safe_char (utf8_chars s))"

definition cache_key :: "string \<Rightarrow> string \<Rightarrow> access_level \<Rightarrow> menu \<Rightarrow> string" where
  "cache_key serial firmware level m =
     serial @ ''-'' @ firmware @ ''-l'' @ lower_hex 2 (unat (level_byte level)) @ ''-''
       @ lower_hex 2 (unat (groups_selector m)) @ ''-v'' @ fmt_dec CACHE_SCHEMA"

definition cache_stem :: "string \<Rightarrow> string \<Rightarrow> string \<Rightarrow> access_level \<Rightarrow> menu \<Rightarrow> string" where
  "cache_stem dir serial firmware level m = dir @ ''/'' @ safe_name (cache_key serial firmware level m)"

definition cache_file :: "string \<Rightarrow> string \<Rightarrow> string \<Rightarrow> access_level \<Rightarrow> menu \<Rightarrow> string" where
  "cache_file dir serial firmware level m = cache_stem dir serial firmware level m @ ''.json''"

text \<open>\<open>with_extension\<close> on a cache file replaces the \<open>json\<close> it ends with.\<close>

definition incomplete_marker :: "string \<Rightarrow> string" where
  "incomplete_marker cache = take (length cache - 4) cache @ ''incomplete''"

definition write_file :: "string \<Rightarrow> disk_file \<Rightarrow> 'a host_scheme \<Rightarrow> 'a host_scheme" where
  "write_file p f h = (if h_writable h p then h\<lparr>h_disk := (h_disk h)(p \<mapsto> f)\<rparr> else h)"

definition remove_file :: "string \<Rightarrow> 'a host_scheme \<Rightarrow> 'a host_scheme" where
  "remove_file p h = (if h_writable h p then h\<lparr>h_disk := (h_disk h)(p := None)\<rparr> else h)"

definition load_cached_menu ::
  "string option \<Rightarrow> string \<Rightarrow> string \<Rightarrow> access_level \<Rightarrow> menu \<Rightarrow> 'a host_scheme \<Rightarrow> group_info list option" where
  "load_cached_menu dir serial firmware level m h =
     (case dir of
        None \<Rightarrow> None
      | Some d \<Rightarrow>
          if serial = [] then None
          else (case h_disk h (cache_file d serial firmware level m) of
                  Some (MenuFile gs) \<Rightarrow> h_json h gs
                | _ \<Rightarrow> None))"

definition store_cached_menu ::
  "string option \<Rightarrow> string \<Rightarrow> string \<Rightarrow> access_level \<Rightarrow> menu \<Rightarrow> group_info list \<Rightarrow> 'a host_scheme \<Rightarrow> 'a host_scheme" where
  "store_cached_menu dir serial firmware level m gs h =
     (case dir of
        None \<Rightarrow> h
      | Some d \<Rightarrow>
          if serial = [] then h else write_file (cache_file d serial firmware level m) (MenuFile gs) h)"

definition plausible_menu :: "menu \<Rightarrow> group_info list \<Rightarrow> bool" where
  "plausible_menu m gs \<longleftrightarrow> m \<noteq> Monitoring \<or> gs \<noteq> []"

text \<open>One more incomplete read of a menu. The count wraps at 32 bits.\<close>

definition incomplete_reads :: "string option \<Rightarrow> 'a host_scheme \<Rightarrow> nat \<times> 'a host_scheme" where
  "incomplete_reads cache h =
     (case cache of
        None \<Rightarrow> (0, h)
      | Some c \<Rightarrow>
          let marker = incomplete_marker c;
              n = ((case h_disk h marker of
                      Some (TextFile s) \<Rightarrow> (case from_str_radix 32 10 (rust_trim s) of Some n \<Rightarrow> n | None \<Rightarrow> 0)
                    | _ \<Rightarrow> 0) + 1) mod 2 ^ 32
          in (n, if n < INCOMPLETE_READ_LIMIT then write_file marker (TextFile (fmt_dec n)) h else h))"

definition cache_path_of :: "config \<Rightarrow> device_identity \<Rightarrow> access_level \<Rightarrow> menu \<Rightarrow> string option" where
  "cache_path_of cfg i level m =
     (case cf_cache_path cfg of
        None \<Rightarrow> None
      | Some d \<Rightarrow> if di_serial i = [] then None else Some (cache_file d (di_serial i) (di_firmware i) level m))"

text \<open>What becomes of a menu read from the bus: stored, or counted as incomplete.\<close>

definition keep_menu ::
  "config \<Rightarrow> device_identity \<Rightarrow> access_level \<Rightarrow> menu \<Rightarrow> group_info list \<Rightarrow> bool \<Rightarrow> 'a host_scheme \<Rightarrow> 'a host_scheme" where
  "keep_menu cfg i level m gs complete h =
     (let path = cache_path_of cfg i level m;
          (enough, h1) = (if complete then (True, h)
                          else let (n, h') = incomplete_reads path h in (INCOMPLETE_READ_LIMIT \<le> n, h'))
      in if enough
         then (let h2 = store_cached_menu (cf_cache_path cfg) (di_serial i) (di_firmware i) level m gs h1
               in case path of Some p \<Rightarrow> remove_file (incomplete_marker p) h2 | None \<Rightarrow> h2)
         else h1)"

definition discover_menu ::
  "('a host_scheme \<Rightarrow> 'a host_scheme option) \<Rightarrow> config \<Rightarrow> u32 \<Rightarrow> device_identity \<Rightarrow> menu \<Rightarrow> disc \<Rightarrow> 'a host_scheme \<Rightarrow>
     (group_info list option \<times> disc \<times> 'a host_scheme) option" where
  "discover_menu btw cfg addr i m d h =
     (case load_cached_menu (cf_cache_path cfg) (di_serial i) (di_firmware i) (dc_level d) m h of
        Some gs \<Rightarrow> if plausible_menu m gs then Some (Some gs, d, h) else
          do {
            (r, d1, h1) \<leftarrow> enumerate_menu btw cfg addr m d h;
            Some (case r of None \<Rightarrow> (None, d1, h1)
                  | Some (gs, complete) \<Rightarrow> (Some gs, d1, keep_menu cfg i (dc_level d) m gs complete h1))
          }
      | None \<Rightarrow>
          do {
            (r, d1, h1) \<leftarrow> enumerate_menu btw cfg addr m d h;
            Some (case r of None \<Rightarrow> (None, d1, h1)
                  | Some (gs, complete) \<Rightarrow> (Some gs, d1, keep_menu cfg i (dc_level d) m gs complete h1))
          })"

end
