(* ===== verification/Turns.thy ===== *)
theory Turns
  imports Schema
begin

text \<open>
  What discovery may do to the bus. A frame is read-only when it asks a device for something
  and changes nothing in it. The locale \<open>quiet_turns\<close> is the contract between discovery
  and the scheduler that runs it: a relation the scheduler's turn keeps, and that
  registering, waiting, sleeping, sending a read-only frame and writing the disk keep, is kept
  by every discovery operation.
\<close>

section \<open>Read-only frames\<close>

text \<open>Property, string and identity requests on class 7, value requests without a value,
  metadata requests, and the heartbeat.\<close>

definition read_only :: "frame \<Rightarrow> bool" where
  "read_only f \<longleftrightarrow>
     (\<exists>a. fst f = can_id_of 0x07 a \<and> (length (snd f) = 2 \<or> length (snd f) = 4 \<and> hd (snd f) = 0x30)) \<or>
     (\<exists>m a. fst f = wire_can_id (ex_req (exchange m Data)) a \<and> length (snd f) = 2) \<or>
     (\<exists>m k a. k \<noteq> Data \<and> fst f = wire_can_id (ex_req (exchange m k)) a \<and> length (snd f) \<le> 4) \<or>
     (\<exists>a. fst f = can_id_of 0x05 a \<and> snd f = [])"

lemma read_only_requests [simp]:
  "read_only (fw_req_raw a n)" "read_only (group_count_req_raw a sel)" "read_only (prop_str_id_req_raw a n)"
  "read_only (string_chunk_req_raw a sid sq)" "read_only (encode_login_read a)"
  by (auto simp: read_only_def encode_defs u16_to_le_bytes_def)

lemma read_only_values [simp]: "read_only (value_read_raw m a i)" "read_only (heartbeat_raw a)"
  by (auto simp: read_only_def encode_defs)

lemma read_only_groups [simp]:
  "read_only (group_req_raw m a op g)" "read_only (group_field_id_req_raw m a g i)"
  unfolding read_only_def encode_defs
  by (intro disjI2 disjI1 exI [of _ m] exI [of _ Group] exI [of _ a]; simp)+

lemma read_only_properties [simp]:
  "read_only (property_req_raw m a op i)" "read_only (property_option_req_raw m a i opt)"
  unfolding read_only_def encode_defs
  by (intro disjI2 disjI1 exI [of _ m] exI [of _ Property] exI [of _ a]; simp)+

section \<open>The contract\<close>

locale quiet_turns =
  fixes btw :: "'a host_scheme \<Rightarrow> 'a host_scheme option"
    and R :: "'a host_scheme \<Rightarrow> 'a host_scheme \<Rightarrow> bool"
  assumes R_trans: "R a b \<Longrightarrow> R b c \<Longrightarrow> R a c"
    and R_refl: "R b b"
    and R_btw: "btw b = Some b' \<Longrightarrow> R b b'"
    and R_register: "R b (bus_register k b)"
    and R_send: "read_only f \<Longrightarrow> R b (bus_send f b)"
    and R_wait: "R b (snd (bus_wait k t b))"
    and R_keep: "R b (snd (bus_wait_or_keep k t b))"
    and R_sleep: "R b (bus_sleep t b)"
    and R_disk: "R b (b\<lparr>h_disk := disk\<rparr>)"
begin

lemma R_btw': "R b0 b \<Longrightarrow> btw b = Some b' \<Longrightarrow> R b0 b'"
  and R_register': "R b0 b \<Longrightarrow> R b0 (bus_register k b)"
  and R_send': "R b0 b \<Longrightarrow> read_only f \<Longrightarrow> R b0 (bus_send f b)"
  and R_sleep': "R b0 b \<Longrightarrow> R b0 (bus_sleep t b)"
  and R_disk': "R b0 b \<Longrightarrow> R b0 (b\<lparr>h_disk := disk\<rparr>)"
  by (blast intro: R_trans R_btw R_register R_send R_sleep R_disk)+

lemma R_wait': "R b0 b \<Longrightarrow> R b0 (snd (bus_wait k t b))"
  and R_keep': "R b0 b \<Longrightarrow> R b0 (snd (bus_wait_or_keep k t b))"
  by (blast intro: R_trans R_wait R_keep)+

lemmas R_steps = R_btw' R_register' R_send' R_sleep' R_wait' R_keep' R_disk'

lemma req_with_R:
  "req_with btw cfg key fr n keep b = Some y \<Longrightarrow> read_only fr \<Longrightarrow> R b0 b \<Longrightarrow> R b0 (snd y)"
proof (induction n arbitrary: b)
  case (Suc n)
  obtain b1 where b1: "btw b = Some b1" using Suc.prems(1) by (auto simp: Option.bind_eq_Some_conv)
  let ?b2 = "bus_send fr (bus_register key b1)"
  let ?w = "if keep \<and> n = 0 then bus_wait_or_keep key (cf_discovery_timeout cfg) ?b2
            else bus_wait key (cf_discovery_timeout cfg) ?b2"
  have w: "R b0 (snd ?w)" using Suc.prems(2,3) b1 by (auto intro!: R_wait' R_keep' R_send' R_register' intro: R_btw')
  show ?case
  proof (cases "fst ?w")
    case None
    then have "req_with btw cfg key fr n keep (snd ?w) = Some y"
      using Suc.prems(1) b1 by (simp add: Let_def case_prod_beta)
    with Suc.IH Suc.prems(2) w show ?thesis by blast
  next
    case (Some d)
    then have "y = (Some d, snd ?w)" using Suc.prems(1) b1 by (simp add: Let_def case_prod_beta)
    with w show ?thesis by simp
  qed
qed auto

lemma req_keeping_R:
  "req_keeping btw cfg key fr n b = Some y \<Longrightarrow> read_only fr \<Longrightarrow> R b0 b \<Longrightarrow> R b0 (snd y)"
  by (simp add: req_keeping_def req_with_R)

lemma req_std_R:
  "req_std btw cfg key fr b = Some y \<Longrightarrow> read_only fr \<Longrightarrow> R b0 b \<Longrightarrow> R b0 (snd y)"
  by (simp add: req_std_def req_with_R)

lemma req_patient_R:
  "req_patient btw cfg key fr b = Some y \<Longrightarrow> read_only fr \<Longrightarrow> R b0 b \<Longrightarrow> R b0 (snd y)"
  by (auto simp: req_patient_def Option.bind_eq_Some_conv split: option.splits
      intro!: R_wait' dest: req_keeping_R)

lemma wait_each_R: "R b0 b \<Longrightarrow> R b0 (snd (wait_each dl ks b))"
  by (induction ks arbitrary: b) (simp_all add: Let_def case_prod_beta R_wait')

lemma collect_late_R: "R b0 b \<Longrightarrow> R b0 (snd (collect_late cfg ks b))"
  by (simp add: collect_late_def wait_each_R)

lemma late_replies_R: "R b0 b \<Longrightarrow> R b0 (snd (late_replies cfg key rs b))"
  by (simp add: late_replies_def Let_def case_prod_beta collect_late_R)

lemma fold_register_R: "R b0 b \<Longrightarrow> R b0 (fold (\<lambda>i. bus_register (k i)) is b)"
  by (induction "is" arbitrary: b) (simp_all add: R_register')

lemma fold_send_R: "list_all (\<lambda>i. read_only (f i)) is \<Longrightarrow> R b0 b \<Longrightarrow> R b0 (fold (\<lambda>i. bus_send (f i)) is b)"
  by (induction "is" arbitrary: b) (simp_all add: R_send')

lemma send_spaced_R: "list_all read_only fs \<Longrightarrow> R b0 b \<Longrightarrow> R b0 (send_spaced gap fs b)"
proof (cases fs)
  case (Cons f gs)
  assume "list_all read_only fs" "R b0 b"
  moreover have "list_all read_only gs \<Longrightarrow> R b0 c \<Longrightarrow> R b0 (fold (\<lambda>g b. bus_send g (bus_sleep gap b)) gs c)" for c
    by (induction gs arbitrary: c) (simp_all add: R_send' R_sleep')
  ultimately show ?thesis using Cons by (simp add: R_send')
qed simp

lemma wait_round_R: "R b0 b \<Longrightarrow> R b0 (snd (wait_round final dl reqs is out b))"
  by (induction "is" arbitrary: b out) (simp_all add: Let_def case_prod_beta R_wait' R_keep')

lemma wait_round_length [simp]: "length (fst (wait_round final dl reqs is out b)) = length out"
  by (induction "is" arbitrary: b out) (simp_all add: Let_def case_prod_beta)

lemma req_rounds_R:
  "req_rounds btw cfg reqs n out b = Some y \<Longrightarrow> list_all (\<lambda>r. read_only (snd r)) reqs \<Longrightarrow>
   length out = length reqs \<Longrightarrow> R b0 b \<Longrightarrow> R b0 (snd y) \<and> length (fst y) = length reqs"
proof (induction n arbitrary: b out)
  case (Suc n)
  show ?case
  proof (cases "open_reqs out = []")
    case True
    with Suc.prems show ?thesis by auto
  next
    case False
    obtain b1 where b1: "btw b = Some b1"
      using Suc.prems(1) False by (auto simp: Option.bind_eq_Some_conv)
    let ?b3 = "send_spaced (cf_min_send_interval cfg) (map (\<lambda>i. snd (reqs ! i)) (open_reqs out))
        (fold (\<lambda>i. bus_register (fst (reqs ! i))) (open_reqs out) b1)"
    let ?w = "wait_round (n = 0) (b_clock ?b3 + cf_discovery_timeout cfg) reqs (open_reqs out) out ?b3"
    have r: "req_rounds btw cfg reqs n (fst ?w) (snd ?w) = Some y"
      using Suc.prems(1) False b1 by (simp add: Let_def case_prod_beta)
    have ro: "list_all read_only (map (\<lambda>i. snd (reqs ! i)) (open_reqs out))"
      using Suc.prems(2,3) by (auto simp: list_all_iff open_reqs_def)
    have "R b0 (snd ?w)"
      by (intro wait_round_R send_spaced_R [OF ro] fold_register_R R_btw' [OF Suc.prems(4) b1])
    from Suc.IH [OF r Suc.prems(2) _ this] Suc.prems(3) show ?thesis by simp
  qed
qed auto

lemma req_all_R:
  "req_all btw cfg reqs b = Some y \<Longrightarrow> list_all (\<lambda>r. read_only (snd r)) reqs \<Longrightarrow> R b0 b \<Longrightarrow> R b0 (snd y)"
  by (auto simp: req_all_def Let_def Option.bind_eq_Some_conv case_prod_beta
      dest!: req_rounds_R intro!: collect_late_R)

lemma fetch_rounds_R:
  assumes "fetch_rounds btw cfg fs d b = Some y" and "R b0 b"
  shows "R b0 (snd (snd y))"
proof -
  have "bt = btw \<longrightarrow> R b0 b \<longrightarrow> R b0 (snd (snd y))"
    if "fetch_rounds bt cfg fs d b = Some y" for bt cfg fs d b y
    using that
  proof (induction rule: fetch_rounds.raw_induct [rotated, consumes 1, case_names step])
    case (step f bt cfg fs d b y)
    show ?case
    proof (intro impI, cases "open_fetches fs = []")
      case True
      assume "R b0 b"
      with True step(2) show "R b0 (snd (snd y))" by auto
    next
      case False
      assume bt: "bt = btw" and b: "R b0 b"
      obtain x where x: "req_all bt cfg (map (\<lambda>i. chunk_req (fs ! i)) (open_fetches fs)) b = Some x"
        and f: "f bt cfg (fst (take_chunks (zip (open_fetches fs) (fst x)) fs d))
             (snd (take_chunks (zip (open_fetches fs) (fst x)) fs d)) (snd x) = Some y"
        using step(2) False by (auto simp: Option.bind_eq_Some_conv)
      have "R b0 (snd x)"
        by (rule req_all_R [OF x [unfolded bt]]) (auto simp: list_all_iff chunk_req_def b)
      with step(1) [OF f] bt show "R b0 (snd (snd y))" by simp
    qed
  qed
  with assms show ?thesis by blast
qed

lemma fetch_strs_wire_R:
  "fetch_strs_wire btw cfg ids d b = Some y \<Longrightarrow> R b0 b \<Longrightarrow> R b0 (snd (snd y))"
  by (auto simp: fetch_strs_wire_def Option.bind_eq_Some_conv dest: fetch_rounds_R)

lemma fetch_str_wire_R:
  "fetch_str_wire btw cfg addr sid d b = Some y \<Longrightarrow> R b0 b \<Longrightarrow> R b0 (snd (snd y))"
  by (auto simp: fetch_str_wire_def Option.bind_eq_Some_conv dest: fetch_strs_wire_R)

lemma fetch_str_R: "fetch_str btw cfg addr sid d b = Some y \<Longrightarrow> R b0 b \<Longrightarrow> R b0 (snd (snd y))"
  by (auto simp: fetch_str_def split: option.splits dest: fetch_str_wire_R)

lemma fetch_sid_R: "fetch_sid btw cfg addr sid d b = Some y \<Longrightarrow> R b0 b \<Longrightarrow> R b0 (snd (snd y))"
  by (auto simp: fetch_sid_def split: option.splits if_splits dest: fetch_str_R)

lemma fetch_sids_R: "fetch_sids btw cfg addr ss d b = Some y \<Longrightarrow> R b0 b \<Longrightarrow> R b0 (snd (snd y))"
proof (induction ss arbitrary: d b y)
  case (Cons s ss)
  then show ?case
    by (force simp: Option.bind_eq_Some_conv case_prod_beta dest: fetch_sid_R)
qed auto

lemma collect_ops_R: "R b0 b \<Longrightarrow> R b0 (snd (collect_ops key left ops b))"
  by (induction ops arbitrary: b) (simp_all add: Let_def case_prod_beta R_wait')

lemma meta_batch_R: "meta_batch btw cfg addr fid ops best b = Some y \<Longrightarrow> R b0 b \<Longrightarrow> R b0 (snd y)"
  by (auto simp: meta_batch_def Let_def Option.bind_eq_Some_conv case_prod_beta list_all_iff
      simp del: fold_append intro!: collect_ops_R fold_send_R fold_register_R intro: R_btw')

lemma probe_chunk_R: "probe_chunk btw cfg addr m ws b = Some y \<Longrightarrow> R b0 b \<Longrightarrow> R b0 (snd y)"
proof -
  have sw: "R b0 c \<Longrightarrow> R b0 (fold (\<lambda>w b. bus_sleep gap (bus_send (property_req_raw m addr op_VIZ w) b)) ws c)" for c gap
    by (induction ws arbitrary: c) (simp_all add: R_send' R_sleep')
  then show "probe_chunk btw cfg addr m ws b = Some y \<Longrightarrow> R b0 b \<Longrightarrow> R b0 (snd y)"
    by (auto simp: probe_chunk_def Let_def Option.bind_eq_Some_conv case_prod_beta
        intro!: collect_ops_R sw fold_register_R intro: R_btw')
qed

lemma probe_existence_R:
  "probe_existence btw cfg addr m limit wire b = Some y \<Longrightarrow> R b0 b \<Longrightarrow> R b0 (snd y)"
proof (induction "limit - wire" arbitrary: wire b y rule: less_induct)
  case less
  show ?case
  proof (cases "limit \<le> wire")
    case True
    with less.prems show ?thesis by (auto simp: probe_existence.simps)
  next
    case False
    let ?stop = "min (wire + PROBE_CHUNK) limit"
    obtain c z where c: "probe_chunk btw cfg addr m (map word_of_nat [wire ..< ?stop]) b = Some c"
      and z: "probe_existence btw cfg addr m limit ?stop (snd c) = Some z" and y: "snd y = snd z"
      using less.prems(1) False
      by (subst (asm) probe_existence.simps) (auto simp: Let_def Option.bind_eq_Some_conv case_prod_beta)
    have "limit - ?stop < limit - wire" using False by (auto simp: PROBE_CHUNK_def)
    from less.hyps [OF this z probe_chunk_R [OF c less.prems(2)]] y show ?thesis by simp
  qed
qed

lemma ask_options_R:
  "ask_options btw cfg rq opts b = Some y \<Longrightarrow> (\<And>o'. read_only (snd (rq o'))) \<Longrightarrow> R b0 b \<Longrightarrow> R b0 (snd y)"
proof (induction opts arbitrary: b y)
  case (Cons opt opts)
  then show ?case
    by (force simp: Option.bind_eq_Some_conv case_prod_beta dest: req_keeping_R)
qed auto

lemma option_labels_R: "option_labels btw cfg addr fid n b = Some y \<Longrightarrow> R b0 b \<Longrightarrow> R b0 (snd y)"
  by (auto simp: option_labels_def Let_def Option.bind_eq_Some_conv case_prod_beta
      intro!: late_replies_R dest!: ask_options_R)

lemma ask_selector_R: "ask_selector btw cfg addr sel b = Some y \<Longrightarrow> R b0 b \<Longrightarrow> R b0 (snd y)"
  by (auto simp: ask_selector_def Option.bind_eq_Some_conv dest: req_std_R)

lemma group_count_R: "group_count btw cfg addr sel b = Some y \<Longrightarrow> R b0 b \<Longrightarrow> R b0 (snd y)"
  by (auto simp: group_count_def Option.bind_eq_Some_conv dest: ask_selector_R)

lemmas option_labels_p = option_labels_R [where y = "(r, b')" for r b', simplified]
lemmas probe_existence_p = probe_existence_R [where y = "(r, b')" for r b', simplified]
lemmas ask_selector_p = ask_selector_R [where y = "(r, b')" for r b', simplified]
lemmas group_count_p = group_count_R [where y = "(r, b')" for r b', simplified]
lemmas req_keeping_p = req_keeping_R [where y = "(r, b')" for r b', simplified]

lemmas fetch_str_p = fetch_str_R [where y = "(r, d', b')" for r d' b', simplified]
lemmas fetch_sids_p = fetch_sids_R [where y = "(r, d', b')" for r d' b', simplified]
lemmas fetch_str_wire_p = fetch_str_wire_R [where y = "(r, d', b')" for r d' b', simplified]

lemma field_meta_R:
  assumes "field_meta btw cfg addr fid want d b = Some y" and b: "R b0 b"
  shows "R b0 (snd (snd y))"
proof -
  obtain x where x: "meta_batch btw cfg addr fid meta_ops (if want then [op_EVENTABLE] else []) b = Some x"
    using assms(1) by (auto simp: field_meta_def Option.bind_eq_Some_conv)
  note r = meta_batch_R [OF x b]
  define missing where "missing = (if fst x = [] then (if silent_retried d addr then meta_ops else [])
    else filter (\<lambda>op. map_of (fst x) op = None \<and> meta_retried d addr op) meta_ops)"
  show ?thesis
  proof (cases "missing = []")
    case True
    with assms(1) x r show ?thesis unfolding missing_def
      by (auto simp: field_meta_def Let_def case_prod_beta)
  next
    case False
    then obtain z where "meta_batch btw cfg addr fid missing [] (snd x) = Some z" "snd (snd y) = snd z"
      using assms(1) x unfolding missing_def
      by (simp add: field_meta_def Let_def case_prod_beta Option.bind_eq_Some_conv) auto
    with meta_batch_R [OF _ r] show ?thesis by metis
  qed
qed

lemma enumerate_field_R:
  assumes "enumerate_field btw cfg addr fid want d b = Some y" and b: "R b0 b"
  shows "R b0 (snd (snd y))"
proof -
  obtain x where x: "field_meta btw cfg addr fid want d b = Some x"
    using assms(1) by (auto simp: enumerate_field_def Option.bind_eq_Some_conv)
  note r = field_meta_R [OF x b]
  show ?thesis
  proof (cases "fst x = []")
    case True
    with assms(1) x r show ?thesis by (auto simp: enumerate_field_def case_prod_beta)
  next
    case False
    define viz where "viz = viz_from_wire (case byte4 (fst x) op_VIZ of Some c \<Rightarrow> c | None \<Rightarrow> 0x01)"
    define n where "n = f32_as_u32 (case f32_at4 (fst x) op_MAX of Some f \<Rightarrow> f | None \<Rightarrow> f32_zero)"
    define opt where "opt =
      (if (viz = DropDown \<or> viz = Viz_Eventable) \<and> 0 < n \<and> n \<le> 64
       then do { (sids, b') \<leftarrow> option_labels btw cfg addr fid n (snd (snd x));
                 fetch_sids btw cfg addr sids (fst (snd x)) b' }
       else Some ([], fst (snd x), snd (snd x)))"
    obtain p q u where p: "opt = Some p"
      and q: "fetch_sid btw cfg addr (u16_at4 (fst x) op_NAME) (fst (snd p)) (snd (snd p)) = Some q"
      and u: "fetch_sid btw cfg addr (u16_at4 (fst x) op_UNIT) (fst (snd q)) (snd (snd q)) = Some u"
      and y: "snd (snd y) = snd (snd u)"
      using assms(1) x False unfolding opt_def viz_def n_def
      by (auto simp: enumerate_field_def Let_def Option.bind_eq_Some_conv case_prod_beta)
    have "R b0 (snd (snd p))"
      using p r unfolding opt_def
      by (auto simp: Option.bind_eq_Some_conv case_prod_beta split: if_splits
          dest: option_labels_p fetch_sids_R)
    then show ?thesis using fetch_sid_R [OF u fetch_sid_R [OF q]] y by simp
  qed
qed

lemma enumerate_fields_R:
  "enumerate_fields btw cfg addr want fids d b = Some y \<Longrightarrow> R b0 b \<Longrightarrow> R b0 (snd (snd y))"
proof (induction fids arbitrary: d b y)
  case (Cons fid fids)
  then show ?case
    by (force simp: Option.bind_eq_Some_conv case_prod_beta dest: enumerate_field_R)
qed auto

lemmas enumerate_fields_p = enumerate_fields_R [where y = "(r, d', b')" for r d' b', simplified]

lemma probe_channel_R: "probe_channel btw cfg addr m d b = Some y \<Longrightarrow> R b0 b \<Longrightarrow> R b0 (snd (snd y))"
  by (auto simp: probe_channel_def Option.bind_eq_Some_conv case_prod_beta
      intro: probe_existence_p enumerate_fields_R)

lemmas probe_channel_p = probe_channel_R [where y = "(r, d', b')" for r d' b', simplified]

lemma enumerate_all_fields_R:
  "enumerate_all_fields btw cfg addr d b = Some y \<Longrightarrow> R b0 b \<Longrightarrow> R b0 (snd (snd y))"
  by (auto simp: enumerate_all_fields_def Option.bind_eq_Some_conv case_prod_beta intro: probe_channel_p)

lemma ask_field_count_R: "ask_field_count btw cfg addr m g b = Some y \<Longrightarrow> R b0 b \<Longrightarrow> R b0 (snd y)"
  by (auto simp: ask_field_count_def Option.bind_eq_Some_conv dest: req_patient_R)

lemma ask_group_fields_R:
  "ask_group_fields btw cfg addr m g is b = Some y \<Longrightarrow> R b0 b \<Longrightarrow> R b0 (snd y)"
proof (induction "is" arbitrary: b y)
  case (Cons i "is")
  then show ?case by (force simp: Option.bind_eq_Some_conv case_prod_beta dest: req_keeping_R)
qed auto

lemma group_shape_R:
  assumes "group_shape_of btw cfg addr g m d b = Some y" and b: "R b0 b"
  shows "R b0 (snd (snd y))"
proof -
  obtain p q where p: "req_std btw cfg (group_key m addr 0x28 g) (group_req_raw m addr 0x28 g) b = Some p"
    and q: "ask_field_count btw cfg addr m g (snd p) = Some q"
    using assms(1) by (auto simp: group_shape_of_def Let_def Option.bind_eq_Some_conv)
  define n1 where "n1 = (case fst q of Some n \<Rightarrow> n | None \<Rightarrow> 0)"
  define again where "again =
    (if MAX_GROUP_FIELDS < n1
     then do { (again, b') \<leftarrow> ask_field_count btw cfg addr m g (snd q);
               Some ((case again of Some n \<Rightarrow> n | None \<Rightarrow> n1), b') }
     else Some (n1, snd q))"
  obtain z where z: "again = Some z"
    using assms(1) p q unfolding again_def n1_def
    by (auto simp: group_shape_of_def Let_def Option.bind_eq_Some_conv case_prod_beta)
  have r: "R b0 (snd z)"
    using z ask_field_count_R [OF q req_std_R [OF p _ b]] unfolding again_def
    by (auto simp: Option.bind_eq_Some_conv case_prod_beta split: if_splits dest: ask_field_count_R)
  show ?thesis
  proof (cases "MAX_GROUP_FIELDS < fst z")
    case True
    with assms(1) p q z r show ?thesis unfolding again_def n1_def
      by (simp add: group_shape_of_def Let_def case_prod_beta) auto
  next
    case False
    obtain w where w: "ask_group_fields btw cfg addr m g (map word_of_nat [0 ..< fst z]) (snd z) = Some w"
      using assms(1) p q z False unfolding again_def n1_def
      by (auto simp: group_shape_of_def Let_def Option.bind_eq_Some_conv case_prod_beta)
    let ?l = "late_replies cfg (\<lambda>i. group_field_key m addr g (word_of_nat i)) (fst w) (snd w)"
    have l: "R b0 (snd ?l)" by (rule late_replies_R, rule ask_group_fields_R [OF w r])
    define sid where "sid = (case fst p of Some r \<Rightarrow> if 6 \<le> length r then Some (le16_at r 4) else None | None \<Rightarrow> None)"
    obtain v where v: "(case sid of Some s \<Rightarrow> fetch_str btw cfg addr s d (snd ?l) | None \<Rightarrow> Some ([], d, snd ?l)) = Some v"
      and y: "snd (snd y) = snd (snd v)"
      using assms(1) p q z False w unfolding again_def n1_def sid_def
      by (auto simp: group_shape_of_def Let_def Option.bind_eq_Some_conv case_prod_beta)
    then show ?thesis using l by (auto split: option.splits dest: fetch_str_R)
  qed
qed

lemma finish_group_R: "finish_group btw cfg addr g m sh d b = Some y \<Longrightarrow> R b0 b \<Longrightarrow> R b0 (snd (snd y))"
  by (auto simp: finish_group_def Option.bind_eq_Some_conv dest: enumerate_fields_R)

lemma enumerate_groups_R:
  "enumerate_groups btw cfg addr m gs prev d b = Some y \<Longrightarrow> R b0 b \<Longrightarrow> R b0 (snd (snd y))"
proof (induction gs arbitrary: prev d b y)
  case (Cons g gs)
  obtain x where x: "group_shape_of btw cfg addr g m d b = Some x"
    using Cons.prems(1) by (auto simp: Option.bind_eq_Some_conv)
  note r = group_shape_R [OF x Cons.prems(2)]
  show ?case
  proof (cases "fst x")
    case None
    with Cons.prems(1) x have "enumerate_groups btw cfg addr m gs prev (fst (snd x)) (snd (snd x)) = Some y"
      by (simp add: case_prod_beta)
    from Cons.IH [OF this r] show ?thesis .
  next
    case (Some sh)
    show ?thesis
    proof (cases "case prev of Some p \<Rightarrow> shape_repeats sh p | None \<Rightarrow> False")
      case True
      with Cons.prems(1) x r Some show ?thesis by (auto simp: case_prod_beta)
    next
      case False
      obtain f e where f: "finish_group btw cfg addr g m sh (fst (snd x)) (snd (snd x)) = Some f"
        and e: "enumerate_groups btw cfg addr m gs (Some sh) (fst (snd f)) (snd (snd f)) = Some e"
        and y: "snd (snd y) = snd (snd e)"
        using Cons.prems(1) x Some False by (auto simp: case_prod_beta Option.bind_eq_Some_conv)
      from Cons.IH [OF e finish_group_R [OF f r]] y show ?thesis by simp
    qed
  qed
qed auto

lemmas enumerate_groups_p = enumerate_groups_R [where y = "(r, d', b')" for r d' b', simplified]

lemma enumerate_menu_R: "enumerate_menu btw cfg addr m d b = Some y \<Longrightarrow> R b0 b \<Longrightarrow> R b0 (snd (snd y))"
  by (auto simp: enumerate_menu_def Option.bind_eq_Some_conv case_prod_beta split: option.splits
      intro: group_count_p) (blast intro: group_count_p enumerate_groups_p)

lemma list_outputs_R: "list_outputs btw cfg addr ks b = Some y \<Longrightarrow> R b0 b \<Longrightarrow> R b0 (snd y)"
proof (induction ks arbitrary: b y)
  case (Cons k ks)
  obtain x where x: "group_count btw cfg addr (EVENTABLE_0 + word_of_nat k) b = Some x"
    using Cons.prems(1) by (auto simp: Option.bind_eq_Some_conv)
  note r = group_count_R [OF x Cons.prems(2)]
  show ?case
  proof (cases "\<exists>i. fst x = Some i \<and> i < 0xFF")
    case True
    then obtain i z where "fst x = Some i" "i < 0xFF" "list_outputs btw cfg addr ks (snd x) = Some z" "snd y = snd z"
      using Cons.prems(1) x by (auto simp: Option.bind_eq_Some_conv case_prod_beta)
    with Cons.IH [OF _ r] show ?thesis by metis
  next
    case False
    with Cons.prems(1) x have "y = ([], snd x)" by (auto simp: case_prod_beta split: option.splits)
    with r show ?thesis by simp
  qed
qed auto

lemma eventable_outputs_R:
  assumes "eventable_outputs btw cfg addr b = Some y" and b: "R b0 b"
  shows "R b0 (snd y)"
proof -
  obtain x where x: "ask_selector btw cfg addr EVENTABLES b = Some x"
    using assms(1) by (auto simp: eventable_outputs_def Option.bind_eq_Some_conv)
  note r = ask_selector_R [OF x b]
  consider "fst x = Some None" | n where "fst x = Some (Some n)" | "fst x = None"
    by (cases "fst x"; cases "the (fst x)") auto
  then show ?thesis
    using assms(1) x r by cases (auto simp: eventable_outputs_def case_prod_beta dest: list_outputs_R)
qed

lemma fetch_identities_R:
  "fetch_identities btw cfg addrs d b = Some y \<Longrightarrow> R b0 b \<Longrightarrow> R b0 (snd (snd y))"
proof -
  have ro: "list_all (\<lambda>r. read_only (snd r)) (fw_reqs addrs)" "list_all (\<lambda>r. read_only (snd r)) (sid_reqs addrs)"
    by (auto simp: fw_reqs_def sid_reqs_def list_all_iff)
  then show "fetch_identities btw cfg addrs d b = Some y \<Longrightarrow> R b0 b \<Longrightarrow> R b0 (snd (snd y))"
    by (auto simp: fetch_identities_def Let_def Option.bind_eq_Some_conv case_prod_beta
        dest!: req_all_R fetch_strs_wire_R)
qed

lemma fetch_identity_R: "fetch_identity btw cfg addr d b = Some y \<Longrightarrow> R b0 b \<Longrightarrow> R b0 (snd (snd y))"
  by (auto simp: fetch_identity_def Option.bind_eq_Some_conv dest: fetch_identities_R)

lemma spot_checks_R: "spot_checks btw cfg addr strs sids d b = Some y \<Longrightarrow> R b0 b \<Longrightarrow> R b0 (snd (snd y))"
proof (induction sids arbitrary: d b y)
  case (Cons sid sids)
  show ?case
  proof (cases "strs sid")
    case (Some want)
    then obtain x where x: "fetch_str_wire btw cfg addr sid d b = Some x"
      using Cons.prems(1) by (auto simp: Option.bind_eq_Some_conv)
    note r = fetch_str_wire_R [OF x Cons.prems(2)]
    from Cons.prems(1) Some x r Cons.IH [OF _ r] show ?thesis
      by (auto simp: case_prod_beta split: if_splits)
  qed (use Cons.prems in auto)
qed auto

lemma try_entries_R: "try_entries btw cfg addr es d b = Some y \<Longrightarrow> R b0 b \<Longrightarrow> R b0 (snd (snd y))"
proof (induction es arbitrary: d b y)
  case (Cons e es)
  obtain x where x: "spot_checks btw cfg addr (fe_strings e) (fe_spot_check e) d b = Some x"
    using Cons.prems(1) by (auto simp: Option.bind_eq_Some_conv)
  note r = spot_checks_R [OF x Cons.prems(2)]
  from Cons.prems(1) x r Cons.IH [OF _ r] show ?case
    by (auto simp: case_prod_beta split: if_splits)
qed auto

lemma resolve_catalog_R:
  "resolve_catalog btw cfg catalog addr i d b = Some y \<Longrightarrow> R b0 b \<Longrightarrow> R b0 (snd (snd y))"
  by (simp add: resolve_catalog_def try_entries_R)

lemma write_file_R: "R b0 b \<Longrightarrow> R b0 (write_file p f b)"
  by (simp add: write_file_def R_disk')

lemma remove_file_R: "R b0 b \<Longrightarrow> R b0 (remove_file p b)"
  by (simp add: remove_file_def R_disk')

lemma incomplete_reads_R: "R b0 b \<Longrightarrow> R b0 (snd (incomplete_reads c b))"
  by (cases c) (simp_all add: incomplete_reads_def Let_def write_file_R)

lemma store_cached_menu_R: "R b0 b \<Longrightarrow> R b0 (store_cached_menu dir serial fw l m gs b)"
  by (cases dir) (simp_all add: store_cached_menu_def write_file_R)

lemma keep_menu_R: "R b0 b \<Longrightarrow> R b0 (keep_menu cfg i l m gs complete b)"
proof -
  assume b: "R b0 b"
  define x where "x = (if complete then (True, b)
     else (INCOMPLETE_READ_LIMIT \<le> fst (incomplete_reads (cache_path_of cfg i l m) b),
           snd (incomplete_reads (cache_path_of cfg i l m) b)))"
  have x: "R b0 (snd x)" using b by (simp add: x_def incomplete_reads_R)
  let ?st = "store_cached_menu (cf_cache_path cfg) (di_serial i) (di_firmware i) l m gs (snd x)"
  have "keep_menu cfg i l m gs complete b =
     (if fst x
      then (case cache_path_of cfg i l m of Some p \<Rightarrow> remove_file (incomplete_marker p) ?st | None \<Rightarrow> ?st)
      else snd x)"
    unfolding keep_menu_def x_def Let_def
    by (cases complete; cases "incomplete_reads (cache_path_of cfg i l m) b";
        cases "cache_path_of cfg i l m") simp_all
  with x show ?thesis
    by (cases "cache_path_of cfg i l m") (simp_all add: store_cached_menu_R remove_file_R)
qed

lemma discover_menu_live_R:
  assumes "do { (r, d1, h1) \<leftarrow> enumerate_menu btw cfg addr m d b;
       Some (case r of None \<Rightarrow> (None, d1, h1)
             | Some (gs, complete) \<Rightarrow> (Some gs, d1, keep_menu cfg i l m gs complete h1)) } = Some y"
    and b: "R b0 b"
  shows "R b0 (snd (snd y))"
proof -
  obtain x where x: "enumerate_menu btw cfg addr m d b = Some x"
    using assms(1) by (auto simp: Option.bind_eq_Some_conv)
  have r: "R b0 (snd (snd x))" by (rule enumerate_menu_R [OF x b])
  show ?thesis
  proof (cases "fst x")
    case None
    with assms(1) x r show ?thesis by (auto simp: case_prod_beta)
  next
    case (Some gc)
    with assms(1) x have "y = (Some (fst gc), fst (snd x), keep_menu cfg i l m (fst gc) (snd gc) (snd (snd x)))"
      by (simp add: case_prod_beta)
    then show ?thesis using keep_menu_R [OF r] by simp
  qed
qed

lemma discover_menu_R:
  assumes "discover_menu btw cfg addr i m d b = Some y" and "R b0 b"
  shows "R b0 (snd (snd y))"
proof (cases "\<exists>gs. load_cached_menu (cf_cache_path cfg) (di_serial i) (di_firmware i) (dc_level d) m b = Some gs \<and>
    plausible_menu m gs")
  case True
  with assms show ?thesis by (auto simp: discover_menu_def)
next
  case False
  with assms(1) show ?thesis
    by (auto simp: discover_menu_def split: option.splits if_splits
        intro: discover_menu_live_R [OF _ assms(2), of cfg addr m d i "dc_level d"])
qed

end

end
