(* ===== verification/Scheduler.thy ===== *)
theory Scheduler
  imports Schema Encode "HOL-Library.Product_Lexorder"
begin

text \<open>
  The bus-sending thread: \<open>crates/masterbus/src/runtime/scheduler.rs\<close>. Every method of
  \<open>Sched\<close> is a function on its state, which extends the bus with the disk and the thread's own
  fields. A method that can fetch a string or discover something takes the turn given to the
  scheduler before each discovery request as its argument \<open>btw\<close>; \<open>between0\<close> is that turn
  inside a polling pass, \<open>between1\<close> outside.
\<close>

section \<open>State\<close>

definition WRITE_SETTLE_POLLS :: nat where "WRITE_SETTLE_POLLS = 5"
definition WRITE_SETTLE_WAIT :: nat where "WRITE_SETTLE_WAIT = 200"
definition VALUE_READ_TIMEOUT_MONITORING :: nat where "VALUE_READ_TIMEOUT_MONITORING = 500"
definition VALUE_READ_TIMEOUT_OTHER_TABS :: nat where "VALUE_READ_TIMEOUT_OTHER_TABS = 2500"
definition BACKOFF_AFTER :: nat where "BACKOFF_AFTER = 2"
definition READ_BATCH :: nat where "READ_BATCH = 16"
definition MENU_RETRY :: nat where "MENU_RETRY = 30000"

record sub_state =
  su_id :: nat
  su_device :: u32
  su_fields :: "field_id list"
  su_interval :: nat
  su_change_only :: bool
  su_next_due :: "field_id \<rightharpoonup> nat"
  su_last :: "field_id \<rightharpoonup> bus_value"

record value_update =
  vu_sub :: nat
  vu_device :: u32
  vu_field :: field_id
  vu_value :: bus_value

record sched = host +
  sc_config :: config
  sc_catalog :: catalog
  sc_random :: u64
  sc_last_send :: nat
  sc_next_heartbeat :: "nat option"
  sc_quiet :: "u32 \<rightharpoonup> nat"
  sc_misses :: "(u32 \<times> field_id) \<rightharpoonup> (nat \<times> nat)"
  sc_failed_menus :: "(u32 \<times> menu) \<rightharpoonup> nat"
  sc_outputs :: "u32 \<rightharpoonup> field_id list"
  sc_subs :: "sub_state list"
  sc_servicing :: bool
  sc_discovering :: nat
  sc_updates :: "value_update list"

type_synonym sturn = "sched \<Rightarrow> sched option"

section \<open>Sending\<close>

definition pace :: "sched \<Rightarrow> sched" where
  "pace s =
     (let gap = cf_min_send_interval (sc_config s);
          since = b_clock s - sc_last_send s;
          s1 = (if since < gap then bus_sleep (gap - since) s else s)
      in s1\<lparr>sc_last_send := b_clock s1\<rparr>)"

definition sched_send :: "frame \<Rightarrow> sched \<Rightarrow> sched" where
  "sched_send f s = bus_send f (pace s)"

definition maybe_heartbeat :: "sched \<Rightarrow> sched" where
  "maybe_heartbeat s =
     (case cf_heartbeat_master (sc_config s) of
        None \<Rightarrow> s
      | Some master \<Rightarrow>
          let now = b_clock s
          in if (case sc_next_heartbeat s of Some t \<Rightarrow> t \<le> now | None \<Rightarrow> False)
             then (sched_send (heartbeat_raw master) s)
                    \<lparr>sc_next_heartbeat := Some (now + cf_heartbeat_interval (sc_config s))\<rparr>
             else s)"

text \<open>The source draws a fresh random BusID at each use when none is configured; connecting always
  configures one (\<open>Engine::connect\<close>), so the model draws it once.\<close>

definition sched_bus_id :: "sched \<Rightarrow> u32" where
  "sched_bus_id s = (case cf_bus_id (sc_config s) of Some b \<Rightarrow> b | None \<Rightarrow> bus_id_generate (sc_random s))"

section \<open>Access level\<close>

definition await_access_level :: "u32 \<Rightarrow> nat \<Rightarrow> sched \<Rightarrow> access_level result \<times> sched" where
  "await_access_level addr timeout s =
     (let (r, s1) = bus_wait (p_key addr 0x08 0x19) (max timeout 1) s
      in (case r of
            Some d \<Rightarrow>
              if 3 \<le> length d
              then (case level_from_byte (d ! 2) of
                      Some l \<Rightarrow> Inr l
                    | None \<Rightarrow> Inl (Protocol (''unknown access level byte 0x'' @ fmt_hex 2 (unat (d ! 2)))))
              else Inl (Protocol ''short access-level response'')
          | None \<Rightarrow> Inl Timeout, s1))"

definition do_access_level_read :: "u32 \<Rightarrow> sched \<Rightarrow> access_level result \<times> sched" where
  "do_access_level_read addr s =
     (let s1 = sched_send (encode_login_read addr) (bus_register (p_key addr 0x08 0x19) s);
          (r, s2) = await_access_level addr VALUE_READ_TIMEOUT_MONITORING s1
      in case r of
           Inl e \<Rightarrow> (Inl e, s2)
         | Inr l \<Rightarrow> (Inr l, upd_state (put_access_level (b_clock s2) addr l) s2))"

definition do_access_level_set ::
  "u32 \<Rightarrow> access_level \<Rightarrow> f32 option \<Rightarrow> sched \<Rightarrow> access_level result \<times> sched" where
  "do_access_level_set addr level code s =
     (let fr = (case code of Some c \<Rightarrow> encode_login_write addr (level_byte level) c
                | None \<Rightarrow> encode_logout addr);
          s1 = sched_send fr (bus_register (p_key addr 0x08 0x19) s);
          (r, s2) = await_access_level addr VALUE_READ_TIMEOUT_MONITORING s1
      in case r of
           Inl e \<Rightarrow> (Inl e, s2)
         | Inr l \<Rightarrow>
             (Inr l, upd_state (forget_schema addr) (upd_state (put_access_level (b_clock s2) addr l) s2)))"

text \<open>The levels of several devices asked for at once; silence counts as \<open>EndUser\<close>.\<close>

fun await_levels :: "nat \<Rightarrow> u32 list \<Rightarrow> sched \<Rightarrow> sched" where
  "await_levels deadline [] s = s"
| "await_levels deadline (a # as) s =
     (let (r, s1) = await_access_level a (deadline - b_clock s) s;
          l = (case r of Inr l \<Rightarrow> l | Inl e \<Rightarrow> EndUser)
      in await_levels deadline as (upd_state (put_access_level (b_clock s1) a l) s1))"

definition read_access_levels :: "u32 list \<Rightarrow> sched \<Rightarrow> sched" where
  "read_access_levels addrs s =
     (let ask = filter (\<lambda>a. state_access_level a (b_state s) = None) addrs;
          s1 = fold (\<lambda>a s. sched_send (encode_login_read a) (bus_register (p_key a 0x08 0x19) s)) ask s
      in await_levels (b_clock s1 + VALUE_READ_TIMEOUT_MONITORING) ask s1)"

section \<open>Discovery on this bus\<close>

definition with_disc ::
  "u32 \<Rightarrow> (disc \<Rightarrow> sched \<Rightarrow> ('r \<times> disc \<times> sched) option) \<Rightarrow> sched \<Rightarrow> ('r \<times> sched) option" where
  "with_disc addr f s =
     (let (level, s1) =
            (case state_access_level addr (b_state s) of
               Some l \<Rightarrow> (l, s)
             | None \<Rightarrow>
                 let (r, s') = do_access_level_read addr s;
                     l = (case r of Inr l \<Rightarrow> l | Inl e \<Rightarrow> EndUser)
                 in (l, upd_state (put_access_level (b_clock s') addr l) s'));
          d = disc_new level (state_catalog_table addr (b_state s1))
      in do {
           (r, d', s2) \<leftarrow> f d (s1\<lparr>sc_discovering := sc_discovering s1 + 1\<rparr>);
           Some (r, s2\<lparr>sc_discovering := sc_discovering s2 - 1\<rparr>)
         })"

definition do_identify :: "sturn \<Rightarrow> u32 list \<Rightarrow> sched \<Rightarrow> sched option" where
  "do_identify btw addrs s =
     (let as = filter (\<lambda>a. \<not> has_identity a (b_state s)) addrs
      in case as of
           [] \<Rightarrow> Some s
         | first # _ \<Rightarrow> do {
             (ids, s1) \<leftarrow> with_disc first (fetch_identities btw (sc_config s) as) (read_access_levels as s);
             Some (fold (\<lambda>(a, i) s. upd_state (put_identity (b_clock s) a i) s) (zip as ids) s1)
           })"

definition sched_identity :: "sturn \<Rightarrow> u32 \<Rightarrow> sched \<Rightarrow> (device_identity \<times> sched) option" where
  "sched_identity btw addr s =
     (case state_identity addr (b_state s) of
        Some i \<Rightarrow> Some (i, s)
      | None \<Rightarrow> do {
          (i, s1) \<leftarrow> with_disc addr (fetch_identity btw (sc_config s) addr) s;
          Some (i, upd_state (put_identity (b_clock s1) addr i) s1)
        })"

definition ensure_catalog :: "sturn \<Rightarrow> u32 \<Rightarrow> device_identity \<Rightarrow> sched \<Rightarrow> sched option" where
  "ensure_catalog btw addr i s =
     (if catalog_attempted addr (b_state s) then Some s
      else do {
        (table, s1) \<leftarrow> with_disc addr (resolve_catalog btw (sc_config s) (sc_catalog s) addr i) s;
        Some (upd_state (put_catalog (b_clock s1) addr table) s1)
      })"

definition do_discover_menu :: "sturn \<Rightarrow> u32 \<Rightarrow> menu \<Rightarrow> sched \<Rightarrow> sched option" where
  "do_discover_menu btw addr m s =
     (if has_menu addr m (b_state s) then Some s
      else if (case sc_failed_menus s (addr, m) of Some at \<Rightarrow> b_clock s - at < MENU_RETRY | None \<Rightarrow> False)
      then Some s
      else do {
        (i, s1) \<leftarrow> sched_identity btw addr s;
        s2 \<leftarrow> ensure_catalog btw addr i s1;
        (groups, s3) \<leftarrow> with_disc addr (discover_menu btw (sc_config s) addr i m) s2;
        let s4 = s3\<lparr>sc_last_send := b_clock s3\<rparr>;
        Some (case groups of
            Some gs \<Rightarrow> upd_state (put_menu (b_clock s4) addr m gs)
                         (s4\<lparr>sc_failed_menus := (sc_failed_menus s4)((addr, m) := None)\<rparr>)
          | None \<Rightarrow> s4\<lparr>sc_failed_menus := (sc_failed_menus s4)((addr, m) \<mapsto> b_clock s4)\<rparr>)
      })"

fun discover_menus :: "sturn \<Rightarrow> u32 \<Rightarrow> menu list \<Rightarrow> sched \<Rightarrow> sched option" where
  "discover_menus btw addr [] s = Some s"
| "discover_menus btw addr (m # ms) s =
     do {
       s1 \<leftarrow> do_discover_menu btw addr m s;
       (if sc_failed_menus s1 (addr, m) \<noteq> None then Some s1 else discover_menus btw addr ms s1)
     }"

definition do_discover_all :: "sturn \<Rightarrow> u32 \<Rightarrow> sched \<Rightarrow> sched option" where
  "do_discover_all btw addr s = discover_menus btw addr menu_ALL s"

definition do_discover_all_fields :: "sturn \<Rightarrow> u32 \<Rightarrow> sched \<Rightarrow> sched option" where
  "do_discover_all_fields btw addr s =
     (if has_all_fields addr (b_state s) then Some s
      else do {
        (i, s1) \<leftarrow> sched_identity btw addr s;
        s2 \<leftarrow> ensure_catalog btw addr i s1;
        (fs, s3) \<leftarrow> with_disc addr (enumerate_all_fields btw (sc_config s) addr) s2;
        let s4 = s3\<lparr>sc_last_send := b_clock s3\<rparr>;
        Some (upd_state (put_all_fields (b_clock s4) addr fs) s4)
      })"

definition do_discover_field ::
  "sturn \<Rightarrow> u32 \<Rightarrow> field_id \<Rightarrow> sched \<Rightarrow> (field_info option \<times> sched) option" where
  "do_discover_field btw addr fid s =
     (case state_field_info addr fid (b_state s) of
        Some f \<Rightarrow> Some (Some f, s)
      | None \<Rightarrow> do {
          (i, s1) \<leftarrow> sched_identity btw addr s;
          s2 \<leftarrow> ensure_catalog btw addr i s1;
          (f, s3) \<leftarrow> with_disc addr (enumerate_field btw (sc_config s) addr fid False) s2;
          let s4 = s3\<lparr>sc_last_send := b_clock s3\<rparr>;
          Some (f, case f of Some f \<Rightarrow> upd_state (put_extra_field (b_clock s4) addr f) s4 | None \<Rightarrow> s4)
        })"

definition viz_of :: "sturn \<Rightarrow> u32 \<Rightarrow> field_id \<Rightarrow> sched \<Rightarrow> (viz result \<times> sched) option" where
  "viz_of btw addr fid s =
     (case state_field_info addr fid (b_state s) of
        Some f \<Rightarrow> Some (Inr (fi_viz f), s)
      | None \<Rightarrow> do {
          s1 \<leftarrow> do_discover_menu btw addr (field_id_menu fid) s;
          s2 \<leftarrow> (if field_id_menu fid = Configuration \<and> state_field_info addr fid (b_state s1) = None
                  then do_discover_all_fields btw addr s1 else Some s1);
          Some (case state_field_info addr fid (b_state s2) of
                  Some f \<Rightarrow> Inr (fi_viz f) | None \<Rightarrow> Inl (FieldNotAvailable (int (unat fid))), s2)
        })"

definition do_eventable_outputs :: "sturn \<Rightarrow> u32 \<Rightarrow> sched \<Rightarrow> (field_id list \<times> sched) option" where
  "do_eventable_outputs btw addr s =
     (case sc_outputs s addr of
        Some os \<Rightarrow> Some (os, s)
      | None \<Rightarrow> do {
          (os, s1) \<leftarrow> with_disc addr
             (\<lambda>d s'. map_option (\<lambda>(r, t). (r, d, t)) (eventable_outputs btw (sc_config s) addr s')) s;
          let s2 = s1\<lparr>sc_last_send := b_clock s1\<rparr>;
          Some (os, if os \<noteq> [] then s2\<lparr>sc_outputs := (sc_outputs s2)(addr \<mapsto> os)\<rparr> else s2)
        })"

section \<open>Reading values\<close>

definition send_read :: "u32 \<Rightarrow> field_id \<Rightarrow> sched \<Rightarrow> (string \<times> nat) \<times> sched" where
  "send_read addr fid s =
     (let key = value_key addr fid; m = field_id_menu fid;
          s1 = sched_send (value_read_raw m addr (field_id_index fid)) (bus_register key s);
          timeout = (if m = Monitoring then VALUE_READ_TIMEOUT_MONITORING else VALUE_READ_TIMEOUT_OTHER_TABS)
      in ((key, b_clock s1 + timeout), s1))"

definition schema_options :: "u32 \<Rightarrow> field_id \<Rightarrow> dev_table \<Rightarrow> string list" where
  "schema_options addr fid st =
     (case state_schema addr st of
        None \<Rightarrow> []
      | Some sch \<Rightarrow> (case schema_field sch fid of Some f \<Rightarrow> fi_options f | None \<Rightarrow> []))"

definition miss_read :: "u32 \<Rightarrow> field_id \<Rightarrow> sched \<Rightarrow> sched" where
  "miss_read addr fid s =
     (let now = b_clock s;
          (n, retry) = (case sc_misses s (addr, fid) of Some m \<Rightarrow> m | None \<Rightarrow> (0, now));
          retry' = (if BACKOFF_AFTER \<le> n + 1 then now + cf_quiet_probe (sc_config s) else retry)
      in s\<lparr>sc_misses := (sc_misses s)((addr, fid) \<mapsto> (n + 1, retry'))\<rparr>)"

definition finish_read ::
  "sturn \<Rightarrow> u32 \<Rightarrow> field_id \<Rightarrow> viz \<Rightarrow> string \<times> nat \<Rightarrow> sched \<Rightarrow> (bus_value result \<times> sched) option" where
  "finish_read btw addr fid viz sent s =
     (let (r, s1) = bus_wait (fst sent) (max (snd sent - b_clock s) 1) s
      in case r of
           None \<Rightarrow> Some (Inl Timeout, miss_read addr fid s1)
         | Some raw \<Rightarrow> do {
             let v0 = with_options (decode_value raw viz) (schema_options addr fid (b_state s1));
             (v, s2) \<leftarrow>
               (case v0 of
                  Text sid _ \<Rightarrow> do {
                    (t, s') \<leftarrow> with_disc addr (fetch_str btw (sc_config s1) addr sid) s1;
                    Some (Text sid t, s')
                  }
                | _ \<Rightarrow> Some (v0, s1));
             Some (Inr v, (upd_state (put_value (b_clock s2) addr fid v) s2)
                            \<lparr>sc_misses := (sc_misses s2)((addr, fid) := None)\<rparr>)
           })"

definition poll_value :: "sturn \<Rightarrow> u32 \<Rightarrow> field_id \<Rightarrow> viz \<Rightarrow> sched \<Rightarrow> (bus_value result \<times> sched) option" where
  "poll_value btw addr fid viz s =
     (let (sent, s1) = send_read addr fid s in finish_read btw addr fid viz sent s1)"

definition do_read :: "sturn \<Rightarrow> u32 \<Rightarrow> field_id \<Rightarrow> nat \<Rightarrow> sched \<Rightarrow> (bus_value result \<times> sched) option" where
  "do_read btw addr fid max_age s =
     (case get_value addr fid (b_state s) of
        Some cv \<Rightarrow>
          if \<not> cv_outdated cv \<and> b_clock s - cv_at cv \<le> max_age then Some (Inr (cv_value cv), s)
          else do {
            (v, s1) \<leftarrow> viz_of btw addr fid s;
            (case v of Inl e \<Rightarrow> Some (Inl e, s1) | Inr viz \<Rightarrow> poll_value btw addr fid viz s1)
          }
      | None \<Rightarrow> do {
          (v, s1) \<leftarrow> viz_of btw addr fid s;
          (case v of Inl e \<Rightarrow> Some (Inl e, s1) | Inr viz \<Rightarrow> poll_value btw addr fid viz s1)
        })"

end
