(* ===== verification/Control.thy ===== *)
theory Control
  imports Scheduler
begin

text \<open>
  Writing through the scheduler: the second part of
  \<open>crates/masterbus/src/runtime/scheduler.rs\<close>. The guards of a write, the frames it puts on
  the wire, the commit of a relay-style boolean, the read-back that reports it, the string
  chunks of a text, and the eventable outputs.
\<close>

section \<open>The read-back\<close>

definition f32_milli :: f32 where "f32_milli = 0x3A83126F"

fun write_took_effect :: "write_value \<Rightarrow> bus_value \<Rightarrow> bool" where
  "write_took_effect (WBool b) (Boolean obs) = (b = obs)"
| "write_took_effect (WFloat f) (Float obs) =
     f32_le (f32_abs (f32_sub f obs)) (f32_mul f32_milli (f32_max (f32_abs f) f32_one))"
| "write_took_effect (WListIndex i) (List index _) = (i = index)"
| "write_took_effect (WListIndex i) (Eventable index _) = (i = index)"
| "write_took_effect (WText sid text) (Text _ obs) = (text = obs)"
| "write_took_effect _ _ = True"

text \<open>Up to \<open>n\<close> more polls while the read-back does not show the write.\<close>

fun settle ::
  "sturn \<Rightarrow> u32 \<Rightarrow> field_id \<Rightarrow> viz \<Rightarrow> write_value \<Rightarrow> nat \<Rightarrow> bus_value result \<Rightarrow> sched \<Rightarrow> (bus_value result \<times> sched) option" where
  "settle btw addr fid viz v 0 r s = Some (r, s)"
| "settle btw addr fid viz v (Suc n) r s =
     (if (case r of Inr obs \<Rightarrow> \<not> write_took_effect v obs | Inl e \<Rightarrow> False)
      then do {
        let s1 = upd_state (mark_outdated addr fid) (bus_sleep WRITE_SETTLE_WAIT s);
        (r', s2) \<leftarrow> poll_value btw addr fid viz s1;
        settle btw addr fid viz v n r' s2
      }
      else Some (r, s))"

definition confirm_write ::
  "sturn \<Rightarrow> u32 \<Rightarrow> field_id \<Rightarrow> write_value \<Rightarrow> sched \<Rightarrow> (bus_value result \<times> sched) option" where
  "confirm_write btw addr fid v s =
     do {
       (vr, s1) \<leftarrow> viz_of btw addr fid (upd_state (mark_outdated addr fid) s);
       (case vr of
          Inl e \<Rightarrow> Some (Inl e, s1)
        | Inr viz \<Rightarrow> do {
            (r, s2) \<leftarrow> poll_value btw addr fid viz s1;
            settle btw addr fid viz v WRITE_SETTLE_POLLS r s2
          })
     }"

section \<open>Strings\<close>

definition send_string_chunk :: "u32 \<Rightarrow> u16 \<Rightarrow> u8 \<Rightarrow> bytes \<Rightarrow> sched \<Rightarrow> unit result \<times> sched" where
  "send_string_chunk addr sid sq chars s =
     (let key = str_key addr sid sq;
          s1 = sched_send (string_chunk_write_raw addr sid sq chars) (bus_register key s);
          (r, s2) = bus_wait key VALUE_READ_TIMEOUT_MONITORING s1
      in (case r of Some d \<Rightarrow> Inr () | None \<Rightarrow> Inl Timeout, s2))"

text \<open>\<open>chunks(4)\<close>\<close>

fun chunks4 :: "'a list \<Rightarrow> 'a list list" where
  "chunks4 (a # b # c # d # xs) = [a, b, c, d] # chunks4 xs"
| "chunks4 [] = []"
| "chunks4 xs = [xs]"

fun send_chunks :: "u32 \<Rightarrow> u16 \<Rightarrow> (nat \<times> bytes) list \<Rightarrow> sched \<Rightarrow> unit result \<times> sched" where
  "send_chunks addr sid [] s = (Inr (), s)"
| "send_chunks addr sid ((sq, chunk) # cs) s =
     (case send_string_chunk addr sid (word_of_nat sq) chunk s of
        (Inl e, s1) \<Rightarrow> (Inl e, s1)
      | (Inr u, s1) \<Rightarrow> send_chunks addr sid cs s1)"

definition str_bytes :: "string \<Rightarrow> bytes" where
  "str_bytes s = map of_char s"

definition do_write_string :: "u32 \<Rightarrow> u16 \<Rightarrow> string \<Rightarrow> sched \<Rightarrow> unit result \<times> sched" where
  "do_write_string addr sid text s =
     (let bs = str_bytes text
      in case send_chunks addr sid (List.enumerate 0 (chunks4 bs)) s of
           (Inl e, s1) \<Rightarrow> (Inl e, s1)
         | (Inr u, s1) \<Rightarrow> send_string_chunk addr sid (word_of_nat ((length bs + 3) div 4)) [0x00] s1)"

section \<open>Writing a field\<close>

text \<open>What stops a boolean write on the Monitoring tab: no register after the field for the
  commit, our own BusID in use on the bus, or a named field in the commit's place.\<close>

definition schema_field_of :: "u32 \<Rightarrow> field_id \<Rightarrow> dev_table \<Rightarrow> field_info option" where
  "schema_field_of addr fid st =
     (case state_schema addr st of None \<Rightarrow> None | Some sch \<Rightarrow> schema_field sch fid)"

definition commit_guard :: "u32 \<Rightarrow> field_id \<Rightarrow> sched \<Rightarrow> error option" where
  "commit_guard addr fid s =
     (if field_id_index fid = 0xFF
      then Some (Protocol (''field 0x'' @ fmt_hex 3 (unat fid) @ '' has no commit register after it''))
      else if device_status_of (b_clock s) (cf_liveness (sc_config s))
                (addr_for_bus_id (sched_bus_id s)) (b_state s) \<noteq> Offline
      then Some (BusIdInUse (sched_bus_id s))
      else (case schema_field_of addr (fid + 1) (b_state s) of
              Some f \<Rightarrow>
                if fi_name f \<noteq> []
                then Some (CommitFieldOccupied (int (unat fid)) (int (unat (fid + 1))) (fi_name f)) else None
            | None \<Rightarrow> None))"

text \<open>The frames of a write, or the error that refuses it; nothing has been sent then.\<close>

definition write_frames :: "u32 \<Rightarrow> field_id \<Rightarrow> write_value \<Rightarrow> sched \<Rightarrow> error + frame list" where
  "write_frames addr fid v s =
     (let wire = field_id_index fid
      in case field_id_menu fid of
           Monitoring \<Rightarrow>
             (case v of
                WBool b \<Rightarrow>
                  (case commit_guard addr fid s of
                     Some e \<Rightarrow> Inl e
                   | None \<Rightarrow> Inr [encode_set_boolean addr wire b,
                                  encode_commit addr (field_id_index (fid + 1)) (sched_bus_id s)])
              | WFloat f \<Rightarrow> Inr [encode_set_float addr wire f]
              | WListIndex i \<Rightarrow> Inr [encode_set_list addr wire i]
              | WText sid text \<Rightarrow> Inr [])
         | Alarm \<Rightarrow> Inl ReadOnly
         | History \<Rightarrow> Inl ReadOnly
         | Configuration \<Rightarrow>
             Inr [value_write_raw Configuration addr wire
                    (case v of WBool b \<Rightarrow> if b then f32_one else f32_zero
                     | WFloat f \<Rightarrow> f
                     | WListIndex i \<Rightarrow> f32_of_int i
                     | WText sid text \<Rightarrow> f32_zero)])"

definition do_write :: "sturn \<Rightarrow> u32 \<Rightarrow> field_id \<Rightarrow> write_value \<Rightarrow> sched \<Rightarrow> (bus_value result \<times> sched) option" where
  "do_write btw addr fid v s =
     (case v of
        WText sid text \<Rightarrow>
          (case do_write_string addr sid text s of
             (Inl e, s1) \<Rightarrow> Some (Inl e, s1)
           | (Inr u, s1) \<Rightarrow>
               Some (Inr (Text sid text), upd_state (put_value (b_clock s1) addr fid (Text sid text)) s1))
      | _ \<Rightarrow>
          (case write_frames addr fid v s of
             Inl e \<Rightarrow> Some (Inl e, s)
           | Inr frames \<Rightarrow> confirm_write btw addr fid v (fold sched_send frames s)))"

definition do_set_output :: "sturn \<Rightarrow> u32 \<Rightarrow> field_id \<Rightarrow> bool \<Rightarrow> sched \<Rightarrow> (bus_value result \<times> sched) option" where
  "do_set_output btw addr fid on s =
     do {
       (os, s1) \<leftarrow> do_eventable_outputs btw addr s;
       (if fid \<notin> set os then Some (Inl (NotAnOutput (int (unat fid))), s1)
        else do {
          (f, s2) \<leftarrow> do_discover_field btw addr fid s1;
          (case f of
             None \<Rightarrow> Some (Inl (FieldNotAvailable (int (unat fid))), s2)
           | Some _ \<Rightarrow> do_write btw addr fid (WBool on) s2)
        })
     }"

end
