(* ===== verification/Polling.thy ===== *)
theory Polling
  imports Control
begin

text \<open>
  Subscriptions and the scheduler's loop: the last part of
  \<open>crates/masterbus/src/runtime/scheduler.rs\<close>. A pass collects what is due, serves what the
  cache has, reads the rest in batches of requests in flight, and hands each value to the
  subscriptions that want it. The updates sent are a log.
\<close>

section \<open>Batched reads\<close>

type_synonym poll_read = "u32 \<times> field_id \<times> viz"
type_synonym pending = "(nat \<times> poll_read) \<times> (string \<times> nat)"

definition pend_key :: "pending \<Rightarrow> string" where "pend_key p = fst (snd p)"
definition pend_deadline :: "pending \<Rightarrow> nat" where "pend_deadline p = snd (snd p)"

text \<open>Requests go out while there is room in the batch.\<close>

fun fill_batch :: "pending list \<Rightarrow> (nat \<times> poll_read) list \<Rightarrow> sched \<Rightarrow>
    pending list \<times> (nat \<times> poll_read) list \<times> sched" where
  "fill_batch ps [] s = (ps, [], s)"
| "fill_batch ps ((r, a, f, viz) # todo) s =
     (if length ps < READ_BATCH
      then (let (sent, s1) = send_read a f s in fill_batch (ps @ [((r, a, f, viz), sent)]) todo s1)
      else (ps, (r, a, f, viz) # todo, s))"

text \<open>The positions taken off the list of pending reads after a wait.\<close>

definition done_reads :: "pending list \<Rightarrow> nat option \<Rightarrow> nat \<Rightarrow> nat list" where
  "done_reads ps ready_at deadline =
     (case ready_at of
        Some p \<Rightarrow> [p]
      | None \<Rightarrow> filter (\<lambda>p. pend_deadline (ps ! p) \<le> deadline) [0 ..< length ps])"

definition left_reads :: "pending list \<Rightarrow> nat list \<Rightarrow> pending list" where
  "left_reads ps done = map (\<lambda>p. ps ! p) (filter (\<lambda>p. p \<notin> set done) [0 ..< length ps])"

fun finish_reads ::
  "sturn \<Rightarrow> (nat \<Rightarrow> bus_value option \<Rightarrow> 'c \<times> sched \<Rightarrow> 'c \<times> sched) \<Rightarrow> pending list \<Rightarrow> 'c \<times> sched \<Rightarrow> ('c \<times> sched) option" where
  "finish_reads btw got [] cs = Some cs"
| "finish_reads btw got (((r, a, f, viz), sent) # ps) (c, s) =
     do {
       (v, s1) \<leftarrow> finish_read btw a f viz sent s;
       finish_reads btw got ps (got r (case v of Inr x \<Rightarrow> Some x | Inl e \<Rightarrow> None) (c, s1))
     }"

definition min_deadline :: "pending list \<Rightarrow> nat" where
  "min_deadline ps = Min (set (map pend_deadline ps))"

lemma fill_batch_length:
  "(ps', todo', s') = fill_batch ps todo s \<Longrightarrow> length ps' + length todo' = length ps + length todo"
  by (induction ps todo s rule: fill_batch.induct) (auto split: if_splits prod.splits)

lemma ready_bound: "ready ks w = Some p \<Longrightarrow> p < length ks"
  by (auto simp: ready_def dest: position_Some)

lemma left_reads_shorter:
  assumes "ps \<noteq> []" and "\<And>p. ready_at = Some p \<Longrightarrow> p < length ps"
  shows "length (left_reads ps (done_reads ps ready_at (min_deadline ps))) < length ps"
proof -
  let ?done = "done_reads ps ready_at (min_deadline ps)"
  have "\<exists>p < length ps. p \<in> set ?done"
  proof (cases ready_at)
    case (Some p)
    then show ?thesis using assms(2) by (auto simp: done_reads_def)
  next
    case None
    have "Min (set (map pend_deadline ps)) \<in> set (map pend_deadline ps)"
      using assms(1) by (intro Min_in) auto
    then obtain p where "p < length ps" "pend_deadline (ps ! p) = min_deadline ps"
      unfolding min_deadline_def by (metis (no_types, lifting) in_set_conv_nth length_map nth_map)
    then show ?thesis using None by (auto simp: done_reads_def)
  qed
  then obtain p where p: "p < length ps" "p \<in> set ?done" by blast
  then have "length (filter (\<lambda>p. p \<notin> set ?done) [0 ..< length ps]) < length [0 ..< length ps]"
    by (intro length_filter_less [of p]) auto
  then show ?thesis by (simp add: left_reads_def)
qed

lemma poll_loop_shrinks:
  assumes "(ps1, y) = fill_batch ps todo s" and "(todo1, s1) = y" and "ps1 \<noteq> []"
    and "(ready_at, s2) = bus_wait_any (map pend_key ps1) t s1"
  shows "length (left_reads ps1 (done_reads ps1 ready_at (min_deadline ps1))) + length todo1
     < length ps + length todo"
proof -
  have "p < length ps1" if "ready_at = Some p" for p
    using assms(4) that ready_bound [of "map pend_key ps1" _ p] by (auto simp: bus_wait_any_def Let_def)
  with assms(3) have "length (left_reads ps1 (done_reads ps1 ready_at (min_deadline ps1))) < length ps1"
    by (rule left_reads_shorter)
  then show ?thesis using fill_batch_length [of ps1 todo1 s1 ps todo s] assms(1,2) by simp
qed

text \<open>The loop of \<open>poll_values\<close>: fill, wait for one reply or the first deadline, finish what is
  done (from the back), until nothing is pending.\<close>

function poll_loop ::
  "sturn \<Rightarrow> (nat \<Rightarrow> bus_value option \<Rightarrow> 'c \<times> sched \<Rightarrow> 'c \<times> sched) \<Rightarrow> pending list \<Rightarrow> (nat \<times> poll_read) list \<Rightarrow>
     'c \<times> sched \<Rightarrow> ('c \<times> sched) option" where
  "poll_loop btw got ps todo cs =
     (case fill_batch ps todo (snd cs) of (ps1, todo1, s1) \<Rightarrow>
        if ps1 = [] then Some (fst cs, s1)
        else (case bus_wait_any (map pend_key ps1) (min_deadline ps1 - b_clock s1) s1 of (ready_at, s2) \<Rightarrow>
          let done = done_reads ps1 ready_at (min_deadline ps1)
          in case finish_reads btw got (map (\<lambda>p. ps1 ! p) (rev done)) (fst cs, s2) of
               None \<Rightarrow> None
             | Some cs3 \<Rightarrow> poll_loop btw got (left_reads ps1 done) todo1 cs3))"
  by pat_completeness auto
termination
  by (relation "measure (\<lambda>(btw, got, ps, todo, cs). length ps + length todo)")
     (simp, simp, rule poll_loop_shrinks, assumption+)

declare poll_loop.simps [simp del]

definition poll_values ::
  "sturn \<Rightarrow> poll_read list \<Rightarrow> (nat \<Rightarrow> bus_value option \<Rightarrow> 'c \<times> sched \<Rightarrow> 'c \<times> sched) \<Rightarrow> 'c \<times> sched \<Rightarrow> ('c \<times> sched) option" where
  "poll_values btw reads got cs = poll_loop btw got [] (List.enumerate 0 reads) cs"

section \<open>Who may be polled\<close>

definition may_poll :: "u32 \<Rightarrow> field_id \<Rightarrow> sched \<Rightarrow> bool \<times> sched" where
  "may_poll addr fid s =
     (let now = b_clock s; probe = cf_quiet_probe (sc_config s)
      in if device_status_of now (cf_liveness (sc_config s)) addr (b_state s) \<noteq> On
         then (let q = (case sc_quiet s addr of Some q \<Rightarrow> q | None \<Rightarrow> now + probe)
               in if now < q then (False, s\<lparr>sc_quiet := (sc_quiet s)(addr \<mapsto> q)\<rparr>)
                  else (True, s\<lparr>sc_quiet := (sc_quiet s)(addr \<mapsto> now + probe)\<rparr>))
         else (let s1 = (case sc_quiet s addr of
                           Some _ \<Rightarrow> s\<lparr>sc_quiet := (sc_quiet s)(addr := None),
                                       sc_misses := (\<lambda>k. if fst k = addr then None else sc_misses s k)\<rparr>
                         | None \<Rightarrow> s)
               in case sc_misses s1 (addr, fid) of
                    Some (n, retry) \<Rightarrow>
                      if BACKOFF_AFTER \<le> n
                      then (if now < retry then (False, s1)
                            else (True, s1\<lparr>sc_misses := (sc_misses s1)((addr, fid) \<mapsto> (n, now + probe))\<rparr>))
                      else (True, s1)
                  | None \<Rightarrow> (True, s1)))"

section \<open>Subscriptions\<close>

text \<open>\<open>deliver\<close>: a change-only subscription gets only values that differ from its last.\<close>

definition deliver_value :: "field_id \<Rightarrow> bus_value \<Rightarrow> sub_state \<Rightarrow> sub_state \<times> value_update list" where
  "deliver_value fid v u =
     (if \<not> su_change_only u \<or> (case su_last u fid of Some w \<Rightarrow> \<not> value_eq w v | None \<Rightarrow> True)
      then (u\<lparr>su_last := (su_last u)(fid \<mapsto> v)\<rparr>,
            [\<lparr>vu_sub = su_id u, vu_device = su_device u, vu_field = fid, vu_value = v\<rparr>])
      else (u, []))"

definition deliver_to :: "nat \<Rightarrow> field_id \<Rightarrow> bus_value \<Rightarrow> sub_state list \<times> sched \<Rightarrow> sub_state list \<times> sched" where
  "deliver_to i fid v us =
     (case deliver_value fid v (fst us ! i) of (u, ups) \<Rightarrow>
        ((fst us)[i := u], (snd us)\<lparr>sc_updates := sc_updates (snd us) @ ups\<rparr>))"

definition due_work :: "nat \<Rightarrow> sub_state list \<Rightarrow> (nat \<times> nat \<times> field_id) list" where
  "due_work now subs =
     sort (concat (map (\<lambda>i. List.map_filter
         (\<lambda>f. case su_next_due (subs ! i) f of
                Some due \<Rightarrow> if due \<le> now then Some (due, i, f) else None
              | None \<Rightarrow> None) (remdups (su_fields (subs ! i)))) [0 ..< length subs]))"

record plan =
  pl_reads :: "poll_read list"
  pl_wanted :: "(nat \<times> field_id) list list"
  pl_read_of :: "(u32 \<times> field_id) \<rightharpoonup> nat"
  pl_probed :: "u32 list"

definition plan_new :: plan where
  "plan_new = \<lparr>pl_reads = [], pl_wanted = [], pl_read_of = Map.empty, pl_probed = []\<rparr>"

text \<open>One due field: served from the cache, joined to a read already planned, left out, or
  planned as a read of its own.\<close>

definition plan_one ::
  "sturn \<Rightarrow> nat \<Rightarrow> nat \<times> field_id \<Rightarrow> sub_state list \<times> plan \<times> sched \<Rightarrow> (sub_state list \<times> plan \<times> sched) option" where
  "plan_one btw now w st =
     (case st of (subs0, pl, s) \<Rightarrow>
        let i = fst w; fid = snd w; u = subs0 ! i; device = su_device u;
            subs = subs0[i := u\<lparr>su_next_due := (su_next_due u)(fid \<mapsto> now + su_interval u)\<rparr>]
        in case (case get_value device fid (b_state s) of
                   Some cv \<Rightarrow> if \<not> cv_outdated cv \<and> b_clock s - cv_at cv \<le> su_interval u
                              then Some (cv_value cv) else None
                 | None \<Rightarrow> None) of
             Some v \<Rightarrow> (case deliver_to i fid v (subs, s) of (subs', s') \<Rightarrow> Some (subs', pl, s'))
           | None \<Rightarrow>
               (case pl_read_of pl (device, fid) of
                  Some r \<Rightarrow>
                    Some (subs, pl\<lparr>pl_wanted := (pl_wanted pl)[r := pl_wanted pl ! r @ [(i, fid)]]\<rparr>, s)
                | None \<Rightarrow>
                    if device \<in> set (pl_probed pl) then Some (subs, pl, s)
                    else (case may_poll device fid s of (ok, s1) \<Rightarrow>
                      if \<not> ok then Some (subs, pl, s1)
                      else do {
                        let pl1 = (if sc_quiet s1 device \<noteq> None
                                   then pl\<lparr>pl_probed := pl_probed pl @ [device]\<rparr> else pl);
                        (viz, s2) \<leftarrow>
                          (if 0 < sc_discovering s1
                           then Some (map_option fi_viz (state_field_info device fid (b_state s1)), s1)
                           else do {
                             (r, s') \<leftarrow> viz_of btw device fid s1;
                             Some (case r of Inr v \<Rightarrow> Some v | Inl e \<Rightarrow> None, s')
                           });
                        Some (case viz of
                            None \<Rightarrow> (subs, pl1, s2)
                          | Some viz \<Rightarrow>
                              (subs, pl1\<lparr>pl_read_of := (pl_read_of pl1)((device, fid) \<mapsto> length (pl_reads pl1)),
                                         pl_wanted := pl_wanted pl1 @ [[(i, fid)]],
                                         pl_reads := pl_reads pl1 @ [(device, fid, viz)]\<rparr>, s2))
                      })))"

fun plan_pass ::
  "sturn \<Rightarrow> nat \<Rightarrow> (nat \<times> nat \<times> field_id) list \<Rightarrow> sub_state list \<times> plan \<times> sched \<Rightarrow>
     (sub_state list \<times> plan \<times> sched) option" where
  "plan_pass btw now [] st = Some st"
| "plan_pass btw now ((due, w) # work) (subs, pl, s) =
     (if READ_BATCH \<le> length (pl_reads pl) then Some (subs, pl, s)
      else do { st1 \<leftarrow> plan_one btw now w (subs, pl, s); plan_pass btw now work st1 })"

definition got_value ::
  "plan \<Rightarrow> nat \<Rightarrow> bus_value option \<Rightarrow> sub_state list \<times> sched \<Rightarrow> sub_state list \<times> sched" where
  "got_value pl r v us =
     (case v of
        None \<Rightarrow> us
      | Some x \<Rightarrow> fold (\<lambda>(i, fid). deliver_to i fid x) (pl_wanted pl ! r) us)"

definition poll_due :: "sturn \<Rightarrow> sub_state list \<Rightarrow> sched \<Rightarrow> (sub_state list \<times> sched) option" where
  "poll_due btw subs s =
     (let now = b_clock s
      in do {
           (subs1, pl, s1) \<leftarrow> plan_pass btw now (due_work now subs) (subs, plan_new, s);
           poll_values btw (pl_reads pl) (got_value pl) (subs1, s1)
         })"

definition between0 :: sturn where
  "between0 s = Some (maybe_heartbeat s)"

definition process_due :: sturn where
  "process_due s =
     (if sc_servicing s then Some s
      else do {
        (subs, s1) \<leftarrow> poll_due between0 (sc_subs s) (s\<lparr>sc_servicing := True, sc_subs := []\<rparr>);
        Some (s1\<lparr>sc_subs := subs, sc_servicing := False\<rparr>)
      })"

text \<open>\<open>DiscBus::between\<close> of the scheduler.\<close>

definition between1 :: sturn where
  "between1 s = process_due (maybe_heartbeat s)"

record sub_spec =
  sp_id :: nat
  sp_device :: u32
  sp_fields :: "field_id list"
  sp_interval :: nat
  sp_change_only :: bool

definition add_sub :: "sub_spec \<Rightarrow> sched \<Rightarrow> sched option" where
  "add_sub spec s =
     do {
       s1 \<leftarrow> (if list_all (\<lambda>f. has_field (sp_device spec) f (b_state s)) (sp_fields spec) then Some s
              else do_discover_all between1 (sp_device spec) s);
       Some (s1\<lparr>sc_subs := sc_subs s1 @
          [\<lparr>su_id = sp_id spec, su_device = sp_device spec, su_fields = sp_fields spec,
            su_interval = sp_interval spec, su_change_only = sp_change_only spec,
            su_next_due = (\<lambda>f. if f \<in> set (sp_fields spec) then Some (b_clock s1) else None),
            su_last = Map.empty\<rparr>]\<rparr>)
     }"

definition next_due_in :: "sched \<Rightarrow> nat option" where
  "next_due_in s =
     (let ds = concat (map (\<lambda>u. List.map_filter (su_next_due u) (su_fields u)) (sc_subs s))
      in if ds = [] then None else Some (Min (set (map (\<lambda>d. d - b_clock s) ds))))"

definition loop_timeout :: "sched \<Rightarrow> nat" where
  "loop_timeout s =
     (let t = (case next_due_in s of Some t \<Rightarrow> t | None \<Rightarrow> 200)
      in case sc_next_heartbeat s of Some hb \<Rightarrow> min t (hb - b_clock s) | None \<Rightarrow> t)"

section \<open>Commands and the loop\<close>

datatype command =
    Identify "u32 list"
  | DiscoverMenu u32 menu
  | Discover u32
  | DiscoverAllFields u32
  | DiscoverField u32 field_id
  | Read u32 field_id nat
  | Write u32 field_id write_value
  | EventableOutputs u32
  | SetOutput u32 field_id bool
  | WriteString u32 u16 string
  | AccessLevelRead u32
  | AccessLevelSet u32 access_level "f32 option"
  | Subscribe sub_spec
  | Unsubscribe nat
  | Shutdown

datatype reply =
    Rep_Unit
  | Rep_Field "field_info option"
  | Rep_Value "bus_value result"
  | Rep_Outputs "field_id list"
  | Rep_Done "unit result"
  | Rep_Level "access_level result"
  | Rep_None

fun run_command :: "command \<Rightarrow> sched \<Rightarrow> (reply \<times> sched) option" where
  "run_command (Identify addrs) s = map_option (Pair Rep_Unit) (do_identify between1 addrs s)"
| "run_command (DiscoverMenu a m) s = map_option (Pair Rep_Unit) (do_discover_menu between1 a m s)"
| "run_command (Discover a) s = map_option (Pair Rep_Unit) (do_discover_all between1 a s)"
| "run_command (DiscoverAllFields a) s = map_option (Pair Rep_Unit) (do_discover_all_fields between1 a s)"
| "run_command (DiscoverField a f) s = map_option (map_prod Rep_Field id) (do_discover_field between1 a f s)"
| "run_command (Read a f age) s = map_option (map_prod Rep_Value id) (do_read between1 a f age s)"
| "run_command (Write a f v) s = map_option (map_prod Rep_Value id) (do_write between1 a f v s)"
| "run_command (EventableOutputs a) s = map_option (map_prod Rep_Outputs id) (do_eventable_outputs between1 a s)"
| "run_command (SetOutput a f on) s = map_option (map_prod Rep_Value id) (do_set_output between1 a f on s)"
| "run_command (WriteString a sid t) s = Some (map_prod Rep_Done id (do_write_string a sid t s))"
| "run_command (AccessLevelRead a) s = Some (map_prod Rep_Level id (do_access_level_read a s))"
| "run_command (AccessLevelSet a l c) s = Some (map_prod Rep_Level id (do_access_level_set a l c s))"
| "run_command (Subscribe spec) s = map_option (Pair Rep_None) (add_sub spec s)"
| "run_command (Unsubscribe i) s = Some (Rep_None, s\<lparr>sc_subs := filter (\<lambda>u. su_id u \<noteq> i) (sc_subs s)\<rparr>)"
| "run_command Shutdown s = Some (Rep_None, s)"

text \<open>
  The loop over what the command channel gives: each turn waits at most \<open>loop_timeout\<close>, a
  command (after \<open>d\<close> ms) or none, then takes the heartbeat and the polling pass. It stops at
  \<open>Shutdown\<close> or when the channel is closed, and cancels every wait.
\<close>

fun sched_loop :: "(nat \<times> command option) list \<Rightarrow> sched \<Rightarrow> (reply list \<times> sched) option" where
  "sched_loop [] s = Some ([], upd_waiter cancel_all s)"
| "sched_loop ((d, None) # evs) s =
     do {
       s1 \<leftarrow> process_due (maybe_heartbeat (bus_sleep (loop_timeout s) s));
       sched_loop evs s1
     }"
| "sched_loop ((d, Some cmd) # evs) s =
     (let s0 = bus_sleep (min d (loop_timeout s)) s
      in if cmd = Shutdown then Some ([], upd_waiter cancel_all s0)
         else do {
           (r, s1) \<leftarrow> run_command cmd s0;
           s2 \<leftarrow> process_due (maybe_heartbeat s1);
           (rs, s3) \<leftarrow> sched_loop evs s2;
           Some (r # rs, s3)
         })"

definition sched_start :: "bus \<Rightarrow> config \<Rightarrow> catalog \<Rightarrow> u64 \<Rightarrow> (string \<rightharpoonup> disk_file) \<Rightarrow> (string \<Rightarrow> bool) \<Rightarrow>
    (group_info list \<Rightarrow> group_info list option) \<Rightarrow> sched" where
  "sched_start b cfg catalog random disk writable json =
     \<lparr>b_clock = b_clock b, b_shared = b_shared b, b_queue = b_queue b, b_sent = b_sent b, b_net = b_net b,
      h_disk = disk, h_writable = writable, h_json = json,
      sc_config = cfg, sc_catalog = catalog, sc_random = random, sc_last_send = b_clock b,
      sc_next_heartbeat = (case cf_heartbeat_master cfg of Some _ \<Rightarrow> Some (b_clock b) | None \<Rightarrow> None),
      sc_quiet = Map.empty, sc_misses = Map.empty, sc_failed_menus = Map.empty,
      sc_outputs = Map.empty, sc_subs = [], sc_servicing = False, sc_discovering = 0, sc_updates = []\<rparr>"

end
