(* ===== verification/Quiet.thy ===== *)
theory Quiet
  imports Turns Polling
begin

text \<open>
  The scheduler under the contract of theory Turns. \<open>calm\<close> relates the state before and
  after an operation that only asks: time goes on, the frames sent meanwhile are all
  read-only, and configuration, nesting depth and the servicing flag are as before. Every
  operation of the scheduler but the writes and logins is calm, whichever of its two turns it
  runs under; the last section says what the writes send.
\<close>

section \<open>Calm operations\<close>

definition calm :: "sched \<Rightarrow> sched \<Rightarrow> bool" where
  "calm s s' \<longleftrightarrow>
     b_clock s \<le> b_clock s' \<and> b_net s' = b_net s \<and>
     (\<exists>new. b_sent s' = b_sent s @ new \<and> list_all (\<lambda>x. read_only (snd x)) new) \<and>
     sc_config s' = sc_config s \<and> sc_catalog s' = sc_catalog s \<and> sc_random s' = sc_random s \<and>
     sc_servicing s' = sc_servicing s \<and> sc_discovering s' = sc_discovering s"

lemma sched_more:
  assumes "bus.more s = bus.more (t :: sched)"
  shows "sc_config s = sc_config t" "sc_catalog s = sc_catalog t" "sc_random s = sc_random t"
    "sc_servicing s = sc_servicing t" "sc_discovering s = sc_discovering t"
    "sc_last_send s = sc_last_send t" "sc_next_heartbeat s = sc_next_heartbeat t"
    "sc_quiet s = sc_quiet t" "sc_misses s = sc_misses t" "sc_subs s = sc_subs t" "sc_updates s = sc_updates t"
  using assms by (cases s; cases t; simp)+

lemma calm_refl [simp]: "calm s s"
  by (simp add: calm_def)

lemma calm_trans: "calm a b \<Longrightarrow> calm b c \<Longrightarrow> calm a c"
proof -
  assume ab: "calm a b" and bc: "calm b c"
  obtain m n where "b_sent b = b_sent a @ m" "list_all (\<lambda>x. read_only (snd x)) m"
    "b_sent c = b_sent b @ n" "list_all (\<lambda>x. read_only (snd x)) n"
    using ab bc unfolding calm_def by blast
  then have "\<exists>k. b_sent c = b_sent a @ k \<and> list_all (\<lambda>x. read_only (snd x)) k"
    by (intro exI [of _ "m @ n"]) simp
  moreover have "b_clock a \<le> b_clock c" using ab bc unfolding calm_def by linarith
  ultimately show ?thesis using ab bc unfolding calm_def by simp
qed

lemma calm_silent:
  "b_clock s \<le> b_clock s' \<Longrightarrow> b_net s' = b_net s \<Longrightarrow> b_sent s' = b_sent s \<Longrightarrow>
   bus.more s' = bus.more s \<Longrightarrow> calm s s'"
  using sched_more [of s' s] by (simp add: calm_def)

lemma calm_send: "read_only f \<Longrightarrow> calm s (bus_send f s)"
  using sched_more [of "bus_send f s" s] by (simp add: calm_def)

lemma calm_waits:
  "calm s (snd (bus_wait k t s))" "calm s (snd (bus_wait_or_keep k t s))"
  "calm s (snd (bus_wait_any ks t s))" "calm s (bus_sleep t s)" "calm s (bus_register k s)"
  "calm s (upd_state f s)" "calm s (upd_waiter g s)"
  by (rule calm_silent; simp add: bus_wait_clock)+

lemma calm_fields:
  "calm s (s\<lparr>h_disk := x1\<rparr>)" "calm s (s\<lparr>sc_last_send := x2\<rparr>)" "calm s (s\<lparr>sc_next_heartbeat := x3\<rparr>)"
  "calm s (s\<lparr>sc_quiet := x4\<rparr>)" "calm s (s\<lparr>sc_misses := x5\<rparr>)" "calm s (s\<lparr>sc_failed_menus := x6\<rparr>)"
  "calm s (s\<lparr>sc_outputs := x7\<rparr>)" "calm s (s\<lparr>sc_subs := x8\<rparr>)" "calm s (s\<lparr>sc_updates := x9\<rparr>)"
  by (simp_all add: calm_def)

lemma calm_upd: "calm a s \<Longrightarrow> calm a (upd_state f s)"
  and calm_wait: "calm a s \<Longrightarrow> calm a (snd (bus_wait k t s))"
  and calm_wait_any: "calm a s \<Longrightarrow> calm a (snd (bus_wait_any ks t s))"
  and calm_sleep: "calm a s \<Longrightarrow> calm a (bus_sleep t s)"
  and calm_register: "calm a s \<Longrightarrow> calm a (bus_register k s)"
  and calm_last_send: "calm a s \<Longrightarrow> calm a (s\<lparr>sc_last_send := x2\<rparr>)"
  and calm_heartbeat: "calm a s \<Longrightarrow> calm a (s\<lparr>sc_next_heartbeat := x3\<rparr>)"
  and calm_quiet: "calm a s \<Longrightarrow> calm a (s\<lparr>sc_quiet := x4\<rparr>)"
  and calm_misses: "calm a s \<Longrightarrow> calm a (s\<lparr>sc_misses := x5\<rparr>)"
  and calm_failed: "calm a s \<Longrightarrow> calm a (s\<lparr>sc_failed_menus := x6\<rparr>)"
  and calm_outputs: "calm a s \<Longrightarrow> calm a (s\<lparr>sc_outputs := x7\<rparr>)"
  and calm_subs: "calm a s \<Longrightarrow> calm a (s\<lparr>sc_subs := x8\<rparr>)"
  and calm_updates: "calm a s \<Longrightarrow> calm a (s\<lparr>sc_updates := x9\<rparr>)"
  by (erule calm_trans, rule calm_waits calm_fields)+

lemmas calm_steps =
  calm_upd calm_wait calm_wait_any calm_sleep calm_register calm_last_send calm_heartbeat calm_quiet
  calm_misses calm_failed calm_outputs calm_subs calm_updates

lemma calm_pace: "calm a s \<Longrightarrow> calm a (pace s)"
  by (auto simp: pace_def Let_def intro!: calm_steps)

lemma calm_sched_send: "read_only f \<Longrightarrow> calm a s \<Longrightarrow> calm a (sched_send f s)"
  unfolding sched_send_def by (rule calm_trans [OF calm_pace calm_send])

lemma calm_maybe_heartbeat: "calm a s \<Longrightarrow> calm a (maybe_heartbeat s)"
  by (auto simp: maybe_heartbeat_def Let_def split: option.split intro!: calm_steps calm_sched_send)

lemma calm_await_level: "calm a s \<Longrightarrow> calm a (snd (await_access_level addr t s))"
  by (simp add: await_access_level_def Let_def case_prod_beta calm_wait)

lemma calm_level_read: "calm a s \<Longrightarrow> calm a (snd (do_access_level_read addr s))"
  by (auto simp: do_access_level_read_def Let_def case_prod_beta split: sum.split
      intro!: calm_steps calm_await_level calm_sched_send)

lemma calm_await_levels: "calm a s \<Longrightarrow> calm a (await_levels dl as s)"
  by (induction as arbitrary: s)
     (auto simp: Let_def case_prod_beta intro!: calm_upd calm_await_level)

lemma calm_read_levels: "calm a s \<Longrightarrow> calm a (read_access_levels addrs s)"
proof -
  have "calm a s \<Longrightarrow> calm a (fold (\<lambda>x s. sched_send (encode_login_read x) (bus_register (p_key x 0x08 0x19) s)) as s)" for as s
    by (induction as arbitrary: s) (simp_all add: calm_sched_send calm_register)
  then show "calm a s \<Longrightarrow> calm a (read_access_levels addrs s)"
    by (simp add: read_access_levels_def Let_def calm_await_levels)
qed

section \<open>Operations that take turns\<close>

locale quiet_sched = quiet_turns btw calm for btw :: sturn
begin

lemma calm_with_disc:
  assumes "with_disc addr f s = Some y" and "calm a s"
    and f: "\<And>d t z c. f d t = Some z \<Longrightarrow> calm c t \<Longrightarrow> calm c (snd (snd z))"
  shows "calm a (snd y)"
proof -
  define l where "l = (case state_access_level addr (b_state s) of
      Some l \<Rightarrow> (l, s)
    | None \<Rightarrow>
        let (r, s') = do_access_level_read addr s; l = (case r of Inr l \<Rightarrow> l | Inl e \<Rightarrow> EndUser)
        in (l, upd_state (put_access_level (b_clock s') addr l) s'))"
  have l: "calm a (snd l)"
    using assms(2) unfolding l_def
    by (auto simp: Let_def case_prod_beta split: option.split intro!: calm_upd calm_level_read)
  let ?t = "(snd l)\<lparr>sc_discovering := sc_discovering (snd l) + 1\<rparr>"
  obtain z where z: "f (disc_new (fst l) (state_catalog_table addr (b_state (snd l)))) ?t = Some z"
    and y: "snd y = (snd (snd z))\<lparr>sc_discovering := sc_discovering (snd (snd z)) - 1\<rparr>"
    using assms(1) unfolding with_disc_def l_def [symmetric]
    by (auto simp: Let_def case_prod_beta Option.bind_eq_Some_conv)
  have "calm ?t (snd (snd z))" by (rule f [OF z calm_refl])
  then have "calm (snd l) (snd y)" unfolding y by (auto simp: calm_def)
  with l show ?thesis by (rule calm_trans)
qed

lemma calm_identify: "do_identify btw addrs s = Some y \<Longrightarrow> calm a s \<Longrightarrow> calm a y"
proof -
  have put: "calm a t \<Longrightarrow> calm a (fold (\<lambda>(x, i) s. upd_state (put_identity (b_clock s) x i) s) zs t)" for zs t
    by (induction zs arbitrary: t) (auto intro: calm_upd)
  assume y: "do_identify btw addrs s = Some y" and a: "calm a s"
  show "calm a y"
  proof (cases "filter (\<lambda>a. \<not> has_identity a (b_state s)) addrs")
    case Nil
    with y a show ?thesis by (simp add: do_identify_def)
  next
    case (Cons x xs)
    then obtain z where z: "with_disc x (fetch_identities btw (sc_config s) (x # xs))
        (read_access_levels (x # xs) s) = Some z"
      and y': "y = fold (\<lambda>(x, i) s. upd_state (put_identity (b_clock s) x i) s) (zip (x # xs) (fst z)) (snd z)"
      using y by (auto simp: do_identify_def Let_def Option.bind_eq_Some_conv case_prod_beta)
    show ?thesis unfolding y'
      by (rule put, rule calm_with_disc [OF z calm_read_levels [OF a]], rule fetch_identities_R)
  qed
qed

lemma calm_identity: "sched_identity btw addr s = Some y \<Longrightarrow> calm a s \<Longrightarrow> calm a (snd y)"
  by (auto simp: sched_identity_def Option.bind_eq_Some_conv split: option.splits
      intro!: calm_upd dest!: calm_with_disc fetch_identity_R)

lemma calm_ensure_catalog: "ensure_catalog btw addr i s = Some y \<Longrightarrow> calm a s \<Longrightarrow> calm a y"
  by (auto simp: ensure_catalog_def Option.bind_eq_Some_conv split: if_splits
      intro!: calm_upd dest!: calm_with_disc resolve_catalog_R)

lemma calm_do_menu: "do_discover_menu btw addr m s = Some y \<Longrightarrow> calm a s \<Longrightarrow> calm a y"
proof -
  assume y: "do_discover_menu btw addr m s = Some y" and a: "calm a s"
  show "calm a y"
  proof (cases "has_menu addr m (b_state s) \<or>
      (case sc_failed_menus s (addr, m) of Some at \<Rightarrow> b_clock s - at < MENU_RETRY | None \<Rightarrow> False)")
    case True
    with y a show ?thesis by (auto simp: do_discover_menu_def split: if_splits)
  next
    case False
    then obtain p q r where p: "sched_identity btw addr s = Some p"
      and q: "ensure_catalog btw addr (fst p) (snd p) = Some q"
      and r: "with_disc addr (discover_menu btw (sc_config s) addr (fst p) m) q = Some r"
      and y': "y = (let s4 = (snd r)\<lparr>sc_last_send := b_clock (snd r)\<rparr> in
          case fst r of
            Some gs \<Rightarrow> upd_state (put_menu (b_clock s4) addr m gs)
                         (s4\<lparr>sc_failed_menus := (sc_failed_menus s4)((addr, m) := None)\<rparr>)
          | None \<Rightarrow> s4\<lparr>sc_failed_menus := (sc_failed_menus s4)((addr, m) \<mapsto> b_clock s4)\<rparr>)"
      using y by (auto simp: do_discover_menu_def Let_def Option.bind_eq_Some_conv split: option.splits)
    have "calm a (snd r)"
      by (rule calm_with_disc [OF r], rule calm_ensure_catalog [OF q calm_identity [OF p a]], rule discover_menu_R)
    then show ?thesis unfolding y' by (auto simp: Let_def split: option.split intro!: calm_steps)
  qed
qed

lemma calm_menus: "discover_menus btw addr ms s = Some y \<Longrightarrow> calm a s \<Longrightarrow> calm a y"
  by (induction ms arbitrary: s)
     (auto simp: Option.bind_eq_Some_conv split: if_splits dest: calm_do_menu)

lemma calm_do_all: "do_discover_all btw addr s = Some y \<Longrightarrow> calm a s \<Longrightarrow> calm a y"
  by (simp add: do_discover_all_def calm_menus)

lemma calm_all_fields: "do_discover_all_fields btw addr s = Some y \<Longrightarrow> calm a s \<Longrightarrow> calm a y"
proof -
  assume y: "do_discover_all_fields btw addr s = Some y" and a: "calm a s"
  show "calm a y"
  proof (cases "has_all_fields addr (b_state s)")
    case True
    with y a show ?thesis by (simp add: do_discover_all_fields_def)
  next
    case False
    then obtain p q r where p: "sched_identity btw addr s = Some p"
      and q: "ensure_catalog btw addr (fst p) (snd p) = Some q"
      and r: "with_disc addr (enumerate_all_fields btw (sc_config s) addr) q = Some r"
      and y': "y = upd_state (put_all_fields (b_clock ((snd r)\<lparr>sc_last_send := b_clock (snd r)\<rparr>)) addr (fst r))
          ((snd r)\<lparr>sc_last_send := b_clock (snd r)\<rparr>)"
      using y by (auto simp: do_discover_all_fields_def Let_def Option.bind_eq_Some_conv)
    have "calm a (snd r)"
      by (rule calm_with_disc [OF r], rule calm_ensure_catalog [OF q calm_identity [OF p a]], rule enumerate_all_fields_R)
    then show ?thesis unfolding y' by (intro calm_steps)
  qed
qed

lemma calm_do_field: "do_discover_field btw addr fid s = Some y \<Longrightarrow> calm a s \<Longrightarrow> calm a (snd y)"
proof -
  assume y: "do_discover_field btw addr fid s = Some y" and a: "calm a s"
  show "calm a (snd y)"
  proof (cases "state_field_info addr fid (b_state s)")
    case (Some f)
    with y a show ?thesis by (auto simp: do_discover_field_def)
  next
    case None
    then obtain p q r where p: "sched_identity btw addr s = Some p"
      and q: "ensure_catalog btw addr (fst p) (snd p) = Some q"
      and r: "with_disc addr (enumerate_field btw (sc_config s) addr fid False) q = Some r"
      and y': "snd y = (let s4 = (snd r)\<lparr>sc_last_send := b_clock (snd r)\<rparr> in
          case fst r of Some f \<Rightarrow> upd_state (put_extra_field (b_clock s4) addr f) s4 | None \<Rightarrow> s4)"
      using y by (auto simp: do_discover_field_def Let_def Option.bind_eq_Some_conv split: option.splits)
    have "calm a (snd r)"
      by (rule calm_with_disc [OF r], rule calm_ensure_catalog [OF q calm_identity [OF p a]], rule enumerate_field_R)
    then show ?thesis unfolding y' by (auto simp: Let_def split: option.split intro!: calm_steps)
  qed
qed

lemma calm_viz: "viz_of btw addr fid s = Some y \<Longrightarrow> calm a s \<Longrightarrow> calm a (snd y)"
proof -
  assume y: "viz_of btw addr fid s = Some y" and a: "calm a s"
  show "calm a (snd y)"
  proof (cases "state_field_info addr fid (b_state s)")
    case (Some f)
    with y a show ?thesis by (auto simp: viz_of_def)
  next
    case None
    then obtain p q where p: "do_discover_menu btw addr (field_id_menu fid) s = Some p"
      and q: "(if field_id_menu fid = Configuration \<and> state_field_info addr fid (b_state p) = None
                  then do_discover_all_fields btw addr p else Some p) = Some q"
      and y': "snd y = q"
      using y by (auto simp: viz_of_def Option.bind_eq_Some_conv)
    have "calm a p" by (rule calm_do_menu [OF p a])
    with q have "calm a q" by (auto split: if_splits intro: calm_all_fields)
    then show ?thesis by (simp add: y')
  qed
qed

lemma calm_outs: "do_eventable_outputs btw addr s = Some y \<Longrightarrow> calm a s \<Longrightarrow> calm a (snd y)"
proof -
  assume y: "do_eventable_outputs btw addr s = Some y" and a: "calm a s"
  show "calm a (snd y)"
  proof (cases "sc_outputs s addr")
    case (Some f)
    with y a show ?thesis by (auto simp: do_eventable_outputs_def)
  next
    case None
    then obtain r where r: "with_disc addr
             (\<lambda>d s'. map_option (\<lambda>(r, t). (r, d, t)) (eventable_outputs btw (sc_config s) addr s')) s = Some r"
      and y': "snd y = (let s2 = (snd r)\<lparr>sc_last_send := b_clock (snd r)\<rparr> in
          if fst r \<noteq> [] then s2\<lparr>sc_outputs := (sc_outputs s2)(addr \<mapsto> fst r)\<rparr> else s2)"
      using y by (auto simp: do_eventable_outputs_def Let_def Option.bind_eq_Some_conv)
    have "calm a (snd r)"
      by (rule calm_with_disc [OF r a]) (auto dest: eventable_outputs_R)
    then show ?thesis unfolding y' by (auto simp: Let_def intro!: calm_steps)
  qed
qed

lemma calm_miss: "calm a s \<Longrightarrow> calm a (miss_read addr fid s)"
  by (simp add: miss_read_def Let_def case_prod_beta calm_misses)

lemma calm_send_read: "calm a s \<Longrightarrow> calm a (snd (send_read addr fid s))"
  by (simp add: send_read_def Let_def calm_sched_send calm_register)

lemma calm_finish_read:
  assumes "finish_read btw addr fid viz sent s = Some y" and a: "calm a s"
  shows "calm a (snd y)"
proof -
  define w where "w = bus_wait (fst sent) (max (snd sent - b_clock s) (Suc 0)) s"
  have w: "calm a (snd w)" unfolding w_def by (rule calm_wait [OF a])
  show ?thesis
  proof (cases "fst w")
    case None
    with assms(1) w show ?thesis
      by (auto simp: finish_read_def w_def [symmetric] Let_def case_prod_beta intro: calm_miss)
  next
    case (Some raw)
    define v0 where "v0 = with_options (decode_value raw viz) (schema_options addr fid (b_state (snd w)))"
    define st where "st = (case v0 of
          Text sid _ \<Rightarrow> do {
            (t, s') \<leftarrow> with_disc addr (fetch_str btw (sc_config (snd w)) addr sid) (snd w);
            Some (Text sid t, s')
          }
        | _ \<Rightarrow> Some (v0, snd w))"
    obtain z where z: "st = Some z" and y: "snd y = (upd_state (put_value (b_clock (snd z)) addr fid (fst z)) (snd z))
          \<lparr>sc_misses := (sc_misses (snd z))((addr, fid) := None)\<rparr>"
    proof -
      have "st \<bind> (\<lambda>(v, s2). Some (Inr v, (upd_state (put_value (b_clock s2) addr fid v) s2)
                            \<lparr>sc_misses := (sc_misses s2)((addr, fid) := None)\<rparr>)) = Some y"
        using assms(1) Some unfolding st_def v0_def finish_read_def Let_def
        by (simp add: w_def [symmetric] case_prod_beta)
      then obtain z where "st = Some z" "snd y = snd (case z of (v, s2) \<Rightarrow> (Inr v :: bus_value result,
          (upd_state (put_value (b_clock s2) addr fid v) s2) \<lparr>sc_misses := (sc_misses s2)((addr, fid) := None)\<rparr>))"
        by (cases st) (auto simp: bind_def)
      then show thesis using that [of z] by (simp add: case_prod_beta)
    qed
    have "calm a (snd z)"
    proof (cases v0)
      case (Text sid t)
      with z obtain u where u: "with_disc addr (fetch_str btw (sc_config (snd w)) addr sid) (snd w) = Some u"
        and zu: "snd z = snd u" by (auto simp: st_def Option.bind_eq_Some_conv)
      show ?thesis unfolding zu by (rule calm_with_disc [OF u w], rule fetch_str_R)
    qed (use z w in \<open>auto simp: st_def\<close>)
    then show ?thesis unfolding y by (intro calm_steps)
  qed
qed

lemma calm_poll_value: "poll_value btw addr fid viz s = Some y \<Longrightarrow> calm a s \<Longrightarrow> calm a (snd y)"
  by (auto simp: poll_value_def case_prod_beta intro: calm_finish_read calm_send_read)

lemma calm_do_read: "do_read btw addr fid age s = Some y \<Longrightarrow> calm a s \<Longrightarrow> calm a (snd y)"
proof -
  assume y: "do_read btw addr fid age s = Some y" and a: "calm a s"
  have miss: "calm a (snd y)" if m: "do {
            (v, s1) \<leftarrow> viz_of btw addr fid s;
            (case v of Inl e \<Rightarrow> Some (Inl e, s1) | Inr viz \<Rightarrow> poll_value btw addr fid viz s1)
          } = Some y"
  proof -
    obtain p where p: "viz_of btw addr fid s = Some p"
      and q: "(case fst p of Inl e \<Rightarrow> Some (Inl e, snd p) | Inr viz \<Rightarrow> poll_value btw addr fid viz (snd p)) = Some y"
      using m by (auto simp: Option.bind_eq_Some_conv case_prod_beta)
    from calm_viz [OF p a] q show ?thesis by (auto split: sum.splits dest: calm_poll_value)
  qed
  show "calm a (snd y)"
  proof (cases "get_value addr fid (b_state s)")
    case None
    with y miss show ?thesis by (simp add: do_read_def)
  next
    case (Some cv)
    with y miss a show ?thesis by (auto simp: do_read_def split: if_splits)
  qed
qed

lemma calm_fill: "calm a s \<Longrightarrow> calm a (snd (snd (fill_batch ps todo s)))"
proof (induction todo arbitrary: ps s)
  case (Cons p todo)
  obtain r d f viz where p: "p = (r, d, f, viz)" by (metis prod.collapse)
  show ?case
    using Cons.prems calm_send_read by (simp add: p case_prod_beta Let_def Cons.IH)
qed simp

lemma calm_finish_reads:
  "finish_reads btw got ps cs = Some y \<Longrightarrow> (\<And>r v c t. calm t (snd (got r v (c, t)))) \<Longrightarrow> calm a (snd cs) \<Longrightarrow>
   calm a (snd y)"
proof (induction ps arbitrary: cs)
  case (Cons p ps)
  obtain r d f viz sent where p: "p = ((r, d, f, viz), sent)" by (metis prod.collapse)
  obtain z where z: "finish_read btw d f viz sent (snd cs) = Some z"
    and rest: "finish_reads btw got ps (got r (case fst z of Inr x \<Rightarrow> Some x | Inl e \<Rightarrow> None) (fst cs, snd z)) = Some y"
    using Cons.prems(1) unfolding p by (cases cs) (auto simp: Option.bind_eq_Some_conv)
  have "calm a (snd z)" by (rule calm_finish_read [OF z Cons.prems(3)])
  then have "calm a (snd (got r (case fst z of Inr x \<Rightarrow> Some x | Inl e \<Rightarrow> None) (fst cs, snd z)))"
    using Cons.prems(2) by (rule calm_trans)
  with Cons.IH [OF rest Cons.prems(2)] show ?case by blast
qed simp

lemma calm_poll_loop:
  "poll_loop btw got ps todo cs = Some y \<Longrightarrow> (\<And>r v c t. calm t (snd (got r v (c, t)))) \<Longrightarrow> calm a (snd cs) \<Longrightarrow>
   calm a (snd y)"
proof (induction "length ps + length todo" arbitrary: ps todo cs rule: less_induct)
  case less
  obtain ps1 todo1 s1 where fb: "fill_batch ps todo (snd cs) = (ps1, todo1, s1)" by (metis prod.collapse)
  have s1: "calm a s1" using calm_fill [OF less.prems(3), of ps todo] fb by simp
  show ?case
  proof (cases "ps1 = []")
    case True
    with less.prems(1) fb s1 show ?thesis by (subst (asm) poll_loop.simps) auto
  next
    case False
    obtain ready_at s2 where w: "bus_wait_any (map pend_key ps1) (min_deadline ps1 - b_clock s1) s1 = (ready_at, s2)"
      by (metis prod.collapse)
    let ?done = "done_reads ps1 ready_at (min_deadline ps1)"
    obtain cs3 where f: "finish_reads btw got (map (\<lambda>p. ps1 ! p) (rev ?done)) (fst cs, s2) = Some cs3"
      and rest: "poll_loop btw got (left_reads ps1 ?done) todo1 cs3 = Some y"
      using less.prems(1) fb w False
      by (subst (asm) poll_loop.simps) (auto simp: Let_def split: option.splits)
    have "calm a s2" using calm_wait_any [OF s1, of "map pend_key ps1" "min_deadline ps1 - b_clock s1"] w by simp
    then have "calm a (snd cs3)" using calm_finish_reads [OF f less.prems(2)] by simp
    moreover have "length (left_reads ps1 ?done) + length todo1 < length ps + length todo"
      by (rule poll_loop_shrinks [OF fb [symmetric] refl False w [symmetric]])
    ultimately show ?thesis using less.hyps [OF _ rest less.prems(2)] by blast
  qed
qed

lemma calm_poll_values:
  "poll_values btw reads got cs = Some y \<Longrightarrow> (\<And>r v c t. calm t (snd (got r v (c, t)))) \<Longrightarrow> calm a (snd cs) \<Longrightarrow>
   calm a (snd y)"
  unfolding poll_values_def by (rule calm_poll_loop)

lemma calm_may_poll: "calm a s \<Longrightarrow> calm a (snd (may_poll addr fid s))"
  unfolding may_poll_def Let_def
  by (auto split: option.split intro: calm_quiet calm_misses simp: calm_def)

lemma calm_deliver_to: "calm a (snd us) \<Longrightarrow> calm a (snd (deliver_to i fid v us))"
  by (simp add: deliver_to_def case_prod_beta calm_updates)

lemma calm_plan_one:
  assumes "plan_one btw now w st = Some y" and a: "calm a (snd (snd st))"
  shows "calm a (snd (snd y))"
proof -
  obtain subs0 pl s where st: "st = (subs0, pl, s)" by (metis prod.collapse)
  define u where "u = subs0 ! fst w"
  define device where "device = su_device u"
  obtain ok s1 where mp: "may_poll device (snd w) s = (ok, s1)" by (metis prod.collapse)
  have as: "calm a s" using a by (simp add: st)
  have s1: "calm a s1" using calm_may_poll [OF as, of device "snd w"] mp by simp
  define subs where "subs = subs0[fst w := u\<lparr>su_next_due := (su_next_due u)(snd w \<mapsto> now + su_interval u)\<rparr>]"
  define cached where "cached = (case get_value device (snd w) (b_state s) of
                   Some cv \<Rightarrow> if \<not> cv_outdated cv \<and> b_clock s - cv_at cv \<le> su_interval u
                              then Some (cv_value cv) else None
                 | None \<Rightarrow> None)"
  note one = assms(1) [unfolded st plan_one_def Let_def prod.case, folded u_def, folded device_def,
      folded subs_def cached_def]
  show ?thesis
  proof (cases cached)
    case (Some v)
    with one have "snd (snd y) = snd (deliver_to (fst w) (snd w) v (subs, s))"
      by (auto simp: case_prod_beta)
    then show ?thesis using calm_deliver_to [of a "(subs, s)"] as by simp
  next
    case None
    note one = one [unfolded None option.case mp prod.case]
    show ?thesis
    proof (cases "pl_read_of pl (device, snd w) \<noteq> None \<or> device \<in> set (pl_probed pl) \<or> \<not> ok")
      case True
      with one as s1 show ?thesis by (auto split: if_splits option.splits)
    next
      case False
      then have "pl_read_of pl (device, snd w) = None" "device \<notin> set (pl_probed pl)" ok by auto
      note one = one [unfolded this(1) option.case if_not_P [OF this(2)], simplified this(3), simplified]
      obtain vs where vs: "(if 0 < sc_discovering s1
                           then Some (map_option fi_viz (state_field_info device (snd w) (b_state s1)), s1)
                           else do {
                             (r, s') \<leftarrow> viz_of btw device (snd w) s1;
                             Some (case r of Inr v \<Rightarrow> Some v | Inl e \<Rightarrow> None, s')
                           }) = Some vs" and y: "snd (snd y) = snd vs"
        using one by (auto simp: Option.bind_eq_Some_conv split: option.splits)
      have "calm a (snd vs)"
        using vs s1 by (auto simp: Option.bind_eq_Some_conv split: if_splits dest: calm_viz)
      with y show ?thesis by simp
    qed
  qed
qed

lemma calm_plan_pass:
  "plan_pass btw now work st = Some y \<Longrightarrow> calm a (snd (snd st)) \<Longrightarrow> calm a (snd (snd y))"
proof (induction work arbitrary: st)
  case (Cons w work)
  obtain due w' subs pl s where [simp]: "w = (due, w')" "st = (subs, pl, s)" by (metis prod.collapse)
  show ?case
  proof (cases "READ_BATCH \<le> length (pl_reads pl)")
    case True
    with Cons.prems show ?thesis by auto
  next
    case False
    then obtain st1 where "plan_one btw now w' st = Some st1" "plan_pass btw now work st1 = Some y"
      using Cons.prems(1) by (auto simp: Option.bind_eq_Some_conv)
    then show ?thesis using Cons.prems(2) Cons.IH calm_plan_one by blast
  qed
qed auto

lemma calm_got: "calm t (snd (got_value pl r v (c, t)))"
proof -
  have "calm a (snd us) \<Longrightarrow> calm a (snd (fold (\<lambda>(i, fid). deliver_to i fid x) ws us))" for a ws us x
    by (induction ws arbitrary: us) (simp_all add: case_prod_beta calm_deliver_to)
  from this [of t "(c, t)"] show ?thesis by (auto simp: got_value_def split: option.split)
qed

lemma calm_poll_due: "poll_due btw subs s = Some y \<Longrightarrow> calm a s \<Longrightarrow> calm a (snd y)"
proof -
  assume y: "poll_due btw subs s = Some y" and a: "calm a s"
  obtain p where p: "plan_pass btw (b_clock s) (due_work (b_clock s) subs) (subs, plan_new, s) = Some p"
    and q: "poll_values btw (pl_reads (fst (snd p))) (got_value (fst (snd p))) (fst p, snd (snd p)) = Some y"
    using y by (auto simp: poll_due_def Let_def Option.bind_eq_Some_conv)
  show "calm a (snd y)"
    by (rule calm_poll_values [OF q calm_got]) (use calm_plan_pass [OF p] a in simp)
qed

end

section \<open>The two turns of the scheduler\<close>

lemma calm_contract: "(\<And>s s'. btw s = Some s' \<Longrightarrow> calm s s') \<Longrightarrow> quiet_turns btw calm"
  by unfold_locales
     (auto intro: calm_trans calm_send calm_waits calm_fields)

interpretation q0: quiet_sched between0
  unfolding quiet_sched_def
  by (rule calm_contract) (auto simp: between0_def intro: calm_maybe_heartbeat)

lemma calm_process_due: "process_due s = Some y \<Longrightarrow> calm a s \<Longrightarrow> calm a y"
proof -
  assume y: "process_due s = Some y" and a: "calm a s"
  show "calm a y"
  proof (cases "sc_servicing s")
    case True
    with y a show ?thesis by (simp add: process_due_def)
  next
    case False
    let ?s = "s\<lparr>sc_servicing := True, sc_subs := []\<rparr>"
    obtain z where z: "poll_due between0 (sc_subs s) ?s = Some z"
      and y': "y = (snd z)\<lparr>sc_subs := fst z, sc_servicing := False\<rparr>"
      using y False by (auto simp: process_due_def Option.bind_eq_Some_conv)
    have "calm ?s (snd z)" by (rule q0.calm_poll_due [OF z calm_refl])
    then have "calm s y" unfolding y' using False by (auto simp: calm_def)
    with a show ?thesis by (rule calm_trans)
  qed
qed

interpretation q1: quiet_sched between1
  unfolding quiet_sched_def
  by (rule calm_contract) (auto simp: between1_def intro: calm_process_due [OF _ calm_maybe_heartbeat [OF calm_refl]])

lemma calm_add_sub: "add_sub spec s = Some y \<Longrightarrow> calm a s \<Longrightarrow> calm a y"
proof -
  assume y: "add_sub spec s = Some y" and a: "calm a s"
  obtain s1 x where s1: "(if list_all (\<lambda>f. has_field (sp_device spec) f (b_state s)) (sp_fields spec) then Some s
              else do_discover_all between1 (sp_device spec) s) = Some s1"
    and y': "y = s1\<lparr>sc_subs := x\<rparr>"
    using y unfolding add_sub_def Option.bind_eq_Some_conv by auto
  from s1 a have "calm a s1" by (auto split: if_splits intro: q1.calm_do_all)
  then show ?thesis unfolding y' by (rule calm_subs)
qed

text \<open>The commands that ask and change nothing in a device.\<close>

fun asking :: "command \<Rightarrow> bool" where
  "asking (Write _ _ _) = False"
| "asking (SetOutput _ _ _) = False"
| "asking (WriteString _ _ _) = False"
| "asking (AccessLevelSet _ _ _) = False"
| "asking _ = True"

lemma calm_command:
  assumes "asking cmd" and "run_command cmd s = Some y" and "calm a s"
  shows "calm a (snd y)"
  using assms
  by (cases cmd)
     (auto intro: calm_subs calm_add_sub calm_level_read
        q1.calm_identify q1.calm_do_menu q1.calm_do_all q1.calm_all_fields
      dest: q1.calm_do_field [where a = a] q1.calm_do_read [where a = a] q1.calm_outs [where a = a])

lemma calm_loop:
  "sched_loop evs s = Some y \<Longrightarrow> (\<And>d c. (d, Some c) \<in> set evs \<Longrightarrow> asking c) \<Longrightarrow> calm a s \<Longrightarrow> calm a (snd y)"
proof (induction evs s arbitrary: y rule: sched_loop.induct)
  case (1 s)
  then show ?case by (auto intro: calm_trans [OF _ calm_waits(7)])
next
  case (2 d evs s)
  obtain s1 where s1: "process_due (maybe_heartbeat (bus_sleep (loop_timeout s) s)) = Some s1"
    and y: "sched_loop evs s1 = Some y"
    using "2.prems"(1) by (auto simp: Option.bind_eq_Some_conv)
  have "calm a s1" by (rule calm_process_due [OF s1]) (intro calm_maybe_heartbeat calm_sleep "2.prems"(3))
  then show ?case using "2.IH" [OF s1 y] "2.prems"(2) by auto
next
  case (3 d cmd evs s)
  let ?s0 = "bus_sleep (min d (loop_timeout s)) s"
  have s0: "calm a ?s0" by (intro calm_sleep "3.prems"(3))
  show ?case
  proof (cases "cmd = Shutdown")
    case True
    with "3.prems"(1) s0 show ?thesis by (auto simp: Let_def intro: calm_trans [OF _ calm_waits(7)])
  next
    case False
    then obtain r s2 z where r: "run_command cmd ?s0 = Some r"
      and s2: "process_due (maybe_heartbeat (snd r)) = Some s2"
      and z: "sched_loop evs s2 = Some z" and y: "snd y = snd z"
      using "3.prems"(1) by (auto simp: Let_def Option.bind_eq_Some_conv)
    have "asking cmd" using "3.prems"(2) by auto
    have "calm a s2"
      by (rule calm_process_due [OF s2]) (intro calm_maybe_heartbeat calm_command [OF \<open>asking cmd\<close> r s0])
    moreover have "asking c" if "(d', Some c) \<in> set evs" for d' c using "3.prems"(2) that by auto
    ultimately show ?thesis using "3.IH" [OF refl False, of r "fst r" "snd r" s2 z] r s2 z y by auto
  qed
qed

end
