(* ===== verification/Returns.thy ===== *)
theory Returns
  imports Quiet
begin

text \<open>
  When reads and writes return. Discovery may ask a device for ever, but the value of a field
  that is already known, and is no text, is read and written without discovery: each returns,
  within the time its waits add up to, whatever arrives meanwhile.
\<close>

section \<open>A known field stays known\<close>

lemma field_info_entry:
  "(\<And>e. de_schema (f e) = de_schema e \<and> de_all_fields (f e) = de_all_fields e \<and>
      de_extra_fields (f e) = de_extra_fields e) \<Longrightarrow>
   state_field_info a fid st = Some i \<Longrightarrow> state_field_info a fid (entry_or_new now b f st) = Some i"
  "(\<And>e. de_schema (f e) = de_schema e \<and> de_all_fields (f e) = de_all_fields e \<and>
      de_extra_fields (f e) = de_extra_fields e) \<Longrightarrow>
   state_field_info a fid (entry_if b f st) = state_field_info a fid st"
  by (auto simp: state_field_info_def entry_or_new_def entry_if_def split: option.splits)

lemma field_info_ops:
  "state_field_info a fid st = Some i \<Longrightarrow> state_field_info a fid (touch now b st) = Some i"
  "state_field_info a fid st = Some i \<Longrightarrow> state_field_info a fid (mark_alive now b tc fw st) = Some i"
  "state_field_info a fid st = Some i \<Longrightarrow> state_field_info a fid (put_value now b g v st) = Some i"
  "state_field_info a fid (mark_outdated b g st) = state_field_info a fid st"
  unfolding touch_def mark_alive_def put_value_def mark_outdated_def
  by (auto intro!: field_info_entry split: option.split)

lemma field_info_handle:
  assumes "state_field_info a fid (sh_state s) = Some i"
  shows "state_field_info a fid (sh_state (handle_frame now raw data s)) = Some i"
proof -
  have cache: "state_field_info a fid st = Some i \<Longrightarrow> state_field_info a fid (cache_value now b g r st) = Some i" for b g r st
    by (auto simp: cache_value_def field_info_ops split: option.split)
  have take: "state_field_info a fid (sh_state t) = Some i \<Longrightarrow>
      state_field_info a fid (sh_state (take_value now b g r t)) = Some i" for b g r t
    by (simp add: take_value_def cache field_info_ops)
  have other: "state_field_info a fid (sh_state t) = Some i \<Longrightarrow>
      state_field_info a fid (sh_state (other_tab_value now f t)) = Some i" for f t
    by (auto simp: other_tab_value_def take split: option.split prod.split kind.split bool.split)
  have message: "state_field_info a fid (sh_state t) = Some i \<Longrightarrow>
      state_field_info a fid (sh_state (handle_message now f t)) = Some i" for f t
    by (auto simp: handle_message_def take other field_info_ops split: mb_message.split)
  show ?thesis
    using assms unfolding handle_frame_def Let_def
    by (intro message) (auto simp: field_info_ops split: option.split)
qed

definition knows :: "u32 \<Rightarrow> field_id \<Rightarrow> field_info \<Rightarrow> 'a bus_scheme \<Rightarrow> bool" where
  "knows a fid i b \<longleftrightarrow> state_field_info a fid (b_state b) = Some i"

lemma knows_run_until: "knows a fid i b \<Longrightarrow> knows a fid i (run_until c t q b)"
proof (induction c t q b rule: run_until.induct)
  case (2 c t u f q b)
  have "knows a fid i (arrive u f b)"
    using 2(2) field_info_handle by (auto simp: knows_def arrive_def Let_def)
  then show ?case using 2 by (auto simp: knows_def)
qed (simp add: knows_def)

lemma knows_steps [simp]:
  "knows a fid i b \<Longrightarrow> knows a fid i (bus_await c d b)"
  "knows a fid i b \<Longrightarrow> knows a fid i (bus_sleep d b)"
  "knows a fid i b \<Longrightarrow> knows a fid i (bus_register k b)"
  "knows a fid i b \<Longrightarrow> knows a fid i (bus_send f b)"
  "knows a fid i b \<Longrightarrow> knows a fid i (snd (bus_wait k d b))"
  "knows a fid i b \<Longrightarrow> knows a fid i (upd_waiter g b)"
  "knows a fid i b \<Longrightarrow> knows a fid i (upd_state (put_value now x y v) b)"
  "knows a fid i b \<Longrightarrow> knows a fid i (upd_state (mark_outdated x y) b)"
proof -
  show w: "knows a fid i b \<Longrightarrow> knows a fid i (bus_await c d b)" for c d b
    by (simp add: bus_await_def knows_run_until)
  show "knows a fid i b \<Longrightarrow> knows a fid i (bus_sleep d b)" by (simp add: bus_sleep_def w)
  show "knows a fid i b \<Longrightarrow> knows a fid i (snd (bus_wait k d b))"
    using w by (simp add: bus_wait_def Let_def knows_def)
qed (simp_all add: knows_def field_info_ops)

lemma knows_fields [simp]:
  "knows a fid i (s\<lparr>sc_last_send := x2\<rparr>) = knows a fid i s"
  "knows a fid i (s\<lparr>sc_misses := x5\<rparr>) = knows a fid i s"
  by (simp_all add: knows_def)

lemma knows_sched_send [simp]: "knows a fid i s \<Longrightarrow> knows a fid i (sched_send f s)"
  by (auto simp: sched_send_def pace_def Let_def)

lemma sched_frame [simp]:
  fixes s :: sched
  shows
  "sc_config (bus_register k s) = sc_config s" "sc_config (snd (bus_wait k d s)) = sc_config s"
  "sc_config (bus_sleep d s) = sc_config s" "sc_config (upd_state g s) = sc_config s"
  "sc_config (bus_send f s) = sc_config s"
  "sc_last_send (bus_register k s) = sc_last_send s" "sc_last_send (bus_send f s) = sc_last_send s"
  "sc_subs (bus_register k s) = sc_subs s" "sc_subs (snd (bus_wait k d s)) = sc_subs s"
  "sc_subs (bus_sleep d s) = sc_subs s" "sc_subs (upd_state g s) = sc_subs s" "sc_subs (bus_send f s) = sc_subs s"
  by (rule sched_more; simp)+

lemma sched_send_simps [simp]:
  "b_sent (sched_send f s) = b_sent s @ [(b_clock (sched_send f s), f)]"
  "sc_last_send (sched_send f s) = b_clock (sched_send f s)"
  "sc_config (sched_send f s) = sc_config s" "sc_catalog (sched_send f s) = sc_catalog s"
  "sc_random (sched_send f s) = sc_random s" "sc_subs (sched_send f s) = sc_subs s"
  by (auto simp: sched_send_def pace_def Let_def sched_more [of "bus_send f t" t for t]
      sched_more [of "bus_sleep d t" t for d t])

section \<open>Reading a known field\<close>

definition read_timeout :: "field_id \<Rightarrow> nat" where
  "read_timeout fid = (if field_id_menu fid = Monitoring then VALUE_READ_TIMEOUT_MONITORING else VALUE_READ_TIMEOUT_OTHER_TABS)"

lemma sched_send_clock_le: "b_clock (sched_send f s) \<le> b_clock s + cf_min_send_interval (sc_config s)"
  by (auto simp: sched_send_def pace_def Let_def)

lemma decode_not_text: "viz \<noteq> Viz_Text \<Longrightarrow> with_options (decode_value raw viz) os \<noteq> Text sid t"
  by (cases viz) (simp_all add: Let_def)

lemma poll_value_returns:
  assumes "viz \<noteq> Viz_Text"
  shows "\<exists>r s'. poll_value btw addr fid viz s = Some (r, s') \<and> (r = Inl Timeout \<or> (\<exists>v. r = Inr v)) \<and>
    b_clock s' \<le> b_clock s + cf_min_send_interval (sc_config s) + read_timeout fid \<and>
    sc_config s' = sc_config s \<and> sc_subs s' = sc_subs s \<and> (\<forall>a g i. knows a g i s \<longrightarrow> knows a g i s')"
proof -
  obtain key dl s1 where s1: "send_read addr fid s = ((key, dl), s1)" by (metis prod.collapse)
  define w where "w = bus_wait key (max (dl - b_clock s1) 1) s1"
  have pv: "poll_value btw addr fid viz s = finish_read btw addr fid viz (key, dl) s1"
    by (simp add: poll_value_def s1)
  have dl: "dl = b_clock s1 + read_timeout fid" and c1: "b_clock s1 \<le> b_clock s + cf_min_send_interval (sc_config s)"
    and k1: "knows a g i s \<Longrightarrow> knows a g i s1" and cfg: "sc_config s1 = sc_config s" "sc_subs s1 = sc_subs s" for a g i
    using s1 sched_send_clock_le [of "value_read_raw (field_id_menu fid) addr (field_id_index fid)"
        "bus_register (value_key addr fid) s"]
    by (auto simp: send_read_def Let_def read_timeout_def)
  have max: "max (dl - b_clock s1) 1 = read_timeout fid"
    by (simp add: dl read_timeout_def VALUE_READ_TIMEOUT_MONITORING_def VALUE_READ_TIMEOUT_OTHER_TABS_def)
  have c2: "b_clock (snd w) \<le> b_clock s + cf_min_send_interval (sc_config s) + read_timeout fid"
    using c1 bus_wait_clock(2) [of key "read_timeout fid" s1] unfolding w_def max by linarith
  have k2: "knows a g i s \<Longrightarrow> knows a g i (snd w)" for a g i using k1 by (simp add: w_def)
  have cfg2: "sc_config (snd w) = sc_config s" "sc_subs (snd w) = sc_subs s" using cfg by (simp_all add: w_def)
  show ?thesis
  proof (cases "fst w")
    case None
    then have "poll_value btw addr fid viz s = Some (Inl Timeout, miss_read addr fid (snd w))"
      unfolding pv finish_read_def fst_conv snd_conv Let_def w_def [symmetric]
      by (simp only: case_prod_beta option.case)
    then show ?thesis using c2 k2 cfg2 by (simp add: miss_read_def Let_def case_prod_beta)
  next
    case (Some raw)
    define v where "v = with_options (decode_value raw viz) (schema_options addr fid (b_state (snd w)))"
    have v: "(case v of Text sid x \<Rightarrow> g sid | _ \<Rightarrow> Some (v, snd w)) = Some (v, snd w)" for g
      using decode_not_text [OF assms] unfolding v_def by (cases v) (auto simp: v_def)
    have "poll_value btw addr fid viz s = Some (Inr v, (upd_state (put_value (b_clock (snd w)) addr fid v) (snd w))
        \<lparr>sc_misses := (sc_misses (snd w))((addr, fid) := None)\<rparr>)"
      unfolding pv finish_read_def fst_conv snd_conv Let_def w_def [symmetric]
      by (simp only: case_prod_beta Some option.case v_def [symmetric] v Option.bind.bind_lunit fst_conv snd_conv)
    then show ?thesis using c2 k2 cfg2 by simp
  qed
qed

lemma viz_of_known: "knows addr fid i s \<Longrightarrow> viz_of btw addr fid s = Some (Inr (fi_viz i), s)"
  by (simp add: viz_of_def knows_def)

text \<open>C5. A read of a field that is known and is no text returns: from the cache at once, or after
  one request, within the sending interval and the time a read of its tab may take; it gives a
  value or \<open>Timeout\<close>.\<close>

theorem read_of_known_field_returns:
  assumes "state_field_info addr fid (b_state s) = Some i" and "fi_viz i \<noteq> Viz_Text"
  shows "\<exists>r s'. do_read btw addr fid age s = Some (r, s') \<and> (r = Inl Timeout \<or> (\<exists>v. r = Inr v)) \<and>
    b_clock s' \<le> b_clock s + cf_min_send_interval (sc_config s) +
      (if field_id_menu fid = Monitoring then 500 else 2500)"
proof -
  have k: "viz_of btw addr fid s = Some (Inr (fi_viz i), s)"
    using assms(1) by (simp add: viz_of_known knows_def)
  have t: "read_timeout fid = (if field_id_menu fid = Monitoring then 500 else 2500)"
    by (simp add: read_timeout_def VALUE_READ_TIMEOUT_MONITORING_def VALUE_READ_TIMEOUT_OTHER_TABS_def)
  obtain r s' where p: "poll_value btw addr fid (fi_viz i) s = Some (r, s')" "r = Inl Timeout \<or> (\<exists>v. r = Inr v)"
    "b_clock s' \<le> b_clock s + cf_min_send_interval (sc_config s) + read_timeout fid"
    using poll_value_returns [OF assms(2)] by blast
  show ?thesis
  proof (cases "get_value addr fid (b_state s)")
    case None
    with k p t show ?thesis by (simp add: do_read_def)
  next
    case (Some cv)
    with k p t show ?thesis by (cases "\<not> cv_outdated cv \<and> b_clock s - cv_at cv \<le> age") (auto simp: do_read_def)
  qed
qed

section \<open>Writing a known field\<close>

lemma settle_returns:
  assumes "viz \<noteq> Viz_Text" and "cf_min_send_interval (sc_config s) = gap"
  shows "\<exists>r' s'. settle btw addr fid viz v n r s = Some (r', s') \<and> sc_subs s' = sc_subs s \<and>
    b_clock s' \<le> b_clock s + n * (WRITE_SETTLE_WAIT + gap + read_timeout fid)"
  using assms(2)
proof (induction n arbitrary: r s)
  case (Suc n)
  show ?case
  proof (cases "case r of Inr obs \<Rightarrow> \<not> write_took_effect v obs | Inl e \<Rightarrow> False")
    case True
    let ?s = "upd_state (mark_outdated addr fid) (bus_sleep WRITE_SETTLE_WAIT s)"
    obtain r1 s1 where p: "poll_value btw addr fid viz ?s = Some (r1, s1)"
      "b_clock s1 \<le> b_clock ?s + cf_min_send_interval (sc_config ?s) + read_timeout fid" "sc_config s1 = sc_config ?s"
      "sc_subs s1 = sc_subs ?s"
      using poll_value_returns [OF assms(1)] by blast
    obtain r' s' where "settle btw addr fid viz v n r1 s1 = Some (r', s')" "sc_subs s' = sc_subs s1"
      "b_clock s' \<le> b_clock s1 + n * (WRITE_SETTLE_WAIT + gap + read_timeout fid)"
      using Suc.IH [of s1 r1] p(3) Suc.prems by auto
    with True p Suc.prems show ?thesis by (auto simp: Let_def)
  next
    case False
    then show ?thesis by (auto split: sum.splits)
  qed
qed simp

lemma knows_fold_send: "knows a g i s \<Longrightarrow> knows a g i (fold sched_send fs s)"
  by (induction fs arbitrary: s) simp_all

lemma fold_send_clock: "b_clock (fold sched_send fs s) \<le> b_clock s + length fs * cf_min_send_interval (sc_config s)"
proof (induction fs arbitrary: s)
  case (Cons f fs)
  have "b_clock (fold sched_send fs (sched_send f s)) \<le>
      b_clock (sched_send f s) + length fs * cf_min_send_interval (sc_config s)"
    using Cons.IH [of "sched_send f s"] by simp
  with sched_send_clock_le [of f s] show ?case by simp
qed simp

lemma fold_send_config [simp]: "sc_config (fold sched_send fs s) = sc_config s"
  by (induction fs arbitrary: s) simp_all

lemma write_frames_length: "write_frames addr fid v s = Inr frames \<Longrightarrow> length frames \<le> 2"
  by (auto simp: write_frames_def Let_def split: menu.splits write_value.splits option.splits)

lemma confirm_write_returns:
  assumes "knows addr fid i s" and "fi_viz i \<noteq> Viz_Text" and gap: "cf_min_send_interval (sc_config s) = gap"
  shows "\<exists>r s'. confirm_write btw addr fid v s = Some (r, s') \<and> sc_subs s' = sc_subs s \<and>
    b_clock s' \<le> b_clock s + 6 * gap + 1000 + 6 * read_timeout fid"
proof -
  define s2 where "s2 = upd_state (mark_outdated addr fid) s"
  have k: "knows addr fid i s2" unfolding s2_def using assms(1) by simp
  have g: "cf_min_send_interval (sc_config s2) = gap" by (simp add: s2_def gap)
  obtain r3 s3 where p: "poll_value btw addr fid (fi_viz i) s2 = Some (r3, s3)"
    "b_clock s3 \<le> b_clock s2 + cf_min_send_interval (sc_config s2) + read_timeout fid" "sc_config s3 = sc_config s2"
    "sc_subs s3 = sc_subs s2"
    using poll_value_returns [OF assms(2)] by blast
  have "cf_min_send_interval (sc_config s3) = gap" using p(3) g by simp
  from settle_returns [OF assms(2) this] obtain r4 s4 where
    q: "settle btw addr fid (fi_viz i) v WRITE_SETTLE_POLLS r3 s3 = Some (r4, s4)" "sc_subs s4 = sc_subs s3"
      "b_clock s4 \<le> b_clock s3 + WRITE_SETTLE_POLLS * (WRITE_SETTLE_WAIT + gap + read_timeout fid)"
    by blast
  have "confirm_write btw addr fid v s = Some (r4, s4)"
    unfolding confirm_write_def s2_def [symmetric] by (simp add: viz_of_known [OF k] p(1) q(1))
  moreover have "b_clock s4 \<le> b_clock s + 6 * gap + 1000 + 6 * read_timeout fid"
    using p(2) q(3) unfolding g by (simp add: s2_def WRITE_SETTLE_POLLS_def WRITE_SETTLE_WAIT_def)
  moreover have "sc_subs s4 = sc_subs s" using p(4) q(2) by (simp add: s2_def)
  ultimately show ?thesis by blast
qed

text \<open>C4. A write of a field that is known and is no text returns: refused at once, or after at most
  two frames and six readings of the value (the read-back and five more while it does not show
  the write), within the time these may take.\<close>

theorem write_of_known_field_returns:
  assumes "state_field_info addr fid (b_state s) = Some i" and "fi_viz i \<noteq> Viz_Text"
    and "\<And>sid text. v \<noteq> WText sid text"
  shows "\<exists>r s'. do_write btw addr fid v s = Some (r, s') \<and>
    b_clock s' \<le> b_clock s + 8 * cf_min_send_interval (sc_config s) + 1000 +
      6 * (if field_id_menu fid = Monitoring then 500 else 2500)"
proof (cases "write_frames addr fid v s")
  case (Inl e)
  with assms(3) show ?thesis by (cases v) (auto simp: do_write_def)
next
  case (Inr frames)
  let ?gap = "cf_min_send_interval (sc_config s)" and ?s = "fold sched_send frames s"
  have w: "do_write btw addr fid v s = confirm_write btw addr fid v ?s"
    using assms(3) Inr by (cases v) (auto simp: do_write_def)
  have "length frames * ?gap \<le> 2 * ?gap" by (rule mult_le_mono1 [OF write_frames_length [OF Inr]])
  then have "b_clock ?s \<le> b_clock s + 2 * ?gap"
    using fold_send_clock [of frames s] by linarith
  moreover have "knows addr fid i ?s" by (rule knows_fold_send) (simp add: knows_def assms(1))
  from confirm_write_returns [OF this assms(2) fold_send_config [THEN arg_cong, of cf_min_send_interval]]
  obtain r s' where "confirm_write btw addr fid v ?s = Some (r, s')"
    "b_clock s' \<le> b_clock ?s + 6 * ?gap + 1000 + 6 * read_timeout fid" by blast
  ultimately have "b_clock s' \<le> b_clock s + 8 * ?gap + 1000 + 6 * read_timeout fid"
    and "confirm_write btw addr fid v ?s = Some (r, s')" by simp_all
  then show ?thesis
    unfolding w by (cases "field_id_menu fid = Monitoring")
      (simp_all add: read_timeout_def VALUE_READ_TIMEOUT_MONITORING_def VALUE_READ_TIMEOUT_OTHER_TABS_def)
qed

section \<open>A scheduler to evaluate on\<close>

text \<open>A scheduler just started on a silent bus, and one that knows a switch of device 0x1234.\<close>

definition quiet_start :: sched where
  "quiet_start = sched_start
     \<lparr>b_clock = 1000, b_shared = \<lparr>sh_state = Map.empty, sh_waiter = waiter_new\<rparr>, b_queue = [], b_sent = [],
      b_net = (\<lambda>_. [])\<rparr> config_default (\<lambda>_. None) 7 Map.empty (\<lambda>_. False) Some"

definition a_switch :: field_info where
  "a_switch = \<lparr>fi_index = 5, fi_name = ''Switch'', fi_unit = [], fi_viz = CheckBox, fi_writeable = True,
     fi_eventable = True, fi_min = 0, fi_max = 0, fi_step = 0, fi_options = []\<rparr>"

definition switch_start :: sched where
  "switch_start = upd_state (put_extra_field 1000 0x1234 a_switch) quiet_start"

lemma switch_start_config [simp]:
  "sc_config switch_start = config_default" "sc_random switch_start = 7" "b_clock switch_start = 1000"
  "b_sent switch_start = []"
  "b_state switch_start = [0x1234 \<mapsto> (device_entry_new 0x1234 1000)\<lparr>de_extra_fields := [5 \<mapsto> a_switch]\<rparr>]"
  by (simp_all add: switch_start_def quiet_start_def sched_start_def upd_state_def put_extra_field_def
      entry_or_new_def device_entry_new_def a_switch_def)

lemma switch_start_knows: "state_field_info 0x1234 5 (b_state switch_start) = Some a_switch"
  by (simp add: state_field_info_def device_entry_new_def)

lemma read_of_known_field_returns_witness:
  "\<exists>r s'. do_read between1 0x1234 5 0 switch_start = Some (r, s') \<and> (r = Inl Timeout \<or> (\<exists>v. r = Inr v)) \<and>
    b_clock s' \<le> b_clock switch_start + cf_min_send_interval (sc_config switch_start) +
      (if field_id_menu 5 = Monitoring then 500 else 2500)"
  by (rule read_of_known_field_returns [OF switch_start_knows]) (simp add: a_switch_def)

lemma write_of_known_field_returns_witness:
  "\<exists>r s'. do_write between1 0x1234 5 (WBool True) switch_start = Some (r, s') \<and>
    b_clock s' \<le> b_clock switch_start + 8 * cf_min_send_interval (sc_config switch_start) + 1000 +
      6 * (if field_id_menu 5 = Monitoring then 500 else 2500)"
  by (rule write_of_known_field_returns [OF switch_start_knows]) (simp_all add: a_switch_def)

end
