(* ===== verification/Writes.thy ===== *)
theory Writes
  imports Returns
begin

text \<open>
  What the scheduler's writes put on the bus: no read-only frame is a write; a refused write
  sends nothing; an accepted one sends exactly its frames, spaced, and after them only asks.
\<close>

section \<open>Frames that write\<close>

lemma top_byte_of: "drop_bit 24 (push_bit 24 (ucast (c :: u8)) OR (x AND 0x00FFFFFF)) = (ucast c :: u32)"
  by (rule bit_word_eqI) (auto simp: bit_simps mask_simps dest: byte_bit_bound)

lemma top_byte [simp]:
  "drop_bit 24 (can_id_of c a) = (ucast c :: u32)"
  "drop_bit 24 (wire_can_id w a) = (ucast (w_class w) :: u32)"
  unfolding can_id_of_def wire_can_id_def Let_def by (rule top_byte_of)+

lemma request_class_not_7: "w_class (ex_req (exchange m k)) \<noteq> 0x07"
  by (cases m; cases k) (simp_all add: wire_defs)

lemma unat_u8_u32 [simp]: "unat (ucast (a :: u8) :: u32) = unat a"
  using less_trans [OF unat_byte_less [of a], of "2 ^ 32"]
  by (simp add: unsigned_ucast_eq take_bit_nat_eq_self_iff)

lemma ucast_u8_eq_iff: "(ucast (a :: u8) :: u32) = ucast b \<longleftrightarrow> a = b"
  by (metis unat_u8_u32 word_unat_eq_iff)

lemma read_only_shape:
  "read_only f \<Longrightarrow>
     drop_bit 24 (fst f) = 0x07 \<and> (length (snd f) = 2 \<or> length (snd f) = 4 \<and> hd (snd f) = 0x30) \<or>
     drop_bit 24 (fst f) \<noteq> 0x07 \<and> length (snd f) \<le> 4"
  using request_class_not_7 ucast_u8_eq_iff [of _ "0x07"] by (auto simp: read_only_def)

text \<open>The frames called read-only are none of the frames that change something in a device:
  the float, boolean and list writes of the Monitoring tab, the writes of the other tabs, the
  commit, a chunk of text with at least one character, the login and the logout.\<close>

theorem read_only_excludes_writes:
  "\<not> read_only (encode_set_float a i v) \<and> \<not> read_only (encode_set_boolean a i on) \<and>
   \<not> read_only (encode_set_list a i n) \<and> \<not> read_only (value_write_raw m a i v) \<and>
   \<not> read_only (encode_commit a i bus_id) \<and> \<not> read_only (string_chunk_write_raw a sid sq (c # cs)) \<and>
   \<not> read_only (encode_login_write a l v) \<and> \<not> read_only (encode_logout a)"
  by (intro conjI notI; drule read_only_shape; simp add: encode_defs u16_to_le_bytes_def)

text \<open>C1. A scheduler that is given only commands that ask (everything but a field write, a text
  write, switching an output and setting the access level) never writes to the bus, whatever
  the devices answer and however many of its commands, polling passes and heartbeats run: all
  that it sends is read-only, and its configuration, its nesting depth and its servicing flag
  are at the end what they were at the start.\<close>

theorem asking_never_writes:
  assumes "sched_loop evs s = Some (rs, s')" and "\<And>d c. (d, Some c) \<in> set evs \<Longrightarrow> asking c"
  shows "(\<exists>new. b_sent s' = b_sent s @ new \<and> (\<forall>x \<in> set new. read_only (snd x))) \<and>
    sc_config s' = sc_config s \<and> sc_discovering s' = sc_discovering s \<and> sc_servicing s' = sc_servicing s"
proof -
  have "calm s s'" using calm_loop [OF assms(1,2) calm_refl] by simp
  then show ?thesis unfolding calm_def list_all_iff by metis
qed

section \<open>Paced sending\<close>

lemma sched_send_clock:
  "b_clock s \<le> b_clock (sched_send f s)"
  "sc_last_send s \<le> b_clock s \<Longrightarrow>
     sc_last_send s + cf_min_send_interval (sc_config s) \<le> b_clock (sched_send f s)"
  by (auto simp: sched_send_def pace_def Let_def)

definition spaced :: "nat \<Rightarrow> (nat \<times> frame) list \<Rightarrow> bool" where
  "spaced gap = sorted_wrt (\<lambda>x y. fst x + gap \<le> fst y)"

lemma fold_sched_send_from:
  "sc_last_send s \<le> b_clock s \<Longrightarrow>
   \<exists>w. b_sent (fold sched_send fs s) = b_sent s @ w \<and> map snd w = fs \<and>
      spaced (cf_min_send_interval (sc_config s)) w \<and>
      (\<forall>x \<in> set w. sc_last_send s + cf_min_send_interval (sc_config s) \<le> fst x)"
proof (induction fs arbitrary: s)
  case (Cons f fs)
  let ?s = "sched_send f s" and ?g = "cf_min_send_interval (sc_config s)"
  obtain w where w: "b_sent (fold sched_send fs ?s) = b_sent ?s @ w" "map snd w = fs" "spaced ?g w"
    "\<forall>x \<in> set w. b_clock ?s + ?g \<le> fst x"
    using Cons.IH [of ?s] by auto
  have "sc_last_send s + ?g \<le> b_clock ?s" using Cons.prems by (rule sched_send_clock(2))
  with w show ?case
    by (intro exI [of _ "(b_clock ?s, f) # w"]) (auto simp: spaced_def)
qed (simp add: spaced_def)

lemma fold_sched_send:
  "\<exists>w. b_sent (fold sched_send fs s) = b_sent s @ w \<and> map snd w = fs \<and>
      spaced (cf_min_send_interval (sc_config s)) w"
proof (cases fs)
  case Nil
  then show ?thesis by (simp add: spaced_def)
next
  case (Cons f fs')
  let ?s = "sched_send f s"
  obtain w where w: "b_sent (fold sched_send fs' ?s) = b_sent ?s @ w" "map snd w = fs'"
    "spaced (cf_min_send_interval (sc_config s)) w"
    "\<forall>x \<in> set w. b_clock ?s + cf_min_send_interval (sc_config s) \<le> fst x"
    using fold_sched_send_from [of ?s fs'] by auto
  then show ?thesis
    unfolding Cons by (intro exI [of _ "(b_clock ?s, f) # w"]) (auto simp: spaced_def)
qed

section \<open>Writing a field\<close>

context quiet_sched
begin

lemma calm_settle: "settle btw addr fid viz v n r s = Some y \<Longrightarrow> calm a s \<Longrightarrow> calm a (snd y)"
proof (induction n arbitrary: r s)
  case (Suc n)
  show ?case
  proof (cases "case r of Inr obs \<Rightarrow> \<not> write_took_effect v obs | Inl e \<Rightarrow> False")
    case True
    then obtain z where z: "poll_value btw addr fid viz (upd_state (mark_outdated addr fid) (bus_sleep WRITE_SETTLE_WAIT s)) = Some z"
      and rest: "settle btw addr fid viz v n (fst z) (snd z) = Some y"
      using Suc.prems(1) by (auto simp: Let_def Option.bind_eq_Some_conv)
    have "calm a (snd z)" by (rule calm_poll_value [OF z]) (intro calm_steps Suc.prems(2))
    then show ?thesis by (rule Suc.IH [OF rest])
  next
    case False
    with Suc.prems show ?thesis by (auto split: sum.splits)
  qed
qed auto

lemma calm_confirm: "confirm_write btw addr fid v s = Some y \<Longrightarrow> calm a s \<Longrightarrow> calm a (snd y)"
proof -
  assume y: "confirm_write btw addr fid v s = Some y" and a: "calm a s"
  obtain p where p: "viz_of btw addr fid (upd_state (mark_outdated addr fid) s) = Some p"
    and q: "(case fst p of
          Inl e \<Rightarrow> Some (Inl e, snd p)
        | Inr viz \<Rightarrow> do {
            (r, s2) \<leftarrow> poll_value btw addr fid viz (snd p);
            settle btw addr fid viz v WRITE_SETTLE_POLLS r s2
          }) = Some y"
    using y by (auto simp: confirm_write_def Option.bind_eq_Some_conv case_prod_beta)
  have p': "calm a (snd p)" by (rule calm_viz [OF p]) (intro calm_steps a)
  show "calm a (snd y)"
  proof (cases "fst p")
    case (Inl e)
    with q p' show ?thesis by auto
  next
    case (Inr viz)
    then obtain z where "poll_value btw addr fid viz (snd p) = Some z"
      "settle btw addr fid viz v WRITE_SETTLE_POLLS (fst z) (snd z) = Some y"
      using q by (auto simp: Option.bind_eq_Some_conv)
    then show ?thesis using calm_settle calm_poll_value p' by blast
  qed
qed

lemma write_then_ask:
  assumes "write_frames addr fid v s = Inr frames" and "confirm_write btw addr fid v (fold sched_send frames s) = Some y"
  shows "\<exists>written asked. b_sent (snd y) = b_sent s @ written @ asked \<and> map snd written = frames \<and>
    spaced (cf_min_send_interval (sc_config s)) written \<and> (\<forall>x \<in> set asked. read_only (snd x))"
proof -
  obtain w where w: "b_sent (fold sched_send frames s) = b_sent s @ w" "map snd w = frames"
    "spaced (cf_min_send_interval (sc_config s)) w" using fold_sched_send by metis
  have "calm (fold sched_send frames s) (snd y)" by (rule calm_confirm [OF assms(2) calm_refl])
  then obtain new where "b_sent (snd y) = b_sent (fold sched_send frames s) @ new" "list_all (\<lambda>x. read_only (snd x)) new"
    unfolding calm_def by blast
  with w show ?thesis by (intro exI [of _ w] exI [of _ new]) (auto simp: list_all_iff)
qed

end

lemma do_write_frames:
  "(\<And>sid text. v \<noteq> WText sid text) \<Longrightarrow>
   do_write btw addr fid v s =
     (case write_frames addr fid v s of
        Inl e \<Rightarrow> Some (Inl e, s)
      | Inr frames \<Rightarrow> confirm_write btw addr fid v (fold sched_send frames s))"
  by (cases v) (auto simp: do_write_def)

lemma write_frames_boolean:
  "field_id_menu fid = Monitoring \<Longrightarrow>
   write_frames addr fid (WBool b) s =
     (case commit_guard addr fid s of
        Some e \<Rightarrow> Inl e
      | None \<Rightarrow> Inr [encode_set_boolean addr (field_id_index fid) b,
                      encode_commit addr (field_id_index (fid + 1)) (sched_bus_id s)])"
  by (simp add: write_frames_def Let_def)

lemma commit_guard_None:
  "commit_guard addr fid s = None \<longleftrightarrow>
     field_id_index fid \<noteq> 0xFF \<and>
     device_status_of (b_clock s) (cf_liveness (sc_config s)) (addr_for_bus_id (sched_bus_id s)) (b_state s) = Offline \<and>
     (\<forall>f. schema_field_of addr (fid + 1) (b_state s) = Some f \<longrightarrow> fi_name f = [])"
  by (auto simp: commit_guard_def split: option.splits)

lemma field_id_index_ucast: "field_id_index fid = ucast fid"
  by (rule bit_word_eqI) (auto simp: field_id_index_def mask_simps bit_simps)

lemma field_id_index_next: "field_id_index (fid + 1) = field_id_index fid + 1"
proof -
  have m: "(k + 1) mod 256 = (k mod 65536 + 1) mod 256" for k :: int
    by (rule mod_add_cong) (simp_all add: mod_mod_cancel)
  have "(ucast (w + 1) :: u8) = ucast w + 1" for w :: u16
    by transfer (simp add: take_bit_take_bit take_bit_eq_mod mod_mod_cancel m [symmetric])
  then show ?thesis by (simp add: field_id_index_ucast)
qed

text \<open>C2. A field write of anything but text either is refused, and then nothing is sent and the
  scheduler's state is untouched, or puts exactly its frames on the bus, in order and at least
  the minimum interval apart; whatever is sent after them, until the value read back is
  returned, only asks.\<close>

theorem write_sends_its_frames:
  assumes "do_write between1 addr fid v s = Some (r, s')" and "\<And>sid text. v \<noteq> WText sid text"
  shows "case write_frames addr fid v s of
      Inl e \<Rightarrow> r = Inl e \<and> s' = s
    | Inr frames \<Rightarrow> \<exists>written asked. b_sent s' = b_sent s @ written @ asked \<and> map snd written = frames \<and>
        spaced (cf_min_send_interval (sc_config s)) written \<and> (\<forall>x \<in> set asked. read_only (snd x))"
proof (cases "write_frames addr fid v s")
  case (Inl e)
  with assms show ?thesis by (simp add: do_write_frames)
next
  case (Inr frames)
  have "confirm_write between1 addr fid v (fold sched_send frames s) = Some (r, s')"
    using assms Inr by (simp add: do_write_frames)
  from q1.write_then_ask [OF Inr this] Inr show ?thesis by simp
qed

text \<open>C3. A boolean on the Monitoring tab is written only when the register after the field is
  there for the commit and no named field uses it, and no device on the bus has our own BusID's
  address; then the write is followed at once by the commit of the next register, which names
  our BusID. Otherwise nothing is sent.\<close>

theorem boolean_write_committed:
  assumes "do_write between1 addr fid (WBool b) s = Some (r, s')" and "field_id_menu fid = Monitoring"
    and "b_sent s' \<noteq> b_sent s"
  shows "field_id_index fid \<noteq> 0xFF \<and>
    device_status_of (b_clock s) (cf_liveness (sc_config s)) (addr_for_bus_id (sched_bus_id s)) (b_state s) = Offline \<and>
    (\<forall>f. schema_field_of addr (fid + 1) (b_state s) = Some f \<longrightarrow> fi_name f = []) \<and>
    (\<exists>t u asked. b_sent s' = b_sent s @
        (t, encode_set_boolean addr (field_id_index fid) b) #
        (u, encode_commit addr (field_id_index fid + 1) (sched_bus_id s)) # asked \<and>
      t + cf_min_send_interval (sc_config s) \<le> u \<and> (\<forall>x \<in> set asked. read_only (snd x)))"
proof -
  have w: "write_frames addr fid (WBool b) s =
     (case commit_guard addr fid s of
        Some e \<Rightarrow> Inl e
      | None \<Rightarrow> Inr [encode_set_boolean addr (field_id_index fid) b,
                      encode_commit addr (field_id_index (fid + 1)) (sched_bus_id s)])"
    by (rule write_frames_boolean [OF assms(2)])
  have g: "commit_guard addr fid s = None"
  proof (cases "commit_guard addr fid s")
    case (Some e)
    with assms w show ?thesis by (simp add: do_write_def)
  qed
  have i: "field_id_index (fid + 1) = field_id_index fid + 1"
    by (simp add: field_id_index_next)
  have fr: "write_frames addr fid (WBool b) s =
      Inr [encode_set_boolean addr (field_id_index fid) b, encode_commit addr (field_id_index fid + 1) (sched_bus_id s)]"
    using w g i by simp
  have c: "confirm_write between1 addr fid (WBool b) (fold sched_send
      [encode_set_boolean addr (field_id_index fid) b, encode_commit addr (field_id_index fid + 1) (sched_bus_id s)] s) = Some (r, s')"
    using assms(1) fr by (simp add: do_write_def)
  obtain written asked where s: "b_sent s' = b_sent s @ written @ asked"
    and m: "map snd written =
      [encode_set_boolean addr (field_id_index fid) b, encode_commit addr (field_id_index fid + 1) (sched_bus_id s)]"
    and sp: "spaced (cf_min_send_interval (sc_config s)) written" and a: "\<forall>x \<in> set asked. read_only (snd x)"
    using q1.write_then_ask [OF fr c] unfolding snd_conv by (elim exE conjE) (rule that)
  obtain t u where "written = [(t, encode_set_boolean addr (field_id_index fid) b),
      (u, encode_commit addr (field_id_index fid + 1) (sched_bus_id s))]"
    using m by (auto simp: map_eq_Cons_conv)
  then show ?thesis using s sp a g [unfolded commit_guard_None] by (auto simp: spaced_def)
qed

section \<open>Witnesses\<close>

lemma process_due_idle: "sc_subs s = [] \<Longrightarrow> \<exists>s'. process_due s = Some s'"
  by (auto simp: process_due_def poll_due_def due_work_def plan_new_def poll_values_def poll_loop.simps Let_def)

lemma asking_never_writes_witness:
  "\<exists>rs s'. sched_loop [(3, Some (AccessLevelRead 0x1234))] quiet_start = Some (rs, s') \<and>
    (\<exists>new. b_sent s' = b_sent quiet_start @ new \<and> (\<forall>x \<in> set new. read_only (snd x))) \<and>
    sc_config s' = sc_config quiet_start \<and> sc_discovering s' = sc_discovering quiet_start \<and>
    sc_servicing s' = sc_servicing quiet_start"
proof -
  let ?s0 = "bus_sleep (min 3 (loop_timeout quiet_start)) quiet_start"
  let ?r = "do_access_level_read 0x1234 ?s0"
  have "sc_subs ?s0 = []"
    by (simp add: quiet_start_def sched_start_def)
  then have "sc_subs (maybe_heartbeat (snd ?r)) = []"
    by (auto simp: do_access_level_read_def await_access_level_def maybe_heartbeat_def Let_def case_prod_beta
        split: sum.split option.split)
  then obtain s2 where s2: "process_due (maybe_heartbeat (snd ?r)) = Some s2" using process_due_idle by blast
  have "sched_loop [(3, Some (AccessLevelRead 0x1234))] quiet_start =
      Some ([Rep_Level (fst ?r)], upd_waiter cancel_all s2)"
    by (simp add: Let_def s2 map_prod_def case_prod_beta)
  from this asking_never_writes [OF this] show ?thesis by auto
qed

lemma switch_start_bus_id: "sched_bus_id switch_start = 0x1C000007"
  by (simp add: sched_bus_id_def config_default_def bus_id_generate_def bus_id_CLASS_def Let_def max_def word_le_nat_alt)

lemma switch_start_guard: "commit_guard 0x1234 5 switch_start = None"
proof -
  have "addr_for_bus_id 0x1C000007 = 0x700007" by (simp add: addr_for_bus_id_def)
  then show ?thesis
    by (simp add: commit_guard_None switch_start_bus_id device_status_of_def schema_field_of_def
        state_schema_def device_entry_new_def field_id_index_ucast)
qed

lemma switch_start_frames:
  "write_frames 0x1234 5 (WBool True) switch_start =
     Inr [encode_set_boolean 0x1234 5 True, encode_commit 0x1234 6 (sched_bus_id switch_start)]"
proof -
  have "field_id_menu 5 = Monitoring" by (simp add: field_id_menu_def)
  then show ?thesis
    by (simp add: write_frames_def switch_start_guard field_id_index_ucast)
qed

lemma switch_start_writes:
  "\<exists>r s'. do_write between1 0x1234 5 (WBool True) switch_start = Some (r, s')"
proof -
  let ?s = "fold sched_send [encode_set_boolean 0x1234 5 True, encode_commit 0x1234 6 (sched_bus_id switch_start)] switch_start"
  have "knows 0x1234 5 a_switch ?s"
    unfolding knows_def [symmetric] by (rule knows_fold_send) (unfold knows_def, rule switch_start_knows)
  from confirm_write_returns [OF this _ refl, of between1 "WBool True"]
  obtain r s' where "confirm_write between1 0x1234 5 (WBool True) ?s = Some (r, s')"
    by (auto simp: a_switch_def)
  then show ?thesis by (auto simp: do_write_def switch_start_frames)
qed

lemma write_sends_its_frames_witness:
  "\<exists>r s'. do_write between1 0x1234 5 (WBool True) switch_start = Some (r, s') \<and>
    (\<exists>written asked. b_sent s' = b_sent switch_start @ written @ asked \<and>
      map snd written = [encode_set_boolean 0x1234 5 True, encode_commit 0x1234 6 (sched_bus_id switch_start)] \<and>
      spaced (cf_min_send_interval (sc_config switch_start)) written \<and> (\<forall>x \<in> set asked. read_only (snd x)))"
proof -
  obtain r s' where d: "do_write between1 0x1234 5 (WBool True) switch_start = Some (r, s')"
    using switch_start_writes by blast
  show ?thesis
    by (intro exI [of _ r] exI [of _ s'] conjI d
        write_sends_its_frames [OF d, unfolded switch_start_frames sum.case, OF write_value.distinct(5)])
qed

lemma boolean_write_committed_witness:
  "\<exists>r s'. do_write between1 0x1234 5 (WBool True) switch_start = Some (r, s') \<and>
    (\<exists>t u asked. b_sent s' = b_sent switch_start @ (t, encode_set_boolean 0x1234 5 True) #
        (u, encode_commit 0x1234 (5 + 1) (sched_bus_id switch_start)) # asked)"
proof -
  obtain r s' where d: "do_write between1 0x1234 5 (WBool True) switch_start = Some (r, s')"
    using switch_start_writes by blast
  have m: "field_id_menu 5 = Monitoring" "field_id_index 5 = 5"
    by (simp_all add: field_id_menu_def field_id_index_ucast)
  have "confirm_write between1 0x1234 5 (WBool True) (fold sched_send
      [encode_set_boolean 0x1234 5 True, encode_commit 0x1234 6 (sched_bus_id switch_start)] switch_start) = Some (r, s')"
    using d by (simp add: do_write_def switch_start_frames)
  from q1.write_then_ask [OF switch_start_frames this]
  have "b_sent s' \<noteq> b_sent switch_start" by auto
  from boolean_write_committed [OF d m(1) this] d show ?thesis unfolding m(2) by blast
qed

end
