(* ===== verification/Engine.thy ===== *)
theory Engine
  imports Writes
begin

text \<open>
  The engine behind every handle: \<open>crates/masterbus/src/runtime/mod.rs\<close>. A call puts a
  command on the scheduler's channel and waits for its reply: here one turn of the scheduler's
  loop, the command and then the heartbeat and the polling pass. Connecting and listing the bus
  wait for what the reader finds; they are functions of what the device table shows at each
  moment.
\<close>

section \<open>Waiting for the bus\<close>

definition DEVICE_LIST_MAX :: nat where "DEVICE_LIST_MAX = 10000"

definition device_list_deadline :: "nat \<Rightarrow> nat \<Rightarrow> nat \<Rightarrow> nat option \<Rightarrow> nat" where
  "device_list_deadline started window settle_time newest =
     (let earliest = started + window;
          settled = (case newest of
              Some t \<Rightarrow> if settle_time \<noteq> 0 then t + settle_time else earliest
            | None \<Rightarrow> earliest)
      in min (max earliest settled) (started + DEVICE_LIST_MAX))"

text \<open>The loop of \<open>device_ids_all\<close>: \<open>newest t\<close> is what \<open>newest_first_seen\<close> gives at \<open>t\<close>;
  the result is the moment the bus is reported.\<close>

function report_time :: "nat \<Rightarrow> config \<Rightarrow> (nat \<Rightarrow> nat option) \<Rightarrow> nat \<Rightarrow> nat" where
  "report_time started cfg newest now =
     (let target = device_list_deadline started (cf_discovery_window cfg) (cf_discovery_settle cfg) (newest now)
      in if target \<le> now then now
         else report_time started cfg newest (now + min (target - now) 100))"
  by pat_completeness auto
termination
  by (relation "measure (\<lambda>(started, cfg, newest, now). started + DEVICE_LIST_MAX - now)")
     (auto simp: device_list_deadline_def Let_def)

declare report_time.simps [simp del]

text \<open>The wait of \<open>connect\<close> for the first device, looked for every 20 ms.\<close>

function first_device :: "nat \<Rightarrow> (nat \<Rightarrow> bool) \<Rightarrow> nat \<Rightarrow> nat option" where
  "first_device deadline any now =
     (if any now then Some now
      else if deadline \<le> now then None
      else first_device deadline any (now + 20))"
  by pat_completeness auto
termination
  by (relation "measure (\<lambda>(deadline, any, now). deadline - now)") auto

declare first_device.simps [simp del]

text \<open>\<open>connect\<close>: the BusID is made up when none is set and checked before anything else.\<close>

definition connect_config :: "config \<Rightarrow> u64 \<Rightarrow> config" where
  "connect_config cfg random =
     (case cf_bus_id cfg of Some b \<Rightarrow> cfg | None \<Rightarrow> cfg\<lparr>cf_bus_id := Some (bus_id_generate random)\<rparr>)"

definition connect :: "config \<Rightarrow> u64 \<Rightarrow> (nat \<Rightarrow> bool) \<Rightarrow> nat \<Rightarrow> (config \<times> nat) result" where
  "connect cfg random any started =
     (let cfg1 = connect_config cfg random; b = (case cf_bus_id cfg1 of Some b \<Rightarrow> b | None \<Rightarrow> 0)
      in if \<not> bus_id_is_valid b then Inl (InvalidBusId b)
         else (case first_device (started + cf_connect_timeout cfg1) any started of
             Some t \<Rightarrow> Inr (cfg1, t)
           | None \<Rightarrow> Inl (Connection ''no devices heard on the bus'')))"

section \<open>Calls\<close>

type_synonym 'r call = "sched \<Rightarrow> ('r \<times> sched) option"

definition engine_call :: "command \<Rightarrow> reply call" where
  "engine_call cmd s =
     do {
       (r, s1) \<leftarrow> run_command cmd s;
       s2 \<leftarrow> process_due (maybe_heartbeat s1);
       Some (r, s2)
     }"

definition call_unit :: "command \<Rightarrow> unit result call" where
  "call_unit cmd s = map_option (\<lambda>(r, s1). (Inr (), s1)) (engine_call cmd s)"

fun value_reply :: "reply \<Rightarrow> bus_value result" where
  "value_reply (Rep_Value v) = v"
| "value_reply _ = Inl (Connection ''engine stopped'')"

fun done_reply :: "reply \<Rightarrow> unit result" where
  "done_reply (Rep_Done r) = r"
| "done_reply _ = Inl (Connection ''engine stopped'')"

fun level_reply :: "reply \<Rightarrow> access_level result" where
  "level_reply (Rep_Level r) = r"
| "level_reply _ = Inl (Connection ''engine stopped'')"

fun field_reply :: "reply \<Rightarrow> field_info option result" where
  "field_reply (Rep_Field f) = Inr f"
| "field_reply _ = Inl (Connection ''engine stopped'')"

fun outputs_reply :: "reply \<Rightarrow> field_id list result" where
  "outputs_reply (Rep_Outputs os) = Inr os"
| "outputs_reply _ = Inl (Connection ''engine stopped'')"

definition call_for :: "(reply \<Rightarrow> 'r) \<Rightarrow> command \<Rightarrow> 'r call" where
  "call_for f cmd s = map_option (\<lambda>(r, s1). (f r, s1)) (engine_call cmd s)"

section \<open>The engine's methods\<close>

definition ensure_identity :: "u32 \<Rightarrow> unit result call" where
  "ensure_identity addr s =
     (if has_identity addr (b_state s) then Some (Inr (), s) else call_unit (Identify [addr]) s)"

text \<open>Each unknown device once, in the order given.\<close>

fun unknown_devices :: "dev_table \<Rightarrow> u32 list \<Rightarrow> u32 list \<Rightarrow> u32 list" where
  "unknown_devices st [] unknown = unknown"
| "unknown_devices st (a # as) unknown =
     (if \<not> has_identity a st \<and> a \<notin> set unknown then unknown_devices st as (unknown @ [a])
      else unknown_devices st as unknown)"

definition ensure_identities :: "u32 list \<Rightarrow> unit result call" where
  "ensure_identities addrs s =
     (let unknown = unknown_devices (b_state s) addrs []
      in if unknown = [] then Some (Inr (), s) else call_unit (Identify unknown) s)"

definition engine_identity :: "u32 \<Rightarrow> device_identity result call" where
  "engine_identity addr s =
     do {
       (r, s1) \<leftarrow> ensure_identity addr s;
       (case r of
          Inl e \<Rightarrow> Some (Inl e, s1)
        | Inr u \<Rightarrow> Some (case state_identity addr (b_state s1) of Some i \<Rightarrow> Inr i | None \<Rightarrow> Inl NotReady, s1))
     }"

definition ensure_schema :: "u32 \<Rightarrow> unit result call" where
  "ensure_schema addr s =
     (if has_menus addr menu_ALL (b_state s) then Some (Inr (), s) else call_unit (Discover addr) s)"

definition ensure_menu :: "u32 \<Rightarrow> menu \<Rightarrow> unit result call" where
  "ensure_menu addr m s =
     (if has_menu addr m (b_state s) then Some (Inr (), s) else call_unit (DiscoverMenu addr m) s)"

definition ensure_all_fields :: "u32 \<Rightarrow> unit result call" where
  "ensure_all_fields addr s =
     (if has_all_fields addr (b_state s) then Some (Inr (), s) else call_unit (DiscoverAllFields addr) s)"

definition ensure_field :: "u32 \<Rightarrow> field_id \<Rightarrow> unit result call" where
  "ensure_field addr fid s =
     (if has_field addr fid (b_state s) then Some (Inr (), s)
      else do {
        (r, s1) \<leftarrow> ensure_menu addr (field_id_menu fid) s;
        (case r of
           Inl e \<Rightarrow> Some (Inl e, s1)
         | Inr u \<Rightarrow>
             if field_id_menu fid = Configuration \<and> \<not> has_field addr fid (b_state s1)
             then ensure_all_fields addr s1 else Some (Inr (), s1))
      })"

definition engine_field_info :: "u32 \<Rightarrow> field_id \<Rightarrow> field_info option result call" where
  "engine_field_info addr fid s =
     (case state_field_info addr fid (b_state s) of
        Some f \<Rightarrow> Some (Inr (Some f), s)
      | None \<Rightarrow> call_for field_reply (DiscoverField addr fid) s)"

definition engine_read :: "u32 \<Rightarrow> field_id \<Rightarrow> nat \<Rightarrow> bus_value result call" where
  "engine_read addr fid max_age = call_for value_reply (Read addr fid max_age)"

definition engine_write :: "u32 \<Rightarrow> field_id \<Rightarrow> write_value \<Rightarrow> bus_value result call" where
  "engine_write addr fid v = call_for value_reply (Write addr fid v)"

definition engine_eventable_outputs :: "u32 \<Rightarrow> field_id list result call" where
  "engine_eventable_outputs addr = call_for outputs_reply (EventableOutputs addr)"

definition engine_set_output :: "u32 \<Rightarrow> field_id \<Rightarrow> bool \<Rightarrow> bus_value result call" where
  "engine_set_output addr fid on = call_for value_reply (SetOutput addr fid on)"

definition engine_write_string :: "u32 \<Rightarrow> u16 \<Rightarrow> string \<Rightarrow> unit result call" where
  "engine_write_string addr sid t = call_for done_reply (WriteString addr sid t)"

definition engine_access_level :: "u32 \<Rightarrow> access_level result call" where
  "engine_access_level addr = call_for level_reply (AccessLevelRead addr)"

definition engine_set_access_level :: "u32 \<Rightarrow> access_level \<Rightarrow> f32 option \<Rightarrow> access_level result call" where
  "engine_set_access_level addr l code = call_for level_reply (AccessLevelSet addr l code)"

text \<open>The ids of subscriptions are counted from 1; the channel ends are their numbers.\<close>

definition engine_subscribe ::
  "u32 \<Rightarrow> field_id list \<Rightarrow> nat \<Rightarrow> bool \<Rightarrow> nat \<Rightarrow> sched \<Rightarrow> (nat \<times> nat \<times> sched) option" where
  "engine_subscribe device fids interval change_only next_id s =
     map_option (\<lambda>(r, s1). (next_id, next_id + 1, s1))
       (engine_call (Subscribe \<lparr>sp_id = next_id, sp_device = device, sp_fields = fids,
          sp_interval = interval, sp_change_only = change_only\<rparr>) s)"

definition engine_unsubscribe :: "nat \<Rightarrow> sched \<Rightarrow> sched option" where
  "engine_unsubscribe i s = map_option snd (engine_call (Unsubscribe i) s)"

definition device_ids :: "sched \<Rightarrow> u32 list" where
  "device_ids s = alive_ids (b_clock s) (cf_liveness (sc_config s)) (b_state s)"

section \<open>Facts\<close>

lemma device_list_deadline_bounds:
  "started + min window DEVICE_LIST_MAX \<le> device_list_deadline started window settle_time newest"
  "device_list_deadline started window settle_time newest \<le> started + DEVICE_LIST_MAX"
  by (auto simp: device_list_deadline_def Let_def)

lemma report_time_spec:
  assumes "now \<le> started + DEVICE_LIST_MAX"
  shows "now \<le> report_time started cfg newest now \<and>
    report_time started cfg newest now \<le> started + DEVICE_LIST_MAX \<and>
    device_list_deadline started (cf_discovery_window cfg) (cf_discovery_settle cfg)
      (newest (report_time started cfg newest now)) \<le> report_time started cfg newest now"
  using assms
proof (induction started cfg newest now rule: report_time.induct)
  case (1 started cfg newest now)
  let ?target = "device_list_deadline started (cf_discovery_window cfg) (cf_discovery_settle cfg) (newest now)"
  show ?case
  proof (cases "?target \<le> now")
    case True
    with 1 show ?thesis by (simp add: report_time.simps [of started cfg newest now] Let_def)
  next
    case False
    let ?next = "now + min (?target - now) 100"
    have "?next \<le> started + DEVICE_LIST_MAX"
      using False device_list_deadline_bounds(2) [of started "cf_discovery_window cfg" "cf_discovery_settle cfg" "newest now"]
      by linarith
    with 1 False have "?next \<le> report_time started cfg newest ?next \<and>
        report_time started cfg newest ?next \<le> started + DEVICE_LIST_MAX \<and>
        device_list_deadline started (cf_discovery_window cfg) (cf_discovery_settle cfg)
          (newest (report_time started cfg newest ?next)) \<le> report_time started cfg newest ?next"
      by blast
    then show ?thesis using False by (simp add: report_time.simps [of started cfg newest now] Let_def)
  qed
qed

lemma first_device_spec:
  "case first_device deadline any now of
     Some t \<Rightarrow> any t \<and> now \<le> t \<and> (t = now \<or> t < deadline + 20)
   | None \<Rightarrow> \<forall>k. now + 20 * k < deadline \<longrightarrow> \<not> any (now + 20 * k)"
proof (induction deadline any now rule: first_device.induct)
  case (1 deadline any now)
  show ?case
  proof (cases "any now \<or> deadline \<le> now")
    case True
    then show ?thesis by (auto simp: first_device.simps [of deadline any now])
  next
    case False
    have split: "(\<forall>k. now + 20 * k < deadline \<longrightarrow> \<not> any (now + 20 * k)) \<longleftrightarrow>
        \<not> any now \<and> (\<forall>k. (now + 20) + 20 * k < deadline \<longrightarrow> \<not> any ((now + 20) + 20 * k))"
      if "now < deadline"
    proof -
      have "(\<forall>k. P k) \<longleftrightarrow> P 0 \<and> (\<forall>k. P (Suc k))" for P by (metis not0_implies_Suc)
      from this [of "\<lambda>k. now + 20 * k < deadline \<longrightarrow> \<not> any (now + 20 * k)"] show ?thesis
        using that by (simp add: add.assoc)
    qed
    show ?thesis
      using False 1 split
      by (auto simp: first_device.simps [of deadline any now] split: option.splits)
  qed
qed

end
