(* ===== verification/Settings.thy ===== *)
theory Settings
  imports RustStr Encode "HOL-Library.List_Lexorder" "HOL-Library.Char_ord"
begin

text \<open>
  The per-host configuration file: \<open>crates/masterbus/src/settings.rs\<close> (Linux). The file's
  text is parsed and rendered as the code does it; where it lives, what hardware is there, and
  the file system are a record the operations take and return. A path is its string. The texts
  of the error messages are left out: an error says which check failed, on which line.
\<close>

section \<open>Data\<close>

datatype device_type = Can | Usb

record file_config =
  fc_heartbeat_master :: "u32 option"
  fc_bus_id :: "u32 option"
  fc_device_type :: device_type
  fc_device_name :: string
  fc_cache_dir :: "string option"
  fc_listen :: "string option"
  fc_api_listen :: "string option"
  fc_api_token :: "string option"
  fc_path :: string

datatype settings_error =
    Expected_key_value nat
  | Bad_heartbeat_master nat string
  | Bad_bus_id nat string
  | Bad_device_type nat string
  | Missing_device_type
  | No_config_path
  | Cannot_read
  | Cannot_create
  | No_hardware
  | Many_interfaces "string list"

section \<open>Parsing\<close>

record parsed =
  pa_heartbeat_master :: "u32 option"
  pa_bus_id :: "u32 option"
  pa_device_type :: "device_type option"
  pa_device_name :: string
  pa_cache_dir :: "string option"
  pa_listen :: "string option"
  pa_api_listen :: "string option"
  pa_api_token :: "string option"

definition parsed_new :: parsed where
  "parsed_new = \<lparr>pa_heartbeat_master = None, pa_bus_id = None, pa_device_type = None, pa_device_name = [],
     pa_cache_dir = None, pa_listen = None, pa_api_listen = None, pa_api_token = None\<rparr>"

lemma nl_CHR: "nl = CHR 0x0A" and dquote_CHR: "dquote = CHR 0x22"
  using char_of_char [of "CHR 0x0A", where ?'a = nat] char_of_char [of "CHR 0x22", where ?'a = nat]
  by (simp_all add: nl_def dquote_def)

definition is_comment :: "char \<Rightarrow> bool" where
  "is_comment c \<longleftrightarrow> c = CHR ''#'' \<or> c = CHR '';''"

definition stripped_line :: "string \<Rightarrow> string" where
  "stripped_line line = rust_trim (hd (split_on is_comment line))"

definition hex_u32 :: "string \<Rightarrow> u32 option" where
  "hex_u32 s = map_option word_of_nat (from_str_radix 32 16 (trim_start_of [''0x''] s))"

definition parse_value :: "nat \<Rightarrow> string \<Rightarrow> string \<Rightarrow> parsed \<Rightarrow> settings_error + parsed" where
  "parse_value lineno key v p =
     (if key = ''heartbeat_master''
      then (case hex_u32 v of
              Some n \<Rightarrow> Inr (p\<lparr>pa_heartbeat_master := Some n\<rparr>)
            | None \<Rightarrow> Inl (Bad_heartbeat_master lineno v))
      else if key = ''bus_id''
      then (case hex_u32 v of
              Some n \<Rightarrow> if bus_id_is_valid n then Inr (p\<lparr>pa_bus_id := Some n\<rparr>) else Inl (Bad_bus_id lineno v)
            | None \<Rightarrow> Inl (Bad_bus_id lineno v))
      else if key = ''device_type''
      then (let t = to_ascii_lowercase v
            in if t = ''can'' \<or> t = ''socketcan'' then Inr (p\<lparr>pa_device_type := Some Can\<rparr>)
               else if t = ''usb'' then Inr (p\<lparr>pa_device_type := Some Usb\<rparr>)
               else Inl (Bad_device_type lineno t))
      else if key = ''device_name'' then Inr (p\<lparr>pa_device_name := v\<rparr>)
      else if key = ''cache_dir'' \<and> v \<noteq> [] then Inr (p\<lparr>pa_cache_dir := Some v\<rparr>)
      else if key = ''listen'' \<and> v \<noteq> [] then Inr (p\<lparr>pa_listen := Some v\<rparr>)
      else if key = ''api_listen'' \<and> v \<noteq> [] then Inr (p\<lparr>pa_api_listen := Some v\<rparr>)
      else if key = ''api_token'' \<and> v \<noteq> [] then Inr (p\<lparr>pa_api_token := Some v\<rparr>)
      else Inr p)"

definition parse_line :: "nat \<Rightarrow> string \<Rightarrow> parsed \<Rightarrow> settings_error + parsed" where
  "parse_line lineno line p =
     (let stripped = stripped_line line
      in if stripped = [] then Inr p
         else (case split_once (CHR ''='') stripped of
             None \<Rightarrow> Inl (Expected_key_value lineno)
           | Some (key, v) \<Rightarrow>
               parse_value lineno (rust_trim key) (rust_trim (trim_matches dquote (rust_trim v))) p))"

fun parse_lines :: "nat \<Rightarrow> string list \<Rightarrow> parsed \<Rightarrow> settings_error + parsed" where
  "parse_lines n [] p = Inr p"
| "parse_lines n (l # ls) p =
     (case parse_line n l p of Inl e \<Rightarrow> Inl e | Inr q \<Rightarrow> parse_lines (n + 1) ls q)"

definition finish_parse :: "string \<Rightarrow> parsed \<Rightarrow> settings_error + file_config" where
  "finish_parse path p =
     (case pa_device_type p of
        None \<Rightarrow> Inl Missing_device_type
      | Some t \<Rightarrow>
          Inr \<lparr>fc_heartbeat_master = pa_heartbeat_master p, fc_bus_id = pa_bus_id p, fc_device_type = t,
             fc_device_name = pa_device_name p, fc_cache_dir = pa_cache_dir p, fc_listen = pa_listen p,
             fc_api_listen = pa_api_listen p, fc_api_token = pa_api_token p, fc_path = path\<rparr>)"

definition parse :: "string \<Rightarrow> string \<Rightarrow> settings_error + file_config" where
  "parse raw path =
     (case parse_lines 1 (rust_lines raw) parsed_new of Inl e \<Rightarrow> Inl e | Inr p \<Rightarrow> finish_parse path p)"

section \<open>Rendering\<close>

definition unlines :: "string list \<Rightarrow> string" where
  "unlines ls = concat (map (\<lambda>l. l @ [nl]) ls)"

definition BUS_ID_COMMENT :: "string list" where
  "BUS_ID_COMMENT =
     [''# This program's own BusID (hex), which it names as the writer of a'',
      ''# switch. Made up once per host, in a device class no Mastervolt product'',
      ''# uses; change it only if a device on the bus has the same id.'']"

definition kv_line :: "string \<Rightarrow> string \<Rightarrow> string" where
  "kv_line key v = key @ '' = '' @ v"

definition opt_line :: "string \<Rightarrow> string \<Rightarrow> string option \<Rightarrow> string" where
  "opt_line key sample v = (case v of Some s \<Rightarrow> kv_line key s | None \<Rightarrow> ''# '' @ kv_line key sample)"

definition render_lines :: "file_config \<Rightarrow> string list" where
  "render_lines cfg =
     [''# masterbus configuration.'',
      ''#'',
      ''# 24-bit hex device id this host announces as bus master'',
      ''# (class-0x05 heartbeats). Comment out to stay passive (a hardware'',
      ''# master must drive the bus, e.g. an EasyView panel).'',
      opt_line ''heartbeat_master'' ''000001'' (map_option (\<lambda>v. fmt_hex 6 (unat v)) (fc_heartbeat_master cfg)),
      []] @
     (case fc_bus_id cfg of
        Some v \<Rightarrow> BUS_ID_COMMENT @ [kv_line ''bus_id'' (fmt_hex 8 (unat v)), []]
      | None \<Rightarrow> []) @
     [''# Transport: \"usb\" for the Mastervolt USB link, \"can\" for SocketCAN.'',
      kv_line ''device_type'' (case fc_device_type cfg of Can \<Rightarrow> ''can'' | Usb \<Rightarrow> ''usb''),
      [],
      ''# When device_type = can: interface name (e.g. can0, vcan0).'',
      ''# When device_type = usb: optional USB-link serial number (blank = first).'',
      kv_line ''device_name'' (fc_device_name cfg),
      [],
      ''# Where to persist discovered schemas (per device, by serial). If the'',
      ''# path isn't writable by the running user, the engine falls back to'',
      ''# $HOME/.cache/masterbus. Comment out to disable on-disk caching.'',
      opt_line ''cache_dir'' ''/var/lib/masterbus'' (fc_cache_dir cfg),
      [],
      ''# Address masterbus-signalk listens on. Comment out for its default'',
      ''# (0.0.0.0:3009). A command-line argument still wins over this.'',
      opt_line ''listen'' ''0.0.0.0:3009'' (fc_listen cfg),
      [],
      ''# Address masterbus-signalk serves its HTTP control API on (what the'',
      ''# Signal K plugin talks to: devices, the mapping, writes). Comment out'',
      ''# to leave the API off. Any address other than loopback also needs'',
      ''# api_token, which a client sends as `Authorization: Bearer <token>`.'',
      opt_line ''api_listen'' ''127.0.0.1:3010'' (fc_api_listen cfg),
      opt_line ''api_token'' ''change-me'' (fc_api_token cfg)]"

definition render :: "file_config \<Rightarrow> string" where
  "render cfg = unlines (render_lines cfg)"

section \<open>Where the file lives\<close>

definition path_join :: "string \<Rightarrow> string \<Rightarrow> string" where
  "path_join d e =
     (if e \<noteq> [] \<and> hd e = CHR ''/'' \<or> d = [] then e
      else if last d = CHR ''/'' then d @ e else d @ CHR ''/'' # e)"

text \<open>The components of a path: empty ones and dots are dropped, but for a leading dot.\<close>

definition path_parts :: "string \<Rightarrow> string list" where
  "path_parts p =
     (let ps = split_on (\<lambda>c. c = CHR ''/'') p
      in (if hd ps = ''.'' then [''.''] else []) @ filter (\<lambda>c. c \<noteq> [] \<and> c \<noteq> ''.'') ps)"

definition path_eq :: "string \<Rightarrow> string \<Rightarrow> bool" where
  "path_eq p q \<longleftrightarrow> (take 1 p = ''/'') = (take 1 q = ''/'') \<and> path_parts p = path_parts q"

definition under_etc :: "string \<Rightarrow> bool" where
  "under_etc p \<longleftrightarrow> p \<noteq> [] \<and> hd p = CHR ''/'' \<and> path_parts p \<noteq> [] \<and> hd (path_parts p) = ''etc''"

text \<open>What the code sees of its host: the environment, the files it can read, the directories it
  can write, the files it can append to or create, and the hardware.\<close>

record settings_host =
  st_config_dir :: "string option"
  st_xdg_config :: "string option"
  st_xdg_cache :: "string option"
  st_home :: "string option"
  st_files :: "string \<rightharpoonup> string"
  st_readable :: "string \<Rightarrow> bool"
  st_is_dir :: "string \<Rightarrow> bool"
  st_dir_writable :: "string \<Rightarrow> bool"
  st_usable_dir :: "string \<Rightarrow> bool"
  st_appendable :: "string \<Rightarrow> bool"
  st_creatable :: "string \<Rightarrow> bool"
  st_usb_link :: "string option"
  st_can_names :: "string list"
  st_net_type :: "string \<Rightarrow> string option"
  st_random :: u64

definition config_dir_override :: "settings_host \<Rightarrow> string option" where
  "config_dir_override h = (case st_config_dir h of Some v \<Rightarrow> if v = [] then None else Some v | None \<Rightarrow> None)"

definition user_config_path :: "settings_host \<Rightarrow> string option" where
  "user_config_path h =
     map_option (\<lambda>base. path_join (path_join base ''masterbus'') ''config.ini'')
       (case st_xdg_config h of Some b \<Rightarrow> Some b
        | None \<Rightarrow> map_option (\<lambda>d. path_join d ''.config'') (st_home h))"

definition user_cache_dir :: "settings_host \<Rightarrow> string option" where
  "user_cache_dir h =
     map_option (\<lambda>base. path_join base ''masterbus'')
       (case st_xdg_cache h of Some b \<Rightarrow> Some b
        | None \<Rightarrow> map_option (\<lambda>d. path_join d ''.cache'') (st_home h))"

definition resolve_path_with :: "string option \<Rightarrow> settings_host \<Rightarrow> settings_error + string" where
  "resolve_path_with config_dir h =
     (case config_dir of
        Some dir \<Rightarrow> Inr (path_join dir ''config.ini'')
      | None \<Rightarrow>
          let sys_dir = ''/etc/default/masterbus''; sys_path = path_join sys_dir ''config.ini''
          in if st_files h sys_path \<noteq> None then Inr sys_path
             else if (if st_is_dir h sys_dir then st_dir_writable h sys_dir else st_dir_writable h ''/etc/default'')
             then Inr sys_path
             else (case user_config_path h of Some p \<Rightarrow> Inr p | None \<Rightarrow> Inl No_config_path))"

definition resolve_path :: "settings_host \<Rightarrow> settings_error + string" where
  "resolve_path h = resolve_path_with (config_dir_override h) h"

definition default_cache_dir_with :: "string \<Rightarrow> string option \<Rightarrow> settings_host \<Rightarrow> string option" where
  "default_cache_dir_with config_path config_dir h =
     (case config_dir of
        Some dir \<Rightarrow> Some (path_join dir ''cache'')
      | None \<Rightarrow> if under_etc config_path then Some ''/var/lib/masterbus'' else user_cache_dir h)"

definition default_cache_dir :: "string \<Rightarrow> settings_host \<Rightarrow> string option" where
  "default_cache_dir config_path h = default_cache_dir_with config_path (config_dir_override h) h"

definition resolve_cache_dir :: "string \<Rightarrow> settings_host \<Rightarrow> string option" where
  "resolve_cache_dir requested h =
     (if st_usable_dir h requested then Some requested
      else (case user_cache_dir h of
          None \<Rightarrow> None
        | Some user_cache \<Rightarrow>
            if path_eq requested user_cache then None
            else if st_usable_dir h user_cache then Some user_cache else None))"

section \<open>Loading and creating\<close>

definition list_can_interfaces :: "settings_host \<Rightarrow> string list" where
  "list_can_interfaces h =
     sort (filter (\<lambda>name. map_option rust_trim (st_net_type h name) = Some ''280'') (st_can_names h))"

definition detected_config :: "device_type \<Rightarrow> string \<Rightarrow> file_config" where
  "detected_config t name =
     \<lparr>fc_heartbeat_master = None, fc_bus_id = None, fc_device_type = t, fc_device_name = name,
      fc_cache_dir = None, fc_listen = None, fc_api_listen = None, fc_api_token = None, fc_path = []\<rparr>"

definition autodetect :: "settings_host \<Rightarrow> settings_error + file_config" where
  "autodetect h =
     (case st_usb_link h of
        Some serial \<Rightarrow> Inr (detected_config Usb serial)
      | None \<Rightarrow>
          (case list_can_interfaces h of
             [] \<Rightarrow> Inl No_hardware
           | [one] \<Rightarrow> Inr (detected_config Can one)
           | many \<Rightarrow> Inl (Many_interfaces many)))"

definition add_bus_id_text :: "u32 \<Rightarrow> string" where
  "add_bus_id_text v = nl # unlines (BUS_ID_COMMENT @ [kv_line ''bus_id'' (fmt_hex 8 (unat v))])"

definition add_bus_id :: "string \<Rightarrow> settings_host \<Rightarrow> u32 option \<times> settings_host" where
  "add_bus_id path h =
     (let v = bus_id_generate (st_random h)
      in case st_files h path of
           Some raw \<Rightarrow>
             if st_appendable h path
             then (Some v, h\<lparr>st_files := (st_files h)(path \<mapsto> raw @ add_bus_id_text v)\<rparr>) else (None, h)
         | None \<Rightarrow> (None, h))"

definition load_or_create :: "settings_host \<Rightarrow> (settings_error + file_config) \<times> settings_host" where
  "load_or_create h =
     (case resolve_path h of
        Inl e \<Rightarrow> (Inl e, h)
      | Inr path \<Rightarrow>
          (case st_files h path of
             Some raw \<Rightarrow>
               if \<not> st_readable h path then (Inl Cannot_read, h)
               else (case parse raw path of
                   Inl e \<Rightarrow> (Inl e, h)
                 | Inr cfg \<Rightarrow>
                     if fc_bus_id cfg = None
                     then (case add_bus_id path h of (b, h1) \<Rightarrow> (Inr (cfg\<lparr>fc_bus_id := b\<rparr>), h1))
                     else (Inr cfg, h))
           | None \<Rightarrow>
               (case autodetect h of
                  Inl e \<Rightarrow> (Inl e, h)
                | Inr detected \<Rightarrow>
                    let cfg = detected\<lparr>fc_cache_dir := default_cache_dir path h,
                                       fc_bus_id := Some (bus_id_generate (st_random h))\<rparr>
                    in if st_creatable h path
                       then (Inr (cfg\<lparr>fc_path := path\<rparr>), h\<lparr>st_files := (st_files h)(path \<mapsto> render cfg)\<rparr>)
                       else (Inl Cannot_create, h))))"

section \<open>Lines and values\<close>

text \<open>A value that survives: visible at both ends, no quote there, no comment character or line
  end within.\<close>

definition clean :: "string \<Rightarrow> bool" where
  "clean v \<longleftrightarrow> list_all (\<lambda>c. \<not> is_comment c \<and> c \<noteq> nl) v \<and>
     (v = [] \<or> visible (hd v) \<and> hd v \<noteq> dquote \<and> visible (last v) \<and> last v \<noteq> dquote)"

lemma trim_matches_clean: "v = [] \<or> hd v \<noteq> c \<and> last v \<noteq> c \<Longrightarrow> trim_matches c v = v"
proof -
  have s: "v = [] \<or> hd v \<noteq> c \<Longrightarrow> trim_start_of [[c]] v = v" for v
    by (cases v) (auto simp: trim_start_of_id)
  assume "v = [] \<or> hd v \<noteq> c \<and> last v \<noteq> c"
  then show ?thesis
    using s [of v] s [of "rev v"] by (auto simp: trim_matches_def trim_end_of_def hd_rev)
qed

definition line_ok :: "string \<Rightarrow> bool" where
  "line_ok l \<longleftrightarrow> nl \<notin> set l \<and> (l = [] \<or> last l \<noteq> cr)"

lemma rust_lines_unlines: "list_all line_ok ls \<Longrightarrow> rust_lines (unlines ls @ t) = ls @ rust_lines t"
  by (induction ls) (auto simp: unlines_def rust_lines_cons line_ok_def)

lemma parse_lines_append:
  "parse_lines n (ls @ ms) p =
     (case parse_lines n ls p of Inl e \<Rightarrow> Inl e | Inr q \<Rightarrow> parse_lines (n + length ls) ms q)"
  by (induction ls arbitrary: n p) (auto split: sum.split)

lemma rust_trim_Nil [simp]: "rust_trim [] = []"
  by (rule rust_trim_visible) simp

lemma stripped_comment: "stripped_line (CHR ''#'' # s) = []"
  by (simp add: stripped_line_def is_comment_def)

lemma stripped_blank: "stripped_line [] = []"
  by (simp add: stripped_line_def)

lemma parse_line_skip [simp]:
  "parse_line n (CHR ''#'' # s) p = Inr p" "parse_line n [] p = Inr p"
  by (simp_all add: parse_line_def stripped_comment stripped_blank)

definition word_key :: "string \<Rightarrow> bool" where
  "word_key k \<longleftrightarrow> k \<noteq> [] \<and> list_all (\<lambda>c. visible c \<and> \<not> is_comment c \<and> c \<noteq> CHR ''='') k"

lemma space_trims:
  "trim_start_of white_space (CHR '' '' # s) = trim_start_of white_space s"
  "trim_end_of white_space (s @ '' '') = trim_end_of white_space s"
proof -
  have sp: "CHR '' '' = char_of (32 :: nat)"
    using char_of_char [of "CHR '' ''", where ?'a = nat] by simp
  have "find_prefix white_space (CHR '' '' # s) = Some s" for s
    unfolding sp by (simp add: white_space_def bytes_str_def)
  then show "trim_start_of white_space (CHR '' '' # s) = trim_start_of white_space s" for s
    by (simp add: trim_start_of.simps [of _ "CHR '' '' # s"])
  have "find_prefix (map rev white_space) (CHR '' '' # s) = Some s" for s
    unfolding sp by (simp add: white_space_def bytes_str_def)
  then show "trim_end_of white_space (s @ '' '') = trim_end_of white_space s"
    by (simp add: trim_end_of_def trim_start_of.simps [of _ "CHR '' '' # rev s"])
qed

lemma trim_spaced:
  "s = [] \<or> visible (hd s) \<and> visible (last s) \<Longrightarrow> rust_trim (CHR '' '' # s) = s"
  "s = [] \<or> visible (hd s) \<and> visible (last s) \<Longrightarrow> rust_trim (s @ '' '') = s"
proof -
  show a: "s = [] \<or> visible (hd s) \<and> visible (last s) \<Longrightarrow> rust_trim (CHR '' '' # s) = s" for s
    using rust_trim_visible [of s] by (simp add: rust_trim_def space_trims)
  assume s: "s = [] \<or> visible (hd s) \<and> visible (last s)"
  show "rust_trim (s @ '' '') = s"
  proof (cases "s = []")
    case True
    then show ?thesis using a [of "[]"] by simp
  next
    case False
    then have "trim_start_of white_space (s @ '' '') = s @ '' ''" using s by (intro trim_start_visible) simp
    moreover have "trim_start_of white_space s = s" using s by (intro trim_start_visible) blast
    ultimately show ?thesis using rust_trim_visible [OF s] by (simp add: rust_trim_def space_trims)
  qed
qed

lemma parse_line_kv:
  assumes k: "word_key key" and v: "clean v"
  shows "parse_line n (kv_line key v) p = parse_value n key v p"
proof -
  have kv: "visible (hd key)" "visible (last key)" "key \<noteq> []" "CHR ''='' \<notin> set key"
    using k by (auto simp: word_key_def list_all_iff visible_def)
  have eq: "visible (CHR ''='')" "\<not> is_comment (CHR ''='')" "\<not> is_comment (CHR '' '')"
    by (simp_all add: visible_def is_comment_def)
  have "list_all (\<lambda>c. \<not> is_comment c) (key @ '' = '' @ v)"
    using k v eq by (auto simp: word_key_def clean_def list_all_iff)
  then have s: "stripped_line (key @ '' = '' @ v) = rust_trim (key @ '' = '' @ v)"
    by (simp add: stripped_line_def split_on_none)
  have t: "rust_trim (key @ '' = '' @ v) = (key @ '' '') @ CHR ''='' # (if v = [] then [] else CHR '' '' # v)"
  proof (cases "v = []")
    case True
    have "rust_trim ((key @ '' ='') @ '' '') = key @ '' =''"
      by (rule trim_spaced(2)) (use kv eq in simp)
    with True show ?thesis by simp
  next
    case False
    with v kv have "rust_trim (key @ '' = '' @ v) = key @ '' = '' @ v"
      by (intro rust_trim_visible) (auto simp: clean_def)
    with False show ?thesis by simp
  qed
  have o: "split_once (CHR ''='') ((key @ '' '') @ CHR ''='' # r) = Some (key @ '' '', r)" for r
    by (rule split_once_append) (use kv in simp)
  have vt: "rust_trim (if v = [] then [] else CHR '' '' # v) = v"
    using v trim_spaced(1) [of v] by (auto simp: clean_def)
  have vq: "trim_matches dquote v = v" by (rule trim_matches_clean) (use v in \<open>auto simp: clean_def\<close>)
  have vv: "rust_trim v = v" by (rule rust_trim_visible) (use v in \<open>auto simp: clean_def\<close>)
  have kt: "rust_trim (key @ '' '') = key" by (rule trim_spaced(2)) (use kv in simp)
  have ne: "(key @ '' '') @ CHR ''='' # r \<noteq> []" for r by simp
  show ?thesis
    unfolding kv_line_def parse_line_def s t Let_def o option.case prod.case vt vq vv kt using ne by simp
qed

lemma parse_opt_line:
  assumes "word_key key" and "\<And>s. v = Some s \<Longrightarrow> clean s"
  shows "parse_line n (opt_line key sample v) p = (case v of Some s \<Rightarrow> parse_value n key s p | None \<Rightarrow> Inr p)"
  using assms parse_line_kv by (auto simp: opt_line_def split: option.split)

section \<open>What the rendered values read as\<close>

lemma upper_hex_digit: "d < 16 \<Longrightarrow> hex_digit_val (digit_char d) = Some d \<and> visible (digit_char d)
    \<and> digit_char d \<noteq> dquote \<and> \<not> is_comment (digit_char d) \<and> digit_char d \<noteq> nl \<and> digit_char d \<noteq> CHR ''+'' \<and> digit_char d \<noteq> CHR ''x''"
proof -
  have c: "of_char c \<noteq> (of_char d :: nat) \<Longrightarrow> c \<noteq> d" for c d :: char by auto
  assume "d < 16"
  then consider "d < 10" | "10 \<le> d" "d < 16" by linarith
  then show ?thesis
    by cases (auto simp: digit_char_def hex_digit_val_def visible_def is_comment_def dquote_def nl_def Let_def intro!: c)
qed

definition hex_text :: "string \<Rightarrow> bool" where
  "hex_text s \<longleftrightarrow> list_all (\<lambda>c. \<exists>d < 16. c = digit_char d) s"

lemma hex_text_chars:
  assumes "hex_text s" and "c \<in> set s"
  shows "visible c \<and> c \<noteq> dquote \<and> \<not> is_comment c \<and> c \<noteq> nl \<and> c \<noteq> CHR ''+'' \<and> c \<noteq> CHR ''x''"
proof -
  obtain d where "d < 16" "c = digit_char d" using assms by (auto simp: hex_text_def list_all_iff)
  then show ?thesis using upper_hex_digit [of d] by simp
qed

lemma hex_text_digits: "hex_text (digits_in 16 n)"
proof (induction "16 :: nat" n rule: digits_in.induct)
  case (1 n)
  show ?case
  proof (cases "n < 16")
    case True
    then show ?thesis by (auto simp: digits_in.simps [of 16 n] hex_text_def)
  next
    case False
    with 1 have "hex_text (digits_in 16 (n div 16))" by simp
    moreover have "\<exists>d < 16. digit_char (n mod 16) = digit_char d" by (intro exI [of _ "n mod 16"]) simp
    ultimately show ?thesis using False by (simp add: digits_in.simps [of 16 n] hex_text_def)
  qed
qed

lemma hex_text_fmt: "hex_text (fmt_hex w n)" "fmt_hex w n \<noteq> []"
proof -
  have "CHR ''0'' = digit_char 0" using char_of_char [of "CHR ''0''", where ?'a = nat] by (simp add: digit_char_def)
  then have "hex_text (replicate k (CHR ''0''))" for k by (auto simp: hex_text_def list_all_iff intro!: exI [of _ 0])
  then show "hex_text (fmt_hex w n)" using hex_text_digits [of n] by (simp add: fmt_hex_def Let_def hex_text_def)
  show "fmt_hex w n \<noteq> []"
    by (simp add: fmt_hex_def Let_def digits_in.simps [of 16 n])
qed

lemma radix_digits_hex: "hex_text s \<Longrightarrow> radix_digits 16 a s = Some (foldl (\<lambda>a c. a * 16 + digit_val c) a s)"
  by (induction s arbitrary: a) (auto simp: hex_text_def upper_hex_digit)

lemma clean_hex: "hex_text s \<Longrightarrow> s \<noteq> [] \<Longrightarrow> clean s"
  using hex_text_chars [of s] hex_text_chars [of s "hd s"] hex_text_chars [of s "last s"]
  by (auto simp: clean_def list_all_iff)

lemma hex_u32_fmt: "hex_u32 (fmt_hex w (unat n)) = Some n" for n :: u32
proof -
  let ?s = "fmt_hex w (unat n)"
  obtain c cs where s: "?s = c # cs" using hex_text_fmt(2) by (cases ?s) auto
  obtain d where d: "d < 16" "c = digit_char d" using hex_text_fmt(1) [of w "unat n"] unfolding s by (auto simp: hex_text_def)
  have x: "list_all (\<lambda>c. c \<noteq> CHR ''x'') ?s"
    using hex_text_chars [OF hex_text_fmt(1)] by (auto simp: list_all_iff)
  then have "find_prefix [''0x''] ?s = None" by (cases cs) (auto simp: s)
  then have t: "trim_start_of [''0x''] ?s = ?s" by (rule trim_start_of_id)
  have "radix_digits 16 0 ?s = Some (unat n)"
    using radix_digits_hex [OF hex_text_fmt(1)] undigits_fmt_hex by (simp add: undigits_def)
  moreover have "unat n < 2 ^ 32" using unsigned_less [of n, where 'a = nat] by simp
  ultimately show ?thesis
    using d upper_hex_digit [OF d(1)] t by (simp add: hex_u32_def from_str_radix_def s Let_def)
qed

section \<open>Rendering and parsing\<close>

definition opt_clean :: "string option \<Rightarrow> bool" where
  "opt_clean v = (case v of Some s \<Rightarrow> clean s \<and> s \<noteq> [] | None \<Rightarrow> True)"

definition config_clean :: "file_config \<Rightarrow> bool" where
  "config_clean cfg \<longleftrightarrow>
     clean (fc_device_name cfg) \<and> opt_clean (fc_cache_dir cfg) \<and> opt_clean (fc_listen cfg) \<and>
     opt_clean (fc_api_listen cfg) \<and> opt_clean (fc_api_token cfg) \<and>
     (case fc_bus_id cfg of Some b \<Rightarrow> bus_id_is_valid b | None \<Rightarrow> True)"

lemma keys: "word_key ''heartbeat_master''" "word_key ''bus_id''" "word_key ''device_type''"
    "word_key ''device_name''" "word_key ''cache_dir''" "word_key ''listen''" "word_key ''api_listen''"
    "word_key ''api_token''"
  by (simp_all add: word_key_def visible_def is_comment_def)

lemma parse_bus_id_line:
  "bus_id_is_valid b \<Longrightarrow> parse_line n (kv_line ''bus_id'' (fmt_hex 8 (unat b))) p = Inr (p\<lparr>pa_bus_id := Some b\<rparr>)"
  using parse_line_kv [OF keys(2) clean_hex [OF hex_text_fmt, of 8 "unat b"], of n p]
  by (simp add: parse_value_def hex_u32_fmt)

lemma parse_device_type_line:
  "parse_line n (kv_line ''device_type'' (case t of Can \<Rightarrow> ''can'' | Usb \<Rightarrow> ''usb'')) p = Inr (p\<lparr>pa_device_type := Some t\<rparr>)"
proof -
  have "clean (case t of Can \<Rightarrow> ''can'' | Usb \<Rightarrow> ''usb'')"
    by (cases t) (simp_all add: clean_def visible_def is_comment_def dquote_CHR nl_CHR)
  from parse_line_kv [OF keys(3) this, of n p] show ?thesis
    by (cases t) (simp_all add: parse_value_def to_ascii_lowercase_def Let_def)
qed

lemma parse_device_name_line:
  "clean v \<Longrightarrow> parse_line n (kv_line ''device_name'' v) p = Inr (p\<lparr>pa_device_name := v\<rparr>)"
  using parse_line_kv [OF keys(4), of v n p] by (simp add: parse_value_def)

lemma parse_heartbeat_line:
  "parse_line n (opt_line ''heartbeat_master'' sample (map_option (\<lambda>v. fmt_hex 6 (unat v)) m)) p =
     Inr (case m of Some v \<Rightarrow> p\<lparr>pa_heartbeat_master := Some v\<rparr> | None \<Rightarrow> p)"
  using parse_opt_line [OF keys(1), of "map_option (\<lambda>v. fmt_hex 6 (unat v)) m"] clean_hex [OF hex_text_fmt]
  by (auto simp: parse_value_def hex_u32_fmt split: option.split)

lemma parse_string_lines:
  "opt_clean v \<Longrightarrow> parse_line n (opt_line ''cache_dir'' sample v) p = Inr (case v of Some s \<Rightarrow> p\<lparr>pa_cache_dir := Some s\<rparr> | None \<Rightarrow> p)"
  "opt_clean v \<Longrightarrow> parse_line n (opt_line ''listen'' sample v) p = Inr (case v of Some s \<Rightarrow> p\<lparr>pa_listen := Some s\<rparr> | None \<Rightarrow> p)"
  "opt_clean v \<Longrightarrow> parse_line n (opt_line ''api_listen'' sample v) p = Inr (case v of Some s \<Rightarrow> p\<lparr>pa_api_listen := Some s\<rparr> | None \<Rightarrow> p)"
  "opt_clean v \<Longrightarrow> parse_line n (opt_line ''api_token'' sample v) p = Inr (case v of Some s \<Rightarrow> p\<lparr>pa_api_token := Some s\<rparr> | None \<Rightarrow> p)"
  using parse_opt_line [OF keys(5), of v] parse_opt_line [OF keys(6), of v] parse_opt_line [OF keys(7), of v]
    parse_opt_line [OF keys(8), of v]
  by (auto simp: parse_value_def opt_clean_def split: option.splits)

lemmas parse_rendered = parse_heartbeat_line parse_device_type_line parse_device_name_line parse_string_lines
  parse_bus_id_line

lemma parse_render_lines:
  "config_clean cfg \<Longrightarrow> parse_lines n (render_lines cfg) parsed_new =
     Inr \<lparr>pa_heartbeat_master = fc_heartbeat_master cfg, pa_bus_id = fc_bus_id cfg,
       pa_device_type = Some (fc_device_type cfg), pa_device_name = fc_device_name cfg,
       pa_cache_dir = fc_cache_dir cfg, pa_listen = fc_listen cfg, pa_api_listen = fc_api_listen cfg,
       pa_api_token = fc_api_token cfg\<rparr>"
  unfolding config_clean_def
  by (cases "fc_bus_id cfg")
     (auto simp: render_lines_def BUS_ID_COMMENT_def parse_rendered parsed_new_def split: option.split)

lemma cr_CHR: "cr = CHR 0x0D"
  using char_of_char [of "CHR 0x0D", where ?'a = nat] by (simp add: cr_def)

lemma line_ok_kv:
  assumes "word_key key" and "clean v"
  shows "line_ok (kv_line key v)"
proof -
  have n: "\<not> visible nl" "\<not> visible cr" by (simp_all add: visible_def nl_CHR cr_CHR)
  have "nl \<notin> set key" using assms(1) n(1) by (auto simp: word_key_def list_all_iff)
  moreover have "nl \<notin> set v" using assms(2) by (auto simp: clean_def list_all_iff)
  moreover have "v \<noteq> [] \<Longrightarrow> last v \<noteq> cr" using assms(2) n(2) by (auto simp: clean_def)
  ultimately show ?thesis by (cases "v = []") (simp_all add: line_ok_def kv_line_def nl_CHR cr_CHR)
qed

lemma line_ok_opt:
  assumes "word_key key" and "\<And>s. v = Some s \<Longrightarrow> clean s" and "line_ok (kv_line key sample)"
  shows "line_ok (opt_line key sample v)"
  using assms line_ok_kv by (auto simp: opt_line_def line_ok_def nl_CHR kv_line_def split: option.split)

lemma line_ok_bus_id: "list_all line_ok BUS_ID_COMMENT" "line_ok (kv_line ''bus_id'' (fmt_hex 8 n))"
  by (simp_all add: BUS_ID_COMMENT_def line_ok_def nl_CHR cr_CHR)
     (use line_ok_kv [OF keys(2) clean_hex [OF hex_text_fmt]] in \<open>auto simp: line_ok_def nl_CHR cr_CHR\<close>)

lemma render_lines_ok: "config_clean cfg \<Longrightarrow> list_all line_ok (render_lines cfg)"
proof -
  assume c: "config_clean cfg"
  have s: "line_ok (kv_line ''heartbeat_master'' ''000001'')" "line_ok (kv_line ''cache_dir'' ''/var/lib/masterbus'')"
    "line_ok (kv_line ''listen'' ''0.0.0.0:3009'')" "line_ok (kv_line ''api_listen'' ''127.0.0.1:3010'')"
    "line_ok (kv_line ''api_token'' ''change-me'')"
    by (simp_all add: line_ok_def kv_line_def nl_CHR cr_CHR)
  have o: "line_ok (opt_line ''heartbeat_master'' ''000001'' (map_option (\<lambda>v. fmt_hex 6 (unat v)) (fc_heartbeat_master cfg)))"
    "line_ok (opt_line ''cache_dir'' ''/var/lib/masterbus'' (fc_cache_dir cfg))"
    "line_ok (opt_line ''listen'' ''0.0.0.0:3009'' (fc_listen cfg))"
    "line_ok (opt_line ''api_listen'' ''127.0.0.1:3010'' (fc_api_listen cfg))"
    "line_ok (opt_line ''api_token'' ''change-me'' (fc_api_token cfg))"
    using c clean_hex [OF hex_text_fmt] by (auto intro!: line_ok_opt keys s simp: config_clean_def opt_clean_def)
  have d: "line_ok (kv_line ''device_name'' (fc_device_name cfg))"
    using c by (intro line_ok_kv keys) (simp add: config_clean_def)
  have t: "line_ok (kv_line ''device_type'' (case fc_device_type cfg of Can \<Rightarrow> ''can'' | Usb \<Rightarrow> ''usb''))"
    by (cases "fc_device_type cfg") (simp_all add: line_ok_def kv_line_def nl_CHR cr_CHR)
  show ?thesis
    unfolding render_lines_def
    using o d t line_ok_bus_id by (simp add: line_ok_def nl_CHR cr_CHR split: option.split)
qed

lemma parse_render:
  assumes "config_clean cfg"
  shows "parse (render cfg) path = Inr (cfg\<lparr>fc_path := path\<rparr>)"
proof -
  have "rust_lines (render cfg) = render_lines cfg"
    using rust_lines_unlines [of "render_lines cfg" "[]"] render_lines_ok [OF assms]
    by (simp add: render_def line_ok_def)
  then show ?thesis by (simp add: parse_def parse_render_lines [OF assms] finish_parse_def)
qed

section \<open>Appending a BusID\<close>

lemma split_on_append: "P d \<Longrightarrow> split_on P (s @ d # t) = split_on P s @ split_on P t"
  by (induction s) (auto split: list.splits)

lemma split_on_blank [simp]: "split_on P s = [[]] \<longleftrightarrow> s = []"
  by (cases s) (auto split: list.splits)

lemma last_split_on: "last (split_on P s) \<noteq> [] \<Longrightarrow> s \<noteq> [] \<and> last (last (split_on P s)) = last s"
proof (induction s)
  case (Cons c s)
  obtain w ws where w: "split_on P s = w # ws" by (cases "split_on P s") auto
  show ?case
  proof (cases "s = []")
    case True
    with Cons.prems show ?thesis by (auto split: if_splits)
  next
    case False
    then have "split_on P s \<noteq> [[]]" by simp
    with False Cons w show ?thesis by (auto split: if_splits)
  qed
qed simp

lemma rust_lines_append_line:
  assumes "s = [] \<or> last s \<noteq> cr"
  shows "\<exists>ls. rust_lines (s @ nl # t) = ls @ rust_lines t \<and>
     (\<forall>n p. parse_lines n ls p = parse_lines n (rust_lines s) p)"
proof -
  let ?ps = "split_on (\<lambda>c. c = nl) s"
  have "last ?ps = [] \<or> last (last ?ps) \<noteq> cr" using last_split_on [of "\<lambda>c. c = nl" s] assms by auto
  then have l: "strip_cr (last ?ps) = last ?ps" by (auto simp: strip_cr_def)
  have ps: "?ps = butlast ?ps @ [last ?ps]" by simp
  have "map strip_cr ?ps = map strip_cr (butlast ?ps) @ [last ?ps]"
    by (subst ps) (simp only: map_append list.map l)
  moreover have "rust_lines (s @ nl # t) = map strip_cr ?ps @ rust_lines t"
    by (simp add: rust_lines_def Let_def split_on_append butlast_append)
  ultimately show ?thesis
    by (intro exI [of _ "map strip_cr ?ps"]) (auto simp: rust_lines_def Let_def parse_lines_append split: sum.split)
qed

lemma parse_add_bus_id:
  assumes "parse raw path = Inr cfg" and "raw = [] \<or> last raw \<noteq> cr" and "bus_id_is_valid b"
  shows "parse (raw @ add_bus_id_text b) path = Inr (cfg\<lparr>fc_bus_id := Some b\<rparr>)"
proof -
  obtain p where p: "parse_lines 1 (rust_lines raw) parsed_new = Inr p" "finish_parse path p = Inr cfg"
    using assms(1) by (auto simp: parse_def split: sum.splits)
  let ?ms = "BUS_ID_COMMENT @ [kv_line ''bus_id'' (fmt_hex 8 (unat b))]"
  have m: "rust_lines (unlines ?ms) = ?ms"
    using rust_lines_unlines [of ?ms "[]"] line_ok_bus_id by simp
  obtain ls where "rust_lines (raw @ nl # unlines ?ms) = ls @ ?ms"
    "\<forall>n p. parse_lines n ls p = parse_lines n (rust_lines raw) p"
    using rust_lines_append_line [OF assms(2), of "unlines ?ms"] m by auto
  then have "parse_lines 1 (rust_lines (raw @ add_bus_id_text b)) parsed_new = Inr (p\<lparr>pa_bus_id := Some b\<rparr>)"
    using p(1) by (simp add: add_bus_id_text_def parse_lines_append BUS_ID_COMMENT_def parse_bus_id_line [OF assms(3)])
  then show ?thesis using p(2) by (auto simp: parse_def finish_parse_def split: option.splits)
qed

lemma bus_id_generate_valid: "bus_id_is_valid (bus_id_generate h)"
proof -
  define low :: u32 where "low = max (ucast h AND 0x3FFFF) 1"
  have low: "bit low n \<Longrightarrow> n < 18" for n
    by (auto simp: low_def max_def mask_simps bit_simps split: if_splits)
  have g: "bus_id_generate h = 0x1C000000 OR low"
    by (simp add: bus_id_generate_def bus_id_CLASS_def low_def)
  have "low AND 0xE0FC0000 = 0"
  proof (rule bit_word_eqI)
    fix n :: nat
    have "n < 18 \<Longrightarrow> \<not> bit (0xE0FC0000 :: u32) n" by (simp add: bit_iff_odd_drop_bit less_Suc_eq numeral_eq_Suc) auto
    then show "bit (low AND 0xE0FC0000) n = bit 0 n" using low [of n] by (auto simp: bit_simps)
  qed
  moreover have "drop_bit 24 low = 0" by (rule bit_word_eqI) (use low in \<open>force simp: bit_simps\<close>)
  ultimately show ?thesis
    by (simp add: bus_id_is_valid_def g bit.conj_disj_distrib2)
qed

section \<open>Properties\<close>

lemma resolve_path_after:
  "resolve_path h = Inr path \<Longrightarrow> resolve_path (h\<lparr>st_files := (st_files h)(path \<mapsto> text)\<rparr>) = Inr path"
  by (auto simp: resolve_path_def resolve_path_with_def config_dir_override_def user_config_path_def Let_def
      split: option.splits if_splits)

lemma parse_path: "parse raw path = Inr cfg \<Longrightarrow> fc_path cfg = path"
  by (auto simp: parse_def finish_parse_def split: sum.splits option.splits)



text \<open>Loading the configuration is stable: when it has given one with a BusID (read, completed by
  an appended BusID, or created from the hardware found), loading again gives the same one and
  changes nothing on disk, so the BusID stays the same from run to run.\<close>

theorem load_is_stable:
  assumes "load_or_create h = (Inr cfg, h')" and "fc_bus_id cfg \<noteq> None" and "st_readable h (fc_path cfg)"
    and created: "st_files h (fc_path cfg) = None \<Longrightarrow> config_clean cfg"
    and appended: "\<And>raw. st_files h (fc_path cfg) = Some raw \<Longrightarrow> raw = [] \<or> last raw \<noteq> cr"
  shows "load_or_create h' = (Inr cfg, h')"
proof -
  obtain path where path: "resolve_path h = Inr path"
    using assms(1) by (auto simp: load_or_create_def split: sum.splits)
  show ?thesis
  proof (cases "st_files h path")
    case (Some raw)
    then obtain cfg0 where r: "st_readable h path" "parse raw path = Inr cfg0"
      and l: "(if fc_bus_id cfg0 = None
           then (case add_bus_id path h of (b, h1) \<Rightarrow> (Inr (cfg0\<lparr>fc_bus_id := b\<rparr>), h1))
           else (Inr cfg0, h)) = (Inr cfg :: settings_error + file_config, h')"
      using assms(1) path by (auto simp: load_or_create_def split: sum.splits if_splits)
    have p: "fc_path cfg = path" using l parse_path [OF r(2)] by (auto split: if_splits prod.splits)
    show ?thesis
    proof (cases "fc_bus_id cfg0 = None")
      case False
      with l path Some r show ?thesis by (auto simp: load_or_create_def)
    next
      case True
      let ?b = "bus_id_generate (st_random h)"
      let ?h = "h\<lparr>st_files := (st_files h)(path \<mapsto> raw @ add_bus_id_text ?b)\<rparr>"
      have c: "cfg = cfg0\<lparr>fc_bus_id := Some ?b\<rparr>" and h': "h' = ?h"
        using l True Some assms(2) by (auto simp: add_bus_id_def Let_def split: if_splits)
      have "parse (raw @ add_bus_id_text ?b) path = Inr cfg"
        unfolding c by (rule parse_add_bus_id [OF r(2) appended bus_id_generate_valid]) (simp add: p Some)
      moreover have "fc_bus_id cfg \<noteq> None" using c by simp
      ultimately show ?thesis
        unfolding h' using resolve_path_after [OF path] r(1) by (auto simp: load_or_create_def)
    qed
  next
    case None
    then obtain detected where d: "autodetect h = Inr detected" and cr: "st_creatable h path"
      and c: "cfg = detected\<lparr>fc_cache_dir := default_cache_dir path h,
                             fc_bus_id := Some (bus_id_generate (st_random h)), fc_path := path\<rparr>"
      and h': "h' = h\<lparr>st_files := (st_files h)(path \<mapsto> render (cfg\<lparr>fc_path := fc_path detected\<rparr>))\<rparr>"
      using assms(1) path by (auto simp: load_or_create_def Let_def split: sum.splits if_splits)
    have p: "fc_path cfg = path" by (simp add: c)
    have "config_clean (cfg\<lparr>fc_path := fc_path detected\<rparr>)"
      using created None p by (simp add: config_clean_def)
    then have "parse (render (cfg\<lparr>fc_path := fc_path detected\<rparr>)) path = Inr cfg"
      using parse_render [of _ path] p by (metis (no_types, lifting) file_config.surjective file_config.update_convs(9))
    then show ?thesis
      unfolding h' using resolve_path_after [OF path] assms(2,3) p by (auto simp: load_or_create_def)
  qed
qed

definition example_host :: settings_host where
  "example_host =
     \<lparr>st_config_dir = Some ''/run/mb'', st_xdg_config = None, st_xdg_cache = None, st_home = None,
      st_files = Map.empty, st_readable = (\<lambda>_. True), st_is_dir = (\<lambda>_. False), st_dir_writable = (\<lambda>_. False),
      st_usable_dir = (\<lambda>_. True), st_appendable = (\<lambda>_. True), st_creatable = (\<lambda>_. True),
      st_usb_link = None, st_can_names = [''can0''], st_net_type = [''can0'' \<mapsto> ''280''], st_random = 7\<rparr>"

lemma load_is_stable_witness:
  "\<exists>cfg h'. load_or_create example_host = (Inr cfg, h') \<and> load_or_create h' = (Inr cfg, h')"
proof -
  let ?cfg = "\<lparr>fc_heartbeat_master = None, fc_bus_id = Some 0x1C000007, fc_device_type = Can, fc_device_name = ''can0'',
      fc_cache_dir = Some ''/run/mb/cache'', fc_listen = None, fc_api_listen = None, fc_api_token = None,
      fc_path = ''/run/mb/config.ini''\<rparr>"
  have t: "rust_trim ''280'' = ''280''" by (rule rust_trim_visible) (simp add: visible_def)
  have l: "load_or_create example_host = (Inr ?cfg, example_host
      \<lparr>st_files := [''/run/mb/config.ini'' \<mapsto> render (?cfg\<lparr>fc_path := []\<rparr>)]\<rparr>)"
    by (simp add: load_or_create_def example_host_def resolve_path_def resolve_path_with_def config_dir_override_def
        path_join_def autodetect_def list_can_interfaces_def t detected_config_def default_cache_dir_def
        default_cache_dir_with_def bus_id_generate_def bus_id_CLASS_def max_def word_le_nat_alt)
  have "load_or_create (example_host\<lparr>st_files := [''/run/mb/config.ini'' \<mapsto> render (?cfg\<lparr>fc_path := []\<rparr>)]\<rparr>) =
      (Inr ?cfg, example_host\<lparr>st_files := [''/run/mb/config.ini'' \<mapsto> render (?cfg\<lparr>fc_path := []\<rparr>)]\<rparr>)"
    by (rule load_is_stable [OF l])
       (simp_all add: example_host_def config_clean_def opt_clean_def clean_def visible_def is_comment_def
         bus_id_is_valid_def nl_CHR dquote_CHR)
  with l show ?thesis by blast
qed

text \<open>A comment character inside a value ends it: a token with \<open>#\<close> in it is cut there.\<close>

lemma token_cut_at_comment:
  assumes "clean v" and "v \<noteq> []" and "is_comment c"
  shows "parse_line n (kv_line ''api_token'' (v @ c # rest)) p = Inr (p\<lparr>pa_api_token := Some v\<rparr>)"
proof -
  have "list_all (\<lambda>c. \<not> is_comment c) (kv_line ''api_token'' v)"
    using assms(1) by (auto simp: kv_line_def clean_def is_comment_def list_all_iff)
  then have "stripped_line (kv_line ''api_token'' v @ c # rest) = stripped_line (kv_line ''api_token'' v)"
    using assms(3) by (simp add: stripped_line_def split_on_append_sep split_on_none)
  then have "parse_line n (kv_line ''api_token'' (v @ c # rest)) p = parse_line n (kv_line ''api_token'' v) p"
    by (simp add: parse_line_def kv_line_def)
  then show ?thesis using assms by (simp add: parse_line_kv keys parse_value_def)
qed

end
