(* ===== verification/Api.thy ===== *)
theory Api
  imports Engine Settings
begin

text \<open>
  The navigator: \<open>crates/masterbus/src/api.rs\<close>. A handle is the ids it holds; its methods are
  functions on the scheduler's state through the engine's calls. The choice of a transport is
  reduced to the configuration it is opened with.
\<close>

section \<open>Connecting through the config file\<close>

text \<open>\<open>file_config\<close> of the source: what the caller leaves open is taken from the file.\<close>

definition complete_config :: "settings_host \<Rightarrow> file_config \<Rightarrow> config \<Rightarrow> config" where
  "complete_config h f cfg =
     (let c1 = (if cf_heartbeat_master cfg = None then cfg\<lparr>cf_heartbeat_master := fc_heartbeat_master f\<rparr> else cfg);
          c2 = (if cf_bus_id c1 = None then c1\<lparr>cf_bus_id := fc_bus_id f\<rparr> else c1)
      in if cf_cache_path c2 = None
         then (case fc_cache_dir f of
                 Some requested \<Rightarrow> c2\<lparr>cf_cache_path := resolve_cache_dir requested h\<rparr>
               | None \<Rightarrow> c2)
         else c2)"

definition completed_config :: "config \<Rightarrow> settings_host \<Rightarrow> (settings_error + Settings.file_config \<times> config) \<times> settings_host" where
  "completed_config cfg h =
     (case load_or_create h of
        (Inl e, h1) \<Rightarrow> (Inl e, h1)
      | (Inr f, h1) \<Rightarrow> (Inr (f, complete_config h1 f cfg), h1))"

text \<open>
  \<open>joined_transport\<close>: the relay of a daemon when \<open>find\<close> gives one among the cache folders,
  else the transport of the file; without a file and without a relay, its error.
\<close>

datatype 'r joined = Relay_at 'r | From_file Settings.file_config

definition relay_dirs :: "config \<Rightarrow> settings_host \<Rightarrow> string list" where
  "relay_dirs cfg h =
     (case cf_cache_path cfg of Some d \<Rightarrow> [d] | None \<Rightarrow> []) @
     (case user_cache_dir h of Some d \<Rightarrow> [d] | None \<Rightarrow> [])"

definition joined_transport ::
  "(string list \<Rightarrow> 'r option) \<Rightarrow> u64 \<Rightarrow> config \<Rightarrow> settings_host \<Rightarrow>
     (settings_error + 'r joined \<times> config) \<times> settings_host" where
  "joined_transport relay_find random cfg h =
     (let (r, h1) = completed_config cfg h;
          c1 = (case r of Inr (f, c) \<Rightarrow> c | Inl e \<Rightarrow> cfg);
          c2 = (case cf_bus_id c1 of Some b \<Rightarrow> c1 | None \<Rightarrow> c1\<lparr>cf_bus_id := Some (bus_id_generate random)\<rparr>)
      in case relay_find (relay_dirs c2 h1) of
           Some t \<Rightarrow> (Inr (Relay_at t, c2\<lparr>cf_heartbeat_master := None\<rparr>), h1)
         | None \<Rightarrow> (case r of Inl e \<Rightarrow> Inl e | Inr (f, c) \<Rightarrow> Inr (From_file f, c2), h1))"

text \<open>\<open>open_file_transport\<close> on Linux, over the two functions that open a link.\<close>

definition open_file_transport ::
  "(string option \<Rightarrow> 't result) \<Rightarrow> (string \<Rightarrow> 't result) \<Rightarrow> Settings.file_config \<Rightarrow> 't result" where
  "open_file_transport open_usb open_can f =
     (let name = (if fc_device_name f = [] then None else Some (fc_device_name f))
      in case fc_device_type f of
           Usb \<Rightarrow> open_usb name
         | Can \<Rightarrow> open_can (case name of Some n \<Rightarrow> n | None \<Rightarrow> ''can0''))"

section \<open>Devices\<close>

definition state_schema_ready :: "u32 \<Rightarrow> sched \<Rightarrow> device_schema result" where
  "state_schema_ready addr s = (case state_schema addr (b_state s) of Some sch \<Rightarrow> Inr sch | None \<Rightarrow> Inl NotReady)"

definition device_schema_of :: "u32 \<Rightarrow> device_schema result call" where
  "device_schema_of addr s =
     do {
       (r, s1) \<leftarrow> ensure_schema addr s;
       Some (case r of Inl e \<Rightarrow> Inl e | Inr u \<Rightarrow> state_schema_ready addr s1, s1)
     }"

definition device_groups :: "u32 \<Rightarrow> int list result call" where
  "device_groups addr s =
     map_option (\<lambda>(r, s1). (map_sum id (\<lambda>sch. map gi_id (ds_groups sch)) r, s1)) (device_schema_of addr s)"

definition tab_info :: "u32 \<Rightarrow> menu \<Rightarrow> group_info list result call" where
  "tab_info addr m s =
     do {
       (r, s1) \<leftarrow> ensure_menu addr m s;
       Some (case r of
           Inl e \<Rightarrow> Inl e
         | Inr u \<Rightarrow> map_sum id (\<lambda>sch. filter (\<lambda>g. gi_menu g = m) (ds_groups sch)) (state_schema_ready addr s1), s1)
     }"

definition device_tab :: "u32 \<Rightarrow> menu \<Rightarrow> int list result call" where
  "device_tab addr m s = map_option (\<lambda>(r, s1). (map_sum id (map gi_id) r, s1)) (tab_info addr m s)"

definition all_fields :: "u32 \<Rightarrow> field_info list result call" where
  "all_fields addr s =
     do {
       (r, s1) \<leftarrow> ensure_all_fields addr s;
       Some (case r of
           Inl e \<Rightarrow> Inl e
         | Inr u \<Rightarrow> (case state_all_fields addr (b_state s1) of Some fs \<Rightarrow> Inr fs | None \<Rightarrow> Inl NotReady), s1)
     }"

text \<open>\<open>Device::eventable_outputs\<close>: the names of the known eventable fields, each field once, in
  the order of their ids.\<close>

fun add_eventable :: "field_info list \<Rightarrow> (field_id \<times> string) list \<Rightarrow> (field_id \<times> string) list" where
  "add_eventable [] evt = evt"
| "add_eventable (f # fs) evt =
     add_eventable fs (if fi_eventable f \<and> fi_index f \<notin> fst ` set evt then evt @ [(fi_index f, fi_name f)] else evt)"

definition eventable_names :: "u32 \<Rightarrow> dev_table \<Rightarrow> string list" where
  "eventable_names addr st =
     (let e1 = (case state_schema addr st of
                  Some sch \<Rightarrow> add_eventable (concat (map gi_fields (ds_groups sch))) []
                | None \<Rightarrow> []);
          e2 = (case state_all_fields addr st of Some fs \<Rightarrow> add_eventable fs e1 | None \<Rightarrow> e1)
      in map snd (sort_key fst e2))"

definition login :: "u32 \<Rightarrow> access_level \<Rightarrow> f32 \<Rightarrow> access_level result call" where
  "login addr l code = engine_set_access_level addr l (Some code)"

definition logout :: "u32 \<Rightarrow> access_level result call" where
  "logout addr = engine_set_access_level addr EndUser None"

text \<open>The presence of a device, its identity strings and one of its fields.\<close>

definition device_presence :: "u32 \<Rightarrow> sched \<Rightarrow> device_status" where
  "device_presence addr s = device_status_of (b_clock s) (cf_liveness (sc_config s)) addr (b_state s)"

definition on_ok :: "('a \<Rightarrow> 'b) \<Rightarrow> 'a result call \<Rightarrow> 'b result call" where
  "on_ok f c s = map_option (\<lambda>(r, s1). (map_sum id f r, s1)) (c s)"

definition device_name :: "u32 \<Rightarrow> string result call" where
  "device_name addr = on_ok di_name (engine_identity addr)"

definition device_article :: "u32 \<Rightarrow> string result call" where
  "device_article addr = on_ok di_article (engine_identity addr)"

definition cached_access_level :: "u32 \<Rightarrow> sched \<Rightarrow> access_level option" where
  "cached_access_level addr s = state_access_level addr (b_state s)"

section \<open>Groups\<close>

definition find_group :: "int \<Rightarrow> device_schema \<Rightarrow> group_info option" where
  "find_group gid sch = find (\<lambda>g. gi_id g = gid) (ds_groups sch)"

definition group_of :: "u32 \<Rightarrow> int \<Rightarrow> group_info result call" where
  "group_of addr gid s =
     (case Option.bind (state_schema addr (b_state s)) (find_group gid) of
        Some g \<Rightarrow> Some (Inr g, s)
      | None \<Rightarrow> do {
          (r, s1) \<leftarrow> ensure_schema addr s;
          Some (case r of
              Inl e \<Rightarrow> Inl e
            | Inr u \<Rightarrow>
                (case Option.bind (state_schema addr (b_state s1)) (find_group gid) of
                   Some g \<Rightarrow> Inr g | None \<Rightarrow> Inl (GroupNotAvailable gid)), s1)
        })"

definition group_fields :: "u32 \<Rightarrow> int \<Rightarrow> field_id list result call" where
  "group_fields addr gid = on_ok (\<lambda>g. map fi_index (gi_fields g)) (group_of addr gid)"

definition group_menu :: "u32 \<Rightarrow> int \<Rightarrow> menu result call" where
  "group_menu addr gid = on_ok gi_menu (group_of addr gid)"

section \<open>Fields\<close>

definition field_info_of :: "u32 \<Rightarrow> field_id \<Rightarrow> field_info result call" where
  "field_info_of addr fid s =
     do {
       (r, s1) \<leftarrow> ensure_field addr fid s;
       Some (case r of
           Inl e \<Rightarrow> Inl e
         | Inr u \<Rightarrow> (case state_field_info addr fid (b_state s1) of
             Some f \<Rightarrow> Inr f | None \<Rightarrow> Inl (FieldNotAvailable (int (unat fid)))), s1)
     }"

definition field_is_writable :: "u32 \<Rightarrow> field_id \<Rightarrow> bool result call" where
  "field_is_writable addr fid = on_ok fi_writeable (field_info_of addr fid)"

definition MAX_EDITABLE_TEXT_BYTES :: nat where "MAX_EDITABLE_TEXT_BYTES = 16"

fun check_text_bytes :: "nat \<Rightarrow> nat \<Rightarrow> string \<Rightarrow> unit result" where
  "check_text_bytes got i [] = Inr ()"
| "check_text_bytes got i (c # cs) =
     (let b = of_char c :: nat
      in if b = 0 then Inl (InvalidText got (''embedded NUL at byte '' @ fmt_dec i))
         else if b < 0x20 \<or> 0x7E < b
         then Inl (InvalidText got (''non-printable byte 0x'' @ fmt_hex 2 b @ '' at byte '' @ fmt_dec i))
         else check_text_bytes got (i + 1) cs)"

definition validate_editable_text :: "string \<Rightarrow> unit result" where
  "validate_editable_text s =
     (if MAX_EDITABLE_TEXT_BYTES < length s
      then Inl (InvalidText (length s) (''too long (max '' @ fmt_dec MAX_EDITABLE_TEXT_BYTES @ '')''))
      else check_text_bytes (length s) 0 s)"

definition write_value_for :: "viz \<Rightarrow> bus_value \<Rightarrow> write_value result" where
  "write_value_for viz v =
     (case viz of
        Viz_Float \<Rightarrow> (case v of Float f \<Rightarrow> Inr (WFloat f) | _ \<Rightarrow> Inl (WrongType ''Float''))
      | CheckBox \<Rightarrow> (case v of Boolean b \<Rightarrow> Inr (WBool b) | _ \<Rightarrow> Inl (WrongType ''Boolean''))
      | ToggleButton \<Rightarrow> (case v of Boolean b \<Rightarrow> Inr (WBool b) | _ \<Rightarrow> Inl (WrongType ''Boolean''))
      | PushButton \<Rightarrow> (case v of Boolean b \<Rightarrow> Inr (WBool b) | _ \<Rightarrow> Inl (WrongType ''Boolean''))
      | Radio \<Rightarrow> (case v of List index _ \<Rightarrow> Inr (WListIndex index) | _ \<Rightarrow> Inl (WrongType ''List''))
      | DropDown \<Rightarrow> (case v of List index _ \<Rightarrow> Inr (WListIndex index) | _ \<Rightarrow> Inl (WrongType ''List''))
      | EventCommand \<Rightarrow> (case v of List index _ \<Rightarrow> Inr (WListIndex index) | _ \<Rightarrow> Inl (WrongType ''List''))
      | Viz_Eventable \<Rightarrow> (case v of Eventable index _ \<Rightarrow> Inr (WListIndex index) | _ \<Rightarrow> Inl (WrongType ''Eventable''))
      | DeviceList \<Rightarrow> (case v of DeviceRef index _ \<Rightarrow> Inr (WListIndex index) | _ \<Rightarrow> Inl (WrongType ''DeviceRef''))
      | Viz_Text \<Rightarrow> (case v of Text sid text \<Rightarrow> Inr (WText sid text) | _ \<Rightarrow> Inl (WrongType ''Text''))
      | GrayVisualization \<Rightarrow> Inl (WrongType ''a writable type'')
      | Viz_Date \<Rightarrow> Inl (WrongType ''a writable type'')
      | Viz_Time \<Rightarrow> Inl (WrongType ''a writable type''))"

text \<open>The checks of \<open>Field::set\<close> on a field's metadata: the write to send, or its refusal.\<close>

definition set_request :: "field_info \<Rightarrow> bus_value \<Rightarrow> write_value result" where
  "set_request f v =
     (if \<not> fi_writeable f then Inl ReadOnly
      else (case write_value_for (fi_viz f) v of
          Inl e \<Rightarrow> Inl e
        | Inr wv \<Rightarrow>
            (case wv of
               WText sid text \<Rightarrow> (case validate_editable_text text of Inl e \<Rightarrow> Inl e | Inr u \<Rightarrow> Inr wv)
             | _ \<Rightarrow> Inr wv)))"

definition field_set :: "u32 \<Rightarrow> field_id \<Rightarrow> bus_value \<Rightarrow> bus_value result call" where
  "field_set addr fid v s =
     do {
       (r, s1) \<leftarrow> field_info_of addr fid s;
       (case r of
          Inl e \<Rightarrow> Some (Inl e, s1)
        | Inr f \<Rightarrow>
            (case set_request f v of
               Inl e \<Rightarrow> Some (Inl e, s1)
             | Inr wv \<Rightarrow> engine_write addr fid wv s1))
     }"

definition field_value :: "u32 \<Rightarrow> field_id \<Rightarrow> bus_value result call" where
  "field_value addr fid s = engine_read addr fid (cf_max_age (sc_config s)) s"

definition field_set_output :: "u32 \<Rightarrow> field_id \<Rightarrow> bool \<Rightarrow> bus_value result call" where
  "field_set_output addr fid on = engine_set_output addr fid on"

definition field_subscribe :: "u32 \<Rightarrow> field_id \<Rightarrow> nat \<Rightarrow> bool \<Rightarrow> nat \<Rightarrow> sched \<Rightarrow> (nat \<times> nat \<times> sched) option" where
  "field_subscribe addr fid interval change_only = engine_subscribe addr [fid] interval change_only"

end
