(* ===== verification/Texts.thy ===== *)
theory Texts
  imports Writes
begin

text \<open> Texts over the bus: writing one chunk by chunk (\<open>do_write_string\<close> of
  \<open>crates/masterbus/src/runtime/scheduler.rs\<close>) and fetching it back
  (\<open>fetch_str_wire\<close> of \<open>runtime/discovery.rs\<close>), against whatever the devices answer.
  Every frame that can arrive is in the queue at the start or is brought by a frame sent later
  (\<open>incoming\<close>); the chunks of a write are acknowledged by some of these. A device that keeps
  texts is a predicate on what the bus answers, over the log of what was sent (\<open>text_device\<close>).
  \<close>

section \<open>What a frame does to the wait for a chunk\<close>

definition answers :: "string \<Rightarrow> frame \<Rightarrow> bool" where
  "answers k f \<longleftrightarrow>
     (let g = frame_from_raw (fst f) (snd f)
      in waiter_key_for_frame (mf_can_class g) (mf_device_addr g) (snd f) = Some k)"

lemma str_key_not_value: "str_key a sid sq \<noteq> value_key b fid"
  by (simp add: key_defs)

lemma handle_message_slot:
  assumes "\<And>a fid. k \<noteq> value_key a fid"
  shows "sh_waiter (handle_message now f s) k = sh_waiter s k"
proof -
  have t: "sh_waiter (take_value now a fid raw t) k = sh_waiter t k" for a fid raw t
    using assms by (auto simp: take_value_def deliver_def split: option.split)
  have "sh_waiter (other_tab_value now f t) k = sh_waiter t k" for t
    by (auto simp: other_tab_value_def t split: option.split prod.split kind.split bool.split)
  then show ?thesis
    by (auto simp: handle_message_def t split: mb_message.split)
qed

lemma handle_frame_slot:
  assumes k: "k = str_key a sid sq"
  shows "sh_waiter (handle_frame now (fst f) (snd f) s) k =
    (if answers k f then map_option (\<lambda>sl. sl\<lparr>sl_data := Some (snd f)\<rparr>) (sh_waiter s k) else sh_waiter s k)"
proof -
  have m: "sh_waiter (handle_message now g t) k = sh_waiter t k" for g t
    by (rule handle_message_slot) (simp add: k str_key_not_value)
  show ?thesis
    by (auto simp: handle_frame_def Let_def m answers_def deliver_def split: option.split)
qed

text \<open>What the slot of a key holds; a slot registered and not cancelled.\<close>

definition slot_data :: "string \<Rightarrow> 'a bus_scheme \<Rightarrow> bytes option" where
  "slot_data k b = Option.bind (b_waiter b k) sl_data"

definition slot_open :: "string \<Rightarrow> 'a bus_scheme \<Rightarrow> bool" where
  "slot_open k b \<longleftrightarrow> (\<exists>d. b_waiter b k = Some \<lparr>sl_data = d, sl_cancelled = False\<rparr>)"

lemma slot_blocked: "slot_open k b \<Longrightarrow> blocked k (b_waiter b) \<longleftrightarrow> slot_data k b = None"
  by (auto simp: slot_open_def slot_data_def blocked_def)

lemma slot_register [simp]: "slot_open k (bus_register k b)" "slot_data k (bus_register k b) = None"
  by (simp_all add: slot_open_def slot_data_def register_def)

lemma slot_arrive:
  assumes "k = str_key a sid sq"
  shows "slot_open k b \<Longrightarrow> slot_open k (arrive u f b)"
    and "slot_open k b \<Longrightarrow> slot_data k (arrive u f b) = (if answers k f then Some (snd f) else slot_data k b)"
  using handle_frame_slot [OF assms, of _ f]
  by (auto simp: slot_open_def slot_data_def arrive_def Let_def)

lemma run_until_slot_open: "k = str_key a sid sq \<Longrightarrow> slot_open k b \<Longrightarrow> slot_open k (run_until c t q b)"
  by (induction c t q b rule: run_until.induct) (auto simp: slot_arrive(1), auto simp: slot_open_def)

lemma run_until_slot_from:
  assumes "k = str_key a sid sq" and "slot_open k b" and "slot_data k (run_until c t q b) = Some d"
  shows "slot_data k b = Some d \<or> (\<exists>(u, g) \<in> set q. u \<le> t \<and> answers k g \<and> snd g = d)"
  using assms(2,3)
proof (induction c t q b rule: run_until.induct)
  case (2 c t u f q b)
  show ?case
  proof (cases "c (b_waiter b) \<and> u \<le> t")
    case True
    have "slot_open k (arrive u f b)" by (rule slot_arrive(1) [OF assms(1) 2(2)])
    with True 2 have "slot_data k (arrive u f b) = Some d \<or> (\<exists>(u, g) \<in> set q. u \<le> t \<and> answers k g \<and> snd g = d)"
      by simp
    then show ?thesis using True slot_arrive(2) [OF assms(1) 2(2), of u f] by (auto split: if_splits)
  next
    case False
    with 2(3) show ?thesis by (auto simp: slot_data_def split: if_splits)
  qed
qed (simp add: slot_data_def)

lemma run_until_slot_filled:
  assumes k: "k = str_key a sid sq"
  shows "slot_open k b \<Longrightarrow> sorted (map fst q) \<Longrightarrow> (u, g) \<in> set q \<Longrightarrow> u \<le> t \<Longrightarrow> answers k g \<Longrightarrow>
    slot_data k (run_until (blocked k) t q b) \<noteq> None"
proof (induction "blocked k" t q b rule: run_until.induct)
  case (2 t v f q b)
  show ?case
  proof (cases "blocked k (b_waiter b)")
    case False
    with 2(2) show ?thesis by (simp add: slot_blocked [OF 2(2)]) (simp add: slot_data_def)
  next
    case True
    have v: "v \<le> t" using 2(3,4,5) by auto
    show ?thesis
    proof (cases "(u, g) = (v, f)")
      case True
      then have "slot_data k (arrive v f b) \<noteq> None" "slot_open k (arrive v f b)"
        using 2(2,6) slot_arrive [OF k 2(2)] by auto
      then have "\<not> blocked k (b_waiter (arrive v f b))" by (simp add: slot_blocked)
      then have "b_waiter (run_until (blocked k) t q (arrive v f b)) = b_waiter (arrive v f b)"
        by (rule run_until_stop)
      with \<open>slot_data k (arrive v f b) \<noteq> None\<close> v \<open>blocked k (b_waiter b)\<close> show ?thesis
        by (simp add: slot_data_def)
    next
      case False
      have "slot_open k (arrive v f b)" by (rule slot_arrive(1) [OF k 2(2)])
      moreover have "(u, g) \<in> set q" using 2(4) False by auto
      ultimately have "slot_data k (run_until (blocked k) t q (arrive v f b)) \<noteq> None"
        using 2(1,3,5,6) v \<open>blocked k (b_waiter b)\<close> by simp
      with v \<open>blocked k (b_waiter b)\<close> show ?thesis by simp
    qed
  qed
qed simp

lemma run_until_queue: "set (b_queue (run_until c t q b)) \<subseteq> set q"
  by (induction c t q b rule: run_until.induct) auto

text \<open>The wait: what it returns came in time, and it returns when something comes in time.\<close>

lemma bus_wait_slot:
  assumes "slot_open k b" and "k = str_key a sid sq"
  shows "fst (bus_wait k d b) = slot_data k (bus_await (blocked k) d b)"
    and "fst (bus_wait_or_keep k d b) = slot_data k (bus_await (blocked k) d b)"
proof -
  have o: "slot_open k (bus_await (blocked k) d b)"
    using run_until_slot_open [OF assms(2,1)] by (simp add: bus_await_def)
  then show "fst (bus_wait k d b) = slot_data k (bus_await (blocked k) d b)"
    by (auto simp: bus_wait_def Let_def collect_def slot_open_def slot_data_def)
  show "fst (bus_wait_or_keep k d b) = slot_data k (bus_await (blocked k) d b)"
    using o by (auto simp: bus_wait_or_keep_def collect_or_keep_def blocked_def Let_def collect_def slot_open_def slot_data_def)
qed

lemma await_slot_from:
  assumes "k = str_key a sid sq" and "slot_open k b" and "slot_data k (bus_await c d b) = Some x"
  shows "slot_data k b = Some x \<or> (\<exists>(u, g) \<in> set (b_queue b). u \<le> b_clock b + d \<and> answers k g \<and> snd g = x)"
  using run_until_slot_from [OF assms(1,2), of c] assms(3) by (simp add: bus_await_def)

lemma await_slot_filled:
  assumes "k = str_key a sid sq" and "slot_open k b" and "sorted (map fst (b_queue b))"
    and "(u, g) \<in> set (b_queue b)" and "u \<le> b_clock b + d" and "answers k g"
  shows "slot_data k (bus_await (blocked k) d b) \<noteq> None"
  using run_until_slot_filled [OF assms] by (simp add: bus_await_def)

lemma waits_queue:
  "set (b_queue (bus_await c d b)) \<subseteq> set (b_queue b)" "set (b_queue (snd (bus_wait k d b))) \<subseteq> set (b_queue b)"
  "set (b_queue (snd (bus_wait_or_keep k d b))) \<subseteq> set (b_queue b)" "set (b_queue (bus_sleep d b)) \<subseteq> set (b_queue b)"
  by (simp_all add: bus_await_def bus_wait_def bus_wait_or_keep_def bus_sleep_def Let_def run_until_queue)

lemma await_slot_open: "k = str_key a sid sq \<Longrightarrow> slot_open k b \<Longrightarrow> slot_open k (bus_await c d b)"
  by (simp add: bus_await_def run_until_slot_open)

section \<open>Everything that can arrive\<close>

text \<open>The frames the bus brings for one frame sent, and for all of those sent, with their
  times.\<close>

definition replies ::
  "((nat \<times> frame) list \<Rightarrow> (nat \<times> frame) list) \<Rightarrow> (nat \<times> frame) list \<Rightarrow> nat \<times> frame \<Rightarrow> (nat \<times> frame) list" where
  "replies net log x = map (\<lambda>(d, g). (fst x + d, g)) (net (log @ [x]))"

fun incoming ::
  "((nat \<times> frame) list \<Rightarrow> (nat \<times> frame) list) \<Rightarrow> (nat \<times> frame) list \<Rightarrow> (nat \<times> frame) list \<Rightarrow> (nat \<times> frame) list" where
  "incoming net log [] = []"
| "incoming net log (x # xs) = replies net log x @ incoming net (log @ [x]) xs"

lemma incoming_append: "incoming net log (xs @ ys) = incoming net log xs @ incoming net (log @ xs) ys"
  by (induction xs arbitrary: log) simp_all

text \<open>A later state of the same bus: what was sent since, and the queue it can have.\<close>

definition tracks :: "'a bus_scheme \<Rightarrow> (nat \<times> frame) list \<Rightarrow> 'a bus_scheme \<Rightarrow> bool" where
  "tracks s0 sent s \<longleftrightarrow>
     b_sent s = b_sent s0 @ sent \<and> b_net s = b_net s0 \<and>
     set (b_queue s) \<subseteq> set (b_queue s0 @ incoming (b_net s0) (b_sent s0) sent)"

lemma tracks_refl: "tracks s [] s"
  by (simp add: tracks_def)

lemma tracks_waits:
  "tracks s0 sent s \<Longrightarrow> tracks s0 sent (bus_register k s)"
  "tracks s0 sent s \<Longrightarrow> tracks s0 sent (bus_sleep d s)"
  "tracks s0 sent s \<Longrightarrow> tracks s0 sent (snd (bus_wait k d s))"
proof -
  show "tracks s0 sent s \<Longrightarrow> tracks s0 sent (bus_register k s)"
    by (simp add: tracks_def)
  show "tracks s0 sent s \<Longrightarrow> tracks s0 sent (bus_sleep d s)"
    using subset_trans [OF waits_queue(4) [of d s]] by (simp add: tracks_def)
  show "tracks s0 sent s \<Longrightarrow> tracks s0 sent (snd (bus_wait k d s))"
    using subset_trans [OF waits_queue(2) [of k d s]] by (simp add: tracks_def)
qed

lemma queue_send: "set (b_queue (bus_send f s)) = set (b_queue s) \<union> set (replies (b_net s) (b_sent s) (b_clock s, f))"
  by (simp add: bus_send_def Let_def replies_def)

lemma queue_sorted [simp]: "sorted (map fst (b_queue (bus_send f s)))"
  by (simp add: bus_send_def Let_def)

lemma tracks_send:
  "tracks s0 sent s \<Longrightarrow> tracks s0 (sent @ [(b_clock s, f)]) (bus_send f s)"
  using queue_send [of f s] by (auto simp: tracks_def incoming_append)

lemma pace_bus:
  fixes s :: sched
  shows "tracks s0 sent s \<Longrightarrow> tracks s0 sent (pace s)"
    and "k = str_key a sid sq \<Longrightarrow> slot_open k s \<Longrightarrow> slot_open k (pace s)"
    and "b_clock s \<le> b_clock (pace s)"
    and "k = str_key a sid sq \<Longrightarrow> slot_open k s \<Longrightarrow> slot_data k (pace s) = Some x \<Longrightarrow>
      slot_data k s = Some x \<or> (\<exists>(u, g) \<in> set (b_queue s). u \<le> b_clock (pace s) \<and> answers k g \<and> snd g = x)"
proof -
  have w: "b_waiter (t\<lparr>sc_last_send := l\<rparr>) = b_waiter t" "b_queue (t\<lparr>sc_last_send := l\<rparr>) = b_queue t" for t :: sched and l
    by simp_all
  show "tracks s0 sent s \<Longrightarrow> tracks s0 sent (pace s)"
    using tracks_waits(2) [of s0 sent s] by (auto simp: pace_def Let_def tracks_def)
  show "k = str_key a sid sq \<Longrightarrow> slot_open k s \<Longrightarrow> slot_open k (pace s)"
    using await_slot_open [of k a sid sq s] by (auto simp: pace_def Let_def bus_sleep_def slot_open_def)
  show "b_clock s \<le> b_clock (pace s)" by (simp add: pace_def Let_def) arith
  show "slot_data k s = Some x \<or> (\<exists>(u, g) \<in> set (b_queue s). u \<le> b_clock (pace s) \<and> answers k g \<and> snd g = x)"
    if k: "k = str_key a sid sq" "slot_open k s" "slot_data k (pace s) = Some x"
  proof (cases "b_clock s - sc_last_send s < cf_min_send_interval (sc_config s)")
    case True
    let ?d = "cf_min_send_interval (sc_config s) - (b_clock s - sc_last_send s)"
    have a: "slot_data k (bus_await (\<lambda>_. True) ?d s) = Some x" and c: "b_clock s + ?d = b_clock (pace s)"
      using k(3) True bus_sleep_clock [of ?d s] by (simp_all add: pace_def Let_def slot_data_def bus_sleep_def)
    show ?thesis using await_slot_from [OF k(1,2) a] unfolding c .
  next
    case False
    with k(3) show ?thesis by (simp add: pace_def Let_def slot_data_def)
  qed
qed

section \<open>Writing a text\<close>

lemma concat_chunks4 [simp]: "concat (chunks4 xs) = xs"
  by (induction xs rule: chunks4.induct) simp_all

lemma length_chunks4: "length (chunks4 xs) = (length xs + 3) div 4"
  by (induction xs rule: chunks4.induct) simp_all

lemma length_str_bytes [simp]: "length (str_bytes s) = length s"
  by (simp add: str_bytes_def)

text \<open>The frames of a text: its chunks of up to four bytes, then the terminator.\<close>

definition text_chunks :: "string \<Rightarrow> bytes list" where
  "text_chunks text = chunks4 (str_bytes text) @ [[0x00]]"

definition chunk_frame :: "u32 \<Rightarrow> u16 \<Rightarrow> nat \<times> bytes \<Rightarrow> frame" where
  "chunk_frame addr sid x = string_chunk_write_raw addr sid (word_of_nat (fst x)) (snd x)"

definition text_frames :: "u32 \<Rightarrow> u16 \<Rightarrow> string \<Rightarrow> frame list" where
  "text_frames addr sid text = map (chunk_frame addr sid) (List.enumerate 0 (text_chunks text))"

lemma length_text_frames [simp]: "length (text_frames addr sid text) = length (text_chunks text)"
  by (simp add: text_frames_def)

lemma send_chunks_append:
  "send_chunks addr sid (cs @ [(i, c)]) s =
     (case send_chunks addr sid cs s of
        (Inl e, s1) \<Rightarrow> (Inl e, s1)
      | (Inr u, s1) \<Rightarrow> send_string_chunk addr sid (word_of_nat i) c s1)"
proof (induction cs arbitrary: s)
  case Nil
  show ?case by (auto split: prod.split sum.split)
next
  case (Cons x cs)
  then show ?case by (cases x) (auto split: prod.split sum.split)
qed

lemma do_write_string_chunks:
  "do_write_string addr sid text s = send_chunks addr sid (List.enumerate 0 (text_chunks text)) s"
  by (simp add: do_write_string_def text_chunks_def enumerate_append_eq send_chunks_append length_chunks4 Let_def
      split: prod.split sum.split)

text \<open> Chunk \<open>i\<close> of a write that began in \<open>s\<close>, the \<open>i\<close>-th frame
  sent since, is acknowledged when a frame that answers it can have arrived within the time the write waits
  for it; and unanswered when the bus brought no such frame for it. \<close>

definition chunk_acked :: "u32 \<Rightarrow> u16 \<Rightarrow> sched \<Rightarrow> (nat \<times> frame) list \<Rightarrow> nat \<Rightarrow> bool" where
  "chunk_acked addr sid s sent i \<longleftrightarrow>
     list_ex (\<lambda>(u, g). u \<le> fst (sent ! i) + VALUE_READ_TIMEOUT_MONITORING \<and> answers (str_key addr sid (word_of_nat i)) g)
       (b_queue s @ incoming (b_net s) (b_sent s) (take (Suc i) sent))"

definition chunk_unanswered :: "u32 \<Rightarrow> u16 \<Rightarrow> sched \<Rightarrow> (nat \<times> frame) list \<Rightarrow> nat \<Rightarrow> bool" where
  "chunk_unanswered addr sid s sent i \<longleftrightarrow>
     \<not> list_ex (\<lambda>(u, g). u \<le> fst (sent ! i) + VALUE_READ_TIMEOUT_MONITORING \<and> answers (str_key addr sid (word_of_nat i)) g)
       (replies (b_net s) (b_sent s @ take i sent) (sent ! i))"

lemma chunk_acked_append: "i < length sent \<Longrightarrow> chunk_acked addr sid s (sent @ new) i = chunk_acked addr sid s sent i"
  by (simp add: chunk_acked_def nth_append)

lemma one_chunk:
  assumes "tracks s0 sent s" and i: "i = length sent"
  shows "\<exists>t r s'. send_string_chunk addr sid (word_of_nat i) c s = (r, s') \<and>
    tracks s0 (sent @ [(t, chunk_frame addr sid (i, c))]) s' \<and>
    (r = Inr () \<and> chunk_acked addr sid s0 (sent @ [(t, chunk_frame addr sid (i, c))]) i \<or>
     r = Inl Timeout \<and> chunk_unanswered addr sid s0 (sent @ [(t, chunk_frame addr sid (i, c))]) i)"
proof -
  let ?k = "str_key addr sid (word_of_nat i)" and ?f = "chunk_frame addr sid (i, c)"
  let ?T = "VALUE_READ_TIMEOUT_MONITORING"
  let ?p = "pace (bus_register ?k s)"
  let ?b = "bus_send ?f ?p" and ?t = "b_clock ?p"
  let ?w = "bus_wait ?k ?T ?b"
  let ?sent = "sent @ [(?t, ?f)]"
  have p: "tracks s0 sent ?p" "slot_open ?k ?p" "slot_data ?k ?p = Some x \<Longrightarrow>
      \<exists>(u, g) \<in> set (b_queue s). u \<le> ?t \<and> answers ?k g \<and> snd g = x" for x
    using pace_bus(1) [OF tracks_waits(1) [OF assms(1)], of ?k] pace_bus(2,4) [OF refl slot_register(1) [of ?k s]]
    by simp_all
  have b: "slot_open ?k ?b" "slot_data ?k ?b = slot_data ?k ?p"
    using p(2) by (simp_all add: slot_open_def slot_data_def)
  have tb: "tracks s0 ?sent ?b" using tracks_send [OF p(1)] .
  have d: "send_string_chunk addr sid (word_of_nat i) c s =
      ((case fst ?w of Some d \<Rightarrow> Inr () | None \<Rightarrow> Inl Timeout), snd ?w)"
    by (simp add: send_string_chunk_def sched_send_def chunk_frame_def Let_def case_prod_beta)
  have w: "fst ?w = slot_data ?k (bus_await (blocked ?k) ?T ?b)" by (rule bus_wait_slot [OF b(1) refl])
  have q: "set (b_queue s) \<subseteq> set (b_queue s0 @ incoming (b_net s0) (b_sent s0) ?sent)"
    using assms(1) by (auto simp: tracks_def incoming_append)
  have qb: "set (b_queue ?b) \<subseteq> set (b_queue s0 @ incoming (b_net s0) (b_sent s0) ?sent)"
    using tb by (simp add: tracks_def)
  have acked: "chunk_acked addr sid s0 ?sent i"
    if "(u, g) \<in> set (b_queue s0 @ incoming (b_net s0) (b_sent s0) ?sent)" "u \<le> ?t + ?T" "answers ?k g" for u g
    unfolding chunk_acked_def list_ex_iff using that i by (intro bexI [of _ "(u, g)"]) (simp_all add: nth_append)
  show ?thesis
  proof (cases "fst ?w")
    case (Some x)
    have "slot_data ?k ?b = Some x \<or> (\<exists>(u, g) \<in> set (b_queue ?b). u \<le> b_clock ?b + ?T \<and> answers ?k g \<and> snd g = x)"
      by (rule await_slot_from [OF refl b(1) trans [OF w [symmetric] Some]])
    then have "chunk_acked addr sid s0 ?sent i"
    proof
      assume "slot_data ?k ?b = Some x"
      then obtain u g where g: "(u, g) \<in> set (b_queue s)" "u \<le> ?t" "answers ?k g" using p(3) [of x] b(2) by auto
      then have "(u, g) \<in> set (b_queue s0 @ incoming (b_net s0) (b_sent s0) ?sent)" using q by blast
      then show ?thesis by (rule acked) (use g in simp_all)
    next
      assume "\<exists>(u, g) \<in> set (b_queue ?b). u \<le> b_clock ?b + ?T \<and> answers ?k g \<and> snd g = x"
      then obtain u g where g: "(u, g) \<in> set (b_queue ?b)" "u \<le> ?t + ?T" "answers ?k g" by auto
      then have "(u, g) \<in> set (b_queue s0 @ incoming (b_net s0) (b_sent s0) ?sent)" using qb by blast
      then show ?thesis by (rule acked) (use g in simp_all)
    qed
    then show ?thesis unfolding d Some using tracks_waits(3) [OF tb, of ?k ?T]
      by (intro exI [of _ ?t] exI [of _ "Inr ()"] exI [of _ "snd ?w"]) simp
  next
    case None
    have "\<not> (u \<le> ?t + ?T \<and> answers ?k g)" if "(u, g) \<in> set (replies (b_net s0) (b_sent s0 @ sent) (?t, ?f))" for u g
    proof
      assume a: "u \<le> ?t + ?T \<and> answers ?k g"
      have "(u, g) \<in> set (b_queue ?b)" using that p(1) queue_send [of ?f ?p] by (simp add: tracks_def)
      from await_slot_filled [OF refl b(1) queue_sorted this, of ?T] a None w show False by simp
    qed
    then have "chunk_unanswered addr sid s0 ?sent i"
      using i by (auto simp: chunk_unanswered_def list_ex_iff)
    then show ?thesis unfolding d None using tracks_waits(3) [OF tb, of ?k ?T]
      by (intro exI [of _ ?t] exI [of _ "Inl Timeout"] exI [of _ "snd ?w"]) simp
  qed
qed

lemma send_chunks_acked:
  "tracks s0 sent s \<Longrightarrow> \<exists>n new r s'. send_chunks addr sid (List.enumerate (length sent) cs) s = (r, s') \<and>
     tracks s0 (sent @ new) s' \<and> map snd new = take n (map (chunk_frame addr sid) (List.enumerate (length sent) cs)) \<and>
     length new = n \<and>
     (r = Inr () \<and> n = length cs \<and> (\<forall>i. length sent \<le> i \<and> i < length sent + n \<longrightarrow> chunk_acked addr sid s0 (sent @ new) i) \<or>
      r = Inl Timeout \<and> 0 < n \<and> n \<le> length cs \<and> chunk_unanswered addr sid s0 (sent @ new) (length sent + n - 1) \<and>
        (\<forall>i. length sent \<le> i \<and> i < length sent + n - 1 \<longrightarrow> chunk_acked addr sid s0 (sent @ new) i))"
proof (induction cs arbitrary: sent s)
  case Nil
  then show ?case by (intro exI [of _ 0] exI [of _ "[]"]) auto
next
  case (Cons c cs)
  let ?f = "chunk_frame addr sid (length sent, c)"
  obtain t r1 s1 where one: "send_string_chunk addr sid (word_of_nat (length sent)) c s = (r1, s1)"
    "tracks s0 (sent @ [(t, ?f)]) s1"
    "r1 = Inr () \<and> chunk_acked addr sid s0 (sent @ [(t, ?f)]) (length sent) \<or>
     r1 = Inl Timeout \<and> chunk_unanswered addr sid s0 (sent @ [(t, ?f)]) (length sent)"
    using one_chunk [OF Cons.prems refl] by blast
  show ?case
  proof (cases r1)
    case (Inl e)
    with one show ?thesis
      by (intro exI [of _ 1] exI [of _ "[(t, ?f)]"] exI [of _ r1] exI [of _ s1]) auto
  next
    case (Inr u)
    then have a: "chunk_acked addr sid s0 (sent @ [(t, ?f)]) (length sent)" using one(3) by simp
    obtain n new r s' where n: "send_chunks addr sid (List.enumerate (Suc (length sent)) cs) s1 = (r, s')"
      "tracks s0 ((sent @ [(t, ?f)]) @ new) s'"
      "map snd new = take n (map (chunk_frame addr sid) (List.enumerate (Suc (length sent)) cs))" "length new = n"
      "r = Inr () \<and> n = length cs \<and>
         (\<forall>i. Suc (length sent) \<le> i \<and> i < Suc (length sent) + n \<longrightarrow> chunk_acked addr sid s0 ((sent @ [(t, ?f)]) @ new) i) \<or>
       r = Inl Timeout \<and> 0 < n \<and> n \<le> length cs \<and> chunk_unanswered addr sid s0 ((sent @ [(t, ?f)]) @ new) (Suc (length sent) + n - 1) \<and>
         (\<forall>i. Suc (length sent) \<le> i \<and> i < Suc (length sent) + n - 1 \<longrightarrow> chunk_acked addr sid s0 ((sent @ [(t, ?f)]) @ new) i)"
      using Cons.IH [OF one(2)] by (simp only: length_append_singleton) blast
    have a': "chunk_acked addr sid s0 (sent @ (t, ?f) # new) (length sent)"
      using chunk_acked_append [of "length sent" "sent @ [(t, ?f)]" addr sid s0 new] a by simp
    have le: "length sent \<le> i \<longleftrightarrow> i = length sent \<or> Suc (length sent) \<le> i" for i by auto
    show ?thesis
      using n one(1) Inr a'
      by (intro exI [of _ "Suc n"] exI [of _ "(t, ?f) # new"] exI [of _ r] exI [of _ s']) (auto simp: le)
  qed
qed

text \<open>C6. A text goes out chunk by chunk, each only when the device has acknowledged the one before:
  what is sent is a prefix of the text's frames, of which every chunk before the last one sent is acknowledged
  by a frame that answers it, in time. The write reports success when all of them with the terminator are sent
  and the terminator is acknowledged too; it fails only with a timeout, when the bus brought no answer in time
  for the last chunk sent. So a device that stops answering gets no further chunk.\<close>

theorem text_write_sends_chunks:
  "\<exists>n sent. b_sent (snd (do_write_string addr sid text s)) = b_sent s @ sent \<and>
     map snd sent = take n (text_frames addr sid text) \<and> 0 < n \<and> n \<le> length (text_frames addr sid text) \<and>
     list_all (chunk_acked addr sid s sent) [0 ..< n - 1] \<and>
     (case fst (do_write_string addr sid text s) of
        Inr _ \<Rightarrow> n = length (text_frames addr sid text) \<and> chunk_acked addr sid s sent (n - 1)
      | Inl e \<Rightarrow> e = Timeout \<and> chunk_unanswered addr sid s sent (n - 1))"
proof -
  obtain n new r s' where n: "send_chunks addr sid (List.enumerate 0 (text_chunks text)) s = (r, s')"
    "tracks s new s'" "map snd new = take n (text_frames addr sid text)"
    "r = Inr () \<and> n = length (text_chunks text) \<and> (\<forall>i < n. chunk_acked addr sid s new i) \<or>
     r = Inl Timeout \<and> 0 < n \<and> n \<le> length (text_chunks text) \<and> chunk_unanswered addr sid s new (n - 1) \<and>
       (\<forall>i < n - 1. chunk_acked addr sid s new i)"
    using send_chunks_acked [OF tracks_refl, of addr sid "text_chunks text" s] unfolding text_frames_def by auto
  have l: "0 < length (text_chunks text)" by (simp add: text_chunks_def)
  have d: "do_write_string addr sid text s = (r, s')" using n(1) by (simp add: do_write_string_chunks)
  show ?thesis
    using n(2-4) l unfolding d
    by (intro exI [of _ n] exI [of _ new]) (auto simp: tracks_def list_all_iff)
qed

section \<open>A device that keeps a text\<close>

definition chunk_write_of :: "u32 \<Rightarrow> u16 \<Rightarrow> u8 \<Rightarrow> frame \<Rightarrow> bool" where
  "chunk_write_of addr sid sq f \<longleftrightarrow>
     fst f = can_id_of 0x07 addr \<and> 4 < length (snd f) \<and> take 4 (snd f) = [0x30] @ u16_to_le_bytes sid @ [sq]"

text \<open>The chunk last written of all the frames sent.\<close>

definition stored_chunk :: "u32 \<Rightarrow> u16 \<Rightarrow> u8 \<Rightarrow> frame list \<Rightarrow> bytes option" where
  "stored_chunk addr sid sq frs =
     (case rev (filter (chunk_write_of addr sid sq) frs) of [] \<Rightarrow> None | f # _ \<Rightarrow> Some (drop 4 (snd f)))"

definition chunk_reply_data :: "u16 \<Rightarrow> u8 \<Rightarrow> bytes \<Rightarrow> bytes" where
  "chunk_reply_data sid sq c = [0x30] @ u16_to_le_bytes sid @ [sq] @ c"

text \<open>The frames that ask for a chunk: its write, which is acknowledged, and its request.\<close>

definition asks_chunk :: "u32 \<Rightarrow> u16 \<Rightarrow> u8 \<Rightarrow> frame \<Rightarrow> bool" where
  "asks_chunk addr sid sq f \<longleftrightarrow> chunk_write_of addr sid sq f \<or> f = string_chunk_req_raw addr sid sq"

text \<open> What the device documents (PROTOCOL.md 4.4): it answers the write of a chunk and the request of
  a chunk it has with the chunk, within \<open>lag\<close>; and it sends chunks of that string only so. All
  other frames may bring anything, and other frames may come at any time. \<close>

definition text_device :: "u32 \<Rightarrow> u16 \<Rightarrow> nat \<Rightarrow> ((nat \<times> frame) list \<Rightarrow> (nat \<times> frame) list) \<Rightarrow> bool" where
  "text_device addr sid lag net \<longleftrightarrow>
     (\<forall>log t f sq c. asks_chunk addr sid sq f \<longrightarrow> stored_chunk addr sid sq (map snd log @ [f]) = Some c \<longrightarrow>
        (\<exists>(d, g) \<in> set (net (log @ [(t, f)])). d \<le> lag \<and> answers (str_key addr sid sq) g)) \<and>
     (\<forall>log t f sq d g. (d, g) \<in> set (net (log @ [(t, f)])) \<longrightarrow> answers (str_key addr sid sq) g \<longrightarrow>
        asks_chunk addr sid sq f \<and>
        (\<exists>c. stored_chunk addr sid sq (map snd log @ [f]) = Some c \<and> snd g = chunk_reply_data sid sq c))"

lemma text_device_answers:
  "text_device addr sid lag net \<Longrightarrow> asks_chunk addr sid sq f \<Longrightarrow> stored_chunk addr sid sq (map snd log @ [f]) = Some c \<Longrightarrow>
     \<exists>d g. (d, g) \<in> set (net (log @ [(t, f)])) \<and> d \<le> lag \<and> answers (str_key addr sid sq) g"
  unfolding text_device_def by blast

lemma text_device_only:
  "text_device addr sid lag net \<Longrightarrow> (d, g) \<in> set (net (log @ [(t, f)])) \<Longrightarrow> answers (str_key addr sid sq) g \<Longrightarrow>
     asks_chunk addr sid sq f \<and>
     (\<exists>c. stored_chunk addr sid sq (map snd log @ [f]) = Some c \<and> snd g = chunk_reply_data sid sq c)"
  unfolding text_device_def by blast

lemma stored_chunk_snoc:
  "stored_chunk addr sid sq (frs @ [f]) =
     (if chunk_write_of addr sid sq f then Some (drop 4 (snd f)) else stored_chunk addr sid sq frs)"
  by (simp add: stored_chunk_def)

lemma chunk_write_frame:
  "c \<noteq> [] \<Longrightarrow> chunk_write_of addr sid sq (string_chunk_write_raw addr sid sq' c) \<longleftrightarrow> sq = sq'"
  "drop 4 (snd (string_chunk_write_raw addr sid sq c)) = c"
  by (auto simp: chunk_write_of_def string_chunk_write_raw_def u16_to_le_bytes_def)

lemma chunk_request_frame:
  "\<not> chunk_write_of addr sid sq (string_chunk_req_raw addr sid sq')"
  "string_chunk_req_raw addr sid sq' = string_chunk_req_raw addr sid sq \<longleftrightarrow> sq' = sq"
  "c \<noteq> [] \<Longrightarrow> string_chunk_write_raw addr sid sq' c \<noteq> string_chunk_req_raw addr sid sq"
  by (simp_all add: chunk_write_of_def string_chunk_req_raw_def string_chunk_write_raw_def u16_to_le_bytes_def)

lemma heartbeat_asks_no_chunk: "\<not> asks_chunk addr sid sq (heartbeat_raw m)"
  by (simp add: asks_chunk_def chunk_write_of_def heartbeat_raw_def string_chunk_req_raw_def)

section \<open>The text on its way into the device\<close>

text \<open>The first \<open>n\<close> chunks are stored, and what is underway of the string is
  these.\<close>

definition keeps_chunks :: "u32 \<Rightarrow> u16 \<Rightarrow> nat \<Rightarrow> bytes list \<Rightarrow> nat \<Rightarrow> 'a bus_scheme \<Rightarrow> bool" where
  "keeps_chunks addr sid lag cs n b \<longleftrightarrow>
     text_device addr sid lag (b_net b) \<and>
     (\<forall>i < n. stored_chunk addr sid (word_of_nat i) (map snd (b_sent b)) = Some (cs ! i)) \<and>
     (\<forall>u g sq. (u, g) \<in> set (b_queue b) \<longrightarrow> answers (str_key addr sid sq) g \<longrightarrow>
        (\<exists>i < n. sq = word_of_nat i \<and> snd g = chunk_reply_data sid sq (cs ! i)))"

lemma keeps_chunks_queue:
  "keeps_chunks addr sid lag cs n b \<Longrightarrow> (u, g) \<in> set (b_queue b) \<Longrightarrow> answers (str_key addr sid sq) g \<Longrightarrow>
     \<exists>i < n. sq = word_of_nat i \<and> snd g = chunk_reply_data sid sq (cs ! i)"
  unfolding keeps_chunks_def by blast

lemma keeps_chunks_device:
  "keeps_chunks addr sid lag cs n b \<Longrightarrow> text_device addr sid lag (b_net b)"
  "keeps_chunks addr sid lag cs n b \<Longrightarrow> i < n \<Longrightarrow> stored_chunk addr sid (word_of_nat i) (map snd (b_sent b)) = Some (cs ! i)"
  by (simp_all add: keeps_chunks_def)

lemma keeps_chunks_sendI:
  assumes "keeps_chunks addr sid lag cs m b" and "m \<le> n"
    and "\<And>i. i < n \<Longrightarrow> stored_chunk addr sid (word_of_nat i) (map snd (b_sent b) @ [f]) = Some (cs ! i)"
    and "\<And>sq. asks_chunk addr sid sq f \<Longrightarrow> \<exists>i < n. sq = word_of_nat i"
  shows "keeps_chunks addr sid lag cs n (bus_send f b)"
proof -
  have "\<exists>i < n. sq = word_of_nat i \<and> snd g = chunk_reply_data sid sq (cs ! i)"
    if q: "(u, g) \<in> set (b_queue (bus_send f b))" "answers (str_key addr sid sq) g" for u g sq
  proof (cases "(u, g) \<in> set (b_queue b)")
    case True
    with keeps_chunks_queue [OF assms(1) _ q(2)] assms(2) show ?thesis by (meson less_le_trans)
  next
    case False
    then obtain d where d: "(d, g) \<in> set (b_net b (b_sent b @ [(b_clock b, f)]))"
      using q(1) by (auto simp: queue_send replies_def)
    from text_device_only [OF keeps_chunks_device(1) [OF assms(1)] d q(2)] assms(3,4) show ?thesis by fastforce
  qed
  with assms(3) keeps_chunks_device(1) [OF assms(1)] show ?thesis by (simp add: keeps_chunks_def)
qed

lemma keeps_chunks_sub:
  "keeps_chunks addr sid lag cs n b \<Longrightarrow> b_net b' = b_net b \<Longrightarrow> b_sent b' = b_sent b \<Longrightarrow>
     set (b_queue b') \<subseteq> set (b_queue b) \<Longrightarrow> keeps_chunks addr sid lag cs n b'"
  by (auto simp: keeps_chunks_def)

lemma keeps_chunks_waits:
  assumes "keeps_chunks addr sid lag cs n b"
  shows "keeps_chunks addr sid lag cs n (bus_register k b)"
    and "keeps_chunks addr sid lag cs n (bus_sleep d b)"
    and "keeps_chunks addr sid lag cs n (snd (bus_wait k d b))"
    and "keeps_chunks addr sid lag cs n (snd (bus_wait_or_keep k d b))"
  by (rule keeps_chunks_sub [OF assms]; simp add: waits_queue)+

lemma keeps_chunks_pace:
  fixes s :: sched
  assumes "keeps_chunks addr sid lag cs n s"
  shows "keeps_chunks addr sid lag cs n (pace s)"
  by (rule keeps_chunks_sub [OF assms]) (auto simp: pace_def Let_def dest: subsetD [OF waits_queue(4)])

lemma byte_index: "(word_of_nat i :: u8) = word_of_nat j \<longleftrightarrow> i = j" if "i < 256" "j < 256"
proof -
  have "i < 2 ^ 8" "j < 2 ^ 8" using that by simp_all
  then have "unat (word_of_nat i :: u8) = i" "unat (word_of_nat j :: u8) = j"
    by (simp_all add: unsigned_of_nat take_bit_nat_eq_self)
  then show ?thesis by metis
qed

text \<open>Sending a frame that does not write the string, and asks at most for a chunk that is
  stored.\<close>

lemma keeps_chunks_ask:
  assumes "keeps_chunks addr sid lag cs n b" and w: "\<And>sq. \<not> chunk_write_of addr sid sq f"
    and r: "\<And>sq. asks_chunk addr sid sq f \<Longrightarrow> \<exists>i < n. sq = word_of_nat i"
  shows "keeps_chunks addr sid lag cs n (bus_send f b)"
  using keeps_chunks_device(2) [OF assms(1)] w r
  by (intro keeps_chunks_sendI [OF assms(1)]) (simp_all add: stored_chunk_snoc)

text \<open>Sending the write of the next chunk.\<close>

lemma keeps_chunks_write:
  assumes "keeps_chunks addr sid lag cs n b" and n: "n < 256" and c: "cs ! n \<noteq> []"
  shows "keeps_chunks addr sid lag cs (Suc n) (bus_send (chunk_frame addr sid (n, cs ! n)) b)"
    and "asks_chunk addr sid (word_of_nat n) (chunk_frame addr sid (n, cs ! n))"
proof -
  let ?f = "chunk_frame addr sid (n, cs ! n)"
  have w: "chunk_write_of addr sid sq ?f \<longleftrightarrow> sq = word_of_nat n" for sq
    using chunk_write_frame(1) [OF c] by (simp add: chunk_frame_def)
  have a: "asks_chunk addr sid sq ?f \<longleftrightarrow> sq = word_of_nat n" for sq
    using w chunk_request_frame(3) [OF c] by (auto simp: asks_chunk_def chunk_frame_def)
  then show "asks_chunk addr sid (word_of_nat n) ?f" by simp
  have "stored_chunk addr sid (word_of_nat i) (map snd (b_sent b) @ [?f]) = Some (cs ! i)" if "i < Suc n" for i
    using that n keeps_chunks_device(2) [OF assms(1), of i] byte_index [of i n]
    by (auto simp: stored_chunk_snoc chunk_frame_def chunk_write_frame(1) [OF c] chunk_write_frame(2) less_Suc_eq)
  then show "keeps_chunks addr sid lag cs (Suc n) (bus_send ?f b)"
    using a by (intro keeps_chunks_sendI [OF assms(1)]) auto
qed

text \<open>The wait for a chunk that was asked for: it ends with that chunk.\<close>

lemma chunk_arrives:
  assumes k: "keeps_chunks addr sid lag cs n (bus_send f b)" and a: "asks_chunk addr sid (word_of_nat i) f"
    and i: "i < n" "n \<le> 256" and d: "lag \<le> d" and o: "slot_open (str_key addr sid (word_of_nat i)) b"
    and old: "\<And>x. slot_data (str_key addr sid (word_of_nat i)) b = Some x \<Longrightarrow> x = chunk_reply_data sid (word_of_nat i) (cs ! i)"
  shows "fst (bus_wait (str_key addr sid (word_of_nat i)) d (bus_send f b)) = Some (chunk_reply_data sid (word_of_nat i) (cs ! i))"
    and "fst (bus_wait_or_keep (str_key addr sid (word_of_nat i)) d (bus_send f b)) = Some (chunk_reply_data sid (word_of_nat i) (cs ! i))"
proof -
  let ?k = "str_key addr sid (word_of_nat i)" and ?b = "bus_send f b"
  have o': "slot_open ?k ?b" and s: "slot_data ?k ?b = slot_data ?k b" using o by (simp_all add: slot_open_def slot_data_def)
  have st: "stored_chunk addr sid (word_of_nat i) (map snd (b_sent b) @ [f]) = Some (cs ! i)"
    using keeps_chunks_device(2) [OF k i(1)] by simp
  have "text_device addr sid lag (b_net b)" using keeps_chunks_device(1) [OF k] by simp
  from text_device_answers [OF this a st, of "b_clock b"]
  obtain e g where e: "(e, g) \<in> set (b_net b (b_sent b @ [(b_clock b, f)]))" "e \<le> lag" "answers ?k g" by blast
  then have q: "(b_clock b + e, g) \<in> set (b_queue ?b)" by (force simp: queue_send replies_def)
  have "slot_data ?k (bus_await (blocked ?k) d ?b) \<noteq> None"
    by (rule await_slot_filled [OF refl o' queue_sorted q]) (use e d in simp_all)
  then obtain x where x: "slot_data ?k (bus_await (blocked ?k) d ?b) = Some x" by blast
  have "x = chunk_reply_data sid (word_of_nat i) (cs ! i)"
    using await_slot_from [OF refl o' x]
  proof
    assume "slot_data ?k ?b = Some x"
    with old s show ?thesis by simp
  next
    assume "\<exists>(u, g) \<in> set (b_queue ?b). u \<le> b_clock ?b + d \<and> answers ?k g \<and> snd g = x"
    then obtain u g where g: "(u, g) \<in> set (b_queue ?b)" "answers ?k g" "snd g = x" by blast
    from keeps_chunks_queue [OF k g(1,2)] g(3)
    obtain j where "j < n" "(word_of_nat i :: u8) = word_of_nat j" "x = chunk_reply_data sid (word_of_nat i) (cs ! j)"
      by blast
    with i byte_index [of i j] show ?thesis by simp
  qed
  with x show "fst (bus_wait ?k d ?b) = Some (chunk_reply_data sid (word_of_nat i) (cs ! i))"
    "fst (bus_wait_or_keep ?k d ?b) = Some (chunk_reply_data sid (word_of_nat i) (cs ! i))"
    using bus_wait_slot [OF o' refl] by simp_all
qed

section \<open>Writing the text to such a device\<close>

lemma chunks4_short: "c \<in> set (chunks4 xs) \<Longrightarrow> c \<noteq> []"
  by (induction xs rule: chunks4.induct) auto

lemma text_chunks_nonempty: "i < length (text_chunks text) \<Longrightarrow> text_chunks text ! i \<noteq> []"
  using nth_mem [of i "text_chunks text"] by (auto simp: text_chunks_def dest: chunks4_short)

lemma one_chunk_kept:
  fixes s :: sched
  assumes "keeps_chunks addr sid lag cs n s" and n: "n < 256" "cs ! n \<noteq> []"
    and lag: "lag \<le> VALUE_READ_TIMEOUT_MONITORING"
  shows "\<exists>s'. send_string_chunk addr sid (word_of_nat n) (cs ! n) s = (Inr (), s') \<and>
    keeps_chunks addr sid lag cs (Suc n) s' \<and> sc_subs s' = sc_subs s \<and> sc_config s' = sc_config s"
proof -
  let ?k = "str_key addr sid (word_of_nat n)" and ?f = "chunk_frame addr sid (n, cs ! n)"
  let ?p = "pace (bus_register ?k s)"
  let ?w = "bus_wait ?k VALUE_READ_TIMEOUT_MONITORING (bus_send ?f ?p)"
  have p: "keeps_chunks addr sid lag cs n ?p" by (rule keeps_chunks_pace [OF keeps_chunks_waits(1) [OF assms(1)]])
  have o: "slot_open ?k ?p" by (rule pace_bus(2) [OF refl slot_register(1)])
  have old: "slot_data ?k ?p \<noteq> Some x" for x
  proof
    assume "slot_data ?k ?p = Some x"
    from pace_bus(4) [OF refl slot_register(1) this] obtain u g
      where g: "(u, g) \<in> set (b_queue s)" "answers ?k g" by auto
    from keeps_chunks_queue [OF assms(1) this] obtain i where "i < n" "(word_of_nat n :: u8) = word_of_nat i" by blast
    with byte_index [of n i] n(1) show False by simp
  qed
  have b: "keeps_chunks addr sid lag cs (Suc n) (bus_send ?f ?p)" and a: "asks_chunk addr sid (word_of_nat n) ?f"
    using keeps_chunks_write [OF p n] by simp_all
  have r: "fst ?w = Some (chunk_reply_data sid (word_of_nat n) (cs ! n))"
    by (rule chunk_arrives(1) [OF b a _ _ lag o]) (use n old in auto)
  have "send_string_chunk addr sid (word_of_nat n) (cs ! n) s = (Inr (), snd ?w)"
    using r by (simp add: send_string_chunk_def sched_send_def chunk_frame_def Let_def case_prod_beta)
  moreover have "sc_subs (snd ?w) = sc_subs s" "sc_config (snd ?w) = sc_config s"
    by (simp_all add: pace_def Let_def)
  ultimately show ?thesis using keeps_chunks_waits(3) [OF b] by blast
qed

lemma send_chunks_kept:
  fixes s :: sched
  assumes "list_all (\<lambda>c. c \<noteq> []) cs" and "length cs \<le> 256" and "lag \<le> VALUE_READ_TIMEOUT_MONITORING"
  shows "keeps_chunks addr sid lag cs n s \<Longrightarrow> n \<le> length cs \<Longrightarrow>
    \<exists>s'. send_chunks addr sid (List.enumerate n (drop n cs)) s = (Inr (), s') \<and>
      keeps_chunks addr sid lag cs (length cs) s' \<and> sc_subs s' = sc_subs s \<and> sc_config s' = sc_config s"
proof (induction "length cs - n" arbitrary: n s)
  case 0
  then show ?case by simp
next
  case (Suc m)
  then have n: "n < length cs" by simp
  then have d: "drop n cs = cs ! n # drop (Suc n) cs" by (rule Cons_nth_drop_Suc [symmetric])
  obtain s1 where s1: "send_string_chunk addr sid (word_of_nat n) (cs ! n) s = (Inr (), s1)"
    "keeps_chunks addr sid lag cs (Suc n) s1" "sc_subs s1 = sc_subs s" "sc_config s1 = sc_config s"
    using one_chunk_kept [OF Suc.prems(1) _ _ assms(3)] n assms(1,2) by (auto simp: list_all_length)
  have "\<exists>s'. send_chunks addr sid (List.enumerate (Suc n) (drop (Suc n) cs)) s1 = (Inr (), s') \<and>
      keeps_chunks addr sid lag cs (length cs) s' \<and> sc_subs s' = sc_subs s1 \<and> sc_config s' = sc_config s1"
    using Suc.hyps(2) n by (intro Suc.hyps(1) s1(2)) simp_all
  with s1 show ?case by (auto simp: d)
qed

section \<open>Fetching it back\<close>

text \<open>The scheduler's turn, with no subscription: at most a heartbeat.\<close>

lemma between_quiet:
  assumes "keeps_chunks addr sid lag cs n s" and "sc_subs s = []"
  shows "\<exists>s'. between1 s = Some s' \<and> keeps_chunks addr sid lag cs n s' \<and> sc_subs s' = []"
proof -
  have sub [simp]: "keeps_chunks addr sid lag cs n (t\<lparr>sc_next_heartbeat := x\<rparr>) = keeps_chunks addr sid lag cs n t"
    "keeps_chunks addr sid lag cs n (t\<lparr>sc_servicing := z\<rparr>) = keeps_chunks addr sid lag cs n t"
    "keeps_chunks addr sid lag cs n (t\<lparr>sc_subs := y\<rparr>) = keeps_chunks addr sid lag cs n t" for t :: sched and x y z
    by (simp_all add: keeps_chunks_def)
  have "keeps_chunks addr sid lag cs n (sched_send (heartbeat_raw m) s)" for m
    unfolding sched_send_def
    by (rule keeps_chunks_ask [OF keeps_chunks_pace [OF assms(1)]])
       (use heartbeat_asks_no_chunk in \<open>auto simp: asks_chunk_def\<close>)
  then have h: "keeps_chunks addr sid lag cs n (maybe_heartbeat s)" and e: "sc_subs (maybe_heartbeat s) = []"
    using assms by (auto simp: maybe_heartbeat_def Let_def split: option.split)
  let ?h = "maybe_heartbeat s"
  show ?thesis
  proof (cases "sc_servicing ?h")
    case True
    with h e show ?thesis by (simp add: between1_def process_due_def)
  next
    case False
    let ?t = "?h\<lparr>sc_servicing := True, sc_subs := []\<rparr>"
    have "poll_due between0 [] ?t = Some ([], ?t)"
      by (simp add: poll_due_def due_work_def plan_new_def poll_values_def poll_loop.simps Let_def)
    then have "between1 s = Some (?t\<lparr>sc_subs := [], sc_servicing := False\<rparr>)"
      using False e by (simp add: between1_def process_due_def)
    moreover have "keeps_chunks addr sid lag cs n (?t\<lparr>sc_subs := [], sc_servicing := False\<rparr>)"
      using h by simp
    ultimately show ?thesis by simp
  qed
qed

text \<open>One request of the fetch: the first round brings the chunk.\<close>

lemma chunk_requested:
  assumes "keeps_chunks addr sid lag cs n s" and "sc_subs s = []" and i: "i < n" "n \<le> 256"
    and cfg: "0 < cf_discovery_retries cfg" "lag \<le> cf_discovery_timeout cfg" "0 < cf_discovery_timeout cfg"
    and f: "ft_id f = (addr, sid)" "ft_seq f = word_of_nat i"
  shows "\<exists>s'. req_all between1 cfg [chunk_req f] s = Some ([Some (chunk_reply_data sid (word_of_nat i) (cs ! i))], s') \<and>
    keeps_chunks addr sid lag cs n s' \<and> sc_subs s' = []"
proof -
  let ?k = "str_key addr sid (word_of_nat i)" and ?f = "string_chunk_req_raw addr sid (word_of_nat i)"
  have cr: "chunk_req f = (?k, ?f)" by (simp add: chunk_req_def chunk_key_def f)
  obtain s1 where s1: "between1 s = Some s1" "keeps_chunks addr sid lag cs n s1" "sc_subs s1 = []"
    using between_quiet [OF assms(1,2)] by blast
  let ?r = "bus_register ?k s1"
  let ?b = "bus_send ?f ?r"
  obtain m where m: "cf_discovery_retries cfg = Suc m" using cfg(1) by (cases "cf_discovery_retries cfg") auto
  have b: "keeps_chunks addr sid lag cs n ?b"
    by (rule keeps_chunks_ask [OF keeps_chunks_waits(1) [OF s1(2)]])
       (use i in \<open>auto simp: asks_chunk_def chunk_request_frame\<close>)
  have a: "asks_chunk addr sid (word_of_nat i) ?f" by (simp add: asks_chunk_def)
  let ?w = "if m = 0 then bus_wait_or_keep ?k (cf_discovery_timeout cfg) ?b else bus_wait ?k (cf_discovery_timeout cfg) ?b"
  let ?d = "chunk_reply_data sid (word_of_nat i) (cs ! i)"
  have w: "fst ?w = Some ?d"
    using chunk_arrives [OF b a i cfg(2) slot_register(1)] by auto
  have o: "open_reqs [None] = [0]" "open_reqs [Some x] = []" for x :: bytes
    by (simp_all add: open_reqs_def)
  have "wait_round (m = 0) (b_clock ?b + cf_discovery_timeout cfg) [(?k, ?f)] [0] [None] ?b = ([Some ?d], snd ?w)"
    using w cfg(3) by (auto simp: Let_def case_prod_beta)
  then have "req_rounds between1 cfg [(?k, ?f)] (Suc m) [None] s = req_rounds between1 cfg [(?k, ?f)] m [Some ?d] (snd ?w)"
    by (simp add: o s1(1) Let_def)
  also have "\<dots> = Some ([Some ?d], snd ?w)" by (cases m) (simp_all add: o)
  finally have "req_all between1 cfg [chunk_req f] s = Some ([Some ?d], snd ?w)"
    by (simp add: req_all_def m cr o collect_late_def put_late_def Let_def)
  moreover have "keeps_chunks addr sid lag cs n (snd ?w)"
    using keeps_chunks_waits(3,4) [OF b] by simp
  moreover have "sc_subs (snd (bus_wait_or_keep k t ?b)) = sc_subs ?b" for k t by (rule sched_more) simp
  then have "sc_subs (snd ?w) = []" using s1(3) by simp
  ultimately show ?thesis by blast
qed

definition plain_text :: "string \<Rightarrow> bool" where
  "plain_text s \<longleftrightarrow> list_all (\<lambda>c. of_char c \<noteq> (0 :: nat) \<and> of_char c < (128 :: nat)) s"

lemma latin1_plain: "of_char c < (128 :: nat) \<Longrightarrow> latin1_utf8 (of_char c) = [c]"
  by (simp add: latin1_utf8_def bytes_str_def)

lemma plain_chunk:
  assumes "plain_text s"
  shows "concat (map latin1_utf8 (takeWhile (\<lambda>c. c \<noteq> 0) (str_bytes s))) = s" and "0 \<notin> set (str_bytes s)"
proof -
  have z: "(of_char c :: u8) = 0 \<longleftrightarrow> of_char c = (0 :: nat)" for c
    by (simp only: unat_of_char [symmetric] unsigned_eq_0_iff)
  show n: "0 \<notin> set (str_bytes s)"
    using assms z by (force simp: str_bytes_def plain_text_def list_all_iff)
  have "takeWhile (\<lambda>c. c \<noteq> 0) (str_bytes s) = str_bytes s"
    using n by (auto simp: takeWhile_eq_all_conv)
  moreover have "concat (map latin1_utf8 (str_bytes s)) = s"
    using assms by (induction s) (auto simp: str_bytes_def plain_text_def latin1_plain)
  ultimately show "concat (map latin1_utf8 (takeWhile (\<lambda>c. c \<noteq> 0) (str_bytes s))) = s" by metis
qed

lemma chunk_reply:
  assumes "plain_text s"
  shows "chunk_text (chunk_reply_data sid sq (str_bytes s)) = s"
    and "chunk_last (chunk_reply_data sid sq (str_bytes s)) \<longleftrightarrow> length s < 4"
  using plain_chunk [OF assms]
  by (simp_all add: chunk_text_def chunk_last_def chunk_reply_data_def u16_to_le_bytes_def)

lemma terminator_reply:
  "chunk_text (chunk_reply_data sid sq [0x00]) = []" "chunk_last (chunk_reply_data sid sq [0x00])"
  by (simp_all add: chunk_text_def chunk_last_def chunk_reply_data_def u16_to_le_bytes_def)

lemma str_bytes_Cons [simp]: "str_bytes (c # s) = of_char c # str_bytes s" "str_bytes [] = []"
  by (simp_all add: str_bytes_def)

text \<open>The fetch from chunk \<open>i\<close> on, with the text before it read.\<close>

lemma fetch_round:
  assumes "keeps_chunks addr sid lag cs n s" and "sc_subs s = []" and "i < n" "n \<le> 256"
    and "0 < cf_discovery_retries cfg" "lag \<le> cf_discovery_timeout cfg" "0 < cf_discovery_timeout cfg"
    and f: "ft_id f = (addr, sid)" "ft_seq f = word_of_nat i" and op: "\<not> ft_done f"
    and t: "take_chunk (Some (chunk_reply_data sid (word_of_nat i) (cs ! i))) f d = (f1, d1)"
  shows "\<exists>s1. fetch_rounds between1 cfg [f] d s = fetch_rounds between1 cfg [f1] d1 s1 \<and>
    keeps_chunks addr sid lag cs n s1 \<and> sc_subs s1 = []"
proof -
  obtain s1 where s1: "req_all between1 cfg [chunk_req f] s = Some ([Some (chunk_reply_data sid (word_of_nat i) (cs ! i))], s1)"
    "keeps_chunks addr sid lag cs n s1" "sc_subs s1 = []"
    using chunk_requested [OF assms(1-7) f] by blast
  have "open_fetches [f] = [0]" using op by (simp add: open_fetches_def)
  then have "fetch_rounds between1 cfg [f] d s = fetch_rounds between1 cfg [f1] d1 s1"
    using s1(1) t by (subst fetch_rounds.simps) (simp add: Let_def)
  with s1(2,3) show ?thesis by blast
qed

lemma fetch_rounds_done: "ft_done f \<Longrightarrow> fetch_rounds btw cfg [f] d s = Some ([f], d, s)"
  by (subst fetch_rounds.simps) (simp add: open_fetches_def)

lemma fetch_from:
  assumes cfg: "0 < cf_discovery_retries cfg" "lag \<le> cf_discovery_timeout cfg" "0 < cf_discovery_timeout cfg"
    and "length cs \<le> 256"
  shows "cs = pre @ text_chunks rest \<Longrightarrow> plain_text rest \<Longrightarrow> keeps_chunks addr sid lag cs (length cs) s \<Longrightarrow>
    sc_subs s = [] \<Longrightarrow> ft_id f = (addr, sid) \<Longrightarrow> ft_seq f = word_of_nat (length pre) \<Longrightarrow> \<not> ft_done f \<Longrightarrow>
    \<exists>f' d' s'. fetch_rounds between1 cfg [f] d s = Some ([f'], d', s') \<and>
      dc_known d' (addr, sid) = Some (ft_s f @ rest)"
proof (induction "length rest" arbitrary: pre rest f d s rule: less_induct)
  case less
  have i: "length pre < length cs" and c: "cs ! length pre = hd (text_chunks rest)"
    by (auto simp: less.prems(1) text_chunks_def hd_conv_nth nth_append)
  let ?r = "chunk_reply_data sid (word_of_nat (length pre)) (cs ! length pre)"
  note round = fetch_round [OF less.prems(3,4) i assms(4) cfg less.prems(5,6,7)]
  show ?case
  proof (cases "length rest < 4")
    case True
    have short: "chunk_text ?r = rest \<and> chunk_last ?r"
    proof (cases "rest = []")
      case True
      then show ?thesis using terminator_reply by (simp add: c text_chunks_def)
    next
      case False
      then have "hd (text_chunks rest) = str_bytes rest"
        using True by (cases "str_bytes rest" rule: chunks4.cases) (auto simp: text_chunks_def str_bytes_def)
      then show ?thesis using chunk_reply [OF less.prems(2)] True by (simp add: c)
    qed
    let ?d1 = "d\<lparr>dc_known := (dc_known d)((addr, sid) \<mapsto> ft_s f @ rest)\<rparr>"
    have "take_chunk (Some ?r) f d = (f\<lparr>ft_s := ft_s f @ rest, ft_done := True\<rparr>, ?d1)"
      using short less.prems(5) by (simp add: take_chunk_def Let_def)
    from round [OF this] show ?thesis by (auto simp: fetch_rounds_done)
  next
    case False
    then obtain a b x e r where r: "rest = a # b # x # e # r"
      by (cases rest rule: chunks4.cases) auto
    let ?f = "f\<lparr>ft_s := ft_s f @ [a, b, x, e], ft_seq := ft_seq f + 1\<rparr>"
    have ch: "text_chunks rest = str_bytes [a, b, x, e] # text_chunks r"
      by (simp add: r text_chunks_def)
    have p: "plain_text [a, b, x, e]" "plain_text r"
      using less.prems(2) by (simp_all add: r plain_text_def)
    have "take_chunk (Some ?r) f d = (?f, d)"
      using chunk_reply [OF p(1)] by (simp add: c ch take_chunk_def Let_def del: str_bytes_Cons)
    from round [OF this] obtain s1 where s1: "fetch_rounds between1 cfg [f] d s = fetch_rounds between1 cfg [?f] d s1"
      "keeps_chunks addr sid lag cs (length cs) s1" "sc_subs s1 = []" by blast
    have e: "cs = (pre @ [str_bytes [a, b, x, e]]) @ text_chunks r" unfolding less.prems(1) ch by simp
    have "\<exists>f' d' s'. fetch_rounds between1 cfg [?f] d s1 = Some ([f'], d', s') \<and>
        dc_known d' (addr, sid) = Some (ft_s ?f @ r)"
      by (rule less.hyps [OF _ e p(2) s1(2,3)]) (use less.prems(5-7) in \<open>simp_all add: r\<close>)
    then show ?thesis by (simp add: s1(1) r)
  qed
qed

lemma fetch_str_wire_kept:
  assumes "0 < cf_discovery_retries cfg" "lag \<le> cf_discovery_timeout cfg" "0 < cf_discovery_timeout cfg"
    and "length (text_chunks text) \<le> 256" and "plain_text text"
    and "keeps_chunks addr sid lag (text_chunks text) (length (text_chunks text)) s" and "sc_subs s = []"
    and "dc_known d (addr, sid) = None" and "count_of (dc_unanswered d) (addr, sid) < UNANSWERED_STR_LIMIT"
  shows "\<exists>d' s'. fetch_str_wire between1 cfg addr sid d s = Some (text, d', s') \<and> dc_known d' (addr, sid) = Some text"
proof -
  let ?f = "\<lparr>ft_id = (addr, sid), ft_s = [], ft_seq = 0, ft_done = False\<rparr>"
  have "new_fetches d [(addr, sid)] [] = [?f]"
    using assms(8,9) by (auto simp: count_of_def Let_def split: option.splits)
  moreover obtain f' d' s' where "fetch_rounds between1 cfg [?f] d s = Some ([f'], d', s')"
      "dc_known d' (addr, sid) = Some text"
    using fetch_from [OF assms(1-4), of "[]" "text" addr sid s ?f d] assms(5-7) by auto
  ultimately show ?thesis
    by (simp add: fetch_str_wire_def fetch_strs_wire_def fetched_text_def)
qed


text \<open>Such a device: it answers at once with the chunk it has of the number asked for.\<close>

definition keeper :: "u32 \<Rightarrow> u16 \<Rightarrow> (nat \<times> frame) list \<Rightarrow> (nat \<times> frame) list" where
  "keeper addr sid log =
     (case rev log of
        [] \<Rightarrow> []
      | (t, f) # _ \<Rightarrow>
          if fst f = can_id_of 0x07 addr \<and> 4 \<le> length (snd f) \<and> take 3 (snd f) = [0x30] @ u16_to_le_bytes sid
          then (case stored_chunk addr sid (snd f ! 3) (map snd log) of
                  None \<Rightarrow> []
                | Some c \<Rightarrow> [(2, (can_id_of 0x06 addr, chunk_reply_data sid (snd f ! 3) c))])
          else [])"

lemma asks_chunk_iff:
  "asks_chunk addr sid sq f \<longleftrightarrow>
     fst f = can_id_of 0x07 addr \<and> 4 \<le> length (snd f) \<and> take 3 (snd f) = [0x30] @ u16_to_le_bytes sid \<and> snd f ! 3 = sq"
proof (cases "4 \<le> length (snd f)")
  case True
  then obtain a b c e r where "snd f = a # b # c # e # r"
    by (cases "snd f" rule: chunks4.cases) auto
  then show ?thesis
    by (cases f) (auto simp: asks_chunk_def chunk_write_of_def string_chunk_req_raw_def u16_to_le_bytes_def)
next
  case False
  then show ?thesis
    by (cases f) (auto simp: asks_chunk_def chunk_write_of_def string_chunk_req_raw_def u16_to_le_bytes_def)
qed

lemma answers_chunk:
  assumes "addr AND 0xFFFFFF = addr" and "addr AND HIGH = 0"
  shows "answers (str_key addr sid sq) (can_id_of 0x06 addr, chunk_reply_data sid sq' c) \<longleftrightarrow> sq' = sq"
proof -
  have "str_key addr sid sq' = str_key addr sid sq \<longleftrightarrow> sq' = sq"
    using request_key_inject [of addr "ReqStr sid sq'" addr "ReqStr sid sq"] by auto
  then show ?thesis
    by (simp add: answers_def frame_from_can_id_of assms waiter_key_for_frame_def chunk_reply_data_def
        u16_to_le_bytes_def le_simps)
qed

lemma keeper_device:
  assumes "addr AND 0xFFFFFF = addr" and "addr AND HIGH = 0" and "2 \<le> lag"
  shows "text_device addr sid lag (keeper addr sid)"
proof -
  note ans = answers_chunk [OF assms(1,2)]
  have out: "keeper addr sid (log @ [(t, f)]) =
      (if asks_chunk addr sid (snd f ! 3) f
       then (case stored_chunk addr sid (snd f ! 3) (map snd log @ [f]) of
               None \<Rightarrow> [] | Some c \<Rightarrow> [(2, (can_id_of 0x06 addr, chunk_reply_data sid (snd f ! 3) c))])
       else [])" for log t f
    by (simp add: keeper_def asks_chunk_iff)
  have sq: "asks_chunk addr sid sq f \<Longrightarrow> snd f ! 3 = sq" for sq f by (simp add: asks_chunk_iff)
  have "\<exists>(d, g) \<in> set (keeper addr sid (log @ [(t, f)])). d \<le> lag \<and> answers (str_key addr sid sq) g"
    if "asks_chunk addr sid sq f" "stored_chunk addr sid sq (map snd log @ [f]) = Some c" for log t f sq c
    using that sq [OF that(1)] assms(3) by (simp add: out ans)
  moreover have "asks_chunk addr sid sq f \<and>
      (\<exists>c. stored_chunk addr sid sq (map snd log @ [f]) = Some c \<and> snd g = chunk_reply_data sid sq c)"
    if g: "(d, g) \<in> set (keeper addr sid (log @ [(t, f)]))" "answers (str_key addr sid sq) g" for log t f sq d g
  proof -
    have a: "asks_chunk addr sid (snd f ! 3) f" using g(1) by (cases "asks_chunk addr sid (snd f ! 3) f") (simp_all add: out)
    obtain c where c: "stored_chunk addr sid (snd f ! 3) (map snd log @ [f]) = Some c"
      "g = (can_id_of 0x06 addr, chunk_reply_data sid (snd f ! 3) c)"
      using g(1) a by (cases "stored_chunk addr sid (snd f ! 3) (map snd log @ [f])") (simp_all add: out)
    with g(2) have "snd f ! 3 = sq" by (simp add: ans)
    with a c show ?thesis by simp
  qed
  ultimately show ?thesis unfolding text_device_def by blast
qed


end
