(* ===== verification/Client.thy ===== *)
theory Client
  imports Api Texts
begin

text \<open> What the handles promise: how long connecting and listing the bus wait, what a
  \<open>Field::set\<close>
  may send, which values a field takes and what is read back.
\<close>

section \<open>Waiting for the bus\<close>

text \<open>\<open>devices_all\<close> always reports the bus: never before it is called, at most ten
  seconds after the engine was started, and (short of that cap) only when the discovery window has passed and
  no device that has been heard by then was first heard less than the settle period ago, whatever the device
  table does meanwhile.\<close>

theorem devices_all_reports_settled_bus:
  assumes "now \<le> started + DEVICE_LIST_MAX"
  shows "\<exists>t. report_time started cfg newest now = t \<and> now \<le> t \<and> t \<le> started + DEVICE_LIST_MAX \<and>
    (t < started + DEVICE_LIST_MAX \<longrightarrow>
       started + cf_discovery_window cfg \<le> t \<and>
       (cf_discovery_settle cfg \<noteq> 0 \<longrightarrow>
          (\<forall>heard. newest t = Some heard \<longrightarrow> heard + cf_discovery_settle cfg \<le> t)))"
  using report_time_spec [OF assms, of cfg newest]
  by (auto simp: device_list_deadline_def Let_def split: option.splits)

lemma devices_all_reports_settled_bus_witness:
  "\<exists>t. report_time 0 config_default (\<lambda>t. if 1000 \<le> t then Some 1000 else None) 0 = t \<and> 0 \<le> t \<and> t \<le> 0 + DEVICE_LIST_MAX \<and>
    (t < 0 + DEVICE_LIST_MAX \<longrightarrow>
       0 + cf_discovery_window config_default \<le> t \<and>
       (cf_discovery_settle config_default \<noteq> 0 \<longrightarrow>
          (\<forall>heard. (if 1000 \<le> t then Some 1000 else None) = Some heard \<longrightarrow> heard + cf_discovery_settle config_default \<le> t)))"
  by (rule devices_all_reports_settled_bus) simp

definition chosen_bus_id :: "config \<Rightarrow> u64 \<Rightarrow> u32" where
  "chosen_bus_id cfg random = (case cf_bus_id cfg of Some b \<Rightarrow> b | None \<Rightarrow> bus_id_generate random)"

lemma connect_config_bus_id: "cf_bus_id (connect_config cfg random) = Some (chosen_bus_id cfg random)"
  by (simp add: connect_config_def chosen_bus_id_def split: option.split)

lemma connect_config_timeout [simp]: "cf_connect_timeout (connect_config cfg random) = cf_connect_timeout cfg"
  by (simp add: connect_config_def split: option.split)

text \<open>Connecting refuses a BusID a commit cannot name before it looks at the bus, and a BusID it
  makes up itself is never refused. Otherwise it succeeds at a moment when a device has been
  heard, at once or less than 20 ms past the connect timeout, with the BusID settled in the
  configuration; it fails only when no device was heard at any of its looks, every 20 ms, before
  the timeout.\<close>

theorem connect_waits_for_first_device:
  "(\<not> bus_id_is_valid (chosen_bus_id cfg random) \<longrightarrow>
      cf_bus_id cfg \<noteq> None \<and> connect cfg random any started = Inl (InvalidBusId (chosen_bus_id cfg random))) \<and>
   (bus_id_is_valid (chosen_bus_id cfg random) \<longrightarrow>
      (case connect cfg random any started of
         Inr (cfg', t) \<Rightarrow> cf_bus_id cfg' = Some (chosen_bus_id cfg random) \<and> any t \<and> started \<le> t \<and>
           (t = started \<or> t < started + cf_connect_timeout cfg + 20)
       | Inl e \<Rightarrow> e = Connection ''no devices heard on the bus'' \<and>
           (\<forall>k. 20 * k < cf_connect_timeout cfg \<longrightarrow> \<not> any (started + 20 * k))))"
proof -
  have "\<not> bus_id_is_valid (chosen_bus_id cfg random) \<Longrightarrow> cf_bus_id cfg \<noteq> None"
    using bus_id_generate_valid [of random] by (auto simp: chosen_bus_id_def split: option.splits)
  then show ?thesis
    using first_device_spec [where deadline = "started + cf_connect_timeout cfg" and any = any and now = started]
    by (auto simp: connect_def Let_def connect_config_bus_id split: option.splits)
qed

lemma connect_waits_for_first_device_witness:
  "connect (config_default\<lparr>cf_bus_id := Some 0\<rparr>) 1 (\<lambda>t. True) 0 = Inl (InvalidBusId 0)"
  using connect_waits_for_first_device [of "config_default\<lparr>cf_bus_id := Some 0\<rparr>" 1 "\<lambda>t. True" 0]
  by (simp add: chosen_bus_id_def bus_id_is_valid_def bus_id_CLASS_def)

section \<open>Calls that only ask\<close>

lemma calm_engine_call: "engine_call cmd s = Some y \<Longrightarrow> asking cmd \<Longrightarrow> calm a s \<Longrightarrow> calm a (snd y)"
proof -
  assume y: "engine_call cmd s = Some y" and asks: "asking cmd" and a: "calm a s"
  obtain r s2 where r: "run_command cmd s = Some r" and s2: "process_due (maybe_heartbeat (snd r)) = Some s2"
    and y': "snd y = s2"
    using y by (auto simp: engine_call_def Option.bind_eq_Some_conv)
  show ?thesis unfolding y'
    by (rule calm_process_due [OF s2]) (intro calm_maybe_heartbeat calm_command [OF asks r a])
qed

lemma calm_call_unit: "call_unit cmd s = Some y \<Longrightarrow> asking cmd \<Longrightarrow> calm a s \<Longrightarrow> calm a (snd y)"
  by (auto simp: call_unit_def dest: calm_engine_call)

lemma calm_ensure_menu: "ensure_menu addr m s = Some y \<Longrightarrow> calm a s \<Longrightarrow> calm a (snd y)"
  by (auto simp: ensure_menu_def split: if_splits dest: calm_call_unit)

lemma calm_ensure_all: "ensure_all_fields addr s = Some y \<Longrightarrow> calm a s \<Longrightarrow> calm a (snd y)"
  by (auto simp: ensure_all_fields_def split: if_splits dest: calm_call_unit)

lemma calm_ensure_field: "ensure_field addr fid s = Some y \<Longrightarrow> calm a s \<Longrightarrow> calm a (snd y)"
proof -
  assume y: "ensure_field addr fid s = Some y" and a: "calm a s"
  show "calm a (snd y)"
  proof (cases "has_field addr fid (b_state s)")
    case True
    with y a show ?thesis by (auto simp: ensure_field_def)
  next
    case False
    then obtain x t where p: "ensure_menu addr (field_id_menu fid) s = Some (x, t)"
      and r: "(case x of Inl e \<Rightarrow> Some (Inl e, t)
        | Inr u \<Rightarrow> if field_id_menu fid = Configuration \<and> \<not> has_field addr fid (b_state t)
             then ensure_all_fields addr t else Some (Inr (), t)) = Some y"
      using y by (auto simp: ensure_field_def Option.bind_eq_Some_conv)
    then have q: "snd y = t \<or> ensure_all_fields addr t = Some y"
      by (cases x) (auto split: if_splits)
    from calm_ensure_menu [OF p a] q show ?thesis by (auto intro: calm_ensure_all)
  qed
qed

lemma calm_field_info_of: "field_info_of addr fid s = Some y \<Longrightarrow> calm a s \<Longrightarrow> calm a (snd y)"
  by (auto simp: field_info_of_def Option.bind_eq_Some_conv dest: calm_ensure_field)

section \<open>Setting a field\<close>

lemma check_text_bytes_plain:
  "check_text_bytes got i s = Inr u \<Longrightarrow> plain_text s"
  by (induction got i s rule: check_text_bytes.induct) (auto simp: plain_text_def Let_def split: if_splits)

lemma validated_text: "validate_editable_text s = Inr u \<Longrightarrow> plain_text s \<and> length s \<le> 16"
  by (auto simp: validate_editable_text_def MAX_EDITABLE_TEXT_BYTES_def split: if_splits
      dest: check_text_bytes_plain)

lemma set_request_accepts:
  "set_request f v = Inr w \<Longrightarrow> fi_writeable f \<and> write_value_for (fi_viz f) v = Inr w \<and>
     (\<forall>sid t. w = WText sid t \<longrightarrow> plain_text t \<and> length t \<le> 16)"
  by (auto simp: set_request_def split: if_splits sum.splits write_value.splits dest: validated_text)

text \<open>C34. Setting a field first makes sure of its metadata, which only asks. When that fails, or the
  field is read-only, or the value is not of the field's type, or the text is too long or not printable, the
  error is returned and nothing more is done: no frame that writes has been sent. Only a value that passes
  every check reaches the write, as what the field's type writes it as, and a text then is plain and at most
  sixteen bytes.\<close>

theorem set_writes_only_what_it_checked:
  assumes "field_set addr fid v s = Some (r, s')"
  shows "\<exists>info s1. field_info_of addr fid s = Some (info, s1) \<and>
    (\<exists>new. b_sent s1 = b_sent s @ new \<and> (\<forall>x \<in> set new. read_only (snd x))) \<and>
    (case info of
       Inl e \<Rightarrow> r = Inl e \<and> s' = s1
     | Inr f \<Rightarrow>
         (case set_request f v of
            Inl e \<Rightarrow> r = Inl e \<and> s' = s1
          | Inr w \<Rightarrow> engine_write addr fid w s1 = Some (r, s') \<and> fi_writeable f \<and>
              write_value_for (fi_viz f) v = Inr w \<and>
              (\<forall>sid t. w = WText sid t \<longrightarrow> plain_text t \<and> length t \<le> 16)))"
proof -
  obtain info s1 where i: "field_info_of addr fid s = Some (info, s1)"
    and rest: "(case info of Inl e \<Rightarrow> Some (Inl e, s1)
      | Inr f \<Rightarrow> (case set_request f v of Inl e \<Rightarrow> Some (Inl e, s1) | Inr w \<Rightarrow> engine_write addr fid w s1)) = Some (r, s')"
    using assms by (auto simp: field_set_def Option.bind_eq_Some_conv)
  have "calm s s1" using calm_field_info_of [OF i calm_refl] by simp
  then have "\<exists>new. b_sent s1 = b_sent s @ new \<and> (\<forall>x \<in> set new. read_only (snd x))"
    unfolding calm_def list_all_iff by metis
  with i rest show ?thesis
    by (auto split: sum.splits dest: set_request_accepts)
qed

lemma known_field_info: "state_field_info addr fid (b_state s) = Some f \<Longrightarrow> field_info_of addr fid s = Some (Inr f, s)"
  by (simp add: field_info_of_def ensure_field_def has_field_def)

lemma set_writes_only_what_it_checked_witness:
  "field_set 0x1234 5 (Float 0) switch_start = Some (Inl (WrongType ''Boolean''), switch_start) \<and>
   (\<exists>info s1. field_info_of 0x1234 5 switch_start = Some (info, s1) \<and>
    (\<exists>new. b_sent s1 = b_sent switch_start @ new \<and> (\<forall>x \<in> set new. read_only (snd x))))"
proof -
  have "field_set 0x1234 5 (Float 0) switch_start = Some (Inl (WrongType ''Boolean''), switch_start)"
    by (simp add: field_set_def known_field_info [OF switch_start_knows] set_request_def write_value_for_def a_switch_def)
  from set_writes_only_what_it_checked [OF this] this show ?thesis by blast
qed

section \<open>What is written and what is read\<close>

text \<open>C36. A value as it is read for a type, with whatever options its field has, is what the same
  type accepts for writing, for every type but the greyed one, dates and times; those three
  accept no value at all.\<close>

theorem read_values_are_writable:
  "if viz \<in> {GrayVisualization, Viz_Date, Viz_Time}
   then write_value_for viz v = Inl (WrongType ''a writable type'')
   else \<exists>w. write_value_for viz (with_options (decode_value raw viz) options) = Inr w"
  by (cases viz) (simp_all add: write_value_for_def)

text \<open>The single a write carries.\<close>

definition wire_single :: "write_value \<Rightarrow> f32" where
  "wire_single w =
     (case w of WBool b \<Rightarrow> if b then f32_one else f32_zero | WFloat f \<Rightarrow> f
      | WListIndex i \<Rightarrow> f32_of_int i | WText sid text \<Rightarrow> f32_zero)"

lemma first_write_frame:
  "write_frames addr fid w s = Inr (f # fs) \<Longrightarrow> drop 2 (snd f) = u32_to_le_bytes (wire_single w)"
  by (auto simp: write_frames_def wire_single_def encode_set_boolean_def encode_set_list_def encode_set_float_def
      value_write_raw_def Let_def split: menu.splits write_value.splits option.splits)

lemma f32_one_bytes: "u32_to_le_bytes f32_one = [0, 0, 0x80, 0x3F]" "u32_to_le_bytes f32_zero = [0, 0, 0, 0]"
  by code_simp+

text \<open>C35. The four value bytes of the frame that writes a value, read back as the field's type, give
  the value again: what is read would be written in the same way. This holds on every tab, for switches,
  singles, and the indices of radio buttons, drop-downs, event commands and device lists (the event target),
  as long as the index has fewer than 24 bits, which a single holds exactly. It is not claimed of texts, whose
  bytes go out otherwise, nor of the type \<open>Eventable\<close> (0x04), where it fails
  (\<open>eventable_read_as_zero\<close>).\<close>

theorem written_value_reads_back:
  assumes "write_value_for viz v = Inr w" and "write_frames addr fid w s = Inr (f # fs)"
    and "viz \<notin> {Viz_Text, Viz_Eventable}" and "\<And>i. w = WListIndex i \<Longrightarrow> \<bar>i\<bar> < 2 ^ 24"
  shows "write_value_for viz (decode_value (drop 2 (snd f)) viz) = Inr w"
proof -
  have "decode_value (drop 2 (snd f)) viz = decode_value (u32_to_le_bytes (wire_single w)) viz"
    using first_write_frame [OF assms(2)] by simp
  then show ?thesis
    using assms(1,3,4)
    by (cases viz) (auto simp: write_value_for_def wire_single_def f32_index_roundtrip f32_one_bytes split: bus_value.splits if_splits)
qed

lemma written_value_reads_back_witness:
  "write_value_for DropDown (decode_value (drop 2 (snd (encode_set_list 0x1234 7 3))) DropDown) = Inr (WListIndex 3)"
proof -
  have "write_frames 0x1234 7 (WListIndex 3) switch_start = Inr [encode_set_list 0x1234 7 3]"
    by (simp add: write_frames_def field_id_menu_def field_id_index_ucast Let_def)
  moreover have "write_value_for DropDown (List 3 []) = Inr (WListIndex 3)"
    by (simp add: write_value_for_def)
  ultimately show ?thesis using written_value_reads_back [of DropDown "List 3 []" "WListIndex 3"] by auto
qed

text \<open>Of the type \<open>Eventable\<close> the low byte of the single is read, which is zero for every
  index of up to sixteen bits.\<close>

lemma low_byte_of_small:
  assumes "0 < i" and "i < 2 ^ 16"
  shows "hd (u32_to_le_bytes (f32_of_int i)) = 0"
proof -
  let ?n = "nat i"
  have n: "0 < ?n" "?n < 2 ^ 24" "?n < 2 ^ 16" using assms by simp_all
  have k: "nbits ?n \<le> 16" by (rule nbits_le [OF n(3)])
  have "f32_round_bits 0 (?n * 2 ^ 149) = (nbits ?n + 125) * 2 ^ 23 + ?n * 2 ^ (24 - nbits ?n)"
    by (rule f32_round_bits_small(1) [OF n(1,2)])
  also have "24 - nbits ?n = 8 + (16 - nbits ?n)" using k by simp
  finally have b: "f32_round_bits 0 (?n * 2 ^ 149) = 2 ^ 8 * ((nbits ?n + 125) * 2 ^ 15 + ?n * 2 ^ (16 - nbits ?n))"
    by (simp add: power_add algebra_simps)
  have "256 dvd f32_round_bits 0 (?n * 2 ^ 149) mod 2 ^ 32"
    unfolding b by (intro dvd_mod) simp_all
  then have "ucast (f32_of_int i) = (0 :: u8)"
    using assms(1) unfolding f32_of_int_def f32_make_def
    by (simp add: unsigned_of_nat word_of_nat_eq_0_iff take_bit_eq_mod del: power_numeral) simp
  then show ?thesis by (simp add: u32_to_le_bytes_def)
qed

text \<open>C40. The exception: a value of the type \<open>Eventable\<close> (0x04) is written as the single
  of its index, but only the first byte of the single is read back. So whatever index from 1 to 65535 is
  written, on whatever tab, the device's answer with the very bytes written decodes to index 0, and the write
  is taken for one that did not take effect.\<close>

theorem eventable_read_as_zero:
  assumes "write_value_for Viz_Eventable (Eventable i labels) = Inr w"
    and "write_frames addr fid w s = Inr (f # fs)" and "0 < i" and "i < 2 ^ 16"
  shows "decode_value (drop 2 (snd f)) Viz_Eventable = Eventable 0 [] \<and>
    \<not> write_took_effect w (decode_value (drop 2 (snd f)) Viz_Eventable)"
proof -
  have w: "w = WListIndex i" using assms(1) by (simp add: write_value_for_def)
  have "decode_value (drop 2 (snd f)) Viz_Eventable = Eventable 0 []"
    using first_write_frame [OF assms(2)] low_byte_of_small [OF assms(3,4)]
    by (simp add: w wire_single_def first_byte_def u32_to_le_bytes_def)
  then show ?thesis using assms(3) by (simp add: w)
qed

lemma eventable_read_as_zero_witness:
  "decode_value (drop 2 (snd (encode_set_list 0x1234 7 3))) Viz_Eventable = Eventable 0 [] \<and>
    \<not> write_took_effect (WListIndex 3) (decode_value (drop 2 (snd (encode_set_list 0x1234 7 3))) Viz_Eventable)"
proof -
  have "write_frames 0x1234 7 (WListIndex 3) switch_start = Inr [encode_set_list 0x1234 7 3]"
    by (simp add: write_frames_def field_id_menu_def field_id_index_ucast Let_def)
  then show ?thesis
    by (rule eventable_read_as_zero [rotated]) (simp_all add: write_value_for_def)
qed

section \<open>Group handles\<close>

lemma find_middle: "find P (xs @ x # ys) = (case find P xs of Some y \<Rightarrow> Some y | None \<Rightarrow> if P x then Some x else find P ys)"
  by (induction xs) auto

text \<open>C39. A group's handle holds its number alone, and the groups of every tab are numbered from
  zero. So the handle that \<open>tab\<close> gives for a group resolves to that group only when no group the
  schema lists before it, of whatever tab, has the same number; else to the first that has.\<close>

theorem group_handle_takes_first_number:
  assumes "state_schema addr (b_state s) = Some sch" and "ds_groups sch = before @ g # after"
    and "has_menu addr (gi_menu g) (b_state s)"
  shows "(\<exists>ids. device_tab addr (gi_menu g) s = Some (Inr ids, s) \<and> gi_id g \<in> set ids) \<and>
    group_of addr (gi_id g) s =
      Some (Inr (case find (\<lambda>h. gi_id h = gi_id g) before of Some h \<Rightarrow> h | None \<Rightarrow> g), s)"
  using assms
  by (auto simp: device_tab_def tab_info_def ensure_menu_def state_schema_ready_def group_of_def find_group_def
      find_middle split: option.splits)

definition group_zero :: "string \<Rightarrow> menu \<Rightarrow> group_info" where
  "group_zero name m = \<lparr>gi_id = 0, gi_name = name, gi_menu = m, gi_fields = []\<rparr>"

definition two_tabs :: sched where
  "two_tabs = upd_state (put_menu 1001 0x1234 Configuration [group_zero ''Setup'' Configuration])
     (upd_state (put_menu 1000 0x1234 Monitoring [group_zero ''Status'' Monitoring]) quiet_start)"

lemma group_handle_takes_first_number_witness:
  "device_tab 0x1234 Configuration two_tabs = Some (Inr [0], two_tabs) \<and>
   group_of 0x1234 0 two_tabs = Some (Inr (group_zero ''Status'' Monitoring), two_tabs)"
proof -
  let ?a = "group_zero ''Status'' Monitoring" and ?b = "group_zero ''Setup'' Configuration"
  have menus: "has_menu 0x1234 Configuration (b_state two_tabs)"
    by (simp add: two_tabs_def upd_state_def put_menu_def entry_or_new_def has_menu_def Let_def)
  obtain sch where sch: "state_schema 0x1234 (b_state two_tabs) = Some sch" "ds_groups sch = [?a] @ ?b # []"
    by (simp add: two_tabs_def upd_state_def put_menu_def entry_or_new_def state_schema_def Let_def
        group_zero_def device_entry_new_def schema_from_identity_def quiet_start_def sched_start_def)
  have "device_tab 0x1234 Configuration two_tabs = Some (Inr [0], two_tabs)"
    using menus sch
    by (simp add: device_tab_def tab_info_def ensure_menu_def state_schema_ready_def group_zero_def)
  with group_handle_takes_first_number [OF sch] menus show ?thesis by (simp add: group_zero_def)
qed

end
