(* ===== verification/Updates.thy ===== *)
theory Updates
  imports Returns "HOL-Library.Multiset"
begin

text \<open>
  What subscribers get and what polling costs: change-only deliveries against the stream of
  what was read, how often a silent device is still asked, and the batches of reads in flight.
\<close>

section \<open>Change-only subscriptions\<close>

text \<open>The values read for a subscription's fields, in order, through \<open>deliver\<close>.\<close>

fun deliver_all :: "(field_id \<times> bus_value) list \<Rightarrow> sub_state \<Rightarrow> sub_state \<times> value_update list" where
  "deliver_all [] u = (u, [])"
| "deliver_all ((f, v) # fvs) u =
     (case deliver_value f v u of (u1, ups) \<Rightarrow> (case deliver_all fvs u1 of (u2, ups') \<Rightarrow> (u2, ups @ ups')))"

text \<open>The reference: the values of one field that differ from the last one taken.\<close>

fun changes :: "bus_value option \<Rightarrow> bus_value list \<Rightarrow> bus_value list" where
  "changes w [] = []"
| "changes w (v # vs) =
     (if (case w of Some x \<Rightarrow> value_eq x v | None \<Rightarrow> False) then changes w vs else v # changes (Some v) vs)"

definition of_field :: "field_id \<Rightarrow> (field_id \<times> bus_value) list \<Rightarrow> bus_value list" where
  "of_field f fvs = map snd (filter (\<lambda>x. fst x = f) fvs)"

definition got_updates :: "field_id \<Rightarrow> value_update list \<Rightarrow> bus_value list" where
  "got_updates f ups = map vu_value (filter (\<lambda>x. vu_field x = f) ups)"

lemma deliver_all_changes:
  "got_updates f (snd (deliver_all fvs u)) =
     (if su_change_only u then changes (su_last u f) (of_field f fvs) else of_field f fvs) \<and>
   su_change_only (fst (deliver_all fvs u)) = su_change_only u"
proof (induction fvs arbitrary: u)
  case (Cons x fvs)
  obtain g v where x: "x = (g, v)" by fastforce
  show ?case
    using Cons.IH [of "fst (deliver_value g v u)"]
    by (auto simp: x case_prod_beta deliver_value_def got_updates_def of_field_def split: option.splits)
qed (simp add: got_updates_def of_field_def)

lemma changes_no_repeats: "successively (\<lambda>a b. \<not> value_eq a b) (case w of Some x \<Rightarrow> x # changes w vs | None \<Rightarrow> changes w vs)"
  by (induction w vs rule: changes.induct) (auto split: option.splits)

lemma changes_up_to_date:
  "vs \<noteq> [] \<Longrightarrow> changes None vs \<noteq> [] \<and> (last (changes None vs) = last vs \<or> value_eq (last (changes None vs)) (last vs))"
proof -
  have "vs \<noteq> [] \<Longrightarrow> (\<exists>x. (case w of Some y \<Rightarrow> y # changes w vs | None \<Rightarrow> changes w vs) = x \<and> x \<noteq> [] \<and>
     (last x = last vs \<or> value_eq (last x) (last vs)))" for w
    by (induction w vs rule: changes.induct) (auto split: option.splits)
  from this [of None] show "vs \<noteq> [] \<Longrightarrow> ?thesis" by simp
qed

text \<open>C38. Whatever values are read for the fields of a subscription, and however they interleave,
  the updates it gets of a field are the reference's changes of that field's values (all of them
  when it does not want changes only), in their order. So no two updates in a row of a new
  change-only subscription are equal, and the last update is equal to, or the very, last value
  read.\<close>

theorem change_only_updates_are_the_changes:
  assumes "su_last u f = None" and "su_change_only u" and "of_field f fvs \<noteq> []"
  shows "\<exists>ups. got_updates f (snd (deliver_all fvs u)) = ups \<and> ups = changes None (of_field f fvs) \<and>
    ups \<noteq> [] \<and> successively (\<lambda>a b. \<not> value_eq a b) ups \<and>
    (last ups = last (of_field f fvs) \<or> value_eq (last ups) (last (of_field f fvs)))"
  using deliver_all_changes [of f fvs u] changes_no_repeats [of None "of_field f fvs"]
    changes_up_to_date [OF assms(3)] assms
  by simp

definition a_sub :: sub_state where
  "a_sub = \<lparr>su_id = 1, su_device = 0x1234, su_fields = [5, 6], su_interval = 1000, su_change_only = True,
     su_next_due = (\<lambda>f. None), su_last = Map.empty\<rparr>"

lemma change_only_updates_are_the_changes_witness:
  "got_updates 5 (snd (deliver_all [(5, Boolean True), (6, Boolean True), (5, Boolean True), (5, Boolean False)] a_sub)) =
     [Boolean True, Boolean False]"
proof -
  let ?fvs = "[(5, Boolean True), (6, Boolean True), (5, Boolean True), (5, Boolean False)]"
  have "su_last a_sub 5 = None" "su_change_only a_sub" "of_field 5 ?fvs = [Boolean True, Boolean True, Boolean False]"
    by (simp_all add: a_sub_def of_field_def)
  with change_only_updates_are_the_changes [of a_sub 5 ?fvs] show ?thesis by simp
qed

text \<open>A value that is not a number is taken for a change every time.\<close>

lemma nan_always_delivered: "changes (Some (Float f32_nan)) [Float f32_nan, Float f32_nan] = [Float f32_nan, Float f32_nan]"
  by (simp add: f32_eq_def f32_is_nan_def f32_nan_def f32_exp_def f32_frac_def)

section \<open>Silent devices\<close>

text \<open>The times at which \<open>may_poll\<close> allows a read of a device, of the times it is
  asked.\<close>

fun approvals :: "u32 \<Rightarrow> (nat \<times> field_id) list \<Rightarrow> sched \<Rightarrow> nat list" where
  "approvals addr [] s = []"
| "approvals addr ((t, f) # asks) s =
     (case may_poll addr f (s\<lparr>b_clock := t\<rparr>) of (ok, s1) \<Rightarrow>
        if ok then t # approvals addr asks s1 else approvals addr asks s1)"

definition silent :: "u32 \<Rightarrow> sched \<Rightarrow> nat \<Rightarrow> bool" where
  "silent addr s t \<longleftrightarrow> device_status_of t (cf_liveness (sc_config s)) addr (b_state s) \<noteq> On"

definition retry_at :: "u32 \<Rightarrow> nat \<Rightarrow> sched \<Rightarrow> nat" where
  "retry_at addr t s = (case sc_quiet s addr of Some q \<Rightarrow> q | None \<Rightarrow> t + cf_quiet_probe (sc_config s))"

lemma may_poll_silent:
  "silent addr s t \<Longrightarrow> may_poll addr f (s\<lparr>b_clock := t\<rparr>) =
     (retry_at addr t s \<le> t,
      s\<lparr>b_clock := t, sc_quiet := (sc_quiet s)(addr \<mapsto>
          if retry_at addr t s \<le> t then t + cf_quiet_probe (sc_config s) else retry_at addr t s)\<rparr>)"
  by (simp add: may_poll_def silent_def retry_at_def Let_def not_less split: option.split)

lemma silent_upd [simp]: "silent addr (s\<lparr>b_clock := c\<rparr>) t = silent addr s t" "silent addr (s\<lparr>sc_quiet := q\<rparr>) t = silent addr s t"
  for s :: sched
  by (simp_all add: silent_def)

lemma approvals_paced:
  assumes "sorted (map fst asks)" and "\<And>t. t \<in> fst ` set asks \<Longrightarrow> silent addr s t" and "sc_quiet s addr = Some q"
  shows "sorted_wrt (\<lambda>t u. t + cf_quiet_probe (sc_config s) \<le> u) (approvals addr asks s) \<and>
    (\<forall>t \<in> set (approvals addr asks s). q \<le> t)"
  using assms
proof (induction asks arbitrary: s q)
  case (Cons x asks)
  obtain t f where x: "x = (t, f)" by fastforce
  let ?p = "cf_quiet_probe (sc_config s)"
  let ?s = "s\<lparr>b_clock := t, sc_quiet := (sc_quiet s)(addr \<mapsto> if q \<le> t then t + ?p else q)\<rparr>"
  have m: "may_poll addr f (s\<lparr>b_clock := t\<rparr>) = (q \<le> t, ?s)"
    using Cons.prems may_poll_silent [of addr s t f] by (simp add: x retry_at_def)
  have "sorted_wrt (\<lambda>t u. t + ?p \<le> u) (approvals addr asks ?s) \<and>
      (\<forall>u \<in> set (approvals addr asks ?s). (if q \<le> t then t + ?p else q) \<le> u)"
    using Cons.IH [of ?s "if q \<le> t then t + ?p else q"] Cons.prems by (simp add: x)
  then show ?case by (cases "q \<le> t") (auto simp: x m dest: order_trans [of q t] add_leD1)
qed simp

lemma approvals_reach:
  assumes "sorted (map fst asks)" and "\<And>t. t \<in> fst ` set asks \<Longrightarrow> silent addr s t" and "sc_quiet s addr = Some q"
    and "u \<in> fst ` set asks" and "q \<le> u"
  shows "\<exists>w \<in> set (approvals addr asks s). q \<le> w \<and> w \<le> u"
  using assms
proof (induction asks arbitrary: s)
  case (Cons x asks)
  obtain t f where x: "x = (t, f)" by fastforce
  let ?p = "cf_quiet_probe (sc_config s)"
  let ?s = "s\<lparr>b_clock := t, sc_quiet := (sc_quiet s)(addr \<mapsto> if q \<le> t then t + ?p else q)\<rparr>"
  have m: "may_poll addr f (s\<lparr>b_clock := t\<rparr>) = (q \<le> t, ?s)"
    using Cons.prems may_poll_silent [of addr s t f] by (simp add: x retry_at_def)
  show ?case
  proof (cases "q \<le> t")
    case True
    have "t \<le> u" using Cons.prems(1,4) by (auto simp: x)
    with True show ?thesis by (auto simp: x m)
  next
    case False
    then have "u \<in> fst ` set asks" using Cons.prems(4,5) by (auto simp: x)
    with False Cons.IH [of ?s] Cons.prems have "\<exists>w \<in> set (approvals addr asks ?s). q \<le> w \<and> w \<le> u"
      by (simp add: x)
    with False show ?thesis by (simp add: x m)
  qed
qed simp

lemma approvals_are_asked: "set (approvals addr asks s) \<subseteq> fst ` set asks"
proof (induction asks arbitrary: s)
  case (Cons x asks)
  obtain t f where x: "x = (t, f)" by fastforce
  show ?case using Cons.IH [of "snd (may_poll addr f (s\<lparr>b_clock := t\<rparr>))"] by (auto simp: x case_prod_beta)
qed simp

lemma approvals_between:
  assumes "sorted (map fst asks)" and "\<And>t. t \<in> fst ` set asks \<Longrightarrow> silent addr s t" and "sc_quiet s addr = Some q"
    and "\<And>t. t \<in> fst ` set asks \<Longrightarrow> q \<le> t + cf_quiet_probe (sc_config s)"
    and "t \<in> fst ` set asks" and "u \<in> fst ` set asks" and "t + cf_quiet_probe (sc_config s) \<le> u"
  shows "\<exists>w \<in> set (approvals addr asks s). t \<le> w \<and> w \<le> u"
  using assms
proof (induction asks arbitrary: s q)
  case (Cons x asks)
  obtain t0 f where x: "x = (t0, f)" by fastforce
  let ?p = "cf_quiet_probe (sc_config s)"
  show ?case
  proof (cases "t = t0")
    case True
    have "q \<le> u" using Cons.prems(4) [of t0] Cons.prems(7) True by (auto simp: x)
    then obtain w where w: "w \<in> set (approvals addr (x # asks) s)" "w \<le> u"
      using approvals_reach [OF Cons.prems(1,2,3,6)] by blast
    then have "w \<in> fst ` set (x # asks)" using approvals_are_asked by blast
    then have "t \<le> w" using Cons.prems(1) True by (auto simp: x)
    with w show ?thesis by blast
  next
    case False
    let ?q = "if q \<le> t0 then t0 + ?p else q"
    let ?s = "s\<lparr>b_clock := t0, sc_quiet := (sc_quiet s)(addr \<mapsto> ?q)\<rparr>"
    have m: "may_poll addr f (s\<lparr>b_clock := t0\<rparr>) = (q \<le> t0, ?s)"
      using Cons.prems may_poll_silent [of addr s t0 f] by (simp add: x retry_at_def)
    have t: "t \<in> fst ` set asks" using Cons.prems(5) False by (auto simp: x)
    then have "t0 \<le> t" using Cons.prems(1) by (auto simp: x)
    have u: "u \<in> fst ` set asks" if "u \<noteq> t0" using Cons.prems(6) that by (auto simp: x)
    have p: "?p = 0" if "u = t0" using Cons.prems(7) \<open>t0 \<le> t\<close> that by simp
    have "u \<in> fst ` set asks"
    proof (cases "u = t0")
      case True
      with Cons.prems(7) \<open>t0 \<le> t\<close> False show ?thesis by simp
    qed (rule u)
    moreover have "?q \<le> t + ?p" if "t \<in> fst ` set asks" for t
      using Cons.prems(1,4) that by (auto simp: x)
    moreover have "sorted (map fst asks)" "\<And>t. t \<in> fst ` set asks \<Longrightarrow> silent addr ?s t" "sc_quiet ?s addr = Some ?q"
      using Cons.prems(1,2) by (simp_all add: x)
    ultimately have "\<exists>w \<in> set (approvals addr asks ?s). t \<le> w \<and> w \<le> u"
      using t Cons.prems(7) Cons.IH [of ?s ?q] by simp
    then show ?thesis by (auto simp: x m)
  qed
qed simp

text \<open>A device that is silent is still read, but rarely: of any sequence of moments at which its
  fields are due, the reads that are allowed lie at least \<open>quiet_probe\<close> apart, the first one that
  long after it was first found silent; and between any two moments that far apart there is an allowed read,
  so the device is never given up.\<close>

theorem silent_device_probed_at_its_pace:
  assumes "sorted (map fst asks)" and "\<And>t. t \<in> fst ` set asks \<Longrightarrow> silent addr s t" and "sc_quiet s addr = None"
    and "0 < cf_quiet_probe (sc_config s)"
  shows "sorted_wrt (\<lambda>t u. t + cf_quiet_probe (sc_config s) \<le> u) (approvals addr asks s) \<and>
    (\<forall>w \<in> set (approvals addr asks s). fst (hd asks) + cf_quiet_probe (sc_config s) \<le> w) \<and>
    (\<forall>t \<in> fst ` set asks. \<forall>u \<in> fst ` set asks. t + cf_quiet_probe (sc_config s) \<le> u \<longrightarrow>
       (\<exists>w \<in> set (approvals addr asks s). t \<le> w \<and> w \<le> u))"
proof (cases asks)
  case (Cons x rest)
  obtain t0 f where x: "x = (t0, f)" by fastforce
  let ?p = "cf_quiet_probe (sc_config s)"
  let ?s = "s\<lparr>b_clock := t0, sc_quiet := (sc_quiet s)(addr \<mapsto> t0 + ?p)\<rparr>"
  have m: "may_poll addr f (s\<lparr>b_clock := t0\<rparr>) = (False, ?s)"
    using assms may_poll_silent [of addr s t0 f] by (simp add: x Cons retry_at_def)
  have rest: "sorted (map fst rest)" "\<And>t. t \<in> fst ` set rest \<Longrightarrow> silent addr ?s t" "sc_quiet ?s addr = Some (t0 + ?p)"
    using assms(1,2) by (simp_all add: Cons x)
  have later: "t0 \<le> t" if "t \<in> fst ` set rest" for t
    using assms(1) that by (auto simp: Cons x)
  have "\<exists>w \<in> set (approvals addr rest ?s). t \<le> w \<and> w \<le> u"
    if t: "t \<in> fst ` set asks" and u: "u \<in> fst ` set asks" and tu: "t + ?p \<le> u" for t u
  proof -
    have "t0 \<le> t" using t later by (auto simp: Cons x)
    then have u': "u \<in> fst ` set rest" using u tu assms(4) by (auto simp: Cons x)
    show ?thesis
    proof (cases "t \<in> fst ` set rest")
      case True
      show ?thesis
        using approvals_between [OF rest _ True u'] tu later by simp
    next
      case False
      with t have "t = t0" by (auto simp: Cons x)
      with approvals_reach [OF rest u'] tu show ?thesis by (meson add_leD1)
    qed
  qed
  then show ?thesis
    using approvals_paced [OF rest] by (auto simp: Cons x m)
qed simp

lemma silent_device_probed_at_its_pace_witness:
  "approvals 0x1234 [(7000, 5), (8000, 6), (37000, 5), (38000, 5), (70000, 6)] switch_start = [37000, 70000] \<and>
   list_all (\<lambda>w. 37000 \<le> w) (approvals 0x1234 [(7000, 5), (8000, 6), (37000, 5), (38000, 5), (70000, 6)] switch_start)"
proof -
  let ?asks = "[(7000, 5), (8000, 6), (37000, 5), (38000, 5), (70000, 6)] :: (nat \<times> field_id) list"
  have q: "sc_quiet switch_start 0x1234 = None" "cf_quiet_probe (sc_config switch_start) = 30000"
    by (simp_all add: switch_start_def quiet_start_def sched_start_def upd_state_def config_default_def)
  have s: "silent 0x1234 switch_start t" if "t \<in> fst ` set ?asks" for t
    using that by (auto simp: silent_def device_status_of_def device_entry_new_def config_default_def)
  have "approvals 0x1234 ?asks switch_start = [37000, 70000]"
    using s q by (simp add: may_poll_silent retry_at_def)
  moreover have "list_all (\<lambda>w. 37000 \<le> w) (approvals 0x1234 ?asks switch_start)"
    using silent_device_probed_at_its_pace [of ?asks "0x1234" switch_start] s q by (simp add: list_all_iff)
  ultimately show ?thesis by simp
qed

section \<open>Batches of reads\<close>

text \<open>Any handler of results, with a record of the reads it was called for.\<close>

definition logged :: "(nat \<Rightarrow> bus_value option \<Rightarrow> 'c \<times> sched \<Rightarrow> 'c \<times> sched) \<Rightarrow> nat \<Rightarrow> bus_value option \<Rightarrow>
    (nat list \<times> 'c) \<times> sched \<Rightarrow> (nat list \<times> 'c) \<times> sched" where
  "logged got r v = (\<lambda>((log, c), s). case got r v (c, s) of (c', s') \<Rightarrow> ((log @ [r], c'), s'))"

lemma logged_simp: "logged got r v ((log, c), s) = ((log @ [r], fst (got r v (c, s))), snd (got r v (c, s)))"
  by (simp add: logged_def case_prod_beta)

definition pend_read :: "pending \<Rightarrow> nat" where "pend_read p = fst (fst p)"

lemma fill_batch_reads:
  assumes "fill_batch ps todo s = (ps1, todo1, s1)"
  shows "map pend_read ps1 @ map fst todo1 = map pend_read ps @ map fst todo"
    and "length ps \<le> READ_BATCH \<Longrightarrow> length ps1 \<le> READ_BATCH"
    and "todo1 \<noteq> [] \<Longrightarrow> READ_BATCH \<le> length ps1"
proof -
  have "map pend_read ps1 @ map fst todo1 = map pend_read ps @ map fst todo \<and>
      (length ps \<le> READ_BATCH \<longrightarrow> length ps1 \<le> READ_BATCH) \<and> (todo1 \<noteq> [] \<longrightarrow> READ_BATCH \<le> length ps1)"
    using assms
    by (induction ps todo s rule: fill_batch.induct) (auto simp: pend_read_def split: if_splits prod.splits)
  then show "map pend_read ps1 @ map fst todo1 = map pend_read ps @ map fst todo"
    "length ps \<le> READ_BATCH \<Longrightarrow> length ps1 \<le> READ_BATCH" "todo1 \<noteq> [] \<Longrightarrow> READ_BATCH \<le> length ps1" by simp_all
qed

lemma finish_reads_log:
  "finish_reads btw (logged got) ps ((log, c), s) = Some ((log', c'), s') \<Longrightarrow> log' = log @ map pend_read ps"
proof (induction ps arbitrary: log c s)
  case (Cons p ps)
  obtain r d f viz sent where p: "p = ((r, d, f, viz), sent)" by (metis prod.collapse)
  obtain z where z: "finish_read btw d f viz sent s = Some z"
    and rest: "finish_reads btw (logged got) ps
       (logged got r (case fst z of Inr x \<Rightarrow> Some x | Inl e \<Rightarrow> None) ((log, c), snd z)) = Some ((log', c'), s')"
    using Cons.prems by (auto simp: p Option.bind_eq_Some_conv)
  then show ?case
    using Cons.IH [of "log @ [r]" "fst (got r (case fst z of Inr x \<Rightarrow> Some x | Inl e \<Rightarrow> None) (c, snd z))"]
    by (simp add: logged_simp p pend_read_def)
qed simp

lemma mset_done_left:
  assumes "\<And>p. ready_at = Some p \<Longrightarrow> p < length ps"
  shows "mset (map (\<lambda>p. ps ! p) (rev (done_reads ps ready_at dl))) + mset (left_reads ps (done_reads ps ready_at dl)) = mset ps"
proof -
  let ?d = "done_reads ps ready_at dl"
  have "distinct ?d" by (auto simp: done_reads_def split: option.split)
  moreover have "set ?d \<subseteq> {0 ..< length ps}" using assms by (auto simp: done_reads_def split: option.split)
  ultimately have "mset ?d = mset (filter (\<lambda>p. p \<in> set ?d) [0 ..< length ps])"
    by (intro set_eq_iff_mset_eq_distinct [THEN iffD1]) auto
  then have "mset ?d + mset (filter (\<lambda>p. p \<notin> set ?d) [0 ..< length ps]) = mset [0 ..< length ps]"
    by (metis mset_filter multiset_partition)
  then have "image_mset (\<lambda>p. ps ! p) (mset ?d) + image_mset (\<lambda>p. ps ! p) (mset (filter (\<lambda>p. p \<notin> set ?d) [0 ..< length ps]))
      = image_mset (\<lambda>p. ps ! p) (mset [0 ..< length ps])"
    by (metis image_mset_union)
  also have "\<dots> = mset (map (\<lambda>p. ps ! p) [0 ..< length ps])" by simp
  finally show ?thesis by (simp add: left_reads_def map_nth)
qed

lemma poll_loop_log:
  "poll_loop btw (logged got) ps todo ((log, c), s) = Some ((log', c'), s') \<Longrightarrow>
   mset log' = mset log + mset (map pend_read ps) + mset (map fst todo)"
proof (induction "length ps + length todo" arbitrary: ps todo log c s rule: less_induct)
  case less
  obtain ps1 todo1 s1 where fb: "fill_batch ps todo s = (ps1, todo1, s1)" by (metis prod.collapse)
  note fill = fill_batch_reads [OF fb]
  have eq: "mset (map pend_read ps1) + mset (map fst todo1) = mset (map pend_read ps) + mset (map fst todo)"
    using fill(1) by (metis mset_append)
  show ?case
  proof (cases "ps1 = []")
    case True
    then have "todo1 = []" using fill(3) by (auto simp: READ_BATCH_def)
    with less.prems fb True eq show ?thesis by (subst (asm) poll_loop.simps) simp
  next
    case False
    obtain ready_at s2 where w: "bus_wait_any (map pend_key ps1) (min_deadline ps1 - b_clock s1) s1 = (ready_at, s2)"
      by (metis prod.collapse)
    let ?done = "done_reads ps1 ready_at (min_deadline ps1)"
    obtain log3 c3 s3 where f: "finish_reads btw (logged got) (map (\<lambda>p. ps1 ! p) (rev ?done)) ((log, c), s2) = Some ((log3, c3), s3)"
      and rest: "poll_loop btw (logged got) (left_reads ps1 ?done) todo1 ((log3, c3), s3) = Some ((log', c'), s')"
      using less.prems fb w False
      by (subst (asm) poll_loop.simps) (auto simp: Let_def split: option.splits)
    have bound: "p < length ps1" if "ready_at = Some p" for p
      using w that ready_bound [of "map pend_key ps1" _ p] by (auto simp: bus_wait_any_def Let_def)
    have "length (left_reads ps1 ?done) + length todo1 < length ps + length todo"
      by (rule poll_loop_shrinks [OF fb [symmetric] refl False w [symmetric]])
    from less.hyps [OF this rest]
    have "mset log' = mset log3 + mset (map pend_read (left_reads ps1 ?done)) + mset (map fst todo1)" .
    also have "mset log3 = mset log + mset (map pend_read (map (\<lambda>p. ps1 ! p) (rev ?done)))"
      using finish_reads_log [OF f] by simp
    also have "\<dots> + mset (map pend_read (left_reads ps1 ?done)) + mset (map fst todo1) =
        mset log + image_mset pend_read (mset (map (\<lambda>p. ps1 ! p) (rev ?done)) + mset (left_reads ps1 ?done)) + mset (map fst todo1)"
      by (simp only: mset_map image_mset_union add.assoc)
    also have "\<dots> = mset log + (mset (map pend_read ps1) + mset (map fst todo1))"
      by (subst mset_done_left [OF bound]) (simp_all add: add.assoc)
    finally show ?thesis unfolding eq by simp
  qed
qed

text \<open>Reads that are not of texts always finish.\<close>

lemma finish_read_total: "viz \<noteq> Viz_Text \<Longrightarrow> \<exists>v s'. finish_read btw a f viz sent s = Some (v, s')"
proof -
  assume viz: "viz \<noteq> Viz_Text"
  obtain r s1 where w: "bus_wait (fst sent) (max (snd sent - b_clock s) (Suc 0)) s = (r, s1)" by fastforce
  show ?thesis
  proof (cases r)
    case None
    then show ?thesis by (simp add: finish_read_def w)
  next
    case (Some raw)
    have "\<forall>sid t. with_options (decode_value raw viz) os \<noteq> Text sid t" for os
      using viz by (cases viz) auto
    then show ?thesis
      using Some by (auto simp: finish_read_def w Let_def split: bus_value.split)
  qed
qed

definition no_text :: "poll_read \<Rightarrow> bool" where "no_text rd \<longleftrightarrow> snd (snd rd) \<noteq> Viz_Text"

lemma finish_reads_total:
  "list_all (\<lambda>p. no_text (snd (fst p))) ps \<Longrightarrow> \<exists>cs'. finish_reads btw got ps cs = Some cs'"
proof (induction ps arbitrary: cs)
  case (Cons p ps)
  obtain r d f viz sent where p: "p = ((r, d, f, viz), sent)" by (metis prod.collapse)
  obtain c s where cs: "cs = (c, s)" by fastforce
  obtain v s' where "finish_read btw d f viz sent s = Some (v, s')"
    using finish_read_total [of viz btw d f sent s] Cons.prems by (auto simp: p no_text_def)
  with Cons show ?case by (simp add: p cs)
qed simp

lemma fill_batch_no_text:
  "fill_batch ps todo s = (ps1, todo1, s1) \<Longrightarrow> list_all (\<lambda>p. no_text (snd (fst p))) ps \<Longrightarrow>
   list_all (\<lambda>x. no_text (snd x)) todo \<Longrightarrow>
   list_all (\<lambda>p. no_text (snd (fst p))) ps1 \<and> list_all (\<lambda>x. no_text (snd x)) todo1"
  by (induction ps todo s rule: fill_batch.induct) (auto split: if_splits prod.splits)

lemma poll_loop_total:
  "list_all (\<lambda>p. no_text (snd (fst p))) ps \<Longrightarrow> list_all (\<lambda>x. no_text (snd x)) todo \<Longrightarrow>
   \<exists>cs'. poll_loop btw got ps todo cs = Some cs'"
proof (induction "length ps + length todo" arbitrary: ps todo cs rule: less_induct)
  case less
  obtain c s where cs: "cs = (c, s)" by fastforce
  obtain ps1 todo1 s1 where fb: "fill_batch ps todo s = (ps1, todo1, s1)" by (metis prod.collapse)
  show ?case
  proof (cases "ps1 = []")
    case True
    with fb show ?thesis by (subst poll_loop.simps) (simp add: cs)
  next
    case False
    obtain ready_at s2 where w: "bus_wait_any (map pend_key ps1) (min_deadline ps1 - b_clock s1) s1 = (ready_at, s2)"
      by (metis prod.collapse)
    let ?done = "done_reads ps1 ready_at (min_deadline ps1)"
    have bound: "p < length ps1" if "ready_at = Some p" for p
      using w that ready_bound [of "map pend_key ps1" _ p] by (auto simp: bus_wait_any_def Let_def)
    have ok: "list_all (\<lambda>p. no_text (snd (fst p))) ps1" "list_all (\<lambda>x. no_text (snd x)) todo1"
      using fill_batch_no_text [OF fb less.prems] by simp_all
    then have "list_all (\<lambda>p. no_text (snd (fst p))) (map (\<lambda>p. ps1 ! p) (rev ?done))"
      using bound by (auto simp: list_all_iff done_reads_def split: option.splits)
    then obtain cs3 where f: "finish_reads btw got (map (\<lambda>p. ps1 ! p) (rev ?done)) (c, s2) = Some cs3"
      using finish_reads_total by blast
    have "list_all (\<lambda>p. no_text (snd (fst p))) (left_reads ps1 ?done)"
      using ok(1) by (auto simp: left_reads_def list_all_iff)
    moreover have "length (left_reads ps1 ?done) + length todo1 < length ps + length todo"
      by (rule poll_loop_shrinks [OF fb [symmetric] refl False w [symmetric]])
    ultimately obtain cs' where "poll_loop btw got (left_reads ps1 ?done) todo1 cs3 = Some cs'"
      using less.hyps ok(2) by blast
    then show ?thesis using False fb w f by (subst poll_loop.simps) (simp add: cs Let_def)
  qed
qed

text \<open>C37. The batched reading under every polling pass, \<open>poll_values\<close>, always ends when
  none of the fields to read is a text, and it finishes every read it is given exactly once, in whatever order
  the replies come or stay away and whatever is done with the results. A field that is a text is outside the
  claim: its string is fetched from the device, which may never end.\<close>

theorem every_planned_read_finishes_once:
  assumes "list_all no_text reads"
  shows "\<exists>log c' s'. poll_values btw reads (logged got) (([], c), s) = Some ((log, c'), s') \<and>
    mset log = mset [0 ..< length reads]"
proof -
  have "list_all (\<lambda>x. no_text (snd x)) (List.enumerate 0 reads)"
    using assms by (auto simp: list_all_length nth_enumerate_eq)
  then obtain log c' s' where "poll_values btw reads (logged got) (([], c), s) = Some ((log, c'), s')"
    using poll_loop_total [of "[]" "List.enumerate 0 reads" btw "logged got" "(([], c), s)"]
    by (auto simp: poll_values_def)
  with poll_loop_log [OF this [unfolded poll_values_def]] show ?thesis by simp
qed

lemma every_planned_read_finishes_once_witness:
  "\<exists>log c' s'. poll_values between0 [(0x1234, 5, CheckBox), (0x1234, 6, DropDown)] (logged (\<lambda>r v cs. cs)) (([], ()), switch_start)
       = Some ((log, c'), s') \<and> mset log = mset [0, 1]"
  using every_planned_read_finishes_once [of "[(0x1234, 5, CheckBox), (0x1234, 6, DropDown)]" between0 "\<lambda>r v cs. cs" "()" switch_start]
  by (simp add: no_text_def)

end
