(* ===== verification/Framelog.thy ===== *)
theory Framelog
  imports Writes
begin

text \<open>
  The trace of frames, \<open>crates/masterbus/src/runtime/framelog.rs\<close>: one line a frame, shaped
  like candump's, with a tag that says what the frame is. The logger and its filter are left
  out.
\<close>

datatype direction = Rx | Tx

fun dir_text :: "direction \<Rightarrow> string" where
  "dir_text Rx = ''Rx''"
| "dir_text Tx = ''Tx''"

fun hex_column :: "bytes \<Rightarrow> string" where
  "hex_column [] = []"
| "hex_column [b] = fmt_hex 2 (unat b)"
| "hex_column (b # c # bs) = fmt_hex 2 (unat b) @ CHR '' '' # hex_column (c # bs)"

text \<open>\<open>{hex:<23}\<close>: spaces on the right up to the width, never cut.\<close>

definition pad_right :: "nat \<Rightarrow> string \<Rightarrow> string" where
  "pad_right w s = s @ replicate (w - length s) (CHR '' '')"

definition classify :: "direction \<Rightarrow> u8 \<Rightarrow> bytes \<Rightarrow> string" where
  "classify dir c data =
     (let is_tx = (dir = Tx); n = length data
      in if c = 0x04 then ''broadcast''
         else if c = 0x05 then ''poll''
         else if c = 0x06 then ''prop-resp''
         else if c = 0x07 then (if is_tx then ''prop-req'' else ''prop-resp-chunk'')
         else if c = 0x08 then ''push-btm1''
         else if c = 0x09 then ''schema-resp''
         else if c = 0x0A then ''alarm-resp''
         else if c = 0x0B then ''history-or-btm3-ack''
         else if c = 0x0C then ''meta-btm3-resp''
         else if c = 0x10 then ''ack''
         else if c = 0x11 then ''no-value''
         else if c = 0x18
           then (if is_tx then (if n \<le> 2 then ''read-btm1'' else ''write-btm1'') else ''loopback-read-btm1'')
         else if c = 0x19 then ''schema-req''
         else if c = 0x1A then ''alarm-req''
         else if c = 0x1B
           then (if is_tx then (if 5 \<le> n then ''write-btm3'' else ''history-req'') else ''history-resp'')
         else if c = 0x1C then ''meta-btm3-req''
         else ''?'')"

definition log_class :: "u32 \<Rightarrow> u8" where
  "log_class can_id = ucast (drop_bit 24 can_id AND 0x1F)"

definition frame_line :: "direction \<Rightarrow> u32 \<Rightarrow> bytes \<Rightarrow> string" where
  "frame_line dir can_id data =
     dir_text dir @ ''  '' @ fmt_hex 8 (unat can_id) @ ''   ['' @ fmt_dec (length data) @ '']  '' @
     pad_right 23 (hex_column data) @ '' ; '' @ classify dir (log_class can_id) data"

section \<open>Reading a line back\<close>

fun read_hex :: "nat \<Rightarrow> string \<Rightarrow> bytes" where
  "read_hex 0 s = []"
| "read_hex (Suc n) s = word_of_nat (undigits 16 (take 2 s)) # read_hex n (drop 3 s)"

definition read_line :: "string \<Rightarrow> direction \<times> u32 \<times> bytes" where
  "read_line s =
     (if take 2 s = ''Rx'' then Rx else Tx, word_of_nat (undigits 16 (take 8 (drop 4 s))),
      read_hex (undigits 10 (take 1 (drop 16 s))) (drop 20 s))"

lemma length_hex_byte [simp]: "length (fmt_hex 2 (unat b)) = 2" for b :: u8
  using length_fmt_hex [of "unat b" 1] unsigned_less [of b] by (simp add: numeral_2_eq_2)

lemma length_hex_id [simp]: "length (fmt_hex 8 (unat i)) = 8" for i :: u32
proof -
  have "unat i < 16 ^ Suc 7" using unsigned_less [of i] by simp
  from length_fmt_hex [OF this] show ?thesis by simp
qed

lemma length_hex_column: "length (hex_column data) = 3 * length data - 1"
  by (induction data rule: hex_column.induct) simp_all

lemma read_hex_column: "read_hex (length data) (hex_column data @ t) = data"
  by (induction data rule: hex_column.induct) (simp_all add: undigits_fmt_hex)

lemma fmt_dec_digit: "n < 10 \<Longrightarrow> length (fmt_dec n) = 1"
  by (simp add: fmt_dec_def digits_in.simps [of 10 n])

text \<open>A frame of up to eight bytes is told by its line: direction, CAN id and payload can be read
  back from their columns, and the tag starts in the same column of every line.\<close>

theorem frame_line_roundtrip:
  assumes "length data \<le> 8"
  shows "read_line (frame_line dir can_id data) = (dir, can_id, data) \<and>
    drop 46 (frame_line dir can_id data) = classify dir (log_class can_id) data"
proof
  have d: "length (dir_text dir) = 2" "take 2 (dir_text dir) = ''Rx'' \<longleftrightarrow> dir = Rx" by (cases dir; simp)+
  have n: "length (fmt_dec (length data)) = 1" using assms by (simp add: fmt_dec_digit)
  have h: "length (pad_right 23 (hex_column data)) = 23"
    using assms by (simp add: pad_right_def length_hex_column)
  show "read_line (frame_line dir can_id data) = (dir, can_id, data)"
    using d n
    by (cases dir) (simp_all add: read_line_def frame_line_def undigits_fmt_hex undigits_fmt_dec
        pad_right_def read_hex_column)
  show "drop 46 (frame_line dir can_id data) = classify dir (log_class can_id) data"
    using d n h by (simp add: frame_line_def)
qed

lemma frame_line_roundtrip_witness:
  "read_line (frame_line Tx 0x18188EA2 [0x17, 0x00]) = (Tx, 0x18188EA2, [0x17, 0x00]) \<and>
   drop 46 (frame_line Tx 0x18188EA2 [0x17, 0x00]) = ''read-btm1''"
proof -
  have "log_class 0x18188EA2 = 0x18" by (simp add: log_class_def)
  then show ?thesis
    using frame_line_roundtrip [of "[0x17, 0x00]" Tx "0x18188EA2"] by (simp add: classify_def)
qed

section \<open>Tags\<close>

lemma log_class_frame: "log_class raw = mf_can_class (frame_from_raw raw data)"
  by (simp add: log_class_def frame_from_raw_def Let_def)

lemma log_class_wire: "addr < 0x800000 \<Longrightarrow> w_class w < 32 \<Longrightarrow> log_class (wire_can_id w addr) = w_class w"
  unfolding log_class_frame [of _ "[]"] by (simp add: frame_from_wire)

lemma log_class_id: "c < 32 \<Longrightarrow> log_class (can_id_of c addr) = c"
proof -
  assume c: "c < 32"
  show ?thesis
    unfolding log_class_def can_id_of_def
    by (rule bit_word_eqI) (auto simp: mask_simps bit_simps dest: byte_lt_32_bits [OF c])
qed

text \<open>The trace tells the writes of this program: every frame that \<open>do_write\<close> sends for a switch, a
  number or a choice is tagged as a write of its tab, and reads of Monitoring are tagged as reads.
  The tags of the other tabs say less than the code's classes could: a read of a Configuration
  field is tagged as a history request, and asking for the metadata of a Monitoring field as a
  write.\<close>

theorem log_tags:
  assumes "addr < 0x800000"
  shows "(write_frames addr fid w s = Inr frames \<and> f \<in> set frames \<longrightarrow>
      classify Tx (log_class (fst f)) (snd f) =
        (if field_id_menu fid = Monitoring then ''write-btm1'' else ''write-btm3'')) \<and>
    classify Tx (log_class (fst (value_read_raw Monitoring addr i))) (snd (value_read_raw Monitoring addr i)) = ''read-btm1'' \<and>
    classify Tx (log_class (fst (value_read_raw Configuration addr i))) (snd (value_read_raw Configuration addr i)) = ''history-req'' \<and>
    classify Tx (log_class (fst (property_req_raw Monitoring addr op i)))
      (snd (property_req_raw Monitoring addr op i)) = ''write-btm1''"
proof (intro conjI impI)
  assume "write_frames addr fid w s = Inr frames \<and> f \<in> set frames"
  then show "classify Tx (log_class (fst f)) (snd f) =
      (if field_id_menu fid = Monitoring then ''write-btm1'' else ''write-btm3'')"
    using assms
    by (auto simp: write_frames_def encode_set_boolean_def encode_set_list_def encode_set_float_def encode_commit_def
        value_write_raw_def commit_value_def log_class_id log_class_wire wire_defs classify_def Let_def
        split: menu.splits write_value.splits option.splits)
qed (use assms in \<open>simp_all add: value_read_raw_def property_req_raw_def log_class_wire wire_defs classify_def\<close>)

lemma log_tags_witness:
  "classify Tx (log_class (fst (encode_set_list 0x1234 7 3))) (snd (encode_set_list 0x1234 7 3)) = ''write-btm1''"
proof -
  have "write_frames 0x1234 7 (WListIndex 3) switch_start = Inr [encode_set_list 0x1234 7 3]"
    by (simp add: write_frames_def field_id_menu_def field_id_index_ucast Let_def)
  then show ?thesis
    using log_tags [of "0x1234" 7 "WListIndex 3" switch_start "[encode_set_list 0x1234 7 3]" "encode_set_list 0x1234 7 3"]
    by (simp add: field_id_menu_def)
qed

end
