(* ===== verification/F64.thy ===== *)
theory F64
  imports Complex_Main F32
begin

text \<open>
  IEEE-754 double precision, as theory F32 has single precision: an \<open>f64\<close> is its 64-bit
  pattern, a finite value the integer \<open>f64_val\<close> in units of \<open>2 ^ -1074\<close>. Arithmetic rounds
  the exact result to nearest, ties to even. The facts bound the error of one operation and
  say when a double rounds back to the single it came from.
\<close>

section \<open>Fields and classes\<close>

definition f64_sign :: "f64 \<Rightarrow> bool" where
  "f64_sign x \<longleftrightarrow> 2 ^ 63 \<le> unat x"

definition f64_exp :: "f64 \<Rightarrow> nat" where
  "f64_exp x = (unat x div 2 ^ 52) mod 2048"

definition f64_frac :: "f64 \<Rightarrow> nat" where
  "f64_frac x = unat x mod 2 ^ 52"

definition f64_is_nan :: "f64 \<Rightarrow> bool" where
  "f64_is_nan x \<longleftrightarrow> f64_exp x = 2047 \<and> f64_frac x \<noteq> 0"

definition f64_is_inf :: "f64 \<Rightarrow> bool" where
  "f64_is_inf x \<longleftrightarrow> f64_exp x = 2047 \<and> f64_frac x = 0"

definition f64_is_finite :: "f64 \<Rightarrow> bool" where
  "f64_is_finite x \<longleftrightarrow> f64_exp x \<noteq> 2047"

definition f64_mag :: "f64 \<Rightarrow> nat" where
  "f64_mag x = (if f64_exp x = 0 then f64_frac x
                else (2 ^ 52 + f64_frac x) * 2 ^ (f64_exp x - 1))"

definition f64_val :: "f64 \<Rightarrow> int" where
  "f64_val x = (if f64_sign x then - int (f64_mag x) else int (f64_mag x))"

definition f64_nan :: f64 where "f64_nan = 0x7FF8000000000000"
definition f64_INF :: nat where "f64_INF = 0x7FF0000000000000"

definition f64_make :: "bool \<Rightarrow> nat \<Rightarrow> f64" where
  "f64_make neg b = word_of_nat (if neg then b + 2 ^ 63 else b)"

section \<open>Rounding\<close>

text \<open>The quotient of naturals to nearest, ties to even.\<close>

definition div_rne :: "nat \<Rightarrow> nat \<Rightarrow> nat" where
  "div_rne n d =
     (let q = n div d; r = n mod d
      in if d < 2 * r \<or> (2 * r = d \<and> odd q) then q + 1 else q)"

text \<open>The pattern (without the sign bit) of the double nearest to \<open>n / d * 2 ^ -1074\<close>.\<close>

definition f64_round_bits :: "nat \<Rightarrow> nat \<Rightarrow> nat" where
  "f64_round_bits n d =
     (let s = nbits (n div d) - 53 in min (s * 2 ^ 52 + div_rne n (d * 2 ^ s)) f64_INF)"

text \<open>A decimal literal \<open>n / d\<close>, and an integer \<open>as f64\<close>.\<close>

definition f64_lit :: "nat \<Rightarrow> nat \<Rightarrow> f64" where
  "f64_lit n d = f64_make False (f64_round_bits (n * 2 ^ 1074) d)"

definition f64_of_int :: "int \<Rightarrow> f64" where
  "f64_of_int i = f64_make (i < 0) (f64_round_bits (nat \<bar>i\<bar> * 2 ^ 1074) 1)"

section \<open>Arithmetic\<close>

definition f64_neg :: "f64 \<Rightarrow> f64" where
  "f64_neg x = f64_make (\<not> f64_sign x) (unat x mod 2 ^ 63)"

definition f64_add :: "f64 \<Rightarrow> f64 \<Rightarrow> f64" where
  "f64_add x y =
     (if f64_is_nan x \<or> f64_is_nan y then f64_nan
      else if f64_is_inf x \<and> f64_is_inf y \<and> f64_sign x \<noteq> f64_sign y then f64_nan
      else if f64_is_inf x then x
      else if f64_is_inf y then y
      else let t = f64_val x + f64_val y
           in if t = 0 then f64_make (f64_sign x \<and> f64_sign y) 0
              else f64_make (t < 0) (f64_round_bits (nat \<bar>t\<bar>) 1))"

definition f64_sub :: "f64 \<Rightarrow> f64 \<Rightarrow> f64" where
  "f64_sub x y = (if f64_is_nan y then f64_nan else f64_add x (f64_neg y))"

definition f64_mul :: "f64 \<Rightarrow> f64 \<Rightarrow> f64" where
  "f64_mul x y =
     (let neg = (f64_sign x \<noteq> f64_sign y)
      in if f64_is_nan x \<or> f64_is_nan y then f64_nan
         else if f64_is_inf x \<or> f64_is_inf y
           then (if f64_mag x = 0 \<or> f64_mag y = 0 then f64_nan else f64_make neg f64_INF)
         else f64_make neg (f64_round_bits (f64_mag x * f64_mag y) (2 ^ 1074)))"

definition f64_div :: "f64 \<Rightarrow> f64 \<Rightarrow> f64" where
  "f64_div x y =
     (let neg = (f64_sign x \<noteq> f64_sign y)
      in if f64_is_nan x \<or> f64_is_nan y then f64_nan
         else if f64_is_inf x then (if f64_is_inf y then f64_nan else f64_make neg f64_INF)
         else if f64_is_inf y then f64_make neg 0
         else if f64_mag y = 0 then (if f64_mag x = 0 then f64_nan else f64_make neg f64_INF)
         else f64_make neg (f64_round_bits (f64_mag x * 2 ^ 1074) (f64_mag y)))"

definition f64_eq :: "f64 \<Rightarrow> f64 \<Rightarrow> bool" where
  "f64_eq x y \<longleftrightarrow> \<not> f64_is_nan x \<and> \<not> f64_is_nan y \<and>
     (if f64_is_inf x \<or> f64_is_inf y then x = y else f64_val x = f64_val y)"

text \<open>\<open>x as f32\<close>\<close>

definition f64_as_f32 :: "f64 \<Rightarrow> f32" where
  "f64_as_f32 x =
     (if f64_is_nan x then f32_nan
      else if f64_is_inf x then f32_make (f64_sign x) 0x7F800000
      else f32_make (f64_sign x) (f32_round_bits 925 (f64_mag x)))"

section \<open>Facts\<close>

lemma unat_f64_make: "b < 2 ^ 63 \<Longrightarrow> unat (f64_make neg b) = (if neg then b + 2 ^ 63 else b)"
  by (simp add: f64_make_def unat_of_nat)

lemma f64_make_fields:
  assumes "b < 2 ^ 63"
  shows "f64_sign (f64_make neg b) = neg" and "f64_exp (f64_make neg b) = b div 2 ^ 52"
    and "f64_frac (f64_make neg b) = b mod 2 ^ 52"
proof -
  have e: "b div 2 ^ 52 < 2048" using assms by (simp add: less_mult_imp_div_less)
  have "(b + 2 ^ 63) div 2 ^ 52 = b div 2 ^ 52 + 2048" "(b + 2 ^ 63) mod 2 ^ 52 = b mod 2 ^ 52"
    by (simp_all add: div_add_self2 mod_add_right_eq [symmetric])
  with e assms show "f64_sign (f64_make neg b) = neg" "f64_exp (f64_make neg b) = b div 2 ^ 52"
    "f64_frac (f64_make neg b) = b mod 2 ^ 52"
    by (simp_all add: f64_sign_def f64_exp_def f64_frac_def unat_f64_make)
qed

text \<open>A pattern is \<open>s * 2 ^ 52 + q\<close> for a significand of at most 53 bits: its magnitude is
  \<open>q * 2 ^ s\<close>.\<close>

lemma f64_mag_parts:
  assumes "s * 2 ^ 52 + q < f64_INF" and "q \<le> 2 ^ 53" and "0 < s \<Longrightarrow> 2 ^ 52 \<le> q"
  shows "f64_mag (f64_make neg (s * 2 ^ 52 + q)) = q * 2 ^ s \<and> f64_is_finite (f64_make neg (s * 2 ^ 52 + q)) \<and>
    f64_sign (f64_make neg (s * 2 ^ 52 + q)) = neg"
proof -
  let ?b = "s * 2 ^ 52 + q"
  have b: "?b < 2 ^ 63" using assms(1) by (simp add: f64_INF_def)
  note f = f64_make_fields [OF b, of neg]
  have fin: "f64_is_finite (f64_make neg ?b)"
    unfolding f64_is_finite_def f(2) using assms(1) by (simp add: f64_INF_def div_eq_dividend_iff less_mult_imp_div_less [THEN less_imp_neq])
  have "f64_mag (f64_make neg ?b) = q * 2 ^ s"
  proof (cases "q < 2 ^ 52")
    case True
    then have "s = 0" using assms(3) by (cases s) auto
    with True show ?thesis unfolding f64_mag_def f(2,3) by simp
  next
    case False
    show ?thesis
    proof (cases "q = 2 ^ 53")
      case True
      then have "?b = (s + 2) * 2 ^ 52" by simp
      then have "?b div 2 ^ 52 = s + 2" "?b mod 2 ^ 52 = 0" by (simp_all only: nonzero_mult_div_cancel_right mod_mult_self2_is_0) simp
      with True show ?thesis unfolding f64_mag_def f(2,3) by simp
    next
      case False
      with \<open>\<not> q < 2 ^ 52\<close> assms(2) obtain r where r: "q = 2 ^ 52 + r" "r < 2 ^ 52"
        by (metis add_diff_inverse_nat less_diff_conv2 linorder_not_less mult_2 nat_less_le power_Suc eval_nat_numeral(3) power_add)
      have "?b = (s + 1) * 2 ^ 52 + r" using r(1) by simp
      then have "?b div 2 ^ 52 = s + 1" "?b mod 2 ^ 52 = r" using r(2) by simp_all
      then show ?thesis unfolding f64_mag_def f(2,3) by (simp add: r(1))
    qed
  qed
  with fin f(1) show ?thesis by simp
qed

text \<open>One rounding: the result is finite unless it is too large, keeps the sign, and is off by at
  most one part in \<open>2 ^ 53\<close> when the exact value is no smaller than the least normal double.\<close>

lemma div_rne_bounds:
  assumes "0 < d"
  shows "2 * (div_rne n d * d) \<le> 2 * n + d" and "2 * n \<le> 2 * (div_rne n d * d) + d"
    and "n div d \<le> div_rne n d" and "div_rne n d \<le> n div d + 1"
proof -
  let ?q = "n div d" and ?r = "n mod d"
  have n: "n = ?q * d + ?r" by simp
  have r: "?r < d" using assms by simp
  have "div_rne n d = ?q \<and> 2 * ?r \<le> d \<or> div_rne n d = ?q + 1 \<and> d \<le> 2 * ?r"
    by (cases "d < 2 * ?r \<or> (2 * ?r = d \<and> odd ?q)") (auto simp: div_rne_def Let_def)
  then consider "div_rne n d = ?q" "2 * ?r \<le> d" | "div_rne n d = ?q + 1" "d \<le> 2 * ?r" by blast
  then have "2 * (div_rne n d * d) \<le> 2 * n + d \<and> 2 * n \<le> 2 * (div_rne n d * d) + d"
  proof cases
    case 1
    then show ?thesis using n by (metis add_mult_distrib2 le_add1 nat_add_left_cancel_le trans_le_add1)
  next
    case 2
    have "2 * n = 2 * (?q * d) + 2 * ?r" by (metis n distrib_left)
    then show ?thesis unfolding 2(1) using 2(2) r by (simp add: algebra_simps)
  qed
  then show "2 * (div_rne n d * d) \<le> 2 * n + d" "2 * n \<le> 2 * (div_rne n d * d) + d" by simp_all
  show "n div d \<le> div_rne n d" "div_rne n d \<le> n div d + 1" by (simp_all add: div_rne_def Let_def)
qed

lemma f64_round:
  assumes d: "0 < d" and lo: "2 ^ 52 * d \<le> n" and hi: "n < 2 ^ 2040 * d"
  shows "f64_is_finite (f64_make neg (f64_round_bits n d))" and "f64_sign (f64_make neg (f64_round_bits n d)) = neg"
    and "2 ^ 53 * (f64_mag (f64_make neg (f64_round_bits n d)) * d) \<le> (2 ^ 53 + 1) * n"
    and "2 ^ 53 * n \<le> 2 ^ 53 * (f64_mag (f64_make neg (f64_round_bits n d)) * d) + n"
proof -
  let ?q = "n div d" let ?s = "nbits ?q - 53" let ?Q = "div_rne n (d * 2 ^ ?s)"
  have q: "2 ^ 52 \<le> ?q" using d lo by (simp add: less_eq_div_iff_mult_less_eq)
  then have "0 < ?q" by (metis gr0I not_le zero_less_numeral zero_less_power)
  then have nb: "2 ^ (nbits ?q - 1) \<le> ?q" "?q < 2 ^ nbits ?q" using nbits_bounds by blast+
  have "2 ^ 52 < (2::nat) ^ nbits ?q" using q nb(2) by linarith
  then have nq: "52 < nbits ?q" by (rule power_less_imp_less_exp [rotated]) simp
  have qs: "n div (d * 2 ^ ?s) = ?q div 2 ^ ?s" by (simp add: div_mult2_eq)
  have qlo: "2 ^ 52 \<le> ?q div 2 ^ ?s"
  proof -
    have "2 ^ 52 * 2 ^ ?s = (2::nat) ^ (nbits ?q - 1)" using nq by (simp only: power_add [symmetric]) simp
    then have "2 ^ 52 * 2 ^ ?s \<le> ?q" using nb(1) by simp
    then show ?thesis by (simp add: less_eq_div_iff_mult_less_eq)
  qed
  have qhi: "?q div 2 ^ ?s < 2 ^ 53"
  proof -
    have "(2::nat) ^ 53 * 2 ^ ?s = 2 ^ nbits ?q" using nq by (simp only: power_add [symmetric]) simp
    then have "?q < 2 ^ 53 * 2 ^ ?s" using nb(2) by simp
    then show ?thesis by (simp add: less_mult_imp_div_less)
  qed
  have D: "0 < d * 2 ^ ?s" using d by simp
  note Q = div_rne_bounds [OF D, of n, unfolded qs]
  have Qlo: "2 ^ 52 \<le> ?Q" using qlo Q(3) by linarith
  have Qhi: "?Q \<le> 2 ^ 53" using qhi Q(4) by linarith
  have "?q < 2 ^ 2040" using d hi by (simp add: less_mult_imp_div_less)
  then have "nbits ?q \<le> 2040" by (rule nbits_le)
  then have "?s * 2 ^ 52 + ?Q \<le> 1987 * 2 ^ 52 + 2 ^ 53" using Qhi by (intro add_mono mult_right_mono) simp_all
  then have b: "?s * 2 ^ 52 + ?Q < f64_INF" by (simp add: f64_INF_def)
  then have eq: "f64_round_bits n d = ?s * 2 ^ 52 + ?Q" by (simp add: f64_round_bits_def Let_def)
  note m = f64_mag_parts [OF b Qhi Qlo, of neg]
  show "f64_is_finite (f64_make neg (f64_round_bits n d))" "f64_sign (f64_make neg (f64_round_bits n d)) = neg"
    using m unfolding eq by blast+
  have mag: "f64_mag (f64_make neg (f64_round_bits n d)) * d = ?Q * (d * 2 ^ ?s)"
    using m unfolding eq by simp
  have n: "2 ^ 52 * (d * 2 ^ ?s) \<le> n"
  proof -
    have "2 ^ 52 * (d * 2 ^ ?s) \<le> (?q div 2 ^ ?s) * (d * 2 ^ ?s)" using qlo by (rule mult_right_mono) simp
    also have "\<dots> \<le> n" unfolding qs [symmetric] by (rule div_times_less_eq_dividend)
    finally show ?thesis .
  qed
  show "2 ^ 53 * (f64_mag (f64_make neg (f64_round_bits n d)) * d) \<le> (2 ^ 53 + 1) * n"
    unfolding mag using Q(1) n by (simp add: algebra_simps)
  show "2 ^ 53 * n \<le> 2 ^ 53 * (f64_mag (f64_make neg (f64_round_bits n d)) * d) + n"
    unfolding mag using Q(2) n by (simp add: algebra_simps)
qed

section \<open>Singles in doubles\<close>

lemma div_rne_near: "2 * n < 2 * (q * d) + d \<Longrightarrow> 2 * (q * d) < 2 * n + d \<Longrightarrow> div_rne n d = q"
proof -
  assume hi: "2 * n < 2 * (q * d) + d" and lo: "2 * (q * d) < 2 * n + d"
  then have d: "0 < d" by (cases d) auto
  show ?thesis
  proof (cases "q * d \<le> n")
    case True
    then obtain r where r: "n = q * d + r" by (metis le_add_diff_inverse)
    with hi have "2 * r < d" by simp
    with d r show ?thesis by (simp add: div_rne_def Let_def)
  next
    case False
    then have "q * d = n + (q * d - n) \<and> 0 < q * d - n" by simp
    then obtain r where r: "q * d = n + r" "0 < r" by blast
    with lo have r2: "2 * r < d" by simp
    have "q \<noteq> 0" using False by (cases q) auto
    then obtain p where p: "q = Suc p" using not0_implies_Suc by blast
    then have n: "n = p * d + (d - r)" using r(1) r2 by simp
    moreover have "d - r < d" using r(2) d by simp
    ultimately have "n div d = p" "n mod d = d - r" by simp_all
    moreover have "d < 2 * (d - r)" using r2 by arith
    ultimately show ?thesis using p by (simp add: div_rne_def Let_def)
  qed
qed

lemma shift_rne_div: "shift_rne s m = div_rne m (2 ^ s)"
  by (simp add: shift_rne_def div_rne_def Let_def)

lemma f32_parts:
  assumes "f32_is_finite x"
  obtains s q where "f32_mag x = q * 2 ^ s" and "unat x mod 2 ^ 31 = s * 2 ^ 23 + q" and "q < 2 ^ 24"
    and "0 < s \<Longrightarrow> 2 ^ 23 \<le> q" and "s \<le> 253"
proof -
  have e: "unat x mod 2 ^ 31 = f32_exp x * 2 ^ 23 + f32_frac x"
  proof -
    have "unat x mod (2 ^ 23 * 2 ^ 8) = 2 ^ 23 * (unat x div 2 ^ 23 mod 2 ^ 8) + unat x mod 2 ^ 23"
      by (rule mod_mult2_eq)
    then show ?thesis by (simp add: f32_exp_def f32_frac_def)
  qed
  have lt: "f32_exp x < 255" using assms f32_exp_bound [of x] by (simp add: f32_is_finite_def)
  have f: "f32_frac x < 2 ^ 23" by (simp add: f32_frac_def)
  have "f32_frac x < 2 ^ 24" by (rule less_trans [OF f32_frac_bound]) simp
  note f = this f
  show thesis
  proof (cases "f32_exp x")
    case 0
    then show ?thesis using e f by (intro that [of "f32_frac x" 0]) (simp_all add: f32_mag_def)
  next
    case (Suc s)
    then show ?thesis using e f lt by (intro that [of "2 ^ 23 + f32_frac x" s]) (simp_all add: f32_mag_def)
  qed
qed

lemma near_arith:
  fixes m t p :: nat
  assumes "67108864 * m \<le> 67108865 * t" and "67108864 * t \<le> 67108864 * m + t" and "t < 16777216 * p"
  shows "2 * m < 2 * t + p" and "2 * t < 2 * m + p" and "m < t + p" and "t < m + p"
  using assms by linarith+

text \<open>A double within one part in \<open>2 ^ 26\<close> of a single rounds back to it.\<close>

lemma f32_round_back:
  assumes "f32_is_finite x" and "0 < f32_mag x"
    and hi: "67108864 * m \<le> 67108865 * (f32_mag x * 2 ^ 925)"
    and lo: "67108864 * (f32_mag x * 2 ^ 925) \<le> 67108864 * m + f32_mag x * 2 ^ 925"
  shows "f32_round_bits 925 m = unat x mod 2 ^ 31"
proof -
  obtain s q where x: "f32_mag x = q * 2 ^ s" "unat x mod 2 ^ 31 = s * 2 ^ 23 + q" "q < 2 ^ 24"
    and norm: "0 < s \<Longrightarrow> 2 ^ 23 \<le> q" and s: "s \<le> 253"
    by (rule f32_parts [OF assms(1)]) blast
  define p :: nat where "p = 2 ^ (s + 925)"
  have T: "f32_mag x * 2 ^ 925 = q * p" unfolding p_def by (simp only: x(1) power_add mult.assoc)
  have p: "0 < p" by (simp add: p_def)
  note hi = hi [unfolded T] and lo = lo [unfolded T]
  have qp: "q * p + p \<le> 16777216 * p"
  proof -
    have "(q + 1) * p \<le> 16777216 * p" using x(3) by (intro mult_right_mono) simp_all
    then show ?thesis by simp
  qed
  then have q24: "q * p < 16777216 * p" using p by linarith
  note near = near_arith [OF hi lo q24]
  have "m < 16777216 * p" using near(3) qp by linarith
  then have "m < 2 ^ (s + 949)" by (simp add: p_def power_add)
  then have nm: "nbits m \<le> s + 949" by (rule nbits_le)
  have top: "s * 2 ^ 23 + q \<le> 0x7F800000" using s x(3) by simp
  show ?thesis
  proof (cases "8388608 * p \<le> m \<or> s = 0")
    case True
    have "max 925 (nbits m - 24) = s + 925"
    proof (cases "s = 0")
      case True
      with nm show ?thesis by simp
    next
      case False
      then have "2 ^ (s + 948) \<le> m" using \<open>8388608 * p \<le> m \<or> s = 0\<close> by (simp add: p_def power_add)
      moreover have "0 < m" using calculation by (rule less_le_trans [rotated]) simp
      then have "m < 2 ^ nbits m" using nbits_bounds by blast
      ultimately have "(2::nat) ^ (s + 948) < 2 ^ nbits m" by linarith
      then have "s + 948 < nbits m" by (rule power_less_imp_less_exp [rotated]) simp
      with nm show ?thesis by simp
    qed
    moreover have "shift_rne (s + 925) m = q"
      unfolding shift_rne_div p_def [symmetric] using near(1,2) by (rule div_rne_near)
    ultimately show ?thesis
      using top x(2) by (simp add: f32_round_bits_def Let_def)
  next
    case False
    then have small: "m < 8388608 * p" and s0: "0 < s" by simp_all
    have "q = 8388608"
    proof (rule antisym)
      show "8388608 \<le> q" using norm [OF s0] by simp
      show "q \<le> 8388608"
      proof (rule ccontr)
        assume "\<not> q \<le> 8388608"
        then have "8388609 * p \<le> q * p" by (intro mult_right_mono) simp_all
        with small lo p show False by linarith
      qed
    qed
    define p' :: nat where "p' = 2 ^ (s + 924)"
    have pp: "p = 2 * p'" using s0 by (simp add: p_def p'_def power_add)
    have t: "q * p = 16777216 * p'" by (simp add: \<open>q = 8388608\<close> pp)
    have p'0: "0 < p'" by (simp add: p'_def)
    have "2 * m < 2 * (16777216 * p') + p'" "2 * (16777216 * p') < 2 * m + p'"
      using hi lo p'0 unfolding t by linarith+
    then have r: "shift_rne (s + 924) m = 16777216"
      unfolding shift_rne_div p'_def [symmetric] by (rule div_rne_near)
    have "m < 2 ^ (s + 948)" using small by (simp add: p_def power_add)
    then have "nbits m \<le> s + 948" by (rule nbits_le)
    moreover have "2 ^ (s + 947) \<le> m"
      using near(4) t p'0 pp by (simp add: p'_def power_add)
    then have "s + 947 < nbits m"
    proof -
      have "0 < m" using \<open>2 ^ (s + 947) \<le> m\<close> by (rule less_le_trans [rotated]) simp
      then have "m < 2 ^ nbits m" using nbits_bounds by blast
      with \<open>2 ^ (s + 947) \<le> m\<close> have "(2::nat) ^ (s + 947) < 2 ^ nbits m" by linarith
      then show ?thesis by (rule power_less_imp_less_exp [rotated]) simp
    qed
    ultimately have "max 925 (nbits m - 24) = s + 924" using s0 by simp
    then have "f32_round_bits 925 m = min ((s - 1) * 2 ^ 23 + 16777216) 0x7F800000"
      using r s0 by (simp add: f32_round_bits_def Let_def)
    also have "(s - 1) * 2 ^ 23 + 16777216 = s * 2 ^ 23 + q"
      using s0 \<open>q = 8388608\<close> by (cases s) simp_all
    finally show ?thesis using top x(2) by simp
  qed
qed

lemma f32_as_f64_exact:
  assumes "f32_is_finite x"
  shows "f64_is_finite (f32_as_f64 x)" and "f64_mag (f32_as_f64 x) = f32_mag x * 2 ^ 925"
    and "f64_sign (f32_as_f64 x) = f32_sign x"
proof -
  let ?e = "f32_exp x" and ?f = "f32_frac x"
  have e: "?e < 255" using assms f32_exp_bound [of x] by (simp add: f32_is_finite_def)
  have f: "?f < 2 ^ 23" by (simp add: f32_frac_def)
  have f': "?f \<le> 8388608" by (rule less_imp_le [OF f32_frac_bound])
  have "f64_is_finite (f32_as_f64 x) \<and> f64_mag (f32_as_f64 x) = f32_mag x * 2 ^ 925 \<and> f64_sign (f32_as_f64 x) = f32_sign x"
  proof (cases "0 < ?e")
    case True
    let ?s = "?e + 895" and ?q = "2 ^ 52 + ?f * 2 ^ 29"
    have q: "?q \<le> 2 ^ 53" "2 ^ 52 \<le> ?q" using f' by simp_all
    have b: "?s * 2 ^ 52 + ?q < f64_INF" using e f' by (simp add: f64_INF_def)
    have "f32_as_f64 x = f64_make (f32_sign x) (?s * 2 ^ 52 + ?q)"
      using True e by (simp add: f32_as_f64_def f64_make_def Let_def algebra_simps)
    moreover have "?q * 2 ^ ?s = f32_mag x * 2 ^ 925"
    proof -
      have "?q = (2 ^ 23 + ?f) * 2 ^ 29" by simp
      then have "?q * 2 ^ ?s = (2 ^ 23 + ?f) * (2 ^ 29 * 2 ^ ?s)" by (simp only: mult.assoc)
      also have "(2::nat) ^ 29 * 2 ^ ?s = 2 ^ (?e - 1) * 2 ^ 925"
        using True by (simp only: power_add [symmetric]) simp
      finally show ?thesis using True by (simp add: f32_mag_def mult.assoc)
    qed
    ultimately show ?thesis using f64_mag_parts [OF b q(1) q(2), of "f32_sign x"] by simp
  next
    case False
    show ?thesis
    proof (cases "?f = 0")
      case True
      have "f32_as_f64 x = f64_make (f32_sign x) (0 * 2 ^ 52 + 0)"
        using True False by (simp add: f32_as_f64_def f64_make_def Let_def)
      then show ?thesis
        using f64_mag_parts [of 0 0 "f32_sign x"] True False by (simp add: f64_INF_def f32_mag_def)
    next
      case f0: False
      let ?k = "nbits ?f" let ?s = "872 + ?k" and ?q = "?f * 2 ^ (53 - ?k)"
      have k: "?k \<le> 23" using f by (rule nbits_le)
      have nb: "2 ^ (?k - 1) \<le> ?f" "?f < 2 ^ ?k" "0 < ?k" using nbits_bounds [of ?f] f0 by simp_all
      have q2: "?q < 2 ^ 53"
      proof -
        have "?q < 2 ^ ?k * 2 ^ (53 - ?k)" using nb(2) by simp
        also have "\<dots> = 2 ^ 53" using k by (simp only: power_add [symmetric]) simp
        finally show ?thesis .
      qed
      have q1: "2 ^ 52 \<le> ?q"
      proof -
        have "(2::nat) ^ 52 = 2 ^ (?k - 1) * 2 ^ (53 - ?k)" using k nb(3) by (simp only: power_add [symmetric]) simp
        also have "\<dots> \<le> ?q" using nb(1) by simp
        finally show ?thesis .
      qed
      have "?q mod 2 ^ 52 = ?q - 2 ^ 52" using q1 q2 by (simp add: mod_if le_mod_geq)
      then have "(873 + ?k) * 2 ^ 52 + ?q mod 2 ^ 52 = ?s * 2 ^ 52 + ?q" using q1 by simp
      then have x: "f32_as_f64 x = f64_make (f32_sign x) (?s * 2 ^ 52 + ?q)"
        using False f0 by (simp add: f32_as_f64_def f64_make_def Let_def del: power_numeral)
      have "(2::nat) ^ (53 - ?k) * 2 ^ ?s = 2 ^ 925" using k by (simp only: power_add [symmetric]) simp
      then have "?q * 2 ^ ?s = f32_mag x * 2 ^ 925"
        using False by (simp only: f32_mag_def mult.assoc) simp
      moreover have "?s * 2 ^ 52 + ?q < f64_INF" using k q2 by (simp add: f64_INF_def)
      ultimately show ?thesis
        unfolding x using f64_mag_parts [of ?s ?q "f32_sign x"] q1 q2 by simp
    qed
  qed
  then show "f64_is_finite (f32_as_f64 x)" "f64_mag (f32_as_f64 x) = f32_mag x * 2 ^ 925"
    "f64_sign (f32_as_f64 x) = f32_sign x" by simp_all
qed

section \<open>Composing errors\<close>

text \<open>\<open>rounded k a t\<close>: \<open>a\<close> is \<open>t\<close> after at most \<open>k\<close> roundings.\<close>

definition rounded :: "nat \<Rightarrow> real \<Rightarrow> real \<Rightarrow> bool" where
  "rounded k a t \<longleftrightarrow> 0 \<le> t \<and> (1 - 1 / 2 ^ 53) ^ k * t \<le> a \<and> a \<le> (1 + 1 / 2 ^ 53) ^ k * t"

lemma rounded_trans: "rounded j b a \<Longrightarrow> rounded k a t \<Longrightarrow> rounded (j + k) b t"
proof -
  assume ba: "rounded j b a" and at: "rounded k a t"
  have "(1 - 1 / 2 ^ 53 :: real) ^ j * ((1 - 1 / 2 ^ 53) ^ k * t) \<le> (1 - 1 / 2 ^ 53) ^ j * a"
    using at by (intro mult_left_mono) (simp_all add: rounded_def)
  moreover have "(1 + 1 / 2 ^ 53 :: real) ^ j * a \<le> (1 + 1 / 2 ^ 53) ^ j * ((1 + 1 / 2 ^ 53) ^ k * t)"
    using at by (intro mult_left_mono) (simp_all add: rounded_def)
  moreover have "(1 - 1 / 2 ^ 53) ^ j * a \<le> b" "b \<le> (1 + 1 / 2 ^ 53) ^ j * a" "0 \<le> t"
    using ba at by (simp_all only: rounded_def)
  ultimately show ?thesis
    unfolding rounded_def power_add mult.assoc by (blast intro: order_trans)
qed

lemma rounded_scale: "rounded k a t \<Longrightarrow> 0 \<le> c \<Longrightarrow> rounded k (a * c) (t * c)"
  unfolding rounded_def by (auto simp: mult.assoc [symmetric] intro: mult_right_mono)

lemma f64_round_rounded:
  assumes "0 < d" and "2 ^ 52 * d \<le> n" and "n < 2 ^ 2040 * d"
  shows "rounded 1 (f64_mag (f64_make neg (f64_round_bits n d))) (real n / real d)"
proof -
  let ?m = "f64_mag (f64_make neg (f64_round_bits n d))"
  note r = f64_round(3,4) [OF assms, of neg]
  have "real (2 ^ 53 * (?m * d)) \<le> real ((2 ^ 53 + 1) * n)" using r(1) by (simp only: of_nat_le_iff)
  then have hi: "real ?m * real d \<le> (1 + 1 / 2 ^ 53) * real n" by (simp add: field_simps)
  have "real (2 ^ 53 * n) \<le> real (2 ^ 53 * (?m * d) + n)" using r(2) by (simp only: of_nat_le_iff)
  then have lo: "(1 - 1 / 2 ^ 53) * real n \<le> real ?m * real d" by (simp add: field_simps)
  have d: "0 < real d" using assms(1) by simp
  have "(1 - 1 / 2 ^ 53) * real n / real d \<le> real ?m" "real ?m \<le> (1 + 1 / 2 ^ 53) * real n / real d"
    using hi lo by (simp_all only: pos_divide_le_eq [OF d] pos_le_divide_eq [OF d])
  then show ?thesis
    unfolding rounded_def power_one_right times_divide_eq_right by simp
qed

lemma rounded_range: "rounded k a t \<Longrightarrow> k \<le> 4 \<Longrightarrow> t / 2 \<le> a \<and> a \<le> 2 * t"
proof -
  assume r: "rounded k a t" and k: "k \<le> 4"
  have t: "0 \<le> t" using r by (simp add: rounded_def)
  have "(1 - 1 / 2 ^ 53 :: real) ^ 4 \<le> (1 - 1 / 2 ^ 53) ^ k" using k by (intro power_decreasing) simp_all
  moreover have "(1 / 2 :: real) \<le> (1 - 1 / 2 ^ 53) ^ 4" by (simp add: power4_eq_xxxx)
  ultimately have "1 / 2 \<le> (1 - 1 / 2 ^ 53 :: real) ^ k" by linarith
  then have "t / 2 \<le> (1 - 1 / 2 ^ 53) ^ k * t" using mult_right_mono [OF _ t, of "1 / 2"] by simp
  moreover have "(1 + 1 / 2 ^ 53 :: real) ^ k \<le> (1 + 1 / 2 ^ 53) ^ 4" using k by (intro power_increasing) simp_all
  moreover have "(1 + 1 / 2 ^ 53 :: real) ^ 4 \<le> 2" by (simp add: power4_eq_xxxx)
  ultimately have "t / 2 \<le> (1 - 1 / 2 ^ 53) ^ k * t" "(1 + 1 / 2 ^ 53 :: real) ^ k \<le> 2" by linarith+
  moreover have "(1 + 1 / 2 ^ 53) ^ k * t \<le> 2 * t" using calculation(2) t by (rule mult_right_mono)
  ultimately show ?thesis using r unfolding rounded_def by linarith
qed

section \<open>One operation\<close>

lemma finite_not_special64: "f64_is_finite x \<Longrightarrow> \<not> f64_is_nan x \<and> \<not> f64_is_inf x"
  by (simp add: f64_is_finite_def f64_is_nan_def f64_is_inf_def)

lemma f64_mul_rounded:
  assumes "f64_is_finite x" and "f64_is_finite y"
    and "2 ^ 52 * 2 ^ 1074 \<le> f64_mag x * f64_mag y" and "f64_mag x * f64_mag y < 2 ^ 2040 * 2 ^ 1074"
  shows "f64_is_finite (f64_mul x y) \<and> f64_sign (f64_mul x y) = (f64_sign x \<noteq> f64_sign y) \<and>
    rounded 1 (f64_mag (f64_mul x y)) (real (f64_mag x) * real (f64_mag y) / 2 ^ 1074)"
proof -
  have m: "f64_mul x y = f64_make (f64_sign x \<noteq> f64_sign y) (f64_round_bits (f64_mag x * f64_mag y) (2 ^ 1074))"
    using assms(1,2) by (simp add: f64_mul_def finite_not_special64 Let_def del: power_numeral)
  have d: "(0::nat) < 2 ^ 1074" by simp
  show ?thesis
    using f64_round(1,2) [OF d assms(3,4)] f64_round_rounded [OF d assms(3,4)]
    unfolding m by (simp only: of_nat_mult of_nat_power of_nat_numeral)
qed

lemma f64_add_zero_rounded:
  assumes "f64_is_finite x" and "f64_is_finite z" and "f64_mag z = 0" and "2 ^ 52 \<le> f64_mag x" and "f64_mag x < 2 ^ 2040"
  shows "f64_is_finite (f64_add x z) \<and> f64_sign (f64_add x z) = f64_sign x \<and> rounded 1 (f64_mag (f64_add x z)) (f64_mag x)"
proof -
  have "0 < f64_mag x" using assms(4) by (rule less_le_trans [rotated]) simp
  then have "f64_add x z = f64_make (f64_sign x) (f64_round_bits (f64_mag x) 1)"
    using assms(1-3) by (simp add: f64_add_def finite_not_special64 f64_val_def Let_def)
  then show ?thesis
    using f64_round(1,2) [of 1 "f64_mag x"] f64_round_rounded [of 1 "f64_mag x"] assms(4,5) by simp
qed

lemma f64_div_rounded:
  assumes "f64_is_finite x" and "f64_is_finite y" and "0 < f64_mag y"
    and "2 ^ 52 * f64_mag y \<le> f64_mag x * 2 ^ 1074" and "f64_mag x * 2 ^ 1074 < 2 ^ 2040 * f64_mag y"
  shows "f64_is_finite (f64_div x y) \<and> f64_sign (f64_div x y) = (f64_sign x \<noteq> f64_sign y) \<and>
    rounded 1 (f64_mag (f64_div x y)) (real (f64_mag x) * 2 ^ 1074 / real (f64_mag y))"
proof -
  have m: "f64_div x y = f64_make (f64_sign x \<noteq> f64_sign y) (f64_round_bits (f64_mag x * 2 ^ 1074) (f64_mag y))"
    using assms(1-3) by (simp add: f64_div_def finite_not_special64 Let_def del: power_numeral)
  show ?thesis
    using f64_round(1,2) [OF assms(3-5)] f64_round_rounded [OF assms(3-5)]
    unfolding m by (simp only: of_nat_mult of_nat_power of_nat_numeral)
qed

lemma f64_make_zero [simp]:
  "f64_mag (f64_make neg 0) = 0" "f64_is_finite (f64_make neg 0)" "f64_sign (f64_make neg 0) = neg"
  using f64_mag_parts [of 0 0 neg] by (simp_all add: f64_INF_def)

text \<open>A finite double within a few roundings of a single's value, and of its sign, is that single
  again.\<close>

lemma f64_as_f32_back:
  assumes "f32_is_finite x" and "0 < f32_mag x" and "f64_is_finite y" and "f64_sign y = f32_sign x"
    and "rounded 4 (f64_mag y) (real (f32_mag x) * 2 ^ 925)"
  shows "f64_as_f32 y = x"
proof -
  let ?m = "f64_mag y" and ?t = "f32_mag x * 2 ^ 925"
  have t: "real (f32_mag x) * 2 ^ 925 = real ?t" by (simp only: of_nat_mult of_nat_power of_nat_numeral)
  have hi4: "(1 + 1 / 2 ^ 53 :: real) ^ 4 \<le> 67108865 / 67108864" by (simp add: power4_eq_xxxx)
  have lo4: "67108863 / 67108864 \<le> (1 - 1 / 2 ^ 53 :: real) ^ 4" by (simp add: power4_eq_xxxx)
  have r: "(1 - 1 / 2 ^ 53) ^ 4 * real ?t \<le> real ?m" "real ?m \<le> (1 + 1 / 2 ^ 53) ^ 4 * real ?t"
    using assms(5) unfolding t by (simp_all only: rounded_def)
  have "real ?m \<le> 67108865 / 67108864 * real ?t" "67108863 / 67108864 * real ?t \<le> real ?m"
    using r mult_right_mono [OF hi4, of "real ?t"] mult_right_mono [OF lo4, of "real ?t"] by linarith+
  then have "real (67108864 * ?m) \<le> real (67108865 * ?t)" "real (67108864 * ?t) \<le> real (67108864 * ?m + ?t)"
    unfolding of_nat_mult [of "67108864"] of_nat_mult [of "67108865"] of_nat_add of_nat_numeral by linarith+
  then have "67108864 * ?m \<le> 67108865 * ?t" "67108864 * ?t \<le> 67108864 * ?m + ?t"
    by (simp_all only: of_nat_le_iff)
  then have bits: "f32_round_bits 925 ?m = unat x mod 2 ^ 31"
    by (rule f32_round_back [OF assms(1,2)])
  have x: "f32_make (f32_sign x) (unat x mod 2 ^ 31) = x"
  proof -
    have lt: "unat x < 2 ^ 32" using unsigned_less [of x] by simp
    have "unat (f32_make (f32_sign x) (unat x mod 2 ^ 31)) = unat x"
      using lt by (auto simp: unat_f32_make f32_sign_def mod_if not_less)
    then show ?thesis by (rule unsigned_word_eqI)
  qed
  show ?thesis
    using assms(3,4) bits x by (simp add: f64_as_f32_def finite_not_special64)
qed

end
