(* ===== verification/Units.thy ===== *)
theory Units
  imports F64 RustStr
begin

text \<open>
  Device units and the SI units Signal K publishes: \<open>crates/masterbus-tools/src/units.rs\<close>. A
  unit string decides the unit and the linear conversion; numbers are doubles. Printing a
  conversion for the editor is left out.
\<close>

record conversion =
  cv_scale :: f64
  cv_offset :: f64

definition f64_one :: f64 where "f64_one = f64_of_int 1"
definition f64_zero :: f64 where "f64_zero = f64_make False 0"

definition conv_IDENTITY :: conversion where
  "conv_IDENTITY = \<lparr>cv_scale = f64_one, cv_offset = f64_zero\<rparr>"

definition conv_apply :: "conversion \<Rightarrow> f64 \<Rightarrow> f64" where
  "conv_apply c raw = f64_add (f64_mul raw (cv_scale c)) (cv_offset c)"

definition conv_unapply :: "conversion \<Rightarrow> f64 \<Rightarrow> f64" where
  "conv_unapply c si = f64_div (f64_sub si (cv_offset c)) (cv_scale c)"

definition conv_is_identity :: "conversion \<Rightarrow> bool" where
  "conv_is_identity c \<longleftrightarrow> f64_eq (cv_scale c) f64_one \<and> f64_eq (cv_offset c) f64_zero"

record si =
  si_unit :: string
  si_conv :: conversion

definition degree_C :: string where
  "degree_C = bytes_str [0xC2, 0xB0] @ ''C''"

definition normalize :: "string \<Rightarrow> string" where
  "normalize unit =
     (let t = rust_trim unit
      in if t = ''RPM'' \<or> t = ''rpm'' then ''rpm'' else if t = ''C'' then degree_C else t)"

definition si_same :: "string \<Rightarrow> si option" where
  "si_same u = Some \<lparr>si_unit = u, si_conv = conv_IDENTITY\<rparr>"

definition si_scaled :: "string \<Rightarrow> f64 \<Rightarrow> si option" where
  "si_scaled u s = Some \<lparr>si_unit = u, si_conv = \<lparr>cv_scale = s, cv_offset = f64_zero\<rparr>\<rparr>"

definition to_si :: "string \<Rightarrow> si option" where
  "to_si device_unit =
     (let dev = normalize device_unit
      in if dev = [] then None
         else if dev = ''V'' then si_same ''V''
         else if dev = ''A'' then si_same ''A''
         else if dev = ''W'' then si_same ''W''
         else if dev = ''Hz'' then si_same ''Hz''
         else if dev = ''s'' then si_same ''s''
         else if dev = ''K'' then si_same ''K''
         else if dev = ''ratio'' then si_same ''ratio''
         else if dev = degree_C
           then Some \<lparr>si_unit = ''K'', si_conv = \<lparr>cv_scale = f64_one, cv_offset = f64_lit 27315 100\<rparr>\<rparr>
         else if dev = ''%'' then si_scaled ''ratio'' (f64_lit 1 100)
         else if dev = ''Ah'' then si_scaled ''C'' (f64_of_int 3600)
         else if dev = ''rpm'' then si_scaled ''Hz'' (f64_div f64_one (f64_of_int 60))
         else if dev = ''kWh'' then si_scaled ''J'' (f64_of_int 3600000)
         else if dev = ''Wh'' then si_scaled ''J'' (f64_of_int 3600)
         else if dev = ''kW'' then si_scaled ''W'' (f64_of_int 1000)
         else if dev = ''mV'' then si_scaled ''V'' (f64_lit 1 1000)
         else if dev = ''mA'' then si_scaled ''A'' (f64_lit 1 1000)
         else if dev = ''min'' then si_scaled ''s'' (f64_of_int 60)
         else if dev = ''h'' then si_scaled ''s'' (f64_of_int 3600)
         else None)"

definition conversion_to :: "string \<Rightarrow> string option \<Rightarrow> conversion option" where
  "conversion_to device_unit sk_unit =
     (case sk_unit of
        None \<Rightarrow> Some conv_IDENTITY
      | Some sk \<Rightarrow>
          if normalize device_unit = [] then Some conv_IDENTITY
          else (case to_si device_unit of
                  None \<Rightarrow> None
                | Some s \<Rightarrow> if si_unit s = sk then Some (si_conv s) else None))"

section \<open>Facts\<close>

text \<open>The scales of the table: positive, and far from the ends of the range of doubles.\<close>

definition scale_ok :: "f64 \<Rightarrow> bool" where
  "scale_ok s \<longleftrightarrow> f64_is_finite s \<and> \<not> f64_sign s \<and>
     (1 / 2 ^ 20 :: real) * 2 ^ 1074 \<le> real (f64_mag s) \<and> real (f64_mag s) \<le> 2 ^ 30 * 2 ^ 1074"

lemma scale_okI:
  assumes "f64_is_finite s" and "\<not> f64_sign s" and "rounded 1 (f64_mag s) (t * 2 ^ 1074)"
    and "1 / 2 ^ 19 \<le> t" and "t \<le> 2 ^ 29"
  shows "scale_ok s"
proof -
  have r: "t * 2 ^ 1074 / 2 \<le> f64_mag s" "f64_mag s \<le> 2 * (t * 2 ^ 1074)"
    using rounded_range [OF assms(3)] by simp_all
  have "(1 / 2 ^ 20 :: real) * 2 ^ 1074 \<le> t * 2 ^ 1074 / 2"
    using mult_right_mono [OF assms(4), of "2 ^ 1074 / 2"] by simp
  moreover have "2 * (t * 2 ^ 1074) \<le> 2 ^ 30 * 2 ^ 1074"
    using mult_right_mono [OF assms(5), of "2 * 2 ^ 1074"] by simp
  ultimately show ?thesis using r assms(1,2) unfolding scale_ok_def by linarith
qed

lemma scale_ok_lit: "0 < n \<Longrightarrow> n \<le> 2 ^ 29 \<Longrightarrow> 0 < d \<Longrightarrow> d \<le> 2 ^ 19 \<Longrightarrow> scale_ok (f64_lit n d)"
proof -
  assume n: "0 < n" "n \<le> 2 ^ 29" and d: "0 < d" "d \<le> 2 ^ 19"
  have lo: "2 ^ 52 * d \<le> n * 2 ^ 1074"
  proof -
    have "2 ^ 52 * d \<le> 2 ^ 52 * 2 ^ 19" using d(2) by simp
    also have "\<dots> \<le> 1 * (2 ^ 1074 :: nat)" by simp
    also have "\<dots> \<le> n * 2 ^ 1074" using n(1) by (intro mult_right_mono) simp_all
    finally show ?thesis .
  qed
  have hi: "n * 2 ^ 1074 < 2 ^ 2040 * d"
  proof -
    have "n * 2 ^ 1074 \<le> 2 ^ 29 * 2 ^ 1074" using n(2) by (intro mult_right_mono) simp_all
    also have "\<dots> < 2 ^ 2040 * (1::nat)" by simp
    also have "\<dots> \<le> 2 ^ 2040 * d" using d(1) by (intro mult_left_mono) simp_all
    finally show ?thesis .
  qed
  have eq: "real (n * 2 ^ 1074) / real d = real n / real d * 2 ^ 1074" by simp
  have r: "rounded 1 (f64_mag (f64_lit n d)) (real n / real d * 2 ^ 1074)"
    using f64_round_rounded [OF d(1) lo hi, of False] unfolding eq f64_lit_def .
  have t: "1 / 2 ^ 19 \<le> real n / real d"
  proof -
    have "real d \<le> real (2 ^ 19)" using d(2) by (simp only: of_nat_le_iff)
    then have "real d \<le> 2 ^ 19 * real n" using n(1) by simp
    then show ?thesis using d(1) by (simp add: field_simps)
  qed
  have "real n \<le> real (2 ^ 29)" using n(2) by (simp only: of_nat_le_iff)
  moreover have "real n / real d \<le> real n" using d(1) mult_right_mono [of 1 "real d" "real n"] by (simp add: field_simps)
  ultimately have "real n / real d \<le> 2 ^ 29" by simp
  then show ?thesis
    using f64_round(1,2) [OF d(1) lo hi, of False] scale_okI [OF _ _ r t] unfolding f64_lit_def by blast
qed

lemma f64_of_int_lit: "0 \<le> i \<Longrightarrow> f64_of_int i = f64_lit (nat i) 1"
  by (simp add: f64_of_int_def f64_lit_def)

lemma scale_ok_range: "scale_ok s \<Longrightarrow> 2 ^ 1054 \<le> f64_mag s \<and> f64_mag s \<le> 2 ^ 1104"
proof -
  assume s: "scale_ok s"
  have "(1 / 2 ^ 20 :: real) * 2 ^ 1074 = 2 ^ 1054" "(2 ^ 30 :: real) * 2 ^ 1074 = 2 ^ 1104" by simp_all
  then have "real (2 ^ 1054) \<le> real (f64_mag s)" "real (f64_mag s) \<le> real (2 ^ 1104)"
    using s unfolding scale_ok_def of_nat_power of_nat_numeral by simp_all
  then show ?thesis by (simp only: of_nat_le_iff)
qed

lemma scale_ok_sixtieth: "scale_ok (f64_div f64_one (f64_of_int 60))"
proof -
  have one: "scale_ok (f64_lit 1 1)" and sixty: "scale_ok (f64_lit 60 1)" by (simp_all add: scale_ok_lit)
  have r1: "rounded 1 (f64_mag (f64_lit 1 1)) (2 ^ 1074)" and r60: "rounded 1 (f64_mag (f64_lit 60 1)) (60 * 2 ^ 1074)"
    using f64_round_rounded [of 1 "1 * 2 ^ 1074" False] f64_round_rounded [of 1 "60 * 2 ^ 1074" False]
    by (simp_all add: f64_lit_def)
  define a where "a = real (f64_mag (f64_lit 1 1))"
  define b where "b = real (f64_mag (f64_lit 60 1))"
  have a: "2 ^ 1074 / 2 \<le> a" "a \<le> 2 * 2 ^ 1074" and b: "60 * 2 ^ 1074 / 2 \<le> b" "b \<le> 2 * (60 * 2 ^ 1074)"
    using rounded_range [OF r1] rounded_range [OF r60] unfolding a_def b_def by simp_all
  have b0: "0 < b" using b(1) by (rule less_le_trans [rotated]) simp
  note one' = one [unfolded scale_ok_def] and sixty' = sixty [unfolded scale_ok_def]
  note ra = scale_ok_range [OF one] and rb = scale_ok_range [OF sixty]
  have lo: "2 ^ 52 * f64_mag (f64_lit 60 1) \<le> f64_mag (f64_lit 1 1) * 2 ^ 1074"
  proof -
    have "2 ^ 52 * f64_mag (f64_lit 60 1) \<le> 2 ^ 52 * 2 ^ 1104" using rb by simp
    also have "\<dots> \<le> (2 ^ 1054 * 2 ^ 1074 :: nat)" by simp
    also have "\<dots> \<le> f64_mag (f64_lit 1 1) * 2 ^ 1074" using ra by (intro mult_right_mono) simp_all
    finally show ?thesis .
  qed
  have hi: "f64_mag (f64_lit 1 1) * 2 ^ 1074 < 2 ^ 2040 * f64_mag (f64_lit 60 1)"
  proof -
    have "f64_mag (f64_lit 1 1) * 2 ^ 1074 \<le> 2 ^ 1104 * 2 ^ 1074" using ra by (intro mult_right_mono) simp_all
    also have "\<dots> < (2 ^ 2040 * 2 ^ 1054 :: nat)" by simp
    also have "\<dots> \<le> 2 ^ 2040 * f64_mag (f64_lit 60 1)" using rb by (intro mult_left_mono) simp_all
    finally show ?thesis .
  qed
  have m60: "0 < f64_mag (f64_lit 60 1)" using b0 unfolding b_def by simp
  have fin: "f64_is_finite (f64_lit 1 1)" "f64_is_finite (f64_lit 60 1)" "\<not> f64_sign (f64_lit 1 1)" "\<not> f64_sign (f64_lit 60 1)"
    using one' sixty' by simp_all
  note d = f64_div_rounded [OF fin(1,2) m60 lo hi, folded a_def b_def]
  have "1 / 2 ^ 19 \<le> a / b" using a b b0 by (simp add: field_simps)
  moreover have "a / b \<le> 2 ^ 29" using a b b0 by (simp add: field_simps)
  moreover have "a * 2 ^ 1074 / b = a / b * 2 ^ 1074" by simp
  ultimately have "scale_ok (f64_div (f64_lit 1 1) (f64_lit 60 1))"
    using d fin by (intro scale_okI [of _ "a / b"]) simp_all
  then show ?thesis by (simp add: f64_one_def f64_of_int_lit)
qed

text \<open>What is converted to the SI unit and back is the single it was, except that a zero may lose its
  sign; the converted number is finite, and a zero converts to the positive zero.\<close>

lemma zero_converts:
  assumes s: "scale_ok (cv_scale c)" and o: "cv_offset c = f64_zero" and x: "f32_is_finite x" and True: "f32_mag x = 0"
  shows "conv_apply c (f32_as_f64 x) = f64_make False 0"
    and "f64_as_f32 (conv_unapply c (conv_apply c (f32_as_f64 x))) = f32_make (f64_sign (cv_scale c)) 0"
proof -
  have fin: "f64_is_finite (cv_scale c)" using s by (simp add: scale_ok_def)
  have pos: "0 < f64_mag (cv_scale c)" using scale_ok_range [OF s] by (rule conjE) (erule less_le_trans [rotated], simp)
  have r0: "f64_round_bits 0 d = 0" for d by (simp add: f64_round_bits_def div_rne_def Let_def)
  have "f64_mul (f32_as_f64 x) (cv_scale c) = f64_make (f32_sign x \<noteq> f64_sign (cv_scale c)) 0"
    using True x fin by (simp add: f64_mul_def f32_as_f64_exact finite_not_special64 r0 Let_def)
  moreover have add: "f64_add (f64_make a 0) (f64_make b 0) = f64_make (a \<and> b) 0" for a b
    by (simp add: f64_add_def finite_not_special64 f64_val_def Let_def)
  moreover have neg: "f64_neg f64_zero = f64_make True 0"
    by (simp add: f64_neg_def f64_zero_def f64_make_def f64_sign_def)
  ultimately show app: "conv_apply c (f32_as_f64 x) = f64_make False 0"
    by (simp add: conv_apply_def o f64_zero_def)
  then have "f64_sub (conv_apply c (f32_as_f64 x)) (cv_offset c) = f64_make False 0"
    using add neg by (simp add: f64_sub_def o f64_zero_def finite_not_special64)
  then have "conv_unapply c (conv_apply c (f32_as_f64 x)) = f64_make (f64_sign (cv_scale c)) 0"
    using fin pos by (simp add: conv_unapply_def f64_div_def finite_not_special64 r0 Let_def)
  then show "f64_as_f32 (conv_unapply c (conv_apply c (f32_as_f64 x))) = f32_make (f64_sign (cv_scale c)) 0"
    by (simp add: f64_as_f32_def finite_not_special64 f32_round_bits_def shift_rne_def Let_def)
qed

lemma nonzero_back:
  assumes s: "scale_ok (cv_scale c)" and o: "cv_offset c = f64_zero" and x: "f32_is_finite x" and False: "f32_mag x \<noteq> 0"
  shows "f64_as_f32 (conv_unapply c (conv_apply c (f32_as_f64 x))) = x \<and> f64_is_finite (conv_apply c (f32_as_f64 x))"
proof -
  let ?s = "cv_scale c" and ?X = "f32_as_f64 x"
  let ?a = "f64_mul ?X ?s"
  let ?b = "f64_add ?a f64_zero"
  let ?d = "f64_add ?b (f64_make True 0)"
  have sgn: "f64_is_finite ?s" "\<not> f64_sign ?s" using s by (simp_all add: scale_ok_def)
  note S = scale_ok_range [OF s]
  note X = f32_as_f64_exact [OF x]
  have Xlo: "2 ^ 925 \<le> f64_mag ?X" using False X(2) by simp
  have Xhi: "f64_mag ?X \<le> 2 ^ 1202"
  proof -
    obtain k q where "f32_mag x = q * 2 ^ k" "q < 2 ^ 24" "k \<le> 253" using f32_parts [OF x] by metis
    moreover from this have "(2::nat) ^ k \<le> 2 ^ 253" by (intro power_increasing) simp_all
    ultimately have "f32_mag x \<le> 2 ^ 24 * 2 ^ 253" by (metis less_imp_le mult_le_mono)
    then show ?thesis unfolding X(2) by (simp add: power_add [symmetric])
  qed
  have prodlo: "2 ^ 925 * 2 ^ 1054 \<le> f64_mag ?X * f64_mag ?s" using Xlo S by (intro mult_mono) simp_all
  have prodhi: "f64_mag ?X * f64_mag ?s \<le> 2 ^ 1202 * 2 ^ 1104" using Xhi S by (intro mult_mono) simp_all
  have pl: "2 ^ 52 * 2 ^ 1074 \<le> f64_mag ?X * f64_mag ?s" using prodlo by (rule order_trans [rotated]) simp
  have ph: "f64_mag ?X * f64_mag ?s < 2 ^ 2040 * 2 ^ 1074" using prodhi by (rule le_less_trans) simp
  note A = f64_mul_rounded [OF X(1) sgn(1) pl ph]
  define t where "t = real (f64_mag ?X) * real (f64_mag ?s) / 2 ^ 1074"
  have tlo: "2 ^ 905 \<le> t"
  proof -
    have "real (2 ^ 925 * 2 ^ 1054) \<le> real (f64_mag ?X * f64_mag ?s)" using prodlo by (simp only: of_nat_le_iff)
    then show ?thesis unfolding t_def by (simp add: field_simps)
  qed
  have thi: "t \<le> 2 ^ 1232"
  proof -
    have "real (f64_mag ?X * f64_mag ?s) \<le> real (2 ^ 1202 * 2 ^ 1104)" using prodhi by (simp only: of_nat_le_iff)
    then show ?thesis unfolding t_def by (simp add: field_simps)
  qed
  have range: "2 ^ 904 \<le> m \<and> m \<le> 2 ^ 1233" if "rounded k (real m) t" "k \<le> 4" for k m
  proof -
    have "real (2 ^ 904) \<le> t / 2" "2 * t \<le> real (2 ^ 1233)" using tlo thi by simp_all
    then have "real (2 ^ 904) \<le> real m" "real m \<le> real (2 ^ 1233)" using rounded_range [OF that] by linarith+
    then show ?thesis by (simp only: of_nat_le_iff)
  qed
  have ra: "rounded 1 (f64_mag ?a) t" using A unfolding t_def by blast
  have small: "2 ^ 52 \<le> m \<and> m < 2 ^ 2040" if "2 ^ 904 \<le> m \<and> m \<le> 2 ^ 1233" for m :: nat
    using that by (intro conjI) (erule conjE, erule order_trans [rotated], simp, erule conjE, erule le_less_trans, simp)
  have B: "f64_is_finite ?b \<and> f64_sign ?b = f64_sign ?a \<and> rounded 1 (f64_mag ?b) (f64_mag ?a)"
    using A small [OF range [OF ra]] by (intro f64_add_zero_rounded) (simp_all add: f64_zero_def)
  have rb: "rounded 2 (f64_mag ?b) t" using rounded_trans [OF _ ra, of 1] B by (simp add: numeral_2_eq_2)
  have D: "f64_is_finite ?d \<and> f64_sign ?d = f64_sign ?b \<and> rounded 1 (f64_mag ?d) (f64_mag ?b)"
    using B small [OF range [OF rb]] by (intro f64_add_zero_rounded) simp_all
  have rd: "rounded 3 (f64_mag ?d) t" using rounded_trans [OF _ rb, of 1] D by (simp add: numeral_3_eq_3)
  note rng = range [OF rd, simplified]
  have S0: "0 < f64_mag ?s" using S by (rule conjE) (erule less_le_trans [rotated], simp)
  have el: "2 ^ 52 * f64_mag ?s \<le> f64_mag ?d * 2 ^ 1074"
  proof -
    have "2 ^ 52 * f64_mag ?s \<le> 2 ^ 52 * 2 ^ 1104" using S by simp
    also have "\<dots> \<le> (2 ^ 904 * 2 ^ 1074 :: nat)" by simp
    also have "\<dots> \<le> f64_mag ?d * 2 ^ 1074" using range [OF rd] by (intro mult_right_mono) simp_all
    finally show ?thesis .
  qed
  have eh: "f64_mag ?d * 2 ^ 1074 < 2 ^ 2040 * f64_mag ?s"
  proof -
    have "f64_mag ?d * 2 ^ 1074 \<le> 2 ^ 1233 * 2 ^ 1074" using range [OF rd] by (intro mult_right_mono) simp_all
    also have "\<dots> < (2 ^ 2040 * 2 ^ 1054 :: nat)" by simp
    also have "\<dots> \<le> 2 ^ 2040 * f64_mag ?s" using S by (intro mult_left_mono) simp_all
    finally show ?thesis .
  qed
  have E: "f64_is_finite (f64_div ?d ?s) \<and> f64_sign (f64_div ?d ?s) = (f64_sign ?d \<noteq> f64_sign ?s) \<and>
      rounded 1 (f64_mag (f64_div ?d ?s)) (real (f64_mag ?d) * 2 ^ 1074 / real (f64_mag ?s))"
    using D by (intro f64_div_rounded sgn(1) S0 el eh) simp
  define r where "r = (2 ^ 1074 :: real) / real (f64_mag ?s)"
  have "rounded 3 (real (f64_mag ?d) * r) (t * r)"
    unfolding r_def by (rule rounded_scale [OF rd]) simp
  moreover have "t * r = real (f32_mag x) * 2 ^ 925"
    using S0 unfolding t_def X(2) r_def by simp
  moreover have "real (f64_mag ?d) * 2 ^ 1074 / real (f64_mag ?s) = real (f64_mag ?d) * r"
    unfolding r_def by simp
  ultimately have "rounded (1 + 3) (f64_mag (f64_div ?d ?s)) (real (f32_mag x) * 2 ^ 925)"
    using E by (metis rounded_trans)
  then have "rounded 4 (f64_mag (f64_div ?d ?s)) (real (f32_mag x) * 2 ^ 925)"
    by (simp only: numeral_plus_one one_plus_numeral semiring_norm)
  moreover have "f64_sign (f64_div ?d ?s) = f32_sign x"
    using A B D E X(3) sgn(2) by simp
  ultimately have same: "f64_as_f32 (f64_div ?d ?s) = x"
    using f64_as_f32_back [OF x] False E by blast
  have "f64_neg f64_zero = f64_make True 0"
    by (simp add: f64_neg_def f64_zero_def f64_make_def f64_sign_def)
  moreover have "\<not> f64_is_nan f64_zero" by (simp add: f64_zero_def finite_not_special64)
  ultimately have "conv_unapply c (conv_apply c ?X) = f64_div ?d ?s"
    by (simp add: conv_unapply_def conv_apply_def f64_sub_def o)
  moreover have "conv_apply c ?X = ?b" by (simp add: conv_apply_def o)
  ultimately show ?thesis using same B by simp
qed

lemma conversion_back:
  assumes s: "scale_ok (cv_scale c)" and o: "cv_offset c = f64_zero" and x: "f32_is_finite x"
  shows "f32_eq (f64_as_f32 (conv_unapply c (conv_apply c (f32_as_f64 x)))) x"
proof (cases "f32_mag x = 0")
  case True
  then have "f32_exp x = 0" "f32_frac x = 0" by (simp_all add: f32_mag_def split: if_splits)
  with zero_converts [OF s o x True] show ?thesis
    by (simp add: f32_eq_def f32_ord_def f32_is_nan_def f32_is_inf_def f32_val_def f32_exp_make f32_frac_make f32_mag_def)
next
  case False
  with nonzero_back [OF s o x] finite_not_special [OF x] show ?thesis by (simp add: f32_eq_refl)
qed

lemma scale_ok_one: "scale_ok f64_one"
  by (simp add: f64_one_def f64_of_int_lit scale_ok_lit)

lemma scale_ok_int: "0 < i \<Longrightarrow> i \<le> 2 ^ 29 \<Longrightarrow> scale_ok (f64_of_int i)"
  by (simp add: f64_of_int_lit scale_ok_lit)

lemma to_si_scale_ok: "to_si u = Some s \<Longrightarrow> scale_ok (cv_scale (si_conv s))"
  unfolding to_si_def Let_def
  by (auto simp: si_same_def si_scaled_def conv_IDENTITY_def scale_ok_one scale_ok_int scale_ok_lit scale_ok_sixtieth
      split: if_splits)

lemma to_si_offset:
  "to_si u = Some s \<Longrightarrow> normalize u \<noteq> degree_C \<Longrightarrow> cv_offset (si_conv s) = f64_zero"
  unfolding to_si_def Let_def by (auto simp: si_same_def si_scaled_def conv_IDENTITY_def split: if_splits)

end
