(* ===== verification/Toolkit.thy ===== *)
theory Toolkit
  imports Units "HOL-Library.List_Lexorder" "HOL-Library.Char_ord" "HOL-Library.Sublist"
begin

text \<open>
  What the theories of the tools share: Rust's \<open>BTreeMap\<close> as an association list kept in the
  order of its keys (strings compare by bytes), JSON values, and the string functions the tools
  use. The numbers of JSON are those of the \<open>serde_json\<close> crate, a parameter.
\<close>

section \<open>Ordered maps\<close>

type_synonym 'v btree = "(string \<times> 'v) list"

fun bt_insert :: "'k::linorder \<Rightarrow> 'v \<Rightarrow> ('k \<times> 'v) list \<Rightarrow> ('k \<times> 'v) list" where
  "bt_insert k v [] = [(k, v)]"
| "bt_insert k v ((a, b) # ps) =
     (if k < a then (k, v) # (a, b) # ps else if k = a then (k, v) # ps else (a, b) # bt_insert k v ps)"

abbreviation "bt_get ps k \<equiv> map_of ps k"

definition bt_ok :: "('k::linorder \<times> 'v) list \<Rightarrow> bool" where
  "bt_ok ps \<longleftrightarrow> sorted_wrt (<) (map fst ps)"

text \<open>\<open>collect\<close> into a map: the last entry of a key stays.\<close>

definition bt_collect :: "('k::linorder \<times> 'v) list \<Rightarrow> ('k \<times> 'v) list" where
  "bt_collect = foldl (\<lambda>m (k, v). bt_insert k v m) []"

lemma bt_get_insert [simp]: "bt_get (bt_insert k v ps) = (bt_get ps)(k \<mapsto> v)"
  by (induction k v ps rule: bt_insert.induct) auto

lemma keys_bt_insert [simp]: "fst ` set (bt_insert k v ps) = insert k (fst ` set ps)"
  by (induction k v ps rule: bt_insert.induct) auto

lemma bt_ok_Nil [simp]: "bt_ok []"
  by (simp add: bt_ok_def)

lemma bt_ok_Cons: "bt_ok ((a, b) # ps) \<longleftrightarrow> (\<forall>k \<in> fst ` set ps. a < k) \<and> bt_ok ps"
  by (auto simp: bt_ok_def)

lemma bt_ok_insert [simp]: "bt_ok ps \<Longrightarrow> bt_ok (bt_insert k v ps)"
  by (induction k v ps rule: bt_insert.induct) (auto simp: bt_ok_Cons)

lemma bt_ok_distinct: "bt_ok ps \<Longrightarrow> distinct (map fst ps)"
  unfolding bt_ok_def by (simp add: strict_sorted_iff)

lemma bt_get_Some_iff: "bt_ok ps \<Longrightarrow> bt_get ps k = Some v \<longleftrightarrow> (k, v) \<in> set ps"
  by (simp add: bt_ok_distinct)

lemma bt_ok_collect: "bt_ok (bt_collect ps)"
proof -
  have "bt_ok m \<Longrightarrow> bt_ok (foldl (\<lambda>m (k, v). bt_insert k v m) m ps)" for m
    by (induction ps arbitrary: m) (auto simp: case_prod_beta)
  then show ?thesis by (simp add: bt_collect_def)
qed

lemma set_bt_insert: "set (bt_insert k v ps) \<subseteq> insert (k, v) (set ps)"
  by (induction k v ps rule: bt_insert.induct) auto

lemma mem_bt_insert: "bt_ok ps \<Longrightarrow> (a, b) \<in> set (bt_insert k v ps) \<longleftrightarrow> (if a = k then b = v else (a, b) \<in> set ps)"
  by (auto simp flip: bt_get_Some_iff)

section \<open>JSON\<close>

datatype 'n json =
    JNull | JBool bool | JNumber 'n | JString string
  | JArray "'n json list" | JObject "(string \<times> 'n json) list"

text \<open>The conversions of a number: \<open>Number::from_f64\<close> (nothing for NaN and the infinities),
  \<open>as_f64\<close>, \<open>as_u64\<close> and the number of an integer.\<close>

record 'n json_num =
  num_from_f64 :: "f64 \<Rightarrow> 'n option"
  num_as_f64 :: "'n \<Rightarrow> f64 option"
  num_as_u64 :: "'n \<Rightarrow> nat option"
  num_of_int :: "int \<Rightarrow> 'n"

section \<open>Strings\<close>

definition starts_with :: "string \<Rightarrow> string \<Rightarrow> bool" where
  "starts_with p s \<longleftrightarrow> take (length p) s = p"

definition str_contains :: "string \<Rightarrow> string \<Rightarrow> bool" where
  "str_contains w s \<longleftrightarrow> sublist w s"

definition eq_ignore_ascii_case :: "string \<Rightarrow> string \<Rightarrow> bool" where
  "eq_ignore_ascii_case a b \<longleftrightarrow> to_ascii_lowercase a = to_ascii_lowercase b"

definition dot :: char where "dot = CHR ''.''"

definition split_dot :: "string \<Rightarrow> string list" where
  "split_dot = split_on (\<lambda>c. c = dot)"

fun join_with :: "string \<Rightarrow> string list \<Rightarrow> string" where
  "join_with d [] = []"
| "join_with d [s] = s"
| "join_with d (s # t # ss) = s @ d @ join_with d (t # ss)"

definition join_dot :: "string list \<Rightarrow> string" where
  "join_dot = join_with [dot]"

text \<open>\<open>rsplit_once('.')\<close>.\<close>

definition rsplit_dot :: "string \<Rightarrow> (string \<times> string) option" where
  "rsplit_dot s =
     (let segs = split_dot s
      in if length segs < 2 then None else Some (join_dot (butlast segs), last segs))"

definition is_ascii_alnum :: "char \<Rightarrow> bool" where
  "is_ascii_alnum c \<longleftrightarrow>
     (let n = of_char c :: nat in 48 \<le> n \<and> n < 58 \<or> 65 \<le> n \<and> n < 91 \<or> 97 \<le> n \<and> n < 123)"

definition has_whitespace :: "string \<Rightarrow> bool" where
  "has_whitespace s \<longleftrightarrow> list_ex (\<lambda>c. c \<in> set white_space) (utf8_chars s)"

definition split_whitespace :: "string \<Rightarrow> string list" where
  "split_whitespace s =
     filter (\<lambda>w. w \<noteq> []) (map concat (split_on (\<lambda>c. c \<in> set white_space) (utf8_chars s)))"

lemma eq_ignore_refl [simp]: "eq_ignore_ascii_case a a"
  by (simp add: eq_ignore_ascii_case_def)

lemma split_dot_not_Nil [simp]: "split_dot s \<noteq> []"
  by (simp add: split_dot_def)

lemma join_with_Cons: "ss \<noteq> [] \<Longrightarrow> join_with d (s # ss) = s @ d @ join_with d ss"
  by (cases ss) simp_all

lemma dot_of_split: "list_all (\<lambda>s. dot \<notin> set s) (split_dot s)"
proof -
  have "list_all (\<lambda>s. c \<notin> set s) (split_on (\<lambda>x. x = c) s)" for c
    by (induction s) (auto split: list.splits simp: list_all_iff)
  then show ?thesis by (simp add: split_dot_def)
qed

lemma split_join_dot:
  "ss \<noteq> [] \<Longrightarrow> list_all (\<lambda>s. dot \<notin> set s) ss \<Longrightarrow> split_dot (join_dot ss) = ss"
proof (induction ss rule: induct_list012)
  case (2 s)
  then show ?case by (auto simp: split_dot_def join_dot_def intro: split_on_none simp: list_all_iff)
next
  case (3 s t ss)
  then have "list_all (\<lambda>c. c \<noteq> dot) s" by (auto simp: list_all_iff)
  with 3 show ?case by (simp add: split_dot_def join_dot_def split_on_append_sep)
qed simp

lemma join_split_dot [simp]: "join_dot (split_dot s) = s"
proof (induction s)
  case (Cons c s)
  obtain w ws where w: "split_dot s = w # ws" by (cases "split_dot s") auto
  with Cons show ?case
    by (cases ws) (auto simp: split_dot_def join_dot_def)
qed (simp add: split_dot_def join_dot_def)

end
