(* ===== verification/SkPath.thy ===== *)
theory SkPath
  imports Toolkit
begin

text \<open>
  What a Signal K path means: the part of \<open>crates/masterbus-tools/src/signalk.rs\<close> that looks at
  paths alone. The unit a leaf wants, boolean leaves, whether a path is one at all, and the node and
  instance it names.
\<close>

definition leaf_of :: "string \<Rightarrow> string" where
  "leaf_of path = last (split_dot path)"

definition leaf_unit :: "string \<Rightarrow> string option" where
  "leaf_unit path =
     map_of [(''stateOfCharge'', ''ratio''), (''stateOfHealth'', ''ratio''), (''timeRemaining'', ''s''),
       (''dischargeSinceFull'', ''C''), (''temperature'', ''K''),
       (''voltage'', ''V''), (''voltageSense'', ''V''), (''panelVoltage'', ''V''),
       (''lineNeutralVoltage'', ''V''), (''lineLineVoltage'', ''V''),
       (''current'', ''A''), (''currentLimit'', ''A''), (''panelCurrent'', ''A''), (''loadCurrent'', ''A''),
       (''power'', ''W''), (''realPower'', ''W''), (''panelPower'', ''W''),
       (''frequency'', ''Hz''), (''revolutions'', ''Hz''), (''yieldToday'', ''J''), (''yieldTotal'', ''J'')]
     (leaf_of path)"

definition leaf_is_boolean :: "string \<Rightarrow> bool" where
  "leaf_is_boolean path =
     (if leaf_of path = ''enabled'' then True
      else if leaf_of path = ''state'' then starts_with ''electrical.switches.'' path
      else False)"

datatype path_error =
    NoPath
  | PathSpaces
  | PathPrefix string
  | EmptySegment
  | BadSegment string
  | TooShort string string nat string

definition segment_char :: "char \<Rightarrow> bool" where
  "segment_char c \<longleftrightarrow> is_ascii_alnum c \<or> c = CHR ''-'' \<or> c = CHR ''_''"

definition needed_segments :: "string \<Rightarrow> nat" where
  "needed_segments branch =
     (if branch = ''electrical'' \<or> branch = ''tanks'' then 4
      else if branch = ''propulsion'' \<or> branch = ''sails'' then 3 else 2)"

definition example_path :: "string \<Rightarrow> string" where
  "example_path branch =
     (if branch = ''electrical'' then ''electrical.batteries.house.voltage''
      else if branch = ''tanks'' then ''tanks.fuel.main.currentLevel''
      else if branch = ''propulsion'' then ''propulsion.main.revolutions''
      else if branch = ''sails'' then ''sails.inventory.main.area''
      else ''environment.inside.temperature'')"

definition check_path :: "string \<Rightarrow> path_error + unit" where
  "check_path path =
     (let p = rust_trim path; seg = split_dot p
      in if p = [] then Inl NoPath
         else if has_whitespace p then Inl PathSpaces
         else if list_ex (\<lambda>s. s = []) seg
           then Inl (if last p = dot then PathPrefix p else EmptySegment)
         else (case find (\<lambda>s. \<not> list_all segment_char s) seg of
             Some bad \<Rightarrow> Inl (BadSegment bad)
           | None \<Rightarrow>
               (let need = needed_segments (hd seg)
                in if length seg < need then Inl (TooShort p (hd seg) need (example_path (hd seg)))
                   else Inr ())))"

definition mode_leaf :: "string \<Rightarrow> string" where
  "mode_leaf path =
     (let p = rust_trim path
      in if starts_with ''electrical.inverters.'' p then ''inverterMode''
         else if starts_with ''electrical.chargers.'' p \<or> starts_with ''electrical.solar.'' p then ''chargingMode''
         else ''a mode leaf'')"

definition notification_path :: "string \<Rightarrow> string" where
  "notification_path path = ''notifications.'' @ path"

text \<open>The node of a path: its first segments, as many as the branch nests.\<close>

definition node_depth :: "string \<Rightarrow> nat option" where
  "node_depth branch =
     (if branch = ''electrical'' \<or> branch = ''tanks'' then Some 3
      else if branch = ''propulsion'' \<or> branch = ''sails'' then Some 2 else None)"

definition node_of :: "string \<Rightarrow> string option" where
  "node_of path =
     (let seg = split_dot path
      in case node_depth (hd seg) of
           None \<Rightarrow> None
         | Some depth \<Rightarrow> if length seg \<le> depth then None else Some (join_dot (take depth seg)))"

definition path_instance :: "string \<Rightarrow> string option" where
  "path_instance path = map_option (\<lambda>n. last (split_dot n)) (node_of path)"

text \<open>The instance most paths use; a tie keeps the current one, else the first in order.\<close>

definition instance_counts :: "string list \<Rightarrow> nat btree" where
  "instance_counts paths =
     foldl (\<lambda>m i. bt_insert i ((case bt_get m i of Some n \<Rightarrow> n | None \<Rightarrow> 0) + 1) m) []
       (List.map_filter path_instance paths)"

definition main_instance :: "string list \<Rightarrow> string \<Rightarrow> string option" where
  "main_instance paths current =
     (let counts = instance_counts paths
      in if counts = [] then None
         else (let top = Max (snd ` set counts)
               in if bt_get counts current = Some top then Some current
                  else map_option fst (find (\<lambda>(i, n). n = top) counts)))"

section \<open>Facts\<close>

text \<open>A path with a node is its node, a dot and the rest; the instance is one of its segments.\<close>

lemma split_prefix_dotless: "list_all (\<lambda>s. dot \<notin> set s) (take n (split_dot p))"
  using dot_of_split [of p] by (auto simp: list_all_iff dest: in_set_takeD)

lemma node_ofE:
  assumes "node_of path = Some n"
  obtains d where "node_depth (hd (split_dot path)) = Some d" and "d < length (split_dot path)"
    and "0 < d" and "n = join_dot (take d (split_dot path))" and "split_dot n = take d (split_dot path)"
proof -
  obtain d where d: "node_depth (hd (split_dot path)) = Some d" "d < length (split_dot path)"
    "n = join_dot (take d (split_dot path))"
    using assms by (auto simp: node_of_def Let_def split: option.splits if_splits)
  have "0 < d" using d(1) by (auto simp: node_depth_def split: if_splits)
  then have "split_dot n = take d (split_dot path)"
    unfolding d(3) by (intro split_join_dot split_prefix_dotless) simp
  with d \<open>0 < d\<close> show ?thesis using that by blast
qed

lemma path_instance_nth:
  assumes "path_instance path = Some i"
  obtains d where "node_depth (hd (split_dot path)) = Some d" and "d < length (split_dot path)"
    and "0 < d" and "i = split_dot path ! (d - 1)"
proof -
  obtain n where n: "node_of path = Some n" "i = last (split_dot n)"
    using assms by (auto simp: path_instance_def)
  obtain d where d: "node_depth (hd (split_dot path)) = Some d" "d < length (split_dot path)" "0 < d"
    "split_dot n = take d (split_dot path)" by (rule node_ofE [OF n(1)])
  have "i = split_dot path ! (d - 1)"
    using d n(2) by (simp add: last_conv_nth min_def)
  with d show ?thesis using that by blast
qed

lemma path_instance_in_path: "path_instance path = Some i \<Longrightarrow> i \<in> set (split_dot path)"
  by (elim path_instance_nth) (simp add: less_imp_diff_less)

lemma find_all_false: "find (\<lambda>s. \<not> P s) xs = None \<longleftrightarrow> list_all P xs"
  by (auto simp: find_None_iff list_all_iff)

text \<open>What passes the check can hold a value below its node.\<close>

lemma check_path_ok:
  "check_path path = Inr u \<Longrightarrow>
     list_all (\<lambda>s. s \<noteq> [] \<and> list_all segment_char s) (split_dot (rust_trim path)) \<and>
     needed_segments (hd (split_dot (rust_trim path))) \<le> length (split_dot (rust_trim path))"
  by (auto simp: check_path_def Let_def find_None_iff list_all_iff list_ex_iff split: if_splits option.splits)

end
