(* ===== verification/FieldMap.thy ===== *)
theory FieldMap
  imports SkPath Settings
begin

text \<open>
  The curated mapping of fields to Signal K paths: \<open>crates/masterbus-tools/src/mapping.rs\<close>. The
  \<open>BTreeMap\<close>s are ordered association lists; reading and writing the JSON file is serde's work, a
  parameter.
\<close>

section \<open>The mapping\<close>

definition VERSION :: nat where "VERSION = 1"

datatype notify_state = Ns_Alert | Ns_Warn | Ns_Alarm | Ns_Emergency

definition notify_ALL :: "notify_state list" where
  "notify_ALL = [Ns_Alert, Ns_Warn, Ns_Alarm, Ns_Emergency]"

fun notify_str :: "notify_state \<Rightarrow> string" where
  "notify_str Ns_Alert = ''alert''"
| "notify_str Ns_Warn = ''warn''"
| "notify_str Ns_Alarm = ''alarm''"
| "notify_str Ns_Emergency = ''emergency''"

fun notify_methods :: "notify_state \<Rightarrow> string list" where
  "notify_methods Ns_Alert = [''visual'']"
| "notify_methods Ns_Warn = [''visual'']"
| "notify_methods Ns_Alarm = [''visual'', ''sound'']"
| "notify_methods Ns_Emergency = [''visual'', ''sound'']"

record field_mapping =
  fm_path :: string
  fm_invert :: bool
  fm_truth :: "bool btree"
  fm_notify :: "notify_state btree"
  fm_put :: bool
  fm_allow_off :: bool

record device_mapping =
  dm_article :: string
  dm_firmware :: string
  dm_name :: string
  dm_instance :: string
  dm_fields :: "field_mapping btree"

record mapping =
  mp_version :: nat
  mp_devices :: "device_mapping btree"

definition default_field :: field_mapping where
  "default_field = \<lparr>fm_path = [], fm_invert = False, fm_truth = [], fm_notify = [], fm_put = False, fm_allow_off = False\<rparr>"

definition default_device :: device_mapping where
  "default_device = \<lparr>dm_article = [], dm_firmware = [], dm_name = [], dm_instance = [], dm_fields = []\<rparr>"

definition mapping_new :: mapping where
  "mapping_new = \<lparr>mp_version = VERSION, mp_devices = []\<rparr>"

text \<open>The keys of the file: \<open>0x\<close> and three digits of the id; read with either prefix or none.\<close>

definition field_key :: "field_id \<Rightarrow> string" where
  "field_key fid = ''0x'' @ fmt_hex 3 (unat fid)"

definition parse_field_key :: "string \<Rightarrow> field_id option" where
  "parse_field_key key =
     (let t = rust_trim key;
          t1 = (case strip_prefix ''0x'' t of
                  Some r \<Rightarrow> r
                | None \<Rightarrow> (case strip_prefix ''0X'' t of Some r \<Rightarrow> r | None \<Rightarrow> t))
      in map_option of_nat (from_str_radix 16 16 t1))"

definition mapping_field :: "mapping \<Rightarrow> string \<Rightarrow> field_id \<Rightarrow> field_mapping option" where
  "mapping_field m serial fid =
     Option.bind (bt_get (mp_devices m) serial) (\<lambda>d. bt_get (dm_fields d) (field_key fid))"

definition mapping_len :: "mapping \<Rightarrow> nat" where
  "mapping_len m = sum_list (map (\<lambda>(serial, d). length (dm_fields d)) (mp_devices m))"

definition mapping_is_empty :: "mapping \<Rightarrow> bool" where
  "mapping_is_empty m \<longleftrightarrow> mapping_len m = 0"

section \<open>The file\<close>

text \<open>\<open>read\<close> is the file system's; \<open>from_json\<close> and \<open>pretty\<close> are serde's. A missing file is an
  empty mapping.\<close>

datatype ('i, 'e) load_error = Load_io 'i | Load_data string 'e

definition mapping_load ::
  "(string \<Rightarrow> 'i + bytes) \<Rightarrow> ('i \<Rightarrow> bool) \<Rightarrow> (bytes \<Rightarrow> 'e + mapping) \<Rightarrow> string \<Rightarrow> ('i, 'e) load_error + mapping" where
  "mapping_load read_file not_found from_json path =
     (case read_file path of
        Inl e \<Rightarrow> if not_found e then Inr mapping_new else Inl (Load_io e)
      | Inr raw \<Rightarrow> (case from_json raw of Inl e \<Rightarrow> Inl (Load_data path e) | Inr m \<Rightarrow> Inr m))"

definition mapping_save ::
  "(string \<Rightarrow> string option) \<Rightarrow> (string \<Rightarrow> 'f \<Rightarrow> ('i + unit) \<times> 'f) \<Rightarrow> (mapping \<Rightarrow> 'i + bytes) \<Rightarrow>
     (string \<Rightarrow> bytes \<Rightarrow> 'f \<Rightarrow> ('i + unit) \<times> 'f) \<Rightarrow> string \<Rightarrow> mapping \<Rightarrow> 'f \<Rightarrow> ('i + unit) \<times> 'f" where
  "mapping_save parent create_dirs pretty write_file path m fs =
     (let (r, fs1) = (case parent path of Some p \<Rightarrow> create_dirs p fs | None \<Rightarrow> (Inr (), fs))
      in case r of
           Inl e \<Rightarrow> (Inl e, fs1)
         | Inr u \<Rightarrow>
             (case pretty m of
                Inl e \<Rightarrow> (Inl e, fs1)
              | Inr body \<Rightarrow> write_file path (body @ [10]) fs1))"

section \<open>Copying to other devices\<close>

record copy_target =
  ct_instance :: string
  ct_have :: "field_id list"
  ct_ident :: device_identity

text \<open>Every segment that is the source's instance becomes the target's.\<close>

definition retarget :: "string \<Rightarrow> string \<Rightarrow> string \<Rightarrow> string" where
  "retarget path src tgt =
     (if src = [] \<or> src = tgt then path
      else join_dot (map (\<lambda>seg. if seg = src then tgt else seg) (split_dot path)))"

definition copy_path :: "device_mapping \<Rightarrow> string \<Rightarrow> field_mapping \<Rightarrow> string" where
  "copy_path src inst fm =
     retarget (fm_path fm) (case path_instance (fm_path fm) of Some i \<Rightarrow> i | None \<Rightarrow> dm_instance src) inst"

fun copy_field ::
  "device_mapping \<Rightarrow> field_id list \<Rightarrow> string \<Rightarrow> string \<times> field_mapping \<Rightarrow>
     field_mapping btree \<times> nat \<times> nat \<Rightarrow> field_mapping btree \<times> nat \<times> nat" where
  "copy_field src have_ids inst (key, fm) (fs, copied, skipped) =
     (case parse_field_key key of
        None \<Rightarrow> (fs, copied, skipped + 1)
      | Some fid \<Rightarrow>
          if fid \<notin> set have_ids then (fs, copied, skipped + 1)
          else if copy_path src inst fm = fm_path fm then (fs, copied, skipped + 1)
          else (bt_insert key (fm\<lparr>fm_path := copy_path src inst fm\<rparr>) fs, copied + 1, skipped))"

definition copy_entry :: "copy_target \<Rightarrow> device_mapping \<Rightarrow> device_mapping" where
  "copy_entry t d =
     d\<lparr>dm_article := di_article (ct_ident t), dm_firmware := di_firmware (ct_ident t),
       dm_name := di_name (ct_ident t),
       dm_instance := (if dm_instance d = [] then ct_instance t else dm_instance d)\<rparr>"

fun copy_to_targets :: "device_mapping \<Rightarrow> copy_target list \<Rightarrow> mapping \<times> nat \<times> nat \<Rightarrow> mapping \<times> nat \<times> nat" where
  "copy_to_targets src [] acc = acc"
| "copy_to_targets src (t # ts) (m, copied, skipped) =
     (let serial = di_serial (ct_ident t);
          d = copy_entry t (case bt_get (mp_devices m) serial of Some d \<Rightarrow> d | None \<Rightarrow> default_device);
          (fs, c, s) = fold (copy_field src (ct_have t) (dm_instance d)) (dm_fields src) (dm_fields d, copied, skipped)
      in copy_to_targets src ts (m\<lparr>mp_devices := bt_insert serial (d\<lparr>dm_fields := fs\<rparr>) (mp_devices m)\<rparr>, c, s))"

section \<open>Facts\<close>

definition mapping_ok :: "mapping \<Rightarrow> bool" where
  "mapping_ok m \<longleftrightarrow> bt_ok (mp_devices m) \<and> (\<forall>d \<in> snd ` set (mp_devices m). bt_ok (dm_fields d))"

text \<open>A key that was rendered is read back; a bare or differently written number reads as well, but
  is not the key \<open>mapping_field\<close> looks for.\<close>

lemma hex_text_plain:
  assumes "hex_text s" and "s \<noteq> []"
  shows "from_str_radix w 16 s = (if undigits 16 s < 2 ^ w then Some (undigits 16 s) else None)"
proof -
  obtain c cs where s: "s = c # cs" using assms(2) by (cases s) auto
  have "c \<noteq> CHR ''+''" using hex_text_chars [OF assms(1), of c] s by simp
  then show ?thesis
    using radix_digits_hex [OF assms(1), of 0] s by (simp add: from_str_radix_def Let_def undigits_def)
qed

lemma parse_field_key_key [simp]: "parse_field_key (field_key fid) = Some fid"
proof -
  let ?s = "fmt_hex 3 (unat fid)"
  have "rust_trim (field_key fid) = field_key fid"
    using hex_text_chars [OF hex_text_fmt(1), of "last ?s" 3 "unat fid"] hex_text_fmt(2) [of 3 "unat fid"]
    by (intro rust_trim_visible) (simp add: field_key_def visible_def)
  moreover have "unat fid < 2 ^ 16" using unsigned_less [of fid, where 'a = nat] by simp
  ultimately show ?thesis
    using hex_text_plain [OF hex_text_fmt, of 16 3 "unat fid"]
    by (simp add: parse_field_key_def field_key_def undigits_fmt_hex)
qed

lemma field_key_inject [simp]: "field_key a = field_key b \<longleftrightarrow> a = b"
  by (metis option.inject parse_field_key_key)

lemma field_key_head: "field_key fid = CHR ''0'' # CHR ''x'' # fmt_hex 3 (unat fid)"
  by (simp add: field_key_def)

text \<open>A field the source maps is skipped, or copied with a path of its own to a field the target has.\<close>

definition copied_field :: "device_mapping \<Rightarrow> field_id list \<Rightarrow> string \<Rightarrow> field_mapping btree \<Rightarrow> string \<Rightarrow> field_mapping \<Rightarrow> bool" where
  "copied_field src have_ids inst fs key fm \<longleftrightarrow>
     (\<exists>fid sfm. parse_field_key key = Some fid \<and> fid \<in> set have_ids \<and> (key, sfm) \<in> set fs \<and>
        fm = sfm\<lparr>fm_path := copy_path src inst sfm\<rparr> \<and> fm_path fm \<noteq> fm_path sfm)"

lemma copied_field_mono: "copied_field src h i fs key fm \<Longrightarrow> set fs \<subseteq> set gs \<Longrightarrow> copied_field src h i gs key fm"
  unfolding copied_field_def by blast

lemma copy_field_counts:
  "copy_field src h i p (gs, c, s) = (gs', c', s') \<Longrightarrow> c' + s' = Suc (c + s) \<and> (bt_ok gs \<longrightarrow> bt_ok gs')"
  by (cases p) (auto split: option.splits if_splits)

lemma copy_field_entries:
  "copy_field src h i p (gs, c, s) = (gs', c', s') \<Longrightarrow> (key, fm) \<in> set gs' \<Longrightarrow>
     (key, fm) \<in> set gs \<or> copied_field src h i [p] key fm"
  by (cases p) (auto simp: copied_field_def dest!: subsetD [OF set_bt_insert] split: option.splits if_splits)

lemma copy_fields_counts:
  "fold (copy_field src h i) fs (gs, c, s) = (gs', c', s') \<Longrightarrow>
     c' + s' = c + s + length fs \<and> (bt_ok gs \<longrightarrow> bt_ok gs')"
proof (induction fs arbitrary: gs c s)
  case (Cons p fs)
  obtain g c1 s1 where p: "copy_field src h i p (gs, c, s) = (g, c1, s1)" by (cases "copy_field src h i p (gs, c, s)") auto
  show ?case using Cons.prems Cons.IH [of g c1 s1] copy_field_counts [OF p] p by simp
qed simp

lemma copy_fields_entries:
  "fold (copy_field src h i) fs (gs, c, s) = (gs', c', s') \<Longrightarrow> (key, fm) \<in> set gs' \<Longrightarrow>
     (key, fm) \<in> set gs \<or> copied_field src h i fs key fm"
proof (induction fs arbitrary: gs c s)
  case (Cons p fs)
  obtain g c1 s1 where p: "copy_field src h i p (gs, c, s) = (g, c1, s1)" by (cases "copy_field src h i p (gs, c, s)") auto
  have "(key, fm) \<in> set g \<or> copied_field src h i fs key fm" using Cons.prems Cons.IH [of g c1 s1] p by simp
  moreover have "(key, fm) \<in> set g \<Longrightarrow> (key, fm) \<in> set gs \<or> copied_field src h i [p] key fm"
    using copy_field_entries [OF p] .
  moreover have "copied_field src h i fs key fm \<Longrightarrow> copied_field src h i (p # fs) key fm"
    "copied_field src h i [p] key fm \<Longrightarrow> copied_field src h i (p # fs) key fm"
    by (rule copied_field_mono, assumption, force)+
  ultimately show ?case by blast
qed simp

text \<open>The same over all targets: an entry afterwards was there before, or was copied onto the target
  with that serial under that target's instance.\<close>

definition mapped_entry :: "mapping \<Rightarrow> string \<Rightarrow> string \<Rightarrow> field_mapping \<Rightarrow> bool" where
  "mapped_entry m serial key fm \<longleftrightarrow>
     (\<exists>d. bt_get (mp_devices m) serial = Some d \<and> (key, fm) \<in> set (dm_fields d))"

definition copied_entry :: "device_mapping \<Rightarrow> copy_target list \<Rightarrow> string \<Rightarrow> string \<Rightarrow> field_mapping \<Rightarrow> bool" where
  "copied_entry src ts serial key fm \<longleftrightarrow>
     (\<exists>t i. t \<in> set ts \<and> di_serial (ct_ident t) = serial \<and> copied_field src (ct_have t) i (dm_fields src) key fm)"

lemma copy_to_targets_spec:
  "copy_to_targets src ts (m, c, s) = (m', c', s') \<Longrightarrow>
     c' + s' = c + s + length ts * length (dm_fields src) \<and>
     (mapped_entry m' serial key fm \<longrightarrow> mapped_entry m serial key fm \<or> copied_entry src ts serial key fm)"
proof (induction ts arbitrary: m c s)
  case (Cons t ts)
  define serial0 where "serial0 = di_serial (ct_ident t)"
  define d where "d = copy_entry t (case bt_get (mp_devices m) serial0 of Some d \<Rightarrow> d | None \<Rightarrow> default_device)"
  obtain fs c1 s1 where f: "fold (copy_field src (ct_have t) (dm_instance d)) (dm_fields src) (dm_fields d, c, s) = (fs, c1, s1)"
    by (cases "fold (copy_field src (ct_have t) (dm_instance d)) (dm_fields src) (dm_fields d, c, s)") auto
  define m1 where "m1 = m\<lparr>mp_devices := bt_insert serial0 (d\<lparr>dm_fields := fs\<rparr>) (mp_devices m)\<rparr>"
  have step: "copy_to_targets src ts (m1, c1, s1) = (m', c', s')"
    using Cons.prems f by (simp add: Let_def serial0_def d_def m1_def)
  have old: "(key, fm) \<in> set (dm_fields d) \<Longrightarrow> mapped_entry m serial0 key fm"
    by (auto simp: d_def copy_entry_def mapped_entry_def default_device_def split: option.splits)
  have "mapped_entry m1 serial key fm \<Longrightarrow> mapped_entry m serial key fm \<or> copied_entry src (t # ts) serial key fm"
  proof (cases "serial = serial0")
    case True
    assume "mapped_entry m1 serial key fm"
    then have "(key, fm) \<in> set fs" using True by (simp add: mapped_entry_def m1_def)
    then have "(key, fm) \<in> set (dm_fields d) \<or> copied_field src (ct_have t) (dm_instance d) (dm_fields src) key fm"
      by (rule copy_fields_entries [OF f])
    then show ?thesis using old True by (auto simp: copied_entry_def serial0_def)
  next
    case False
    assume "mapped_entry m1 serial key fm"
    then show ?thesis using False by (simp add: mapped_entry_def m1_def)
  qed
  moreover have "copied_entry src ts serial key fm \<Longrightarrow> copied_entry src (t # ts) serial key fm"
    by (auto simp: copied_entry_def)
  ultimately show ?case using Cons.IH [OF step] copy_fields_counts [OF f] by auto
qed simp

text \<open>Copying a device's mapping to others of its article is safe: every mapped field is copied or
  counted as skipped, once per target; and an entry found afterwards was there before, or is the
  source's entry of that field for a target that has the field, under a path that differs from the
  source's. Two devices are never left writing one path by copying it.\<close>

theorem copies_never_share_the_path:
  assumes "copy_to_targets src ts (m, 0, 0) = (m', copied, skipped)" and "mapped_entry m' serial key fm"
  shows "copied + skipped = length ts * length (dm_fields src) \<and>
    (mapped_entry m serial key fm \<or> copied_entry src ts serial key fm)"
  using copy_to_targets_spec [OF assms(1), of serial key fm] assms(2) by simp

definition house_bank :: device_mapping where
  "house_bank = default_device\<lparr>dm_instance := ''house'',
     dm_fields := [(''0x006'', default_field\<lparr>fm_path := ''electrical.batteries.house.voltage''\<rparr>),
                   (''0x007'', default_field\<lparr>fm_path := ''electrical.batteries.house.current''\<rparr>)]\<rparr>"

definition bow_bank :: copy_target where
  "bow_bank = \<lparr>ct_instance = ''bow'', ct_have = [6],
     ct_ident = \<lparr>di_article = ''77'', di_serial = ''B2'', di_revision = [], di_name = ''BAT Bow'', di_firmware = ''1.0''\<rparr>\<rparr>"

definition bow_mapping :: device_mapping where
  "bow_mapping = \<lparr>dm_article = ''77'', dm_firmware = ''1.0'', dm_name = ''BAT Bow'', dm_instance = ''bow'',
     dm_fields = [(''0x006'', default_field\<lparr>fm_path := ''electrical.batteries.bow.voltage''\<rparr>)]\<rparr>"

lemma copied_bank:
  "copy_to_targets house_bank [bow_bank] (mapping_new, 0, 0) =
     (mapping_new\<lparr>mp_devices := [(''B2'', bow_mapping)]\<rparr>, 1, 1)"
proof -
  have k: "parse_field_key ''0x006'' = Some 6" "parse_field_key ''0x007'' = Some 7"
  proof -
    have "''0x006'' = field_key 6" "''0x007'' = field_key 7" by code_simp+
    then show "parse_field_key ''0x006'' = Some 6" "parse_field_key ''0x007'' = Some 7"
      by (simp_all only: parse_field_key_key)
  qed
  have p: "copy_path house_bank ''bow'' (default_field\<lparr>fm_path := ''electrical.batteries.house.voltage''\<rparr>) =
      ''electrical.batteries.bow.voltage''"
    by code_simp
  show ?thesis
    using p by (simp add: mapping_new_def copy_entry_def default_device_def house_bank_def bow_bank_def bow_mapping_def k Let_def)
qed

lemma copies_never_share_the_path_witness:
  "(1::nat) + 1 = length [bow_bank] * length (dm_fields house_bank) \<and>
    (mapped_entry mapping_new ''B2'' ''0x006'' (default_field\<lparr>fm_path := ''electrical.batteries.bow.voltage''\<rparr>) \<or>
     copied_entry house_bank [bow_bank] ''B2'' ''0x006'' (default_field\<lparr>fm_path := ''electrical.batteries.bow.voltage''\<rparr>))"
  by (rule copies_never_share_the_path [OF copied_bank]) (simp add: mapped_entry_def bow_mapping_def)

text \<open>Every segment that is the instance changes, the category with it when it has the same name.\<close>

lemma retarget_takes_the_category:
  "retarget ''electrical.solar.solar.voltage'' ''solar'' ''aft'' = ''electrical.aft.aft.voltage''"
  by code_simp

end
