(* ===== verification/SignalK.thy ===== *)
theory SignalK
  imports FieldMap
begin

text \<open>
  How a field publishes and how a PUT comes back: \<open>crates/masterbus-tools/src/signalk.rs\<close> beyond the
  paths of SkPath. \<open>plan\<close> decides once per mapping entry; \<open>encode\<close> and \<open>decode\<close> carry values
  both ways. Messages are constructors, one per \<open>format!\<close>.
\<close>

section \<open>Labels\<close>

definition truth_of_label :: "string \<Rightarrow> bool option" where
  "truth_of_label label =
     (let l = to_ascii_lowercase (rust_trim label)
      in if l \<in> set [''on'', ''activated'', ''active'', ''enabled'', ''yes'', ''true'', ''closed''] then Some True
         else if l \<in> set [''off'', ''standby'', ''disabled'', ''inactive'', ''no'', ''false'', ''open''] then Some False
         else None)"

fun truth_table :: "string list \<Rightarrow> bool btree \<Rightarrow> bool btree option" where
  "truth_table [] t = Some t"
| "truth_table (l # ls) t =
     (case truth_of_label l of None \<Rightarrow> None | Some b \<Rightarrow> truth_table ls (bt_insert l b t))"

definition truth_default :: "string list \<Rightarrow> bool btree option" where
  "truth_default labels =
     (case truth_table labels [] of
        None \<Rightarrow> None
      | Some t \<Rightarrow> if True \<in> snd ` set t \<and> False \<in> snd ` set t then Some t else None)"

definition unlabeled :: "string list \<Rightarrow> bool" where
  "unlabeled options \<longleftrightarrow> options \<noteq> [] \<and> list_all (\<lambda>l. rust_trim l = []) options"

fun labels_of :: "bus_value \<Rightarrow> string list option" where
  "labels_of (List index options) = Some options"
| "labels_of (Eventable index labels) = Some labels"
| "labels_of _ = None"

section \<open>Notifications\<close>

definition notify_of_label :: "string \<Rightarrow> notify_state option" where
  "notify_of_label label =
     (let l = to_ascii_lowercase (rust_trim label)
      in if list_ex (\<lambda>w. str_contains w l) [''alarm'', ''fault'', ''failure'', ''error'', ''emergency''] then Some Ns_Alarm
         else if list_ex (\<lambda>w. str_contains w l)
             [''warn'', ''overload'', ''low bat'', ''over temp'', ''overtemp'', ''high temp''] then Some Ns_Warn
         else None)"

definition notify_default :: "string list \<Rightarrow> notify_state btree" where
  "notify_default labels = bt_collect (List.map_filter (\<lambda>l. map_option (\<lambda>s. (l, s)) (notify_of_label l)) labels)"

text \<open>The first entry of a table whose key is the label, whatever the case of its letters.\<close>

definition find_label :: "string \<Rightarrow> 'v btree \<Rightarrow> 'v option" where
  "find_label label table = map_option snd (find (\<lambda>(k, v). eq_ignore_ascii_case k label) table)"

definition notify_state_of :: "string \<Rightarrow> notify_state btree \<Rightarrow> notify_state option" where
  "notify_state_of label table = find_label label table"

definition notification_value :: "string \<Rightarrow> string \<Rightarrow> notify_state option \<Rightarrow> 'n json" where
  "notification_value device label state =
     (let message = (if device = [] then label else device @ '': '' @ label)
      in case state of
           Some s \<Rightarrow> JObject [(''state'', JString (notify_str s)),
               (''method'', JArray (map JString (notify_methods s))), (''message'', JString message)]
         | None \<Rightarrow> JObject [(''state'', JString ''normal''), (''method'', JArray []), (''message'', JString message)])"

section \<open>The plan of an entry\<close>

record sk_plan =
  pl_conv :: conversion
  pl_unit :: "string option"
  pl_truth :: "bool btree"
  pl_invert :: bool
  pl_notify :: "notify_state btree"
  pl_warning :: "string option"

datatype refusal =
    Refused_path path_error
  | Refused_units string string
  | Refused_truth "string list"

text \<open>The table of an enum on a boolean leaf: the user's, completed from the conventional meanings,
  or the conventional one.\<close>

fun complete_truth :: "string list \<Rightarrow> bool btree \<Rightarrow> bool btree option" where
  "complete_truth [] t = Some t"
| "complete_truth (l # ls) t =
     (if list_ex (\<lambda>(k, v). eq_ignore_ascii_case k l) t then complete_truth ls t
      else (case truth_of_label l of None \<Rightarrow> None | Some b \<Rightarrow> complete_truth ls (bt_insert l b t)))"

definition plan_truth :: "bool \<Rightarrow> string list \<Rightarrow> bool btree \<Rightarrow> refusal + bool btree" where
  "plan_truth boolean_leaf options truth =
     (if boolean_leaf \<and> options \<noteq> [] \<and> \<not> unlabeled options
      then (case (if truth = [] then truth_default options else complete_truth options truth) of
              Some t \<Rightarrow> Inr t | None \<Rightarrow> Inl (Refused_truth options))
      else Inr truth)"

text \<open>Conversion, unit and warning; the warning is the unit this build cannot convert.\<close>

definition plan_units :: "string \<Rightarrow> string option \<Rightarrow> si option \<Rightarrow> refusal + conversion \<times> string option \<times> string option" where
  "plan_units dev leaf si =
     (case leaf of
        Some l \<Rightarrow>
          if dev = [] then Inr (conv_IDENTITY, Some l, None)
          else (case si of
                  Some s \<Rightarrow> if si_unit s = l then Inr (si_conv s, Some l, None) else Inl (Refused_units dev l)
                | None \<Rightarrow> Inl (Refused_units dev l))
      | None \<Rightarrow>
          (case si of
             Some s \<Rightarrow> Inr (si_conv s, Some (si_unit s), None)
           | None \<Rightarrow> if dev = [] then Inr (conv_IDENTITY, None, None) else Inr (conv_IDENTITY, None, Some dev)))"

definition plan :: "string \<Rightarrow> string \<Rightarrow> string list \<Rightarrow> field_mapping \<Rightarrow> refusal + sk_plan" where
  "plan path device_unit options entry =
     (case check_path path of
        Inl reason \<Rightarrow> Inl (Refused_path reason)
      | Inr u \<Rightarrow>
          (let dev = normalize device_unit; si = to_si device_unit; boolean_leaf = leaf_is_boolean path
           in case plan_truth boolean_leaf options (fm_truth entry) of
                Inl e \<Rightarrow> Inl e
              | Inr truth \<Rightarrow>
                  if boolean_leaf \<and> si \<noteq> None then Inl (Refused_units dev ''boolean'')
                  else (case plan_units dev (leaf_unit path) si of
                      Inl e \<Rightarrow> Inl e
                    | Inr (conv, unit, warning) \<Rightarrow>
                        Inr \<lparr>pl_conv = conv,
                             pl_unit = (if boolean_leaf \<or> truth \<noteq> [] then None else unit),
                             pl_truth = truth, pl_invert = fm_invert entry,
                             pl_notify = fm_notify entry, pl_warning = warning\<rparr>)))"

section \<open>Values out\<close>

definition json_of_f64 :: "'n json_num \<Rightarrow> f64 \<Rightarrow> 'n json" where
  "json_of_f64 N x = (case num_from_f64 N x of Some n \<Rightarrow> JNumber n | None \<Rightarrow> JNull)"

definition time_secs :: "time \<Rightarrow> f64" where
  "time_secs t =
     f64_add (f64_add (f64_add (f64_mul (f64_of_int (int (unat (t_days t)))) (f64_of_int 86400))
                               (f64_mul (f64_of_int (t_hour t)) (f64_of_int 3600)))
                      (f64_mul (f64_of_int (t_min t)) (f64_of_int 60)))
             (f64_of_int (t_sec t))"

text \<open>An enum: off or on without labels, a boolean through a truth table, else its label.\<close>

definition encode_enum :: "bus_value \<Rightarrow> int \<Rightarrow> string list \<Rightarrow> bool \<Rightarrow> bool btree \<Rightarrow> 'n json option" where
  "encode_enum v index options invert truth =
     (if unlabeled options
      then (if 0 \<le> index \<and> index < int (length options) then Some (JBool ((index \<noteq> 0) \<noteq> invert)) else None)
      else if truth \<noteq> []
      then Option.bind (value_label v) (\<lambda>label. map_option (\<lambda>b. JBool (b \<noteq> invert)) (find_label label truth))
      else map_option (\<lambda>s. JString (to_ascii_lowercase s)) (value_label v))"

fun encode :: "'n json_num \<Rightarrow> bus_value \<Rightarrow> conversion \<Rightarrow> bool \<Rightarrow> bool btree \<Rightarrow> 'n json option" where
  "encode N (Float x) conv invert truth =
     (if f32_is_finite x then Some (json_of_f64 N (conv_apply conv (f32_as_f64 x))) else None)"
| "encode N (Boolean b) conv invert truth = Some (JBool (b \<noteq> invert))"
| "encode N (Time t) conv invert truth =
     (if 0 \<le> t_sec t then Some (json_of_f64 N (conv_apply conv (time_secs t))) else None)"
| "encode N (List index options) conv invert truth = encode_enum (List index options) index options invert truth"
| "encode N (Eventable index labels) conv invert truth = encode_enum (Eventable index labels) index labels invert truth"
| "encode N (Text sid txt) conv invert truth = (if txt \<noteq> [] then Some (JString txt) else None)"
| "encode N (Date d) conv invert truth = None"
| "encode N (DeviceRef index devs) conv invert truth = None"
| "encode N Invalid conv invert truth = None"

section \<open>Values in\<close>

datatype 'n decode_error =
    Expected_number "'n json"
  | Expected_bool "'n json"
  | No_label_means bool
  | Not_one_of string "string list"
  | Not_an_index 'n
  | Expected_label "'n json"
  | Expected_string "'n json"
  | Not_writable_kind

fun as_bool :: "'n json_num \<Rightarrow> 'n json \<Rightarrow> bool option" where
  "as_bool N (JBool b) = Some b"
| "as_bool N (JNumber n) = map_option (\<lambda>x. \<not> f64_eq x f64_zero) (num_as_f64 N n)"
| "as_bool N (JString s) =
     (let l = to_ascii_lowercase (rust_trim s)
      in if l \<in> set [''true'', ''on'', ''1'', ''yes''] then Some True
         else if l \<in> set [''false'', ''off'', ''0'', ''no''] then Some False else None)"
| "as_bool N _ = None"

fun json_f64 :: "'n json_num \<Rightarrow> 'n json \<Rightarrow> f64 option" where
  "json_f64 N (JNumber n) = num_as_f64 N n"
| "json_f64 N _ = None"

fun with_index :: "bus_value \<Rightarrow> int \<Rightarrow> bus_value" where
  "with_index (List i options) index = List index options"
| "with_index (Eventable i labels) index = Eventable index labels"
| "with_index other index = other"

text \<open>\<open>iter().position\<close>.\<close>

fun position_of :: "('a \<Rightarrow> bool) \<Rightarrow> 'a list \<Rightarrow> nat option" where
  "position_of P [] = None"
| "position_of P (x # xs) = (if P x then Some 0 else map_option Suc (position_of P xs))"

lemma position_of_Some: "position_of P xs = Some i \<Longrightarrow> i < length xs \<and> P (xs ! i)"
  by (induction xs arbitrary: i) (auto split: if_splits)

definition decode_index :: "'n json_num \<Rightarrow> 'n json \<Rightarrow> string list \<Rightarrow> 'n decode_error + nat" where
  "decode_index N json labels =
     (case json of
        JString s \<Rightarrow>
          (case position_of (\<lambda>l. eq_ignore_ascii_case l (rust_trim s)) labels of
             Some i \<Rightarrow> Inr i | None \<Rightarrow> Inl (Not_one_of s labels))
      | JNumber n \<Rightarrow>
          (case num_as_u64 N n of
             Some i \<Rightarrow> if i < max (length labels) 1 then Inr i else Inl (Not_an_index n)
           | None \<Rightarrow> Inl (Not_an_index n))
      | _ \<Rightarrow> Inl (Expected_label json))"

definition decode_enum ::
  "'n json_num \<Rightarrow> 'n json \<Rightarrow> bus_value \<Rightarrow> string list \<Rightarrow> bool \<Rightarrow> bool btree \<Rightarrow> 'n decode_error + bus_value" where
  "decode_enum N json template labels invert truth =
     (if unlabeled labels
      then (case as_bool N json of
              None \<Rightarrow> Inl (Expected_bool json)
            | Some b \<Rightarrow> Inr (with_index template (if b \<noteq> invert then 1 else 0)))
      else if truth \<noteq> []
      then (case as_bool N json of
              None \<Rightarrow> Inl (Expected_bool json)
            | Some b \<Rightarrow>
                (case position_of (\<lambda>l. list_ex (\<lambda>(k, v). eq_ignore_ascii_case k l \<and> v = (b \<noteq> invert)) truth) labels of
                   Some i \<Rightarrow> Inr (with_index template (as_i32 (int i)))
                 | None \<Rightarrow> Inl (No_label_means (b \<noteq> invert))))
      else map_sum id (\<lambda>i. with_index template (as_i32 (int i))) (decode_index N json labels))"

fun decode :: "'n json_num \<Rightarrow> 'n json \<Rightarrow> bus_value \<Rightarrow> conversion \<Rightarrow> bool \<Rightarrow> bool btree \<Rightarrow> 'n decode_error + bus_value" where
  "decode N json (Float x) conv invert truth =
     (case json_f64 N json of
        None \<Rightarrow> Inl (Expected_number json)
      | Some si \<Rightarrow> Inr (Float (f64_as_f32 (conv_unapply conv si))))"
| "decode N json (Boolean b) conv invert truth =
     (case as_bool N json of None \<Rightarrow> Inl (Expected_bool json) | Some c \<Rightarrow> Inr (Boolean (c \<noteq> invert)))"
| "decode N json (List index options) conv invert truth =
     decode_enum N json (List index options) options invert truth"
| "decode N json (Eventable index labels) conv invert truth =
     decode_enum N json (Eventable index labels) labels invert truth"
| "decode N json (Text sid txt) conv invert truth =
     (case json of JString s \<Rightarrow> Inr (Text sid s) | _ \<Rightarrow> Inl (Expected_string json))"
| "decode N json (Time t) conv invert truth = Inl Not_writable_kind"
| "decode N json (Date d) conv invert truth = Inl Not_writable_kind"
| "decode N json (DeviceRef index devs) conv invert truth = Inl Not_writable_kind"
| "decode N json Invalid conv invert truth = Inl Not_writable_kind"

end
