(* ===== verification/Putback.thy ===== *)
theory Putback
  imports SignalK
begin

text \<open> A PUT of what was published: \<open>decode\<close> undoes \<open>encode\<close> under the plan
  of a mapping entry, up to what both mean. Over \<open>crates/masterbus-tools/src/signalk.rs\<close> and
  \<open>units.rs\<close>. \<close>

section \<open>The numbers of the plan\<close>

definition back_ok :: "conversion \<Rightarrow> bool" where
  "back_ok c \<longleftrightarrow> scale_ok (cv_scale c) \<and> cv_offset c = f64_zero"

lemma back_ok_identity [simp]: "back_ok conv_IDENTITY"
  by (simp add: back_ok_def conv_IDENTITY_def scale_ok_one)

lemma plan_conv_back_ok:
  assumes "plan path unit options entry = Inr p" and "normalize unit \<noteq> degree_C"
  shows "back_ok (pl_conv p)"
proof -
  have "plan_units (normalize unit) leaf (to_si unit) = Inr (c, u, w) \<Longrightarrow> back_ok c" for leaf c u w
    using to_si_scale_ok [of unit] to_si_offset [of unit] assms(2)
    by (auto simp: plan_units_def back_ok_def conv_IDENTITY_def scale_ok_one split: option.splits if_splits)
  with assms(1) show ?thesis
    by (auto simp: plan_def Let_def split: sum.splits if_splits)
qed

text \<open>What serde promises of its numbers: a finite double is a number and reads back as
  itself.\<close>

definition num_laws :: "'n json_num \<Rightarrow> bool" where
  "num_laws N \<longleftrightarrow> (\<forall>x. f64_is_finite x \<longrightarrow> (\<exists>n. num_from_f64 N x = Some n \<and> num_as_f64 N n = Some x))"

lemma float_put_back:
  assumes "num_laws N" and "back_ok c" and "f32_is_finite x"
  shows "\<exists>w. decode N (json_of_f64 N (conv_apply c (f32_as_f64 x))) (Float x) c i t = Inr (Float w) \<and>
    f32_is_finite w \<and> conv_apply c (f32_as_f64 w) = conv_apply c (f32_as_f64 x)"
proof -
  have c: "scale_ok (cv_scale c)" "cv_offset c = f64_zero" using assms(2) by (simp_all add: back_ok_def)
  have zero_fin: "f32_is_finite (f32_make s 0)" and zero_mag: "f32_mag (f32_make s 0) = 0" for s
    by (simp_all add: f32_is_finite_def f32_exp_make f32_frac_make f32_mag_def)
  have fin: "f64_is_finite (conv_apply c (f32_as_f64 x))"
  proof (cases "f32_mag x = 0")
    case True
    then show ?thesis using zero_converts(1) [OF c assms(3)] by simp
  next
    case False
    then show ?thesis using nonzero_back [OF c assms(3)] by simp
  qed
  obtain n where n: "num_from_f64 N (conv_apply c (f32_as_f64 x)) = Some n"
    "num_as_f64 N n = Some (conv_apply c (f32_as_f64 x))"
    using assms(1) fin unfolding num_laws_def by blast
  define w where "w = f64_as_f32 (conv_unapply c (conv_apply c (f32_as_f64 x)))"
  have "decode N (json_of_f64 N (conv_apply c (f32_as_f64 x))) (Float x) c i t = Inr (Float w)"
    by (simp add: json_of_f64_def n w_def)
  moreover have "f32_is_finite w \<and> conv_apply c (f32_as_f64 w) = conv_apply c (f32_as_f64 x)"
  proof (cases "f32_mag x = 0")
    case True
    then have "w = f32_make (f64_sign (cv_scale c)) 0" using zero_converts(2) [OF c assms(3)] by (simp add: w_def)
    then show ?thesis
      using zero_converts(1) [OF c assms(3) True] zero_converts(1) [OF c zero_fin zero_mag] zero_fin by simp
  next
    case False
    then show ?thesis using nonzero_back [OF c assms(3)] assms(3) by (simp add: w_def)
  qed
  ultimately show ?thesis by blast
qed

section \<open>Labels\<close>

text \<open>Trimming and lowering the ASCII letters commute: no white space contains a letter.\<close>

definition letterless :: "string \<Rightarrow> bool" where
  "letterless p \<longleftrightarrow> list_all (\<lambda>c. \<not> (65 \<le> (of_char c :: nat) \<and> (of_char c :: nat) < 91) \<and>
     \<not> (97 \<le> (of_char c :: nat) \<and> (of_char c :: nat) < 123)) p"

definition lower_char :: "char \<Rightarrow> char" where
  "lower_char c = (let n = of_char c :: nat in if 65 \<le> n \<and> n < 91 then char_of (n + 32) else c)"

lemma to_ascii_lowercase_map: "to_ascii_lowercase = map lower_char"
  by (simp add: to_ascii_lowercase_def lower_char_def fun_eq_iff)

lemma lower_char_idem [simp]: "lower_char (lower_char c) = lower_char c"
  by (auto simp: lower_char_def Let_def)

lemma lower_idem [simp]: "to_ascii_lowercase (to_ascii_lowercase s) = to_ascii_lowercase s"
  by (simp add: to_ascii_lowercase_map)

lemma lower_char_eq: "letterless [p] \<Longrightarrow> p = lower_char c \<longleftrightarrow> p = c"
  by (auto simp: lower_char_def letterless_def Let_def)

lemma strip_prefix_lower:
  "letterless p \<Longrightarrow> strip_prefix p (map lower_char s) = map_option (map lower_char) (strip_prefix p s)"
  by (induction p s rule: strip_prefix.induct) (auto simp: letterless_def lower_char_eq [unfolded letterless_def])

lemma find_prefix_lower:
  "list_all letterless ps \<Longrightarrow> find_prefix ps (map lower_char s) = map_option (map lower_char) (find_prefix ps s)"
  by (induction ps) (auto simp: strip_prefix_lower split: option.splits)

lemma trim_start_lower:
  "list_all letterless ps \<Longrightarrow> trim_start_of ps (map lower_char s) = map lower_char (trim_start_of ps s)"
proof (induction ps s rule: trim_start_of.induct)
  case (1 ps s)
  then show ?case
    by (subst (1 2) trim_start_of.simps) (auto simp: find_prefix_lower split: option.splits)
qed

lemma letterless_spaces: "list_all letterless white_space" "list_all letterless (map rev white_space)"
  by (simp_all add: white_space_def bytes_str_def letterless_def upt_rec)

lemma trim_lower: "rust_trim (to_ascii_lowercase s) = to_ascii_lowercase (rust_trim s)"
  by (simp add: rust_trim_def trim_end_of_def to_ascii_lowercase_map trim_start_lower letterless_spaces rev_map)

lemma position_of_exists: "x \<in> set xs \<Longrightarrow> P x \<Longrightarrow> \<exists>i. position_of P xs = Some i"
  by (induction xs) auto

lemma find_label_Some:
  "find_label l t = Some v \<Longrightarrow> \<exists>k. (k, v) \<in> set t \<and> eq_ignore_ascii_case k l"
  by (auto simp: find_label_def dest!: find_Some_sat)

text \<open>A table that says one thing of each label, whatever the case of its keys.\<close>

definition truth_consistent :: "bool btree \<Rightarrow> bool" where
  "truth_consistent t \<longleftrightarrow> list_all (\<lambda>(k, v). list_all (\<lambda>(l, w). eq_ignore_ascii_case k l \<longrightarrow> v = w) t) t"

lemma truth_consistentD:
  "truth_consistent t \<Longrightarrow> (k, v) \<in> set t \<Longrightarrow> (l, w) \<in> set t \<Longrightarrow> eq_ignore_ascii_case k l \<Longrightarrow> v = w"
  unfolding truth_consistent_def list_all_iff by fastforce

lemma find_label_consistent:
  assumes "truth_consistent t" and "(k, v) \<in> set t" and "eq_ignore_ascii_case k l"
  shows "find_label l t = Some v"
proof -
  have "find (\<lambda>(k, v). eq_ignore_ascii_case k l) t \<noteq> None" using assms(2,3) by (auto simp: find_None_iff)
  then obtain w where w: "find_label l t = Some w" by (auto simp: find_label_def)
  then obtain k' where k': "(k', w) \<in> set t" "eq_ignore_ascii_case k' l" using find_label_Some [OF w] by blast
  have "eq_ignore_ascii_case k' k" using k'(2) assms(3) unfolding eq_ignore_ascii_case_def by (rule trans [OF _ sym])
  then have "w = v" by (rule truth_consistentD [OF assms(1) k'(1) assms(2)])
  with w show ?thesis by simp
qed

section \<open>Enums\<close>

text \<open>An enum value with its index and labels.\<close>

definition enum_value :: "bus_value \<Rightarrow> int \<Rightarrow> string list \<Rightarrow> bool" where
  "enum_value v index os \<longleftrightarrow> v = List index os \<or> v = Eventable index os"

lemma enum_codec:
  "enum_value v index os \<Longrightarrow> encode N v c i t = encode_enum v index os i t"
  "enum_value v index os \<Longrightarrow> decode N j v c i t = decode_enum N j v os i t"
  "enum_value v index os \<Longrightarrow> enum_value (with_index v n) n os"
  "enum_value v index os \<Longrightarrow> value_label v = get_opt os (as_usize index)"
  by (auto simp: enum_value_def)

lemma label_at:
  assumes "enum_value v index os" and "n < length os" and "length os < 2 ^ 31"
  shows "value_label (with_index v (as_i32 (int n))) = Some (os ! n)"
proof -
  have "int n < 2 ^ 31" using assms(2,3) by simp
  then have "as_i32 (int n) = int n" and "as_usize (int n) = n" by (simp_all add: as_usize_def)
  with enum_codec(4) [OF enum_codec(3) [OF assms(1)], of "int n"] assms(2) show ?thesis by simp
qed

lemma enum_put_back:
  assumes v: "enum_value v index os" and small: "length os < 2 ^ 31" and tidy: "list_all (\<lambda>l. rust_trim l = l) os"
    and t: "truth_consistent t" and j: "encode N v c i t = Some j"
  shows "\<exists>w. decode N j v c i t = Inr w \<and> encode N w c i t = Some j"
proof (cases "unlabeled os")
  case True
  then have j': "j = JBool ((index \<noteq> 0) \<noteq> i)" and range: "0 \<le> index" "index < int (length os)"
    using j by (auto simp: enum_codec(1) [OF v] encode_enum_def split: if_splits)
  let ?w = "with_index v (if index \<noteq> 0 then 1 else 0)"
  have "decode N j v c i t = Inr ?w"
    using True by (cases i) (simp_all add: enum_codec(2) [OF v] decode_enum_def j')
  moreover have "encode N ?w c i t = Some j"
    using True range by (auto simp: enum_codec(1) [OF enum_codec(3) [OF v]] encode_enum_def j')
  ultimately show ?thesis by blast
next
  case labels: False
  have w: "encode N (with_index v (as_i32 (int n))) c i t =
      (if t \<noteq> [] then map_option (\<lambda>b. JBool (b \<noteq> i)) (find_label (os ! n) t) else Some (JString (to_ascii_lowercase (os ! n))))"
    if "n < length os" for n
    using label_at [OF v that small] labels by (simp add: enum_codec(1) [OF enum_codec(3) [OF v]] encode_enum_def)
  obtain label where label: "value_label v = Some label" and lj: "j = (if t \<noteq> [] then JBool (the (find_label label t) \<noteq> i) else JString (to_ascii_lowercase label))"
    and found: "t \<noteq> [] \<Longrightarrow> find_label label t \<noteq> None"
    using j labels by (auto simp: enum_codec(1) [OF v] encode_enum_def bind_eq_Some_conv split: if_splits)
  have mem: "label \<in> set os" using label by (auto simp: enum_codec(4) [OF v] get_opt_def split: if_splits)
  show ?thesis
  proof (cases "t = []")
    case True
    let ?P = "\<lambda>l. eq_ignore_ascii_case l (rust_trim (to_ascii_lowercase label))"
    have P: "?P l \<longleftrightarrow> to_ascii_lowercase l = to_ascii_lowercase label" for l
      using tidy mem by (simp add: trim_lower eq_ignore_ascii_case_def list_all_iff)
    obtain n where n: "position_of ?P os = Some n" using position_of_exists [OF mem, of ?P] P by blast
    have "to_ascii_lowercase (os ! n) = to_ascii_lowercase label" "n < length os"
      using position_of_Some [OF n] P by blast+
    with w have "encode N (with_index v (as_i32 (int n))) c i t = Some j" by (simp add: lj True)
    moreover have "decode N j v c i t = Inr (with_index v (as_i32 (int n)))"
      using n labels by (simp add: enum_codec(2) [OF v] decode_enum_def decode_index_def lj True)
    ultimately show ?thesis by blast
  next
    case False
    obtain b where b: "find_label label t = Some b" using found [OF False] by blast
    obtain k where k: "(k, b) \<in> set t" "eq_ignore_ascii_case k label" using find_label_Some [OF b] by blast
    let ?P = "\<lambda>l. list_ex (\<lambda>(k, v). eq_ignore_ascii_case k l \<and> v = b) t"
    have "?P label" using k by (auto simp: list_ex_iff)
    then obtain n where n: "position_of ?P os = Some n" using position_of_exists [OF mem, of ?P] by blast
    then have nl: "n < length os" and "?P (os ! n)" using position_of_Some by blast+
    then obtain k' where "(k', b) \<in> set t" "eq_ignore_ascii_case k' (os ! n)" by (auto simp: list_ex_iff)
    then have "find_label (os ! n) t = Some b" by (rule find_label_consistent [OF t])
    then have "encode N (with_index v (as_i32 (int n))) c i t = Some j" using w [OF nl] by (simp add: lj b False)
    moreover have "decode N j v c i t = Inr (with_index v (as_i32 (int n)))"
      using n labels False by (cases i) (simp_all add: enum_codec(2) [OF v] decode_enum_def lj b)
    ultimately show ?thesis by blast
  qed
qed

section \<open>The table of a plan\<close>

lemma truth_consistent_insert:
  assumes "truth_consistent t" and "\<And>k v. (k, v) \<in> set t \<Longrightarrow> eq_ignore_ascii_case k l \<Longrightarrow> v = b"
  shows "truth_consistent (bt_insert l b t)"
proof -
  have "v = w" if kv: "(k, v) \<in> set (bt_insert l b t)" "(m, w) \<in> set (bt_insert l b t)" "eq_ignore_ascii_case k m" for k v m w
  proof -
    have sym: "eq_ignore_ascii_case m k" using kv(3) by (simp add: eq_ignore_ascii_case_def)
    have "(k, v) = (l, b) \<or> (k, v) \<in> set t" "(m, w) = (l, b) \<or> (m, w) \<in> set t"
      using kv(1,2) set_bt_insert [of l b t] by blast+
    then show ?thesis
      using assms(2) [of k v] assms(2) [of m w] truth_consistentD [OF assms(1), of k v m w] kv(3) sym by auto
  qed
  then show ?thesis unfolding truth_consistent_def list_all_iff by fastforce
qed

lemma truth_of_label_case: "eq_ignore_ascii_case k l \<Longrightarrow> truth_of_label k = truth_of_label l"
  unfolding truth_of_label_def eq_ignore_ascii_case_def by (simp only: trim_lower [symmetric])

definition conventional :: "bool btree \<Rightarrow> bool" where
  "conventional t \<longleftrightarrow> (\<forall>(k, v) \<in> set t. truth_of_label k = Some v)"

lemma conventional_consistent: "conventional t \<Longrightarrow> truth_consistent t"
proof -
  assume t: "conventional t"
  have "v = w" if "(k, v) \<in> set t" "(l, w) \<in> set t" "eq_ignore_ascii_case k l" for k v l w
  proof -
    have "truth_of_label k = Some v" "truth_of_label l = Some w"
      using t that(1,2) unfolding conventional_def by blast+
    with truth_of_label_case [OF that(3)] show ?thesis by simp
  qed
  then show ?thesis unfolding truth_consistent_def list_all_iff by fastforce
qed

lemma truth_table_conventional: "truth_table ls t = Some u \<Longrightarrow> conventional t \<Longrightarrow> conventional u"
proof (induction ls t rule: truth_table.induct)
  case (2 l ls t)
  then obtain b where b: "truth_of_label l = Some b" "truth_table ls (bt_insert l b t) = Some u"
    by (auto split: option.splits)
  have "conventional (bt_insert l b t)"
    using "2.prems"(2) b(1) set_bt_insert [of l b t] unfolding conventional_def by fastforce
  with "2.IH" b show ?case by blast
qed simp

lemma complete_truth_consistent: "complete_truth ls t = Some u \<Longrightarrow> truth_consistent t \<Longrightarrow> truth_consistent u"
proof (induction ls t rule: complete_truth.induct)
  case (2 l ls t)
  show ?case
  proof (cases "list_ex (\<lambda>(k, v). eq_ignore_ascii_case k l) t")
    case True
    with 2 show ?thesis by simp
  next
    case False
    then obtain b where b: "truth_of_label l = Some b" "complete_truth ls (bt_insert l b t) = Some u"
      using "2.prems"(1) by (auto split: option.splits)
    have "truth_consistent (bt_insert l b t)"
      using False by (intro truth_consistent_insert [OF "2.prems"(2)]) (auto simp: list_ex_iff)
    with "2.IH"(2) [OF False b(1) b(2)] show ?thesis by blast
  qed
qed simp

lemma plan_truth_consistent:
  assumes "plan path unit options entry = Inr p" and "truth_consistent (fm_truth entry)"
  shows "truth_consistent (pl_truth p)"
proof -
  have "truth_consistent t" if "plan_truth b options (fm_truth entry) = Inr t" for b t
    using that assms(2) complete_truth_consistent [of options "fm_truth entry" t]
      truth_table_conventional [of options "[]" t] conventional_consistent [of t]
    by (auto simp: plan_truth_def truth_default_def conventional_def split: if_splits option.splits)
  with assms(1) show ?thesis by (auto simp: plan_def Let_def split: sum.splits if_splits)
qed

section \<open>The round trip\<close>

definition sendable :: "bus_value \<Rightarrow> bool" where
  "sendable v \<longleftrightarrow> (case v of Time t \<Rightarrow> False | _ \<Rightarrow> True)"

definition tidy_labels :: "bus_value \<Rightarrow> bool" where
  "tidy_labels v \<longleftrightarrow>
     (case labels_of v of None \<Rightarrow> True | Some os \<Rightarrow> length os < 2 ^ 31 \<and> list_all (\<lambda>l. rust_trim l = l) os)"

lemma encode_decode:
  assumes "num_laws N" and "back_ok c" and "truth_consistent t" and "encode N v c i t = Some j"
    and "sendable v" and "tidy_labels v"
  shows "\<exists>w. decode N j v c i t = Inr w \<and> encode N w c i t = Some j"
proof (cases v)
  case (Float x)
  then have fin: "f32_is_finite x" and j: "j = json_of_f64 N (conv_apply c (f32_as_f64 x))"
    using assms(4) by (auto split: if_splits)
  obtain w where "decode N j v c i t = Inr (Float w)" "f32_is_finite w" "conv_apply c (f32_as_f64 w) = conv_apply c (f32_as_f64 x)"
    using float_put_back [OF assms(1,2) fin, where i = i and t = t] unfolding Float j by blast
  then show ?thesis by (intro exI [of _ "Float w"]) (simp add: j)
next
  case (Boolean b)
  with assms(4) show ?thesis by (intro exI [of _ "Boolean b"]) auto
next
  case (List index os)
  then have "enum_value v index os" by (simp add: enum_value_def)
  from enum_put_back [OF this _ _ assms(3,4)] assms(6) show ?thesis by (simp add: tidy_labels_def List)
next
  case (Eventable index os)
  then have "enum_value v index os" by (simp add: enum_value_def)
  from enum_put_back [OF this _ _ assms(3,4)] assms(6) show ?thesis by (simp add: tidy_labels_def Eventable)
next
  case (Text sid s)
  with assms(4) show ?thesis by (intro exI [of _ "Text sid s"]) (auto split: if_splits)
qed (use assms(4,5) in \<open>auto simp: sendable_def\<close>)

text \<open>C8. A number, switch, list choice or text that is published comes back by a PUT as what
  publishes the same: under the plan of its entry, the JSON a delta carries decodes, with the published value
  as the template, to a device value that encodes to the very same JSON, so the PUT is accepted and changes
  nothing that is published. This is claimed for every unit but degrees Celsius, whose offset rounds; with or
  without inversion; for a truth table that says one thing of each label; and for labels without outer blanks.
  A time is published too but is outside it: a PUT refuses it. \<open>num_laws\<close> is what serde promises
  of JSON numbers.\<close>

theorem put_of_published_value:
  assumes "plan path unit options entry = Inr p" and "normalize unit \<noteq> degree_C"
    and "truth_consistent (fm_truth entry)" and "num_laws N" and "sendable v" and "tidy_labels v"
    and "encode N v (pl_conv p) (pl_invert p) (pl_truth p) = Some j"
  shows "\<exists>w. decode N j v (pl_conv p) (pl_invert p) (pl_truth p) = Inr w \<and>
     encode N w (pl_conv p) (pl_invert p) (pl_truth p) = Some j"
  by (rule encode_decode [OF assms(4) plan_conv_back_ok [OF assms(1,2)] plan_truth_consistent [OF assms(1,3)] assms(7,5,6)])

text \<open>A charger's \<open>Standby\<close> and \<open>On\<close> on its \<open>enabled\<close> leaf, and
  serde's numbers as the doubles themselves.\<close>

definition f64_numbers :: "f64 json_num" where
  "f64_numbers = \<lparr>num_from_f64 = (\<lambda>x. if f64_is_finite x then Some x else None), num_as_f64 = Some,
     num_as_u64 = (\<lambda>x. None), num_of_int = f64_of_int\<rparr>"

definition standby_plan :: sk_plan where
  "standby_plan = \<lparr>pl_conv = conv_IDENTITY, pl_unit = None, pl_truth = [(''On'', True), (''Standby'', False)],
     pl_invert = False, pl_notify = [], pl_warning = None\<rparr>"

lemma visible_trim: "visible (hd s) \<Longrightarrow> visible (last s) \<Longrightarrow> rust_trim s = s"
  by (simp add: rust_trim_visible)

lemma lowered: "to_ascii_lowercase ''Standby'' = ''standby''" "to_ascii_lowercase ''On'' = ''on''"
  by code_simp+

lemma standby_plan_ok:
  "plan ''electrical.chargers.main.enabled'' [] [''Standby'', ''On''] default_field = Inr standby_plan"
proof -
  have t: "rust_trim ''electrical.chargers.main.enabled'' = ''electrical.chargers.main.enabled''"
      "rust_trim ''Standby'' = ''Standby''" "rust_trim ''On'' = ''On''" "rust_trim [] = []"
    by (simp_all add: visible_trim rust_trim_visible visible_def)
  have w: "\<not> has_whitespace ''electrical.chargers.main.enabled''" by code_simp
  have c: "check_path ''electrical.chargers.main.enabled'' = Inr ()"
    by (simp add: check_path_def t w Let_def split_dot_def dot_def segment_char_def is_ascii_alnum_def needed_segments_def)
  have l: "leaf_is_boolean ''electrical.chargers.main.enabled''" "leaf_unit ''electrical.chargers.main.enabled'' = None"
    by (simp_all add: leaf_is_boolean_def leaf_unit_def leaf_of_def split_dot_def dot_def)
  have n: "normalize [] = []" "to_si [] = None" by (simp_all add: normalize_def to_si_def t)
  have tr: "truth_default [''Standby'', ''On''] = Some [(''On'', True), (''Standby'', False)]"
    by (simp add: truth_default_def truth_of_label_def t lowered)
  show ?thesis
    by (simp add: plan_def c l n tr plan_truth_def unlabeled_def t default_field_def plan_units_def standby_plan_def)
qed

lemma put_of_published_value_witness:
  "\<exists>w. decode f64_numbers (JBool True) (List 1 [''Standby'', ''On'']) (pl_conv standby_plan) (pl_invert standby_plan) (pl_truth standby_plan) = Inr w \<and>
     encode f64_numbers w (pl_conv standby_plan) (pl_invert standby_plan) (pl_truth standby_plan) = Some (JBool True)"
proof (rule put_of_published_value [OF standby_plan_ok])
  show "normalize [] \<noteq> degree_C" by (simp add: normalize_def rust_trim_visible degree_C_def bytes_str_def)
  show "truth_consistent (fm_truth default_field)" by (simp add: truth_consistent_def default_field_def)
  show "num_laws f64_numbers" by (simp add: num_laws_def f64_numbers_def)
  show "sendable (List 1 [''Standby'', ''On''])" by (simp add: sendable_def)
  show "tidy_labels (List 1 [''Standby'', ''On''])" by (simp add: tidy_labels_def visible_trim visible_def)
  show "encode f64_numbers (List 1 [''Standby'', ''On'']) (pl_conv standby_plan) (pl_invert standby_plan) (pl_truth standby_plan) = Some (JBool True)"
    by (simp add: standby_plan_def encode_enum_def unlabeled_def visible_trim visible_def as_usize_def find_label_def
        eq_ignore_ascii_case_def lowered)
qed

end
