(* ===== verification/Suggest.thy ===== *)
theory Suggest
  imports FieldMap
begin

text \<open>
  Suggested paths: \<open>crates/masterbus-tools/src/seed.rs\<close> (class words, instances, the name table,
  built paths) and \<open>database.rs\<close> (the bundled catalog by article and field id). The parsed catalog is
  an argument; so is \<open>lower\<close>, the Unicode lower-casing of the standard library, which on ASCII is
  \<open>to_ascii_lowercase\<close>.
\<close>

section \<open>Words and segments\<close>

definition class_of :: "string \<Rightarrow> string" where
  "class_of name = (case split_whitespace name of [] \<Rightarrow> [] | w # ws \<Rightarrow> w)"

definition to_ascii_uppercase :: "string \<Rightarrow> string" where
  "to_ascii_uppercase =
     map (\<lambda>c. let n = of_char c :: nat in if 97 \<le> n \<and> n < 123 then char_of (n - 32) else c)"

definition is_ascii_lower :: "char \<Rightarrow> bool" where
  "is_ascii_lower c \<longleftrightarrow> 97 \<le> (of_char c :: nat) \<and> (of_char c :: nat) < 123"

fun push_word :: "string \<Rightarrow> string \<Rightarrow> string" where
  "push_word word out =
     (let w = (if list_ex is_ascii_lower word then word else to_ascii_lowercase word)
      in out @ (if out = [] then to_ascii_lowercase (take 1 w) else to_ascii_uppercase (take 1 w)) @ drop 1 w)"

definition segment :: "string \<Rightarrow> string option" where
  "segment s =
     (let words = filter (\<lambda>w. w \<noteq> []) (split_on (\<lambda>c. \<not> is_ascii_alnum c) s);
          out = fold push_word words []
      in if out = [] then None else Some out)"

definition instance_of :: "string \<Rightarrow> u32 \<Rightarrow> string" where
  "instance_of name addr =
     (case segment (join_with '' '' (drop 1 (split_whitespace name))) of
        Some s \<Rightarrow> s
      | None \<Rightarrow> (case segment name of Some s \<Rightarrow> s | None \<Rightarrow> lower_hex 6 (unat addr)))"

section \<open>The catalog (database.rs)\<close>

record suggestion =
  sg_path :: string
  sg_invert :: bool

record catalog_entry =
  ce_path :: string
  ce_invert :: bool

record catalog_model =
  cm_model :: string
  cm_source :: string
  cm_fields :: "(string \<times> catalog_entry) list"
  cm_firmware :: "(string \<times> (string \<times> catalog_entry) list) list"

type_synonym model_catalog = "(string \<times> catalog_model) list"

record model_index =
  mi_model :: string
  mi_source :: string
  mi_any :: "field_id \<rightharpoonup> catalog_entry"
  mi_by_firmware :: "string \<rightharpoonup> field_id \<rightharpoonup> catalog_entry"

definition convert_fields :: "(string \<times> catalog_entry) list \<Rightarrow> field_id \<rightharpoonup> catalog_entry" where
  "convert_fields m = map_of (List.map_filter (\<lambda>(k, v). map_option (\<lambda>fid. (fid, v)) (parse_field_key k)) m)"

definition catalog_index :: "model_catalog \<Rightarrow> string \<rightharpoonup> model_index" where
  "catalog_index c =
     map_of (map (\<lambda>(article, m). (article,
       \<lparr>mi_model = cm_model m, mi_source = cm_source m, mi_any = convert_fields (cm_fields m),
        mi_by_firmware = map_of (map (\<lambda>(fw, f). (fw, convert_fields f)) (cm_firmware m))\<rparr>)) c)"

record known =
  kn_suggestion :: suggestion
  kn_model :: string
  kn_source :: string
  kn_exact_firmware :: bool

text \<open>\<open>str::replace\<close> of a non-empty pattern.\<close>

function str_replace :: "string \<Rightarrow> string \<Rightarrow> string \<Rightarrow> string" where
  "str_replace pat rep [] = []"
| "str_replace pat rep (c # cs) =
     (case strip_prefix pat (c # cs) of
        Some r \<Rightarrow> if length r < length (c # cs) then rep @ str_replace pat rep r else c # str_replace pat rep cs
      | None \<Rightarrow> c # str_replace pat rep cs)"
  by pat_completeness auto
termination
  by (relation "measure (\<lambda>(pat, rep, s). length s)") auto

definition database_lookup :: "model_catalog \<Rightarrow> string \<Rightarrow> string \<Rightarrow> field_id \<Rightarrow> string \<Rightarrow> known option" where
  "database_lookup cat article firmware field inst =
     (case catalog_index cat (rust_trim article) of
        None \<Rightarrow> None
      | Some m \<Rightarrow>
          map_option (\<lambda>(e, exact).
              \<lparr>kn_suggestion = \<lparr>sg_path = str_replace ''{instance}'' inst (ce_path e), sg_invert = ce_invert e\<rparr>,
               kn_model = mi_model m, kn_source = mi_source m, kn_exact_firmware = exact\<rparr>)
            (case Option.bind (mi_by_firmware m (rust_trim firmware)) (\<lambda>f. f field) of
               Some e \<Rightarrow> Some (e, True)
             | None \<Rightarrow> map_option (\<lambda>e. (e, False)) (mi_any m field)))"

definition knows_article :: "model_catalog \<Rightarrow> string \<Rightarrow> bool" where
  "knows_article cat article \<longleftrightarrow> catalog_index cat (rust_trim article) \<noteq> None"

definition articles :: "model_catalog \<Rightarrow> string list" where
  "articles cat = sort (remdups (map fst cat))"

section \<open>The name table\<close>

datatype tier = ModelFirmware | TierModel | TierName | TierBuilt

record field_ctx =
  fx_id :: field_id
  fx_name :: string
  fx_unit :: string
  fx_group :: string

text \<open>A rule: the names it takes, the units, the path and whether the sense is inverted; the first
  that matches gives the suggestion.\<close>

type_synonym name_rule = "string list \<times> string list option \<times> string \<times> bool"

definition apply_rules :: "string \<Rightarrow> string \<Rightarrow> name_rule list \<Rightarrow> suggestion option" where
  "apply_rules name unit rules =
     find_map (\<lambda>(names, units, path, inv).
         if name \<in> set names \<and> (case units of None \<Rightarrow> True | Some us \<Rightarrow> unit \<in> set us)
         then Some \<lparr>sg_path = path, sg_invert = inv\<rparr> else None) rules"

definition rules_battery :: "string \<Rightarrow> name_rule list" where
  "rules_battery b =
     [([''state of charge''], None, b @ ''.capacity.stateOfCharge'', False),
      ([''time remaining'', ''remaining''], None, b @ ''.capacity.timeRemaining'', False),
      ([''cap. consumed''], None, b @ ''.capacity.dischargeSinceFull'', False),
      ([''battery'', ''voltage''], Some [''V''], b @ ''.voltage'', False),
      ([''battery'', ''current''], Some [''A''], b @ ''.current'', False),
      ([''battery'', ''temperature''], Some [degree_C], b @ ''.temperature'', False)]"

definition rules_combi :: "string \<Rightarrow> string \<Rightarrow> name_rule list" where
  "rules_combi ivt chg =
     [([''battery voltage''], Some [''V''], ivt @ ''.dc.voltage'', False),
      ([''battery current''], Some [''A''], ivt @ ''.dc.current'', False),
      ([''battery temp.''], Some [degree_C], ivt @ ''.dc.temperature'', False),
      ([''output voltage''], Some [''V''], ivt @ ''.ac.voltage'', False),
      ([''output power''], Some [''W''], ivt @ ''.ac.power'', False),
      ([''output frequency''], Some [''Hz''], ivt @ ''.ac.frequency'', False),
      ([''input voltage''], Some [''V''], chg @ ''.acin.voltage'', False),
      ([''input current''], Some [''A''], chg @ ''.acin.current'', False),
      ([''input frequency''], Some [''Hz''], chg @ ''.acin.frequency'', False),
      ([''ac in limit''], Some [''A''], chg @ ''.acin.currentLimit'', False),
      ([''inverter''], None, ivt @ ''.enabled'', False),
      ([''charger''], None, chg @ ''.enabled'', False)]"

definition rules_mac :: "string \<Rightarrow> name_rule list" where
  "rules_mac chg =
     [([''output voltage''], Some [''V'', []], chg @ ''.voltage'', False),
      ([''output current''], Some [''A'', []], chg @ ''.current'', False),
      ([''input voltage''], Some [''V'', []], chg @ ''.input.voltage'', False),
      ([''input current''], Some [''A'', []], chg @ ''.input.current'', False),
      ([''bat. volt sense''], Some [''V'', []], chg @ ''.voltageSense'', False),
      ([''device''], Some [degree_C], chg @ ''.temperature'', False),
      ([''battery''], Some [degree_C], chg @ ''.battery.temperature'', False),
      ([''device state''], None, chg @ ''.deviceMode'', False),
      ([''charge state''], None, chg @ ''.chargingMode'', False),
      ([''standby''], None, chg @ ''.enabled'', True),
      ([''on/standby''], None, chg @ ''.enabled'', False)]"

definition rules_alternator :: "string \<Rightarrow> name_rule list" where
  "rules_alternator alt =
     [([''alternator volt.''], Some [''V''], alt @ ''.voltage'', False),
      ([''sense voltage''], Some [''V''], alt @ ''.voltageSense'', False),
      ([''field current''], Some [''A''], alt @ ''.field.current'', False),
      ([''alternator temp.''], Some [degree_C], alt @ ''.temperature'', False),
      ([''alternator shaft''], Some [''rpm'', ''RPM''], alt @ ''.revolutions'', False),
      ([''engine shaft''], Some [''rpm'', ''RPM''], alt @ ''.engine.revolutions'', False),
      ([''charger state''], None, alt @ ''.chargingMode'', False),
      ([''state of charge''], Some [''%''], alt @ ''.battery.stateOfCharge'', False),
      ([''battery voltage''], Some [''V''], alt @ ''.battery.voltage'', False),
      ([''battery current''], Some [''A''], alt @ ''.battery.current'', False),
      ([''battery temp.''], Some [degree_C], alt @ ''.battery.temperature'', False)]"

definition iso_leaf :: "string \<Rightarrow> string option" where
  "iso_leaf ut =
     map_of [(''V'', ''lineNeutralVoltage''), (''A'', ''current''), (''W'', ''realPower''), (''kW'', ''realPower''),
             (''Hz'', ''frequency'')] ut"

definition plain_path :: "string \<Rightarrow> suggestion" where
  "plain_path p = \<lparr>sg_path = p, sg_invert = False\<rparr>"

definition suggest :: "(string \<Rightarrow> string) \<Rightarrow> string \<Rightarrow> string \<Rightarrow> field_ctx \<Rightarrow> suggestion option" where
  "suggest lower cls inst f =
     (let unit = fx_unit f; ut = rust_trim unit; name = lower (rust_trim (fx_name f))
      in if cls = ''BAT'' \<or> cls = ''MSH'' then apply_rules name unit (rules_battery (''electrical.batteries.'' @ inst))
         else if cls = ''CMR''
           then apply_rules name unit (rules_combi (''electrical.inverters.'' @ inst) (''electrical.chargers.'' @ inst))
         else if cls = ''MAC'' then apply_rules name ut (rules_mac (''electrical.chargers.'' @ inst))
         else if cls = ''APR'' then apply_rules name unit (rules_alternator (''electrical.alternators.'' @ inst))
         else if cls = ''INT''
           then (if name = ''state'' then Some (plain_path (''electrical.switches.'' @ inst @ ''.state'')) else None)
         else if cls = ''DSD'' \<and> eq_ignore_ascii_case (fx_group f) ''Channels'' \<and> ut = []
           then map_option (\<lambda>ch. plain_path (''electrical.switches.'' @ inst @ ''.'' @ ch @ ''.state'')) (segment (fx_name f))
         else if cls = ''ISO'' \<and> name = ''output''
           then map_option (\<lambda>leaf. plain_path (''electrical.ac.'' @ inst @ ''.phase.single.'' @ leaf)) (iso_leaf ut)
         else None)"

definition suggest_best ::
  "(string \<Rightarrow> string) \<Rightarrow> model_catalog \<Rightarrow> string \<Rightarrow> string \<Rightarrow> string \<Rightarrow> string \<Rightarrow> field_ctx \<Rightarrow> (suggestion \<times> tier) option" where
  "suggest_best lower cat article firmware cls inst f =
     (case database_lookup cat article firmware (fx_id f) inst of
        Some k \<Rightarrow> Some (kn_suggestion k, if kn_exact_firmware k then ModelFirmware else TierModel)
      | None \<Rightarrow> map_option (\<lambda>s. (s, TierName)) (suggest lower cls inst f))"

section \<open>Built paths\<close>

definition category_of :: "string \<Rightarrow> string" where
  "category_of cls =
     (if cls \<in> set [''BAT'', ''MSH''] then ''batteries''
      else if cls \<in> set [''CHG'', ''MAC''] then ''chargers''
      else if cls \<in> set [''INV'', ''CMR'', ''MCU''] then ''inverters''
      else if cls = ''APR'' then ''alternators''
      else if cls = ''SOL'' then ''solar''
      else if cls = ''ISO'' then ''ac''
      else if cls \<in> set [''INT'', ''DSD''] then ''switches''
      else if cls = [] then ''devices''
      else (case segment cls of Some s \<Rightarrow> s | None \<Rightarrow> ''devices''))"

definition unit_leaf :: "string \<Rightarrow> string option" where
  "unit_leaf unit =
     map_of [(''V'', ''voltage''), (''A'', ''current''), (degree_C, ''temperature''),
             (bytes_str [0xC2, 0xB0] @ ''F'', ''temperature''), (''K'', ''temperature''),
             (''W'', ''power''), (''kW'', ''power''), (''Hz'', ''frequency''),
             (''rpm'', ''revolutions''), (''RPM'', ''revolutions'')] (rust_trim unit)"

definition build :: "string \<Rightarrow> field_ctx \<Rightarrow> suggestion option" where
  "build node f =
     (let path = (case segment (fx_group f) of Some g \<Rightarrow> node @ ''.'' @ g | None \<Rightarrow> node);
          name = segment (fx_name f);
          full = (case (unit_leaf (fx_unit f), name) of
              (Some leaf, Some n) \<Rightarrow> Some (path @ ''.'' @ n @ ''.'' @ leaf)
            | (Some leaf, None) \<Rightarrow> Some (path @ ''.'' @ leaf)
            | (None, Some n) \<Rightarrow> Some (path @ ''.'' @ n)
            | (None, None) \<Rightarrow> None)
      in case full of
           None \<Rightarrow> None
         | Some p \<Rightarrow> if conversion_to (fx_unit f) (leaf_unit p) = None then None else Some (plain_path p))"

definition suggest_or_build ::
  "(string \<Rightarrow> string) \<Rightarrow> model_catalog \<Rightarrow> string \<Rightarrow> string \<Rightarrow> string \<Rightarrow> string \<Rightarrow> string option \<Rightarrow> field_ctx \<Rightarrow>
     (suggestion \<times> tier) option" where
  "suggest_or_build lower cat article firmware cls inst node f =
     (case suggest_best lower cat article firmware cls inst f of
        Some s \<Rightarrow> Some s
      | None \<Rightarrow>
          (let base = (case node of Some n \<Rightarrow> n | None \<Rightarrow> ''electrical.'' @ category_of cls @ ''.'' @ inst)
           in map_option (\<lambda>s. (s, TierBuilt)) (build base f)))"

text \<open>A proposed path another field of the device has gets the field's id on the segment before the
  leaf.\<close>

definition unique_path :: "string \<Rightarrow> field_id \<Rightarrow> (field_id \<times> string) list \<Rightarrow> string" where
  "unique_path path field taken =
     (if \<not> list_ex (\<lambda>(fid, p). fid \<noteq> field \<and> p = path) taken then path
      else (let tag = to_ascii_lowercase (field_key field)
            in case rsplit_dot path of
                 Some (head, leaf) \<Rightarrow> head @ tag @ ''.'' @ leaf
               | None \<Rightarrow> path @ tag))"

section \<open>Facts\<close>

text \<open>Segments are letters and digits.\<close>

definition alnum :: "string \<Rightarrow> bool" where
  "alnum s \<longleftrightarrow> s \<noteq> [] \<and> list_all is_ascii_alnum s"

lemma alnum_lower: "list_all is_ascii_alnum s \<Longrightarrow> list_all is_ascii_alnum (to_ascii_lowercase s)"
  by (auto simp: list_all_iff to_ascii_lowercase_def is_ascii_alnum_def Let_def)

lemma alnum_upper: "list_all is_ascii_alnum s \<Longrightarrow> list_all is_ascii_alnum (to_ascii_uppercase s)"
  by (auto simp: list_all_iff to_ascii_uppercase_def is_ascii_alnum_def Let_def)

lemma split_words_alnum: "list_all (list_all P) (split_on (\<lambda>c. \<not> P c) s)"
  by (induction s) (auto split: list.splits)

lemma list_all_take_drop: "list_all P s \<Longrightarrow> list_all P (take n s) \<and> list_all P (drop n s)"
  by (auto simp: list_all_iff dest: in_set_takeD in_set_dropD)

lemma push_word_alnum:
  assumes "list_all is_ascii_alnum word" and "list_all is_ascii_alnum out"
  shows "list_all is_ascii_alnum (push_word word out)"
proof -
  define w where "w = (if list_ex is_ascii_lower word then word else to_ascii_lowercase word)"
  have "list_all is_ascii_alnum w" using assms(1) alnum_lower by (simp add: w_def)
  then have "list_all is_ascii_alnum (take 1 w)" "list_all is_ascii_alnum (drop 1 w)"
    using list_all_take_drop by blast+
  with assms(2) show ?thesis
    unfolding push_word.simps Let_def w_def [symmetric] by (simp add: alnum_lower alnum_upper)
qed

lemma segment_alnum: "segment s = Some t \<Longrightarrow> alnum t"
proof -
  have "list_all is_ascii_alnum (fold push_word ws out)"
    if "list_all (list_all is_ascii_alnum) ws" "list_all is_ascii_alnum out" for ws out
    using that by (induction ws arbitrary: out) (simp_all add: push_word_alnum del: push_word.simps)
  moreover have "list_all (list_all is_ascii_alnum) (filter (\<lambda>w. w \<noteq> []) (split_on (\<lambda>c. \<not> is_ascii_alnum c) s))"
    using split_words_alnum [of is_ascii_alnum s] by (auto simp: list_all_iff)
  moreover assume "segment s = Some t"
  ultimately show ?thesis by (auto simp: segment_def alnum_def Let_def split: if_splits)
qed

lemma lower_digit_alnum: "lower_digit c \<Longrightarrow> is_ascii_alnum c"
  by (auto simp: lower_digit_def is_ascii_alnum_def)

lemma instance_of_alnum: "alnum (instance_of name addr)"
proof -
  have "lower_hex 6 n \<noteq> []" for n using hex_text_fmt(2) [of 6 n] by (simp add: lower_hex_def to_ascii_lowercase_def)
  moreover have "list_all is_ascii_alnum (lower_hex 6 n)" for n
    using lower_hex_digits [of 6 n] lower_digit_alnum by (auto simp: list_all_iff)
  ultimately show ?thesis
    using segment_alnum by (auto simp: instance_of_def alnum_def split: option.split)
qed

text \<open>A path whose segments are non-empty words of letters, digits, hyphens and underscores, and that
  is deep enough for its branch, passes the check.\<close>

definition publishable :: "string \<Rightarrow> bool" where
  "publishable p \<longleftrightarrow> list_all (\<lambda>s. s \<noteq> [] \<and> list_all segment_char s) (split_dot p) \<and>
     needed_segments (hd (split_dot p)) \<le> length (split_dot p)"

lemma segment_char_visible: "segment_char c \<Longrightarrow> visible c"
  by (auto simp: segment_char_def is_ascii_alnum_def visible_def Let_def)

lemma chars_of_split: "list_all (\<lambda>s. list_all P s) (split_dot p) \<Longrightarrow> c \<in> set p \<Longrightarrow> P c \<or> c = dot"
proof (induction p)
  case (Cons a p)
  then show ?case
    by (auto simp: split_dot_def split: if_splits list.splits)
qed simp

lemma utf8_visible: "list_all visible p \<Longrightarrow> utf8_chars p = map (\<lambda>c. [c]) p"
proof (induction p)
  case (Cons c p)
  have "\<not> is_cont d" if "visible d" for d
  proof -
    have "(of_char d :: nat) div 64 < 2" using that by (simp add: visible_def less_mult_imp_div_less)
    then show ?thesis by (simp add: is_cont_def)
  qed
  with Cons show ?case by (cases p) auto
qed simp

lemma visible_no_whitespace: "list_all visible p \<Longrightarrow> \<not> has_whitespace p"
proof -
  assume v: "list_all visible p"
  have "[c] \<notin> set white_space" if "visible c" for c
    using white_space_heads(1) [OF that] by (force simp: list_all_iff)
  with v show ?thesis by (auto simp: has_whitespace_def utf8_visible list_ex_iff list_all_iff)
qed

lemma publishable_check: "publishable p \<Longrightarrow> check_path p = Inr ()"
proof -
  assume p: "publishable p"
  have seg: "list_all (\<lambda>s. list_all segment_char s) (split_dot p)"
    using p by (simp add: publishable_def list_all_iff)
  have "visible c" if "c \<in> set p" for c
    using chars_of_split [OF seg that] segment_char_visible [of c] by (auto simp: visible_def dot_def)
  then have vis: "list_all visible p" by (simp add: list_all_iff)
  have ne: "p \<noteq> []" using p by (auto simp: publishable_def split_dot_def)
  then have "rust_trim p = p" using vis by (intro rust_trim_visible) (simp add: list_all_iff)
  moreover have "\<not> list_ex (\<lambda>s. s = []) (split_dot p)" "find (\<lambda>s. \<not> list_all segment_char s) (split_dot p) = None"
    using p by (auto simp: publishable_def list_all_iff list_ex_iff find_None_iff)
  ultimately show ?thesis
    using p ne visible_no_whitespace [OF vis] by (simp add: check_path_def publishable_def Let_def)
qed

lemma alnum_segment: "alnum s \<Longrightarrow> s \<noteq> [] \<and> list_all segment_char s \<and> list_all (\<lambda>c. \<not> c = dot) s"
  by (auto simp: alnum_def segment_char_def list_all_iff is_ascii_alnum_def dot_def)

text \<open>Splitting a path that is spelled out around an instance, in one pass.\<close>

fun split_acc :: "string \<Rightarrow> string \<Rightarrow> string list" where
  "split_acc acc [] = [rev acc]"
| "split_acc acc (c # cs) = (if c = CHR ''.'' then rev acc # split_acc [] cs else split_acc (c # acc) cs)"

lemma split_acc: "split_acc acc s = (rev acc @ hd (split_dot s)) # tl (split_dot s)"
  by (induction acc s rule: split_acc.induct) (auto simp: split_dot_def dot_def split: list.splits)

lemma split_dot_acc: "split_dot s = split_acc [] s"
  by (simp add: split_acc)

lemma split_acc_word: "alnum s \<Longrightarrow> split_acc [] (s @ CHR ''.'' # t) = s # split_acc [] t"
  using split_on_append_sep [of "\<lambda>c. c = dot" s dot t] alnum_segment [of s]
  by (simp add: split_dot_def dot_def flip: split_dot_acc)

lemma publishable_spelled:
  "alnum inst \<Longrightarrow> list_all (\<lambda>r. publishable (fst (snd (snd r)))) (rules_battery (''electrical.batteries.'' @ inst))"
  "alnum inst \<Longrightarrow> list_all (\<lambda>r. publishable (fst (snd (snd r)))) (rules_combi (''electrical.inverters.'' @ inst) (''electrical.chargers.'' @ inst))"
  "alnum inst \<Longrightarrow> list_all (\<lambda>r. publishable (fst (snd (snd r)))) (rules_mac (''electrical.chargers.'' @ inst))"
  "alnum inst \<Longrightarrow> list_all (\<lambda>r. publishable (fst (snd (snd r)))) (rules_alternator (''electrical.alternators.'' @ inst))"
  by (simp_all add: rules_battery_def rules_combi_def rules_mac_def rules_alternator_def publishable_def split_dot_acc split_acc_word
      alnum_segment segment_char_def is_ascii_alnum_def needed_segments_def)

lemma apply_rules_path:
  assumes "apply_rules name unit rules = Some s" and "list_all (\<lambda>r. P (fst (snd (snd r)))) rules"
  shows "P (sg_path s)"
proof -
  obtain r where "r \<in> set rules" "sg_path s = fst (snd (snd r))"
    using assms(1) by (auto simp: apply_rules_def dest!: find_map_Some split: if_splits)
  with assms(2) show ?thesis by (simp add: list_all_iff)
qed

lemma publishable_switch:
  assumes "alnum inst"
  shows "publishable (''electrical.switches.'' @ inst @ ''.state'')"
    and "alnum ch \<Longrightarrow> publishable (''electrical.switches.'' @ inst @ ''.'' @ ch @ ''.state'')"
    and "iso_leaf ut = Some leaf \<Longrightarrow> publishable (''electrical.ac.'' @ inst @ ''.phase.single.'' @ leaf)"
  using assms by (auto simp: publishable_def split_dot_acc split_acc_word alnum_segment segment_char_def is_ascii_alnum_def
      needed_segments_def iso_leaf_def split: if_splits)

lemma suggest_publishable:
  assumes "suggest lower cls inst f = Some s" and "alnum inst"
  shows "publishable (sg_path s)"
  using assms(1) publishable_spelled [OF assms(2)] publishable_switch [OF assms(2)] segment_alnum [of "fx_name f"]
  by (auto simp: suggest_def Let_def plain_path_def elim!: apply_rules_path split: if_splits)

end
