(* ===== verification/Publish.thy ===== *)
theory Publish
  imports Suggest SignalK Api "HOL-Library.AList"
begin

text \<open> What a mapping resolves to against the devices:
  \<open>crates/masterbus-tools/src/publish.rs\<close>. Device records are built from the client's calls and
  grow menu by menu; \<open>resolve\<close> says what to subscribe to and what cannot be honoured. Messages
  are constructors, one per \<open>format!\<close>. \<close>

definition MENU :: menu where "MENU = Monitoring"

section \<open>Device records\<close>

record field_rec =
  fr_id :: field_id
  fr_name :: string
  fr_unit :: string
  fr_options :: "string list"
  fr_writable :: bool
  fr_menu :: menu
  fr_group :: string

record device_rec =
  dr_id :: u32
  dr_serial :: string
  dr_article :: string
  dr_name :: string
  dr_firmware :: string
  dr_instance :: string
  dr_fields :: "field_rec list"
  dr_menus :: "menu list"

definition dr_field :: "device_rec \<Rightarrow> field_id \<Rightarrow> field_rec option" where
  "dr_field d fid = find (\<lambda>f. fr_id f = fid) (dr_fields d)"

definition field_ids :: "device_rec \<Rightarrow> field_id list" where
  "field_ids d = map fr_id (dr_fields d)"

definition dr_identity :: "device_rec \<Rightarrow> device_identity" where
  "dr_identity d =
     \<lparr>di_article = dr_article d, di_serial = dr_serial d, di_revision = [], di_name = dr_name d,
      di_firmware = dr_firmware d\<rparr>"

definition field_record :: "menu \<Rightarrow> string \<Rightarrow> field_info \<Rightarrow> field_rec" where
  "field_record m grp f =
     \<lparr>fr_id = fi_index f, fr_name = fi_name f, fr_unit = fi_unit f, fr_options = fi_options f,
      fr_writable = fi_writeable f, fr_menu = m, fr_group = grp\<rparr>"

text \<open>The loops of \<open>merge_groups\<close>: a field id already present is left alone.\<close>

definition merge_field :: "menu \<Rightarrow> string \<Rightarrow> field_info \<Rightarrow> field_rec list \<Rightarrow> field_rec list" where
  "merge_field m grp f fs = (if list_ex (\<lambda>g. fr_id g = fi_index f) fs then fs else fs @ [field_record m grp f])"

definition merge_group :: "menu \<Rightarrow> group_info \<Rightarrow> field_rec list \<Rightarrow> field_rec list" where
  "merge_group m g = fold (merge_field m (gi_name g)) (gi_fields g)"

definition merge_groups :: "menu \<Rightarrow> group_info list \<Rightarrow> device_rec \<Rightarrow> device_rec" where
  "merge_groups m gs d =
     d\<lparr>dr_menus := (if m \<in> set (dr_menus d) then dr_menus d else dr_menus d @ [m]),
       dr_fields := fold (merge_group m) gs (dr_fields d)\<rparr>"

definition empty_identity :: device_identity where
  "empty_identity = \<lparr>di_article = [], di_serial = [], di_revision = [], di_name = [], di_firmware = []\<rparr>"

definition device_record :: "u32 \<Rightarrow> device_identity \<Rightarrow> device_rec" where
  "device_record addr i =
     \<lparr>dr_id = addr, dr_serial = di_serial i, dr_article = di_article i, dr_name = di_name i,
      dr_firmware = di_firmware i, dr_instance = instance_of (di_name i) addr, dr_fields = [], dr_menus = []\<rparr>"

definition discover_device :: "u32 \<Rightarrow> device_rec call" where
  "discover_device addr s =
     do {
       (ir, s1) \<leftarrow> engine_identity addr s;
       (gr, s2) \<leftarrow> tab_info addr MENU s1;
       let i = (case ir of Inr i \<Rightarrow> i | Inl e \<Rightarrow> empty_identity);
       let gs = (case gr of Inr gs \<Rightarrow> gs | Inl e \<Rightarrow> []);
       Some (merge_groups MENU gs (device_record addr i), s2)
     }"

definition menu_by_name :: "string \<Rightarrow> menu option" where
  "menu_by_name name = find (\<lambda>m. menu_tag m = name) menu_ALL"

section \<open>Resolving a mapping\<close>

record emit =
  em_path :: string
  em_plan :: sk_plan
  em_device :: string
  em_put :: bool

datatype severity = Sev_Error | Sev_Warning | Sev_Info

datatype diag_message =
    Not_on_bus
  | Firmware_changed string string
  | Not_a_field_id
  | No_such_field
  | Skipped refusal
  | Unit_not_convertible string
  | Put_read_only

record diagnostic =
  dg_severity :: severity
  dg_serial :: string
  dg_device :: string
  dg_field :: "string option"
  dg_path :: "string option"
  dg_message :: diag_message

record resolved =
  rv_emit :: "((u32 \<times> field_id) \<times> emit) list"
  rv_diagnostics :: "diagnostic list"

definition emitted :: "resolved \<Rightarrow> (u32 \<times> field_id) \<rightharpoonup> emit" where
  "emitted r = map_of (rv_emit r)"

definition count_severity :: "severity \<Rightarrow> resolved \<Rightarrow> nat" where
  "count_severity sv r = length (filter (\<lambda>d. dg_severity d = sv) (rv_diagnostics r))"

definition field_diag :: "string \<Rightarrow> device_rec \<Rightarrow> string \<Rightarrow> field_mapping \<Rightarrow> severity \<Rightarrow> diag_message \<Rightarrow> diagnostic" where
  "field_diag serial dev key fm sv msg =
     \<lparr>dg_severity = sv, dg_serial = serial, dg_device = dr_name dev, dg_field = Some key,
      dg_path = Some (fm_path fm), dg_message = msg\<rparr>"

definition push_diags :: "diagnostic list \<Rightarrow> resolved \<Rightarrow> resolved" where
  "push_diags ds r = r\<lparr>rv_diagnostics := rv_diagnostics r @ ds\<rparr>"

text \<open>One entry of a device on the bus: what keeps it from publishing, or its plan.\<close>

definition entry_plan :: "device_rec \<Rightarrow> string \<Rightarrow> field_mapping \<Rightarrow> diag_message + field_id \<times> field_rec \<times> sk_plan" where
  "entry_plan dev key fm =
     (case parse_field_key key of
        None \<Rightarrow> Inl Not_a_field_id
      | Some fid \<Rightarrow>
          (case dr_field dev fid of
             None \<Rightarrow> Inl No_such_field
           | Some f \<Rightarrow>
               (case plan (fm_path fm) (fr_unit f) (fr_options f) fm of
                  Inl e \<Rightarrow> Inl (Skipped e)
                | Inr p \<Rightarrow> Inr (fid, f, p))))"

fun resolve_field :: "string \<Rightarrow> device_rec \<Rightarrow> string \<times> field_mapping \<Rightarrow> resolved \<Rightarrow> resolved" where
  "resolve_field serial dev (key, fm) r =
     (case entry_plan dev key fm of
        Inl msg \<Rightarrow> push_diags [field_diag serial dev key fm Sev_Error msg] r
      | Inr (fid, f, p) \<Rightarrow>
          (let r1 = (case pl_warning p of
                 Some w \<Rightarrow> push_diags [field_diag serial dev key fm Sev_Warning (Unit_not_convertible w)] r
               | None \<Rightarrow> r);
               r2 = (if fm_put fm \<and> \<not> fr_writable f
                     then push_diags [field_diag serial dev key fm Sev_Warning Put_read_only] r1 else r1)
           in r2\<lparr>rv_emit := AList.update (dr_id dev, fid)
                  \<lparr>em_path = fm_path fm, em_plan = p, em_device = dr_name dev, em_put = fm_put fm\<rparr> (rv_emit r2)\<rparr>))"

fun resolve_device :: "(string \<rightharpoonup> device_rec) \<Rightarrow> string \<times> device_mapping \<Rightarrow> resolved \<Rightarrow> resolved" where
  "resolve_device by_serial (serial, dm) r =
     (case by_serial serial of
        None \<Rightarrow>
          push_diags [\<lparr>dg_severity = Sev_Info, dg_serial = serial, dg_device = dm_name dm, dg_field = None,
                       dg_path = None, dg_message = Not_on_bus\<rparr>] r
      | Some dev \<Rightarrow>
          fold (resolve_field serial dev) (dm_fields dm)
            (if dm_firmware dm \<noteq> [] \<and> dm_firmware dm \<noteq> dr_firmware dev
             then push_diags [\<lparr>dg_severity = Sev_Warning, dg_serial = serial, dg_device = dr_name dev, dg_field = None,
                    dg_path = None, dg_message = Firmware_changed (dr_firmware dev) (dm_firmware dm)\<rparr>] r
             else r))"

definition devices_by_serial :: "device_rec list \<Rightarrow> string \<rightharpoonup> device_rec" where
  "devices_by_serial devices = map_of (rev (map (\<lambda>d. (dr_serial d, d)) (filter (\<lambda>d. dr_serial d \<noteq> []) devices)))"

definition resolve :: "device_rec list \<Rightarrow> mapping \<Rightarrow> resolved" where
  "resolve devices m =
     fold (resolve_device (devices_by_serial devices)) (mp_devices m)
       \<lparr>rv_emit = [], rv_diagnostics = []\<rparr>"

definition unknown_fields :: "device_rec \<Rightarrow> mapping \<Rightarrow> field_id list" where
  "unknown_fields dev m =
     (case bt_get (mp_devices m) (dr_serial dev) of
        None \<Rightarrow> []
      | Some dm \<Rightarrow> filter (\<lambda>fid. dr_field dev fid = None) (List.map_filter (\<lambda>(k, fm). parse_field_key k) (dm_fields dm)))"

section \<open>Seeding\<close>

text \<open>The loop over a device's fields: the paths taken so far and the entries.\<close>

definition field_context :: "field_rec \<Rightarrow> field_ctx" where
  "field_context f = \<lparr>fx_id = fr_id f, fx_name = fr_name f, fx_unit = fr_unit f, fx_group = fr_group f\<rparr>"

definition seed_field ::
  "(field_rec \<Rightarrow> (suggestion \<times> tier) option) \<Rightarrow> field_rec \<Rightarrow> (string \<rightharpoonup> field_id) \<times> field_mapping btree \<Rightarrow>
     (string \<rightharpoonup> field_id) \<times> field_mapping btree" where
  "seed_field best f st =
     (case st of (taken, fms) \<Rightarrow>
        (case best f of
           None \<Rightarrow> (taken, fms)
         | Some (s, t) \<Rightarrow>
             if taken (sg_path s) \<noteq> None then (taken, fms)
             else (taken(sg_path s \<mapsto> fr_id f),
                   bt_insert (field_key (fr_id f)) (default_field\<lparr>fm_path := sg_path s, fm_invert := sg_invert s\<rparr>) fms)))"

definition seed_fields :: "(string \<Rightarrow> string) \<Rightarrow> model_catalog \<Rightarrow> device_rec \<Rightarrow> field_mapping btree" where
  "seed_fields lower cat d =
     snd (fold (seed_field (\<lambda>f. suggest_best lower cat (dr_article d) (dr_firmware d) (class_of (dr_name d))
                                  (dr_instance d) (field_context f)))
            (sort_key fr_id (filter (\<lambda>f. fr_menu f = MENU) (dr_fields d))) (\<lambda>p. None, []))"

definition seed_device :: "(string \<Rightarrow> string) \<Rightarrow> model_catalog \<Rightarrow> device_rec \<Rightarrow> mapping \<Rightarrow> mapping" where
  "seed_device lower cat d m =
     (if dr_serial d = [] then m
      else (let fms = seed_fields lower cat d
            in if fms = [] then m
               else m\<lparr>mp_devices := bt_insert (dr_serial d)
                        \<lparr>dm_article = dr_article d, dm_firmware = dr_firmware d, dm_name = dr_name d,
                         dm_instance = dr_instance d, dm_fields = fms\<rparr> (mp_devices m)\<rparr>))"

definition seed_mapping :: "(string \<Rightarrow> string) \<Rightarrow> model_catalog \<Rightarrow> device_rec list \<Rightarrow> mapping" where
  "seed_mapping lower cat devices = fold (seed_device lower cat) devices mapping_new"

section \<open>Where new fields go\<close>

text \<open>The node most paths under the recorded instance use; the first wins a tie.\<close>

definition better_node :: "string list \<Rightarrow> string \<Rightarrow> string option \<Rightarrow> string option" where
  "better_node nodes n best =
     (case best of
        None \<Rightarrow> Some n
      | Some b \<Rightarrow> if count_list nodes b < count_list nodes n then Some n else Some b)"

definition mapped_node :: "device_mapping option \<Rightarrow> string option" where
  "mapped_node dm =
     (case dm of
        None \<Rightarrow> None
      | Some d \<Rightarrow>
          (let nodes = List.map_filter (\<lambda>(k, fm). node_of (fm_path fm)) (dm_fields d)
           in case fold (better_node nodes) (filter (\<lambda>n. last (split_dot n) = dm_instance d) nodes) None of
                Some b \<Rightarrow> Some b
              | None \<Rightarrow> (case nodes of [] \<Rightarrow> None | n # ns \<Rightarrow> Some n)))"

definition path_prefix :: "device_mapping option \<Rightarrow> string" where
  "path_prefix dm = (case mapped_node dm of Some n \<Rightarrow> n @ ''.'' | None \<Rightarrow> ''electrical.'')"

section \<open>Device records as maps\<close>

text \<open>What a list of groups says of a field id: the first field with it.\<close>

definition listed_fields :: "menu \<Rightarrow> group_info list \<Rightarrow> field_id \<rightharpoonup> field_rec" where
  "listed_fields m gs fid = find_map (\<lambda>g. map_option (field_record m (gi_name g)) (group_field g fid)) gs"

definition by_id :: "field_rec list \<Rightarrow> field_id \<rightharpoonup> field_rec" where
  "by_id fs fid = find (\<lambda>f. fr_id f = fid) fs"

lemma find_append: "find P (xs @ ys) = (case find P xs of Some x \<Rightarrow> Some x | None \<Rightarrow> find P ys)"
  by (induction xs) auto

lemma fr_id_record [simp]: "fr_id (field_record m grp f) = fi_index f"
  by (simp add: field_record_def)

lemma merge_field_by_id:
  "by_id (merge_field m grp f fs) fid =
     (case by_id fs fid of Some x \<Rightarrow> Some x | None \<Rightarrow> if fi_index f = fid then Some (field_record m grp f) else None)"
proof (cases "by_id fs fid")
  case None
  then have "fr_id x \<noteq> fid" if "x \<in> set fs" for x using that by (simp add: by_id_def find_None_iff)
  with None show ?thesis by (auto simp: merge_field_def by_id_def find_append list_ex_iff split: option.splits)
next
  case (Some x)
  then show ?thesis by (auto simp: merge_field_def by_id_def find_append)
qed

lemma merge_group_by_id:
  "by_id (merge_group m g fs) fid =
     (case by_id fs fid of Some x \<Rightarrow> Some x | None \<Rightarrow> map_option (field_record m (gi_name g)) (group_field g fid))"
proof -
  have "by_id (fold (merge_field m grp) fls fs) fid =
      (case by_id fs fid of Some x \<Rightarrow> Some x | None \<Rightarrow> map_option (field_record m grp) (find (\<lambda>f. fi_index f = fid) fls))" for grp fls
    by (induction fls arbitrary: fs) (auto simp: merge_field_by_id split: option.splits)
  then show ?thesis by (simp add: merge_group_def group_field_def split: option.split)
qed

lemma merge_groups_by_id:
  "by_id (fold (merge_group m) gs fs) fid = (case by_id fs fid of Some x \<Rightarrow> Some x | None \<Rightarrow> listed_fields m gs fid)"
  by (induction gs arbitrary: fs) (auto simp: merge_group_by_id listed_fields_def split: option.splits)

lemma merge_distinct: "distinct (map fr_id (fold (merge_group m) gs fs)) = distinct (map fr_id fs)"
proof -
  have one: "distinct (map fr_id (merge_field m grp f fs)) = distinct (map fr_id fs)" for grp f fs
    by (auto simp: merge_field_def list_ex_iff)
  have "distinct (map fr_id (fold (merge_field m n) fls fs)) = distinct (map fr_id fs)" for n fls fs
    by (induction fls arbitrary: fs) (simp_all add: one)
  then have "distinct (map fr_id (merge_group m g fs)) = distinct (map fr_id fs)" for g fs
    by (simp add: merge_group_def)
  then show ?thesis by (induction gs arbitrary: fs) simp_all
qed

text \<open>C12. A device record refines a map from field ids to fields: merging a menu's groups is adding
  what they list underneath what is known, so that the first menu to report an id owns it, whatever order
  menus and groups come in; the menu is recorded, and an id appears twice only if one did before.\<close>

theorem merge_groups_refines_map:
  "dr_field (merge_groups m gs d) = listed_fields m gs ++ dr_field d \<and>
   set (dr_menus (merge_groups m gs d)) = insert m (set (dr_menus d)) \<and>
   distinct (field_ids (merge_groups m gs d)) = distinct (field_ids d)"
proof -
  have "dr_field (merge_groups m gs d) fid = (listed_fields m gs ++ dr_field d) fid" for fid
    using merge_groups_by_id [of m gs "dr_fields d" fid]
    by (simp add: dr_field_def merge_groups_def by_id_def map_add_def split: option.splits)
  then show ?thesis
    using merge_distinct [of m gs "dr_fields d"] by (auto simp: merge_groups_def field_ids_def fun_eq_iff)
qed

section \<open>What resolving accounts for\<close>

lemma rv_push [simp]: "emitted (push_diags ds r) = emitted r" "rv_diagnostics (push_diags ds r) = rv_diagnostics r @ ds"
  by (simp_all add: push_diags_def emitted_def)

lemma emitted_update [simp]:
  "emitted (r\<lparr>rv_emit := AList.update k e (rv_emit r)\<rparr>) = (emitted r)(k \<mapsto> e)"
  by (simp add: emitted_def update_conv')

text \<open>All entries in the order \<open>resolve\<close> comes to them, and what one of them
  publishes.\<close>

definition device_entries :: "string \<times> device_mapping \<Rightarrow> (string \<times> string \<times> field_mapping) list" where
  "device_entries e = map (Pair (fst e)) (dm_fields (snd e))"

definition mapping_entries :: "mapping \<Rightarrow> (string \<times> string \<times> field_mapping) list" where
  "mapping_entries m = concat (map device_entries (mp_devices m))"

definition entry_emit :: "device_rec \<Rightarrow> field_mapping \<Rightarrow> sk_plan \<Rightarrow> emit" where
  "entry_emit dev fm p = \<lparr>em_path = fm_path fm, em_plan = p, em_device = dr_name dev, em_put = fm_put fm\<rparr>"

definition entry_published ::
  "(string \<rightharpoonup> device_rec) \<Rightarrow> string \<times> string \<times> field_mapping \<Rightarrow> ((u32 \<times> field_id) \<times> emit) option" where
  "entry_published bs e =
     (case bs (fst e) of
        None \<Rightarrow> None
      | Some dev \<Rightarrow>
          (case entry_plan dev (fst (snd e)) (snd (snd e)) of
             Inl msg \<Rightarrow> None
           | Inr (fid, f, p) \<Rightarrow> Some ((dr_id dev, fid), entry_emit dev (snd (snd e)) p)))"

text \<open>Of the entries that publish a field, the last one counts.\<close>

definition last_published ::
  "(string \<rightharpoonup> device_rec) \<Rightarrow> (string \<times> string \<times> field_mapping) list \<Rightarrow> (u32 \<times> field_id) \<rightharpoonup> emit" where
  "last_published bs es = map_of (rev (List.map_filter (entry_published bs) es))"

lemma last_published_simps:
  "last_published bs [] = Map.empty"
  "last_published bs (es @ es') = last_published bs es ++ last_published bs es'"
  by (simp_all add: last_published_def List.map_filter_def map_of_append [symmetric] del: map_of_append)

lemma emitted_field:
  assumes "bs serial = Some dev"
  shows "emitted (resolve_field serial dev e r) = emitted r ++ last_published bs [(serial, e)]"
  using assms
  by (cases e) (auto simp: last_published_def List.map_filter_def entry_published_def entry_emit_def Let_def
      split: sum.splits option.splits)

lemma emitted_fields:
  assumes "bs serial = Some dev"
  shows "emitted (fold (resolve_field serial dev) fs r) = emitted r ++ last_published bs (map (Pair serial) fs)"
proof (induction fs arbitrary: r)
  case (Cons e fs)
  then show ?case
    using last_published_simps(2) [of bs "[(serial, e)]" "map (Pair serial) fs"] by (simp add: emitted_field [where bs = bs, OF assms] map_add_assoc)
qed (simp add: last_published_simps)

lemma emitted_device: "emitted (resolve_device bs e r) = emitted r ++ last_published bs (device_entries e)"
proof (cases e)
  case (Pair serial dm)
  show ?thesis
  proof (cases "bs serial")
    case None
    then have "List.map_filter (entry_published bs) (map (Pair serial) fs) = []" for fs
      by (induction fs) (simp_all add: List.map_filter_def entry_published_def)
    with None show ?thesis by (simp add: Pair last_published_def device_entries_def)
  next
    case (Some dev)
    then show ?thesis by (simp add: Pair emitted_fields [where bs = bs, OF Some] device_entries_def)
  qed
qed

lemma emitted_devices:
  "emitted (fold (resolve_device bs) ds r) = emitted r ++ last_published bs (concat (map device_entries ds))"
  by (induction ds arbitrary: r) (simp_all add: emitted_device last_published_simps map_add_assoc)

lemma emitted_resolve:
  "emitted (resolve devices m) = last_published (devices_by_serial devices) (mapping_entries m)"
  by (simp add: resolve_def emitted_devices mapping_entries_def) (simp add: emitted_def)

lemma planned_entry_emitted:
  assumes "(serial, dm) \<in> set (mp_devices m)" and "(key, fm) \<in> set (dm_fields dm)"
    and "devices_by_serial devices serial = Some dev" and "entry_plan dev key fm = Inr (fid, f, p)"
  shows "emitted (resolve devices m) (dr_id dev, fid) \<noteq> None"
proof -
  have "(serial, key, fm) \<in> set (mapping_entries m)"
    using assms(1,2) by (force simp: mapping_entries_def device_entries_def)
  moreover have "entry_published (devices_by_serial devices) (serial, key, fm) = Some ((dr_id dev, fid), entry_emit dev fm p)"
    using assms(3,4) by (simp add: entry_published_def)
  ultimately have "((dr_id dev, fid), entry_emit dev fm p) \<in>
      set (rev (List.map_filter (entry_published (devices_by_serial devices)) (mapping_entries m)))"
    by (force simp: List.map_filter_def)
  from weak_map_of_SomeI [OF this] show ?thesis by (auto simp: emitted_resolve last_published_def)
qed

text \<open>Diagnostics are only added.\<close>

definition says_more :: "resolved \<Rightarrow> resolved \<Rightarrow> bool" where
  "says_more r r' \<longleftrightarrow> set (rv_diagnostics r) \<subseteq> set (rv_diagnostics r')"

lemma says_more_fold: "(\<And>x r. says_more r (f x r)) \<Longrightarrow> says_more r (fold f xs r)"
  by (induction xs arbitrary: r) (simp_all add: says_more_def, blast)

lemma says_more_field: "says_more r (resolve_field serial dev e r)"
  by (cases e) (auto simp: says_more_def Let_def split: sum.splits option.splits)

lemma says_more_device: "says_more r (resolve_device bs e r)"
proof (cases e)
  case (Pair serial dm)
  have "says_more r (fold (resolve_field serial dev) fs (if c then push_diags ds r else r))" for dev fs c ds
    using says_more_fold [of "resolve_field serial dev" "if c then push_diags ds r else r" fs] says_more_field
    by (auto simp: says_more_def split: if_splits)
  then show ?thesis unfolding Pair by (auto simp: says_more_def split: option.split)
qed

text \<open>What is said of an entry that does not publish.\<close>

definition entry_reported :: "(string \<rightharpoonup> device_rec) \<Rightarrow> string \<times> string \<times> field_mapping \<Rightarrow> resolved \<Rightarrow> bool" where
  "entry_reported bs e r \<longleftrightarrow>
     (case bs (fst e) of
        None \<Rightarrow> list_ex (\<lambda>d. dg_serial d = fst e \<and> dg_message d = Not_on_bus) (rv_diagnostics r)
      | Some dev \<Rightarrow>
          (case entry_plan dev (fst (snd e)) (snd (snd e)) of
             Inl msg \<Rightarrow> field_diag (fst e) dev (fst (snd e)) (snd (snd e)) Sev_Error msg \<in> set (rv_diagnostics r)
           | Inr x \<Rightarrow> True))"

lemma entry_reported_mono: "entry_reported bs e r \<Longrightarrow> says_more r r' \<Longrightarrow> entry_reported bs e r'"
  by (fastforce simp: entry_reported_def says_more_def list_ex_iff split: option.splits sum.splits)

lemma field_reported: "bs serial = Some dev \<Longrightarrow> entry_reported bs (serial, x) (resolve_field serial dev x r)"
  by (cases x) (auto simp: entry_reported_def Let_def split: sum.splits option.splits)

lemma fold_reported:
  assumes "x \<in> set xs" and "\<And>r. Q (f x r)" and "\<And>y r. Q r \<Longrightarrow> Q (f y r)"
  shows "Q (fold f xs r)"
proof -
  obtain ys zs where "xs = ys @ x # zs" using assms(1) by (meson split_list)
  moreover have "Q r \<Longrightarrow> Q (fold f zs r)" for r using assms(3) by (induction zs arbitrary: r) simp_all
  ultimately show ?thesis using assms(2) by simp
qed

lemma device_reported: "e \<in> set (device_entries d) \<Longrightarrow> entry_reported bs e (resolve_device bs d r)"
proof (cases d)
  case (Pair serial dm)
  assume "e \<in> set (device_entries d)"
  then obtain x where x: "x \<in> set (dm_fields dm)" "e = (serial, x)" by (auto simp: Pair device_entries_def)
  show ?thesis
  proof (cases "bs serial")
    case None
    then show ?thesis by (simp add: Pair x entry_reported_def)
  next
    case (Some dev)
    have "entry_reported bs (serial, x) (fold (resolve_field serial dev) (dm_fields dm) r)" for r
      by (rule fold_reported [where f = "resolve_field serial dev", OF x(1)])
         (use field_reported [of bs, OF Some] entry_reported_mono says_more_field in blast)+
    with Some show ?thesis by (simp add: Pair x)
  qed
qed

lemma resolve_reports: "e \<in> set (mapping_entries m) \<Longrightarrow> entry_reported (devices_by_serial devices) e (resolve devices m)"
proof -
  assume "e \<in> set (mapping_entries m)"
  then obtain d where d: "d \<in> set (mp_devices m)" "e \<in> set (device_entries d)" by (auto simp: mapping_entries_def)
  show ?thesis unfolding resolve_def
    by (rule fold_reported [where f = "resolve_device (devices_by_serial devices)", OF d(1)])
       (use device_reported [OF d(2)] entry_reported_mono says_more_device in blast)+
qed

text \<open>C11. Every entry of a mapping, in the order of devices and keys, is accounted for. If its device
  is not on the bus, that is said. If it cannot publish, it has an error diagnostic of its own with the
  reason. Otherwise its field is published, and with exactly this entry's path, plan, device name and PUT
  flag, unless an entry after it publishes the same field (its id under another spelling of the key): then the
  last such entry is published in its place.\<close>

theorem resolve_accounts_for_every_entry:
  assumes "mapping_entries m = before @ (serial, key, fm) # after"
  shows "case devices_by_serial devices serial of
      None \<Rightarrow> list_ex (\<lambda>d. dg_serial d = serial \<and> dg_message d = Not_on_bus) (rv_diagnostics (resolve devices m))
    | Some dev \<Rightarrow>
        (case entry_plan dev key fm of
           Inl msg \<Rightarrow> field_diag serial dev key fm Sev_Error msg \<in> set (rv_diagnostics (resolve devices m))
         | Inr (fid, f, p) \<Rightarrow>
             emitted (resolve devices m) (dr_id dev, fid) =
               Some (case last_published (devices_by_serial devices) after (dr_id dev, fid) of
                       Some e \<Rightarrow> e
                     | None \<Rightarrow> entry_emit dev fm p))"
proof -
  let ?bs = "devices_by_serial devices"
  have r: "entry_reported ?bs (serial, key, fm) (resolve devices m)"
    by (rule resolve_reports) (simp add: assms)
  have "emitted (resolve devices m) =
      last_published ?bs before ++ (last_published ?bs [(serial, key, fm)] ++ last_published ?bs after)"
    using last_published_simps(2) [of ?bs before "[(serial, key, fm)] @ after"]
      last_published_simps(2) [of ?bs "[(serial, key, fm)]" after]
    by (simp add: emitted_resolve assms)
  then have "emitted (resolve devices m) k = Some (case last_published ?bs after k of Some e \<Rightarrow> e | None \<Rightarrow> x)"
    if "last_published ?bs [(serial, key, fm)] k = Some x" for k x
    using that by (simp add: map_add_def split: option.split)
  moreover have "last_published ?bs [(serial, key, fm)] (dr_id dev, fid) = Some (entry_emit dev fm p)"
    if "?bs serial = Some dev" "entry_plan dev key fm = Inr (fid, f, p)" for dev fid f p
    using that by (simp add: last_published_def List.map_filter_def entry_published_def)
  ultimately show ?thesis
    using r by (auto simp: entry_reported_def split: option.splits sum.splits)
qed

text \<open>Where what is published comes from.\<close>

definition published_from :: "(string \<rightharpoonup> device_rec) \<Rightarrow> (string \<times> device_mapping) list \<Rightarrow> u32 \<Rightarrow> field_id \<Rightarrow> emit \<Rightarrow> bool" where
  "published_from bs ds a fid e \<longleftrightarrow>
     (\<exists>serial dm key fm dev f.
        (serial, dm) \<in> set ds \<and> (key, fm) \<in> set (dm_fields dm) \<and> bs serial = Some dev \<and> dr_id dev = a \<and>
        entry_plan dev key fm = Inr (fid, f, em_plan e) \<and> em_path e = fm_path fm \<and> em_put e = fm_put fm)"

lemma published_from_mono: "published_from bs ds a fid e \<Longrightarrow> set ds \<subseteq> set es \<Longrightarrow> published_from bs es a fid e"
  unfolding published_from_def by blast

lemma emit_of_field:
  assumes "emitted (resolve_field serial dev (key, fm) r) (a, fid) = Some e"
  shows "emitted r (a, fid) = Some e \<or>
    (dr_id dev = a \<and> em_path e = fm_path fm \<and> em_put e = fm_put fm \<and> (\<exists>f. entry_plan dev key fm = Inr (fid, f, em_plan e)))"
  using assms by (auto simp: Let_def split: sum.splits option.splits if_splits)

lemma emit_of_fields:
  "emitted (fold (resolve_field serial dev) fs r) (a, fid) = Some e \<Longrightarrow>
     emitted r (a, fid) = Some e \<or>
     (\<exists>key fm f. (key, fm) \<in> set fs \<and> dr_id dev = a \<and> em_path e = fm_path fm \<and> em_put e = fm_put fm \<and>
        entry_plan dev key fm = Inr (fid, f, em_plan e))"
proof (induction fs arbitrary: r)
  case (Cons x fs)
  obtain key fm where x: "x = (key, fm)" by (cases x)
  show ?case
    using Cons.IH [of "resolve_field serial dev (key, fm) r"] Cons.prems emit_of_field [of serial dev key fm r a fid e]
    unfolding x by (simp del: resolve_field.simps) blast
qed simp

lemma emit_of_device:
  assumes "emitted (resolve_device bs (serial, dm) r) (a, fid) = Some e"
  shows "emitted r (a, fid) = Some e \<or> published_from bs [(serial, dm)] a fid e"
proof (cases "bs serial")
  case None
  with assms show ?thesis by simp
next
  case (Some dev)
  then have "\<exists>ds. emitted (fold (resolve_field serial dev) (dm_fields dm) (push_diags ds r)) (a, fid) = Some e \<or>
      emitted (fold (resolve_field serial dev) (dm_fields dm) r) (a, fid) = Some e"
    using assms by (auto split: if_splits)
  then show ?thesis
    using emit_of_fields [of serial dev "dm_fields dm" _ a fid e] Some by (fastforce simp: published_from_def)
qed

lemma emit_of_devices:
  "emitted (fold (resolve_device bs) ds r) (a, fid) = Some e \<Longrightarrow>
     emitted r (a, fid) = Some e \<or> published_from bs ds a fid e"
proof (induction ds arbitrary: r)
  case (Cons x ds)
  obtain serial dm where x: "x = (serial, dm)" by (cases x)
  have "published_from bs [(serial, dm)] a fid e \<Longrightarrow> published_from bs (x # ds) a fid e"
    "published_from bs ds a fid e \<Longrightarrow> published_from bs (x # ds) a fid e"
    by (rule published_from_mono, assumption, auto simp: x)+
  moreover have "emitted (fold (resolve_device bs) ds (resolve_device bs x r)) (a, fid) = Some e" using Cons.prems by simp
  ultimately show ?case
    using Cons.IH [of "resolve_device bs x r"] emit_of_device [of bs serial dm r a fid e] unfolding x by blast
qed simp

lemma plan_unit_right:
  assumes "plan path unit options entry = Inr p"
  shows "check_path path = Inr ()"
    and "leaf_unit path = Some l \<Longrightarrow> normalize unit \<noteq> [] \<Longrightarrow>
           \<exists>s. to_si unit = Some s \<and> si_unit s = l \<and> pl_conv p = si_conv s"
  using assms by (auto simp: plan_def plan_units_def Let_def split: sum.splits option.splits if_splits)

definition si_reaches :: "string \<Rightarrow> string \<Rightarrow> conversion \<Rightarrow> bool" where
  "si_reaches unit l c \<longleftrightarrow> (case to_si unit of Some s \<Rightarrow> si_unit s = l \<and> si_conv s = c | None \<Rightarrow> False)"

text \<open>What is published is what an entry asks for, and never a wrong number: each published field
  is a field of the device with the entry's serial, under the entry's path, which is a path a value
  can go to; and on a leaf with a documented unit, a field with a unit is published only through the
  conversion from its own unit to that one.\<close>

theorem published_fields_are_mapped:
  assumes "emitted (resolve devices m) (a, fid) = Some e"
  shows "\<exists>serial dm key fm dev f.
    (serial, dm) \<in> set (mp_devices m) \<and> (key, fm) \<in> set (dm_fields dm) \<and> parse_field_key key = Some fid \<and>
    devices_by_serial devices serial = Some dev \<and> dr_id dev = a \<and> dr_field dev fid = Some f \<and>
    em_path e = fm_path fm \<and> em_put e = fm_put fm \<and> check_path (em_path e) = Inr () \<and>
    (case leaf_unit (em_path e) of None \<Rightarrow> True
     | Some l \<Rightarrow> normalize (fr_unit f) = [] \<or> si_reaches (fr_unit f) l (pl_conv (em_plan e)))"
proof -
  have "published_from (devices_by_serial devices) (mp_devices m) a fid e"
    using emit_of_devices [of _ _ _ a fid e] assms by (fastforce simp: resolve_def emitted_def)
  then obtain serial dm key fm dev f where
    e: "(serial, dm) \<in> set (mp_devices m)" "(key, fm) \<in> set (dm_fields dm)" "devices_by_serial devices serial = Some dev"
      "dr_id dev = a" "entry_plan dev key fm = Inr (fid, f, em_plan e)" "em_path e = fm_path fm" "em_put e = fm_put fm"
    by (auto simp: published_from_def)
  have p: "parse_field_key key = Some fid" "dr_field dev fid = Some f"
      "plan (fm_path fm) (fr_unit f) (fr_options f) fm = Inr (em_plan e)"
    using e(5) by (auto simp: entry_plan_def split: option.splits sum.splits)
  have "case leaf_unit (em_path e) of None \<Rightarrow> True
      | Some l \<Rightarrow> normalize (fr_unit f) = [] \<or> si_reaches (fr_unit f) l (pl_conv (em_plan e))"
    using plan_unit_right(2) [OF p(3)] by (fastforce simp: e(6) si_reaches_def split: option.split)
  with e p plan_unit_right(1) [OF p(3)] show ?thesis by fastforce
qed

text \<open>Two keys of one field: the later one decides, and nothing is said of the first.\<close>

lemma later_key_wins:
  assumes "entry_plan dev key1 fm1 = Inr (fid, f, p1)" and "entry_plan dev key2 fm2 = Inr (fid, f, p2)"
    and "pl_warning p1 = None" and "pl_warning p2 = None" and "fr_writable f"
  shows "rv_diagnostics (fold (resolve_field serial dev) [(key1, fm1), (key2, fm2)] r) = rv_diagnostics r"
    and "map_option em_path (emitted (fold (resolve_field serial dev) [(key1, fm1), (key2, fm2)] r) (dr_id dev, fid)) =
           Some (fm_path fm2)"
  using assms by (simp_all add: Let_def)

text \<open>A battery with one mapped field, to see both at work.\<close>

definition house_field :: field_mapping where
  "house_field = default_field\<lparr>fm_path := ''electrical.batteries.house.voltage''\<rparr>"

definition house_device :: device_rec where
  "house_device =
     \<lparr>dr_id = 0x123456, dr_serial = ''A1'', dr_article = ''77'', dr_name = ''BAT House'', dr_firmware = ''1.0'',
      dr_instance = ''house'',
      dr_fields = [\<lparr>fr_id = 6, fr_name = ''Voltage'', fr_unit = ''V'', fr_options = [], fr_writable = False,
                    fr_menu = Monitoring, fr_group = ''General''\<rparr>],
      dr_menus = [Monitoring]\<rparr>"

definition house_entry :: device_mapping where
  "house_entry =
     \<lparr>dm_article = ''77'', dm_firmware = ''1.0'', dm_name = ''BAT House'', dm_instance = ''house'',
      dm_fields = [(''0x006'', house_field)]\<rparr>"

definition house_mapping :: mapping where
  "house_mapping = \<lparr>mp_version = 1, mp_devices = [(''A1'', house_entry)]\<rparr>"

definition house_emit :: emit where
  "house_emit = \<lparr>em_path = ''electrical.batteries.house.voltage'',
     em_plan = \<lparr>pl_conv = conv_IDENTITY, pl_unit = Some ''V'', pl_truth = [], pl_invert = False, pl_notify = [],
        pl_warning = None\<rparr>, em_device = ''BAT House'', em_put = False\<rparr>"

lemma key_006: "parse_field_key ''0x006'' = Some 6"
proof -
  have "''0x006'' = field_key 6" by code_simp
  then show ?thesis by (simp only: parse_field_key_key)
qed

lemma volts: "normalize ''V'' = ''V''" "to_si ''V'' = Some \<lparr>si_unit = ''V'', si_conv = conv_IDENTITY\<rparr>"
  by (simp_all add: to_si_def normalize_def rust_trim_visible visible_def degree_C_def bytes_str_def si_same_def)

lemma house_path:
  "check_path ''electrical.batteries.house.voltage'' = Inr ()" "\<not> leaf_is_boolean ''electrical.batteries.house.voltage''"
  "leaf_unit ''electrical.batteries.house.voltage'' = Some ''V''"
proof -
  show "check_path ''electrical.batteries.house.voltage'' = Inr ()"
    by (rule publishable_check) (simp add: publishable_def split_dot_acc segment_char_def is_ascii_alnum_def needed_segments_def)
  show "\<not> leaf_is_boolean ''electrical.batteries.house.voltage''" "leaf_unit ''electrical.batteries.house.voltage'' = Some ''V''"
    by (simp_all add: leaf_is_boolean_def leaf_unit_def leaf_of_def split_dot_acc)
qed

lemma house_emitted: "emitted (resolve [house_device] house_mapping) (0x123456, 6) = Some house_emit"
  by (simp add: resolve_def emitted_def house_mapping_def house_entry_def devices_by_serial_def house_device_def entry_plan_def key_006 dr_field_def
        house_field_def default_field_def plan_def house_path volts plan_truth_def plan_units_def house_emit_def)

lemma house_plan: "entry_plan house_device ''0x006'' house_field = Inr (6, hd (dr_fields house_device), em_plan house_emit)"
  by (simp add: entry_plan_def key_006 house_device_def dr_field_def house_field_def default_field_def plan_def house_path volts
        plan_truth_def plan_units_def house_emit_def)

lemma resolve_accounts_for_every_entry_witness:
  "mapping_entries house_mapping = [] @ (''A1'', ''0x006'', house_field) # [] \<and>
   emitted (resolve [house_device] house_mapping) (0x123456, 6) = Some (entry_emit house_device house_field (em_plan house_emit))"
proof -
  have m: "mapping_entries house_mapping = [] @ (''A1'', ''0x006'', house_field) # []"
    by (simp add: mapping_entries_def device_entries_def house_mapping_def house_entry_def)
  have d: "devices_by_serial [house_device] ''A1'' = Some house_device" "dr_id house_device = 0x123456"
    by (simp_all add: devices_by_serial_def house_device_def)
  from resolve_accounts_for_every_entry [OF m, of "[house_device]"] m d show ?thesis
    by (simp add: house_plan last_published_def List.map_filter_def)
qed

lemma published_fields_are_mapped_witness:
  "check_path (em_path house_emit) = Inr () \<and> fm_path house_field = em_path house_emit"
  using published_fields_are_mapped [OF house_emitted] by (auto simp: house_mapping_def house_entry_def)

section \<open>What seeding writes\<close>

text \<open>An entry that seeding wrote: a field under its key, with the path that was suggested for
  it.\<close>

definition seeded_by :: "(field_rec \<Rightarrow> (suggestion \<times> tier) option) \<Rightarrow> field_rec list \<Rightarrow> string \<Rightarrow> field_mapping \<Rightarrow> bool" where
  "seeded_by best fs key fm \<longleftrightarrow>
     (\<exists>f s t. f \<in> set fs \<and> best f = Some (s, t) \<and> key = field_key (fr_id f) \<and>
        fm = default_field\<lparr>fm_path := sg_path s, fm_invert := sg_invert s\<rparr>)"

definition seed_inv ::
  "(field_rec \<Rightarrow> (suggestion \<times> tier) option) \<Rightarrow> field_rec list \<Rightarrow> (string \<rightharpoonup> field_id) \<times> field_mapping btree \<Rightarrow> bool" where
  "seed_inv best fs st \<longleftrightarrow>
     bt_ok (snd st) \<and>
     (\<forall>(key, fm) \<in> set (snd st). seeded_by best fs key fm \<and> map_option field_key (fst st (fm_path fm)) = Some key)"

lemma seed_inv_step:
  assumes "seed_inv best fs st" and "f \<in> set fs"
  shows "seed_inv best fs (seed_field best f st)"
proof -
  obtain taken ps where st: "st = (taken, ps)" by (cases st)
  show ?thesis
  proof (cases "best f")
    case None
    with assms(1) show ?thesis by (simp add: seed_field_def st)
  next
    case (Some b)
    obtain s t where b: "b = (s, t)" by (cases b)
    show ?thesis
    proof (cases "taken (sg_path s)")
      case (Some i)
      with assms(1) \<open>best f = Some b\<close> show ?thesis by (simp add: seed_field_def st b)
    next
      case None
      define fm where "fm = default_field\<lparr>fm_path := sg_path s, fm_invert := sg_invert s\<rparr>"
      have new: "seeded_by best fs (field_key (fr_id f)) fm"
        using assms(2) \<open>best f = Some b\<close> unfolding seeded_by_def fm_def b by blast
      have "(key, gm) = (field_key (fr_id f), fm) \<or> (key, gm) \<in> set ps"
        if "(key, gm) \<in> set (bt_insert (field_key (fr_id f)) fm ps)" for key gm
        using set_bt_insert that by fastforce
      moreover have "fm_path gm \<noteq> sg_path s" if "(key, gm) \<in> set ps" for key gm
        using assms(1) None that by (auto simp: seed_inv_def st)
      ultimately show ?thesis
        using assms(1) \<open>best f = Some b\<close> None new
        by (fastforce simp: seed_field_def seed_inv_def st b fm_def)
    qed
  qed
qed

lemma seed_inv_fold: "seed_inv best fs st \<Longrightarrow> set gs \<subseteq> set fs \<Longrightarrow> seed_inv best fs (fold (seed_field best) gs st)"
  by (induction gs arbitrary: st) (simp_all add: seed_inv_step)

lemma seed_inv_distinct:
  assumes "seed_inv best fs (taken, ps)"
  shows "distinct (map (\<lambda>(k, fm). fm_path fm) ps)"
proof -
  have "inj_on (\<lambda>(k, fm). fm_path fm) (set ps)"
  proof (rule inj_onI, clarify)
    fix k fm k' fm' assume e: "(k, fm) \<in> set ps" "(k', fm') \<in> set ps" "fm_path fm = fm_path fm'"
    have "map_option field_key (taken (fm_path fm)) = Some k" "map_option field_key (taken (fm_path fm')) = Some k'"
      using assms e(1,2) by (auto simp: seed_inv_def)
    with e(3) have "k = k'" by simp
    moreover have "bt_ok ps" using assms by (simp add: seed_inv_def)
    ultimately show "k = k' \<and> fm = fm'" using e by (metis bt_get_Some_iff option.inject)
  qed
  moreover have "distinct ps"
    using assms bt_ok_distinct [of ps] by (simp add: seed_inv_def distinct_map)
  ultimately show ?thesis by (simp add: distinct_map)
qed

definition best_for :: "(string \<Rightarrow> string) \<Rightarrow> model_catalog \<Rightarrow> device_rec \<Rightarrow> field_rec \<Rightarrow> (suggestion \<times> tier) option" where
  "best_for lower cat d f =
     suggest_best lower cat (dr_article d) (dr_firmware d) (class_of (dr_name d)) (dr_instance d) (field_context f)"

lemma seed_fields_spec:
  "distinct (map fst (seed_fields lower cat d)) \<and> distinct (map (\<lambda>(k, fm). fm_path fm) (seed_fields lower cat d)) \<and>
   list_all (\<lambda>(key, fm). seeded_by (best_for lower cat d) (filter (\<lambda>f. fr_menu f = MENU) (dr_fields d)) key fm) (seed_fields lower cat d)"
proof -
  let ?fs = "filter (\<lambda>f. fr_menu f = MENU) (dr_fields d)"
  obtain taken ps where r: "fold (seed_field (best_for lower cat d)) (sort_key fr_id ?fs) (\<lambda>p. None, []) = (taken, ps)"
    by (cases "fold (seed_field (best_for lower cat d)) (sort_key fr_id ?fs) (\<lambda>p. None, [])")
  have "seed_inv (best_for lower cat d) ?fs (\<lambda>p. None, [])" by (simp add: seed_inv_def)
  then have "seed_inv (best_for lower cat d) ?fs (taken, ps)" unfolding r [symmetric] by (rule seed_inv_fold) simp
  moreover have "seed_fields lower cat d = ps" using r by (simp add: seed_fields_def best_for_def [abs_def])
  moreover have "bt_ok ps \<Longrightarrow> distinct (map fst ps)" by (rule bt_ok_distinct)
  ultimately show ?thesis using seed_inv_distinct by (fastforce simp: seed_inv_def list_all_iff)
qed

text \<open>
  What seeding may put for a device: its Monitoring fields, each once, with the path of the best
  suggestion; no path twice; and the suggestion is the catalog's for the device's article, or its
  path passes \<open>check_path\<close>.
\<close>

definition seeded_field :: "(string \<Rightarrow> string) \<Rightarrow> model_catalog \<Rightarrow> device_rec \<Rightarrow> string \<Rightarrow> field_mapping \<Rightarrow> field_rec \<Rightarrow> bool" where
  "seeded_field lower cat d key fm f \<longleftrightarrow>
     fr_menu f = Monitoring \<and> key = field_key (fr_id f) \<and>
     (case best_for lower cat d f of
        None \<Rightarrow> False
      | Some (s, t) \<Rightarrow>
          fm = default_field\<lparr>fm_path := sg_path s, fm_invert := sg_invert s\<rparr> \<and>
          (case database_lookup cat (dr_article d) (dr_firmware d) (fr_id f) (dr_instance d) of
             Some k \<Rightarrow> s = kn_suggestion k
           | None \<Rightarrow> check_path (sg_path s) = Inr ()))"

definition seeded_entry :: "(string \<Rightarrow> string) \<Rightarrow> model_catalog \<Rightarrow> device_rec \<Rightarrow> device_mapping \<Rightarrow> bool" where
  "seeded_entry lower cat d dm \<longleftrightarrow>
     distinct (map fst (dm_fields dm)) \<and> distinct (map (\<lambda>(k, fm). fm_path fm) (dm_fields dm)) \<and>
     list_all (\<lambda>(key, fm). list_ex (seeded_field lower cat d key fm) (dr_fields d)) (dm_fields dm)"

lemma seeded_by_field:
  assumes "seeded_by (best_for lower cat d) (filter (\<lambda>f. fr_menu f = MENU) (dr_fields d)) key fm" and "alnum (dr_instance d)"
  shows "list_ex (seeded_field lower cat d key fm) (dr_fields d)"
proof -
  obtain f s t where f: "f \<in> set (dr_fields d)" "fr_menu f = Monitoring" "best_for lower cat d f = Some (s, t)"
    "key = field_key (fr_id f)" "fm = default_field\<lparr>fm_path := sg_path s, fm_invert := sg_invert s\<rparr>"
    using assms(1) by (auto simp: seeded_by_def MENU_def)
  have "seeded_field lower cat d key fm f"
  proof (cases "database_lookup cat (dr_article d) (dr_firmware d) (fr_id f) (dr_instance d)")
    case None
    then have "suggest lower (class_of (dr_name d)) (dr_instance d) (field_context f) = Some s"
      using f(3) by (auto simp: best_for_def suggest_best_def field_context_def)
    from publishable_check [OF suggest_publishable [OF this assms(2)]] f None show ?thesis by (simp add: seeded_field_def)
  next
    case (Some k)
    then have "s = kn_suggestion k" using f(3) by (simp add: best_for_def suggest_best_def field_context_def)
    with f Some show ?thesis by (simp add: seeded_field_def)
  qed
  with f(1) show ?thesis by (auto simp: list_ex_iff)
qed

lemma seed_fields_entry: "alnum (dr_instance d) \<Longrightarrow> dm_fields dm = seed_fields lower cat d \<Longrightarrow> seeded_entry lower cat d dm"
  using seed_fields_spec [of lower cat d] seeded_by_field [of lower cat d]
  by (fastforce simp: seeded_entry_def list_all_iff)

lemma seed_mapping_entries:
  "list_all (\<lambda>d. alnum (dr_instance d)) ds \<Longrightarrow>
     bt_get (mp_devices (fold (seed_device lower cat) ds m)) serial = Some dm \<Longrightarrow>
     bt_get (mp_devices m) serial = Some dm \<or> (\<exists>d \<in> set ds. dr_serial d = serial \<and> serial \<noteq> [] \<and> seeded_entry lower cat d dm)"
proof (induction ds arbitrary: m)
  case (Cons d ds)
  have "bt_get (mp_devices (seed_device lower cat d m)) serial = Some dm \<Longrightarrow>
      bt_get (mp_devices m) serial = Some dm \<or> (dr_serial d = serial \<and> serial \<noteq> [] \<and> seeded_entry lower cat d dm)"
    using Cons.prems(1) by (auto simp: seed_device_def Let_def intro!: seed_fields_entry split: if_splits)
  then show ?case using Cons.IH [of "seed_device lower cat d m"] Cons.prems by auto
qed simp

text \<open>C13. What seeding writes, for devices as discovery makes their records (the instance is the one
  \<open>instance_of\<close> makes of the name): every device entry is that of a device with the entry's
  serial, which is not empty. It maps Monitoring fields of that device, each once under its own key, to the
  path of the best suggestion for it, and no two of them to the same path. A path that is not the catalog's
  own is one a value can go to. (Two devices may still be given the same path; what the catalog holds is not
  checked.)\<close>

theorem seeding_maps_fields_apart:
  assumes "list_all (\<lambda>d. dr_instance d = instance_of (dr_name d) (dr_id d)) devices"
    and "bt_get (mp_devices (seed_mapping lower cat devices)) serial = Some dm"
  shows "\<exists>d \<in> set devices. dr_serial d = serial \<and> serial \<noteq> [] \<and> seeded_entry lower cat d dm"
proof -
  have "list_all (\<lambda>d. alnum (dr_instance d)) devices"
    using assms(1) instance_of_alnum by (simp add: list_all_iff)
  from seed_mapping_entries [OF this, of lower cat mapping_new serial dm] assms(2) show ?thesis
    by (simp add: seed_mapping_def mapping_new_def)
qed

text \<open>The records discovery makes have that instance, whatever is merged into them.\<close>

lemma discovered_instance:
  "dr_instance (merge_groups m gs (device_record addr i)) =
     instance_of (dr_name (merge_groups m gs (device_record addr i))) (dr_id (merge_groups m gs (device_record addr i)))"
  by (simp add: merge_groups_def device_record_def)

text \<open>The battery with its one field: the name table gives it the terminal voltage.\<close>

lemma house_words: "class_of ''BAT House'' = ''BAT''"
  by code_simp

lemma house_suggestion:
  "best_for to_ascii_lowercase [] house_device (hd (dr_fields house_device)) =
     Some (\<lparr>sg_path = ''electrical.batteries.house.voltage'', sg_invert = False\<rparr>, TierName)"
proof -
  have "to_ascii_lowercase (rust_trim ''Voltage'') = ''voltage''"
  proof -
    have "rust_trim ''Voltage'' = ''Voltage''" by (simp add: rust_trim_visible visible_def)
    moreover have "to_ascii_lowercase ''Voltage'' = ''voltage''" by code_simp
    ultimately show ?thesis by simp
  qed
  then show ?thesis
    by (simp add: best_for_def suggest_best_def house_device_def database_lookup_def catalog_index_def house_words
        suggest_def field_context_def apply_rules_def rules_battery_def)
qed

lemma house_instance: "instance_of ''BAT House'' 0x123456 = ''house''"
  by code_simp

lemma seeding_maps_fields_apart_witness:
  "\<exists>d \<in> set [house_device]. dr_serial d = ''A1'' \<and> ''A1'' \<noteq> [] \<and> seeded_entry to_ascii_lowercase [] d
     (house_entry\<lparr>dm_fields := [(field_key 6, house_field)]\<rparr>)"
proof (rule seeding_maps_fields_apart)
  show "list_all (\<lambda>d. dr_instance d = instance_of (dr_name d) (dr_id d)) [house_device]" by (simp add: house_device_def house_instance)
  have "seed_fields to_ascii_lowercase [] house_device = [(field_key 6, house_field)]"
    using house_suggestion
    by (simp add: seed_fields_def house_device_def MENU_def seed_field_def best_for_def house_field_def default_field_def)
  then show "bt_get (mp_devices (seed_mapping to_ascii_lowercase [] [house_device])) ''A1'' =
      Some (house_entry\<lparr>dm_fields := [(field_key 6, house_field)]\<rparr>)"
    by (simp add: seed_mapping_def seed_device_def mapping_new_def Let_def) (simp add: house_device_def house_entry_def)
qed

end
