(* ===== verification/WebApi.thy ===== *)
theory WebApi
  imports Publish
begin

text \<open>
  The HTTP control API the Signal K plugin talks to: \<open>crates/masterbus-tools/src/api.rs\<close>. A handler is
  a function of the shared state, with the bus behind the operations of \<open>BusOps\<close>; a bus operation may
  not return, so neither may a handler. Reading and writing JSON text is serde's work and a parameter:
  bodies come parsed, answers are values. Messages are constructors, one per \<open>format!\<close>.
\<close>

section \<open>The bus behind the API\<close>

record 'b bus_ops =
  op_discover_menu :: "u32 \<Rightarrow> menu \<Rightarrow> 'b \<Rightarrow> (group_info list result \<times> 'b) option"
  op_field_info :: "u32 \<Rightarrow> field_id \<Rightarrow> 'b \<Rightarrow> (field_info option result \<times> 'b) option"
  op_read :: "u32 \<Rightarrow> field_id \<Rightarrow> 'b \<Rightarrow> (bus_value result \<times> 'b) option"
  op_write :: "u32 \<Rightarrow> field_id \<Rightarrow> bus_value \<Rightarrow> 'b \<Rightarrow> (bus_value result \<times> 'b) option"
  op_login :: "u32 \<Rightarrow> access_level \<Rightarrow> f32 \<Rightarrow> 'b \<Rightarrow> (access_level result \<times> 'b) option"
  op_outputs :: "u32 \<Rightarrow> 'b \<Rightarrow> (field_id list result \<times> 'b) option"
  op_set_output :: "u32 \<Rightarrow> field_id \<Rightarrow> bool \<Rightarrow> 'b \<Rightarrow> (bus_value result \<times> 'b) option"
  op_link_connected :: "'b \<Rightarrow> bool"
  op_clock :: "'b \<Rightarrow> nat"

text \<open>\<open>impl BusOps for MasterBus\<close>: the client's calls.\<close>

definition masterbus_ops :: "bool \<Rightarrow> sched bus_ops" where
  "masterbus_ops link =
     \<lparr>op_discover_menu = tab_info, op_field_info = engine_field_info, op_read = field_value, op_write = field_set,
      op_login = login, op_outputs = engine_eventable_outputs, op_set_output = field_set_output,
      op_link_connected = (\<lambda>s. link), op_clock = b_clock\<rparr>"

section \<open>Shared state\<close>

definition NO_OUTPUTS_KEPT :: nat where "NO_OUTPUTS_KEPT = 300000"
definition API_VERSION :: nat where "API_VERSION = 1"

record daemon_info =
  in_transport :: string
  in_stream :: string
  in_api :: string

record device_times =
  tm_identified :: nat
  tm_took :: nat
  tm_late :: bool
  tm_streaming :: "nat option"

record timeline =
  tl_walked :: "nat option"
  tl_devices :: "u32 \<rightharpoonup> device_times"

record ('b, 'f) shared =
  sh_bus :: 'b
  sh_devices :: "device_rec list"
  sh_mapping :: mapping
  sh_diagnostics :: "diagnostic list"
  sh_values :: "(u32 \<times> field_id) \<rightharpoonup> bus_value"
  sh_mapping_path :: "string option"
  sh_files :: 'f
  sh_reloads :: nat
  sh_started :: nat
  sh_info :: daemon_info
  sh_token :: "string option"
  sh_streaming :: nat
  sh_clients :: nat
  sh_asked :: "(u32 \<times> field_id) set"
  sh_outputs :: "u32 \<rightharpoonup> field_id list \<times> nat"
  sh_timeline :: timeline

record 'n login_body =
  lb_level :: string
  lb_code :: f32

record 'n write_body =
  wb_value :: "'n json"
  wb_login :: "'n login_body option"

record field_ref =
  rf_serial :: string
  rf_field :: string

record validate_body =
  vb_serial :: string
  vb_field :: string
  vb_entry :: field_mapping

text \<open>What the daemon takes from outside: the bus, saving the mapping, serde's numbers and parsers, the
  shortest decimal of a single, the catalog and Unicode lower case.\<close>

record ('b, 'f, 'n) env =
  en_ops :: "'b bus_ops"
  en_save :: "string \<Rightarrow> mapping \<Rightarrow> 'f \<Rightarrow> (string + unit) \<times> 'f"
  en_num :: "'n json_num"
  en_write_body :: "bytes \<Rightarrow> string + 'n write_body"
  en_mapping :: "bytes \<Rightarrow> string + mapping"
  en_field_ref :: "bytes \<Rightarrow> string + field_ref"
  en_validate_body :: "bytes \<Rightarrow> string + validate_body"
  en_serial_ref :: "bytes \<Rightarrow> string + string"
  en_shortest :: "f32 \<Rightarrow> f64"
  en_catalog :: model_catalog
  en_lower :: "string \<Rightarrow> string"

definition on_bus :: "('b \<Rightarrow> ('r \<times> 'b) option) \<Rightarrow> ('b, 'f) shared \<Rightarrow> ('r \<times> ('b, 'f) shared) option" where
  "on_bus f s = map_option (\<lambda>(r, b). (r, s\<lparr>sh_bus := b\<rparr>)) (f (sh_bus s))"

text \<open>\<open>iter\_mut().find\<close>: the first element is changed.\<close>

fun update_first :: "('a \<Rightarrow> bool) \<Rightarrow> ('a \<Rightarrow> 'a) \<Rightarrow> 'a list \<Rightarrow> 'a list" where
  "update_first P f [] = []"
| "update_first P f (x # xs) = (if P x then f x # xs else x # update_first P f xs)"

definition merge_into :: "u32 \<Rightarrow> menu \<Rightarrow> group_info list \<Rightarrow> ('b, 'f) shared \<Rightarrow> ('b, 'f) shared" where
  "merge_into addr m gs s =
     s\<lparr>sh_devices := update_first (\<lambda>d. dr_id d = addr) (merge_groups m gs) (sh_devices s)\<rparr>"

section \<open>Finding the fields a mapping names\<close>

definition wanted_menus :: "mapping \<Rightarrow> device_rec \<Rightarrow> menu list" where
  "wanted_menus m d =
     remdups_adj (sort (filter (\<lambda>mn. mn \<notin> set (dr_menus d)) (map field_id_menu (unknown_fields d m))))"

fun discover_wanted :: "('b, 'f, 'n) env \<Rightarrow> (u32 \<times> menu) list \<Rightarrow> ('b, 'f) shared \<Rightarrow> ('b, 'f) shared option" where
  "discover_wanted E [] s = Some s"
| "discover_wanted E ((addr, m) # rest) s =
     (case on_bus (op_discover_menu (en_ops E) addr m) s of
        None \<Rightarrow> None
      | Some (r, s1) \<Rightarrow>
          discover_wanted E rest (case r of Inr gs \<Rightarrow> merge_into addr m gs s1 | Inl e \<Rightarrow> s1))"

fun ask_fields ::
  "('b, 'f, 'n) env \<Rightarrow> u32 \<Rightarrow> field_id list \<Rightarrow> ('b, 'f) shared \<Rightarrow> (field_info list \<times> ('b, 'f) shared) option" where
  "ask_fields E addr [] s = Some ([], s)"
| "ask_fields E addr (fid # fids) s =
     (case on_bus (op_field_info (en_ops E) addr fid) (s\<lparr>sh_asked := insert (addr, fid) (sh_asked s)\<rparr>) of
        None \<Rightarrow> None
      | Some (r, s1) \<Rightarrow>
          map_option (\<lambda>(fs, s2). (case r of Inr (Some f) \<Rightarrow> f # fs | _ \<Rightarrow> fs, s2)) (ask_fields E addr fids s1))"

definition own_group :: "string \<Rightarrow> field_info list \<Rightarrow> group_info" where
  "own_group name fs = \<lparr>gi_id = -1, gi_name = name, gi_menu = MENU, gi_fields = fs\<rparr>"

definition wanted_fields :: "(u32 \<times> field_id) set \<Rightarrow> mapping \<Rightarrow> device_rec \<Rightarrow> field_id list" where
  "wanted_fields asked m d = filter (\<lambda>fid. (dr_id d, fid) \<notin> asked) (unknown_fields d m)"

fun ask_wanted :: "('b, 'f, 'n) env \<Rightarrow> (u32 \<times> field_id list) list \<Rightarrow> ('b, 'f) shared \<Rightarrow> ('b, 'f) shared option" where
  "ask_wanted E [] s = Some s"
| "ask_wanted E ((addr, fids) # rest) s =
     (case ask_fields E addr fids s of
        None \<Rightarrow> None
      | Some (found, s1) \<Rightarrow>
          ask_wanted E rest (if found = [] then s1 else merge_into addr MENU [own_group [] found] s1))"

definition ensure_fields :: "('b, 'f, 'n) env \<Rightarrow> mapping \<Rightarrow> ('b, 'f) shared \<Rightarrow> ('b, 'f) shared option" where
  "ensure_fields E m s =
     ask_wanted E (filter (\<lambda>(a, fids). fids \<noteq> []) (map (\<lambda>d. (dr_id d, wanted_fields (sh_asked s) m d)) (sh_devices s))) s"

definition ensure_menus :: "('b, 'f, 'n) env \<Rightarrow> mapping \<Rightarrow> ('b, 'f) shared \<Rightarrow> ('b, 'f) shared option" where
  "ensure_menus E m s =
     Option.bind (discover_wanted E (concat (map (\<lambda>d. map (Pair (dr_id d)) (wanted_menus m d)) (sh_devices s))) s)
       (ensure_fields E m)"

section \<open>Eventable outputs\<close>

fun ask_unlisted ::
  "('b, 'f, 'n) env \<Rightarrow> u32 \<Rightarrow> field_id list \<Rightarrow> ('b, 'f) shared \<Rightarrow> (field_info list \<times> ('b, 'f) shared) option" where
  "ask_unlisted E addr [] s = Some ([], s)"
| "ask_unlisted E addr (fid # fids) s =
     (case on_bus (op_field_info (en_ops E) addr fid) s of
        None \<Rightarrow> None
      | Some (r, s1) \<Rightarrow>
          map_option (\<lambda>(fs, s2). (case r of Inr (Some f) \<Rightarrow> f # fs | _ \<Rightarrow> fs, s2)) (ask_unlisted E addr fids s1))"

definition outputs_fresh :: "('b, 'f, 'n) env \<Rightarrow> u32 \<Rightarrow> ('b, 'f) shared \<Rightarrow> bool" where
  "outputs_fresh E addr s =
     (case sh_outputs s addr of
        None \<Rightarrow> False
      | Some (os, since) \<Rightarrow> os \<noteq> [] \<or> op_clock (en_ops E) (sh_bus s) - since < NO_OUTPUTS_KEPT)"

definition ensure_outputs :: "('b, 'f, 'n) env \<Rightarrow> u32 \<Rightarrow> ('b, 'f) shared \<Rightarrow> ('b, 'f) shared option" where
  "ensure_outputs E addr s =
     (if outputs_fresh E addr s then Some s
      else do {
        (r, s1) \<leftarrow> on_bus (op_outputs (en_ops E) addr) s;
        (case r of
           Inl e \<Rightarrow> Some s1
         | Inr os \<Rightarrow>
             (case find (\<lambda>d. dr_id d = addr) (sh_devices s1) of
                None \<Rightarrow> Some s1
              | Some d \<Rightarrow> do {
                  (found, s2) \<leftarrow> ask_unlisted E addr (filter (\<lambda>fid. dr_field d fid = None) os) s1;
                  let s3 = (if found = [] then s2 else merge_into addr MENU [own_group ''Outputs'' found] s2);
                  Some (s3\<lparr>sh_outputs := (sh_outputs s3)(addr \<mapsto> (os, op_clock (en_ops E) (sh_bus s3)))\<rparr>)
                }))
      })"

definition is_output :: "('b, 'f, 'n) env \<Rightarrow> u32 \<Rightarrow> field_id \<Rightarrow> ('b, 'f) shared \<Rightarrow> (bool \<times> ('b, 'f) shared) option" where
  "is_output E addr fid s =
     map_option (\<lambda>s1. (case sh_outputs s1 addr of None \<Rightarrow> False | Some (os, since) \<Rightarrow> fid \<in> set os, s1))
       (ensure_outputs E addr s)"

definition event_only_field :: "field_rec \<Rightarrow> bool" where
  "event_only_field f \<longleftrightarrow> \<not> fr_writable f \<or> unlabeled (fr_options f)"

definition event_only :: "('b, 'f, 'n) env \<Rightarrow> u32 \<Rightarrow> field_rec \<Rightarrow> ('b, 'f) shared \<Rightarrow> (bool \<times> ('b, 'f) shared) option" where
  "event_only E addr f s =
     (if unlabeled (fr_options f) then Some (True, s)
      else if event_only_field f then is_output E addr (fr_id f) s
      else Some (False, s))"

section \<open>Adopting a mapping\<close>

definition persist :: "('b, 'f, 'n) env \<Rightarrow> mapping \<Rightarrow> ('b, 'f) shared \<Rightarrow> (string + unit) \<times> ('b, 'f) shared" where
  "persist E m s =
     (case sh_mapping_path s of
        None \<Rightarrow> (Inr (), s)
      | Some p \<Rightarrow> (let (r, fs) = en_save E p m (sh_files s) in (r, s\<lparr>sh_files := fs\<rparr>)))"

definition adopt :: "('b, 'f, 'n) env \<Rightarrow> mapping \<Rightarrow> ('b, 'f) shared \<Rightarrow> ((string + resolved) \<times> ('b, 'f) shared) option" where
  "adopt E m s =
     (case persist E m s of
        (Inl e, s1) \<Rightarrow> Some (Inl e, s1)
      | (Inr u, s1) \<Rightarrow>
          map_option (\<lambda>s2.
              let r = resolve (sh_devices s2) m
              in (Inr r, s2\<lparr>sh_mapping := m, sh_diagnostics := rv_diagnostics r, sh_reloads := sh_reloads s2 + 1\<rparr>))
            (ensure_menus E m s1))"

section \<open>Requests and answers\<close>

record request =
  rq_method :: string
  rq_path :: string
  rq_query :: "string \<rightharpoonup> string"
  rq_body :: bytes
  rq_bearer :: "string option"

definition request_new :: "string \<Rightarrow> string \<Rightarrow> bytes \<Rightarrow> request" where
  "request_new meth url body =
     (let (path, query) = (case split_once (CHR ''?'') url of Some pq \<Rightarrow> pq | None \<Rightarrow> (url, []));
          kvs = filter (\<lambda>kv. kv \<noteq> []) (split_on (\<lambda>c. c = CHR ''&'') query)
      in \<lparr>rq_method = to_ascii_uppercase meth, rq_path = path,
          rq_query = map_of (rev (map (\<lambda>kv. case split_once (CHR ''='') kv of Some p \<Rightarrow> p | None \<Rightarrow> (kv, [])) kvs)),
          rq_body = body, rq_bearer = None\<rparr>)"

datatype 'n api_error =
    Wrong_token
  | Not_an_api_path
  | No_route string string
  | Unknown_menu string
  | No_device string
  | Discovering string error
  | Not_a_field string
  | No_field string string "string list"
  | Reading string error
  | Reading_before_write string error
  | Bad_body string
  | Bad_mapping string
  | Bad_version nat
  | Decode_failed "'n decode_error"
  | Takes_on_or_off string
  | Only_on string
  | Switching string error
  | Unknown_level string
  | Code_rejected string access_level access_level
  | Logging_in string error
  | Read_only_now string
  | Bad_value error
  | Writing string error
  | Save_failed string
  | Map_a_field_first
  | No_article

record 'n field_view =
  fv_id :: string
  fv_name :: string
  fv_unit :: string
  fv_options :: "string list"
  fv_writable :: bool
  fv_menu :: string
  fv_group :: string
  fv_path :: "string option"
  fv_put :: bool
  fv_output :: bool
  fv_event_only :: bool
  fv_allow_off :: bool
  fv_value :: "'n json option"

record 'n device_view =
  dv_id :: string
  dv_serial :: string
  dv_article :: string
  dv_name :: string
  dv_firmware :: string
  dv_instance :: string
  dv_menus :: "string list"
  dv_mapped :: nat
  dv_fields :: "'n field_view list"
  dv_timeline :: "device_times option"

record status_view =
  sv_api_version :: nat
  sv_info :: daemon_info
  sv_uptime :: nat
  sv_link :: string
  sv_devices :: nat
  sv_mapped_devices :: nat
  sv_mapped_fields :: nat
  sv_streaming :: nat
  sv_clients :: nat
  sv_errors :: nat
  sv_warnings :: nat
  sv_walked :: "nat option"

datatype validate_warning = Loses_labels nat string | Put_switches_on string | Put_needs_login

record plan_view =
  pv_unit :: "string option"
  pv_conv :: conversion
  pv_boolean :: bool
  pv_truth :: "bool btree"
  pv_notify :: "notify_state btree"
  pv_invert :: bool
  pv_unit_warning :: "string option"
  pv_warnings :: "validate_warning list"

datatype 'n body =
    Error_body "'n api_error"
  | Needs_body "'n api_error" string
  | Status_body status_view
  | Devices_body "'n device_view list"
  | Device_body "'n device_view"
  | Value_body "'n json"
  | Mapping_body mapping
  | Diagnostics_body "diagnostic list"
  | Written_body "'n json" "'n json option"
  | Adopted_body nat nat "diagnostic list"
  | Copied_body nat nat nat "diagnostic list"
  | Suggested_body string bool "string option" "bool btree option" "notify_state btree"
  | Empty_path_body
  | Valid_body plan_view
  | Refused_body refusal "bool btree" "validate_warning option"

record 'n response =
  rs_status :: nat
  rs_body :: "'n body"

definition rs_ok :: "'n body \<Rightarrow> 'n response" where
  "rs_ok b = \<lparr>rs_status = 200, rs_body = b\<rparr>"

definition rs_error :: "nat \<Rightarrow> 'n api_error \<Rightarrow> 'n response" where
  "rs_error status e = \<lparr>rs_status = status, rs_body = Error_body e\<rparr>"

section \<open>Status and devices\<close>

definition link_name :: "bool \<Rightarrow> string" where
  "link_name up = (if up then ''connected'' else ''lost'')"

definition api_status :: "('b, 'f, 'n) env \<Rightarrow> ('b, 'f) shared \<Rightarrow> 'n response" where
  "api_status E s =
     (let count = (\<lambda>sv. length (filter (\<lambda>d. dg_severity d = sv) (sh_diagnostics s)))
      in rs_ok (Status_body
           \<lparr>sv_api_version = API_VERSION, sv_info = sh_info s,
            sv_uptime = (op_clock (en_ops E) (sh_bus s) - sh_started s) div 1000,
            sv_link = link_name (op_link_connected (en_ops E) (sh_bus s)), sv_devices = length (sh_devices s),
            sv_mapped_devices = length (mp_devices (sh_mapping s)), sv_mapped_fields = mapping_len (sh_mapping s),
            sv_streaming = sh_streaming s, sv_clients = sh_clients s,
            sv_errors = count Sev_Error, sv_warnings = count Sev_Warning, sv_walked = tl_walked (sh_timeline s)\<rparr>))"

text \<open>A value in the device's own unit.\<close>

definition fmt_pad :: "nat \<Rightarrow> int \<Rightarrow> string" where
  "fmt_pad w i =
     (let ds = fmt_dec (nat \<bar>i\<bar>)
      in if i < 0 then ''-'' @ replicate (w - 1 - length ds) (CHR ''0'') @ ds
         else replicate (w - length ds) (CHR ''0'') @ ds)"

definition enum_json :: "('b, 'f, 'n) env \<Rightarrow> bus_value \<Rightarrow> int \<Rightarrow> 'n json" where
  "enum_json E v index =
     (case value_label v of
        Some l \<Rightarrow> if rust_trim l \<noteq> [] then JString l else JNumber (num_of_int (en_num E) index)
      | None \<Rightarrow> JNumber (num_of_int (en_num E) index))"

fun raw_json :: "('b, 'f, 'n) env \<Rightarrow> bus_value \<Rightarrow> 'n json" where
  "raw_json E (Float x) = (if f32_is_finite x then json_of_f64 (en_num E) (en_shortest E x) else JNull)"
| "raw_json E Invalid = JNull"
| "raw_json E (Boolean b) = JBool b"
| "raw_json E (List index options) = enum_json E (List index options) index"
| "raw_json E (Eventable index labels) = enum_json E (Eventable index labels) index"
| "raw_json E (Text sid s) = JString s"
| "raw_json E (Time t) = (if 0 \<le> t_sec t then json_of_f64 (en_num E) (time_secs t) else JNull)"
| "raw_json E (Date d) =
     (if 0 < d_day d then JString (fmt_pad 4 (d_year d) @ ''-'' @ fmt_pad 2 (d_mon d) @ ''-'' @ fmt_pad 2 (d_day d)) else JNull)"
| "raw_json E (DeviceRef index devs) = JNumber (num_of_int (en_num E) index)"

definition field_view_of ::
  "('b, 'f, 'n) env \<Rightarrow> device_rec \<Rightarrow> device_mapping option \<Rightarrow> (u32 \<times> field_id \<rightharpoonup> bus_value) \<Rightarrow> field_id list option \<Rightarrow>
     field_rec \<Rightarrow> 'n field_view" where
  "field_view_of E d dm values outputs f =
     (let entry = Option.bind dm (\<lambda>m. bt_get (dm_fields m) (field_key (fr_id f)));
          output = (case outputs of Some os \<Rightarrow> fr_id f \<in> set os | None \<Rightarrow> False)
      in \<lparr>fv_id = field_key (fr_id f), fv_name = fr_name f, fv_unit = fr_unit f, fv_options = fr_options f,
          fv_writable = fr_writable f, fv_menu = menu_tag (fr_menu f), fv_group = fr_group f,
          fv_path = map_option fm_path entry,
          fv_put = (case entry of Some e \<Rightarrow> fm_put e | None \<Rightarrow> False),
          fv_output = output, fv_event_only = (output \<and> event_only_field f),
          fv_allow_off = (case entry of Some e \<Rightarrow> fm_allow_off e | None \<Rightarrow> False),
          fv_value = map_option (raw_json E) (values (dr_id d, fr_id f))\<rparr>)"

definition instance_in_use :: "device_rec \<Rightarrow> device_mapping option \<Rightarrow> string" where
  "instance_in_use d dm =
     (case dm of Some m \<Rightarrow> if dm_instance m \<noteq> [] then dm_instance m else dr_instance d | None \<Rightarrow> dr_instance d)"

definition device_json :: "('b, 'f, 'n) env \<Rightarrow> ('b, 'f) shared \<Rightarrow> device_rec \<Rightarrow> 'n device_view" where
  "device_json E s d =
     (let dm = bt_get (mp_devices (sh_mapping s)) (dr_serial d)
      in \<lparr>dv_id = fmt_hex 6 (unat (dr_id d)), dv_serial = dr_serial d, dv_article = dr_article d, dv_name = dr_name d,
          dv_firmware = dr_firmware d, dv_instance = instance_in_use d dm, dv_menus = map menu_tag (dr_menus d),
          dv_mapped = (case dm of Some m \<Rightarrow> length (dm_fields m) | None \<Rightarrow> 0),
          dv_fields = map (field_view_of E d dm (sh_values s) (map_option fst (sh_outputs s (dr_id d)))) (dr_fields d),
          dv_timeline = tl_devices (sh_timeline s) (dr_id d)\<rparr>)"

definition api_devices :: "('b, 'f, 'n) env \<Rightarrow> ('b, 'f) shared \<Rightarrow> 'n response" where
  "api_devices E s = rs_ok (Devices_body (map (device_json E s) (sort_key dr_id (sh_devices s))))"

definition find_serial :: "string \<Rightarrow> ('b, 'f) shared \<Rightarrow> device_rec option" where
  "find_serial serial s = find (\<lambda>d. dr_serial d = serial) (sh_devices s)"

definition show_device :: "('b, 'f, 'n) env \<Rightarrow> string \<Rightarrow> ('b, 'f) shared \<Rightarrow> 'n response" where
  "show_device E serial s =
     (case find_serial serial s of
        Some d \<Rightarrow> rs_ok (Device_body (device_json E s d))
      | None \<Rightarrow> rs_error 404 (No_device serial))"

definition api_device ::
  "('b, 'f, 'n) env \<Rightarrow> string \<Rightarrow> string option \<Rightarrow> ('b, 'f) shared \<Rightarrow> ('n response \<times> ('b, 'f) shared) option" where
  "api_device E serial menu_arg s =
     do {
       s1 \<leftarrow> (case find_serial serial s of Some d \<Rightarrow> ensure_outputs E (dr_id d) s | None \<Rightarrow> Some s);
       (case menu_arg of
          None \<Rightarrow> Some (show_device E serial s1, s1)
        | Some m \<Rightarrow>
            (case menu_by_name m of
               None \<Rightarrow> Some (rs_error 400 (Unknown_menu m), s1)
             | Some mn \<Rightarrow>
                 (case find_serial serial s1 of
                    None \<Rightarrow> Some (rs_error 404 (No_device serial), s1)
                  | Some d \<Rightarrow>
                      if mn \<in> set (dr_menus d) then Some (show_device E serial s1, s1)
                      else do {
                        (r, s2) \<leftarrow> on_bus (op_discover_menu (en_ops E) (dr_id d) mn) s1;
                        (case r of
                           Inl e \<Rightarrow> Some (rs_error 502 (Discovering m e), s2)
                         | Inr gs \<Rightarrow>
                             (let s3 = merge_into (dr_id d) mn gs s2 in Some (show_device E serial s3, s3)))
                      })))
     }"

section \<open>Reading and writing a field\<close>

definition locate :: "string \<Rightarrow> string \<Rightarrow> ('b, 'f) shared \<Rightarrow> 'n response + device_rec \<times> field_rec" where
  "locate serial key s =
     (case parse_field_key key of
        None \<Rightarrow> Inl (rs_error 400 (Not_a_field key))
      | Some fid \<Rightarrow>
          (case find_serial serial s of
             None \<Rightarrow> Inl (rs_error 404 (No_device serial))
           | Some d \<Rightarrow>
               (case dr_field d fid of
                  None \<Rightarrow> Inl (rs_error 404 (No_field (dr_name d) key (map menu_tag (dr_menus d))))
                | Some f \<Rightarrow> Inr (d, f))))"

definition api_read_field ::
  "('b, 'f, 'n) env \<Rightarrow> string \<Rightarrow> string \<Rightarrow> ('b, 'f) shared \<Rightarrow> ('n response \<times> ('b, 'f) shared) option" where
  "api_read_field E serial key s =
     (case locate serial key s of
        Inl r \<Rightarrow> Some (r, s)
      | Inr (d, f) \<Rightarrow>
          do {
            (r, s1) \<leftarrow> on_bus (op_read (en_ops E) (dr_id d) (fr_id f)) s;
            (case r of
               Inl e \<Rightarrow> Some (rs_error 502 (Reading (fr_name f) e), s1)
             | Inr v \<Rightarrow>
                 (let v1 = with_options v (fr_options f)
                  in Some (rs_ok (Value_body (raw_json E v1)),
                           s1\<lparr>sh_values := (sh_values s1)((dr_id d, fr_id f) \<mapsto> v1)\<rparr>)))
          })"

definition parse_level :: "string \<Rightarrow> access_level option" where
  "parse_level l =
     (let t = filter (\<lambda>c. c \<noteq> CHR ''_'' \<and> c \<noteq> CHR ''-'' \<and> c \<noteq> CHR '' '') (to_ascii_lowercase (rust_trim l))
      in if t = ''enduser'' \<or> t = ''user'' then Some EndUser
         else if t = ''installer'' then Some Installer
         else if t = ''distributor'' then Some Distributor
         else if t = ''mvservice'' \<or> t = ''service'' then Some MvService
         else None)"

fun switched_on :: "bus_value \<Rightarrow> bool option" where
  "switched_on (Boolean b) = Some b"
| "switched_on (Float x) = Some (\<not> f32_eq x f32_zero)"
| "switched_on (List index options) = Some (index \<noteq> 0)"
| "switched_on (Eventable index labels) = Some (index \<noteq> 0)"
| "switched_on _ = None"

text \<open>What turns the published value back: the plan of the field's entry, when it has one.\<close>

definition put_plan :: "field_mapping option \<Rightarrow> field_rec \<Rightarrow> conversion \<times> bool \<times> bool btree" where
  "put_plan entry f =
     (case entry of
        None \<Rightarrow> (conv_IDENTITY, False, [])
      | Some e \<Rightarrow>
          (case plan (fm_path e) (fr_unit f) (fr_options f) e of
             Inl refused \<Rightarrow> (conv_IDENTITY, False, [])
           | Inr p \<Rightarrow> (pl_conv p, pl_invert p, pl_truth p)))"

definition api_written ::
  "('b, 'f, 'n) env \<Rightarrow> device_rec \<Rightarrow> field_rec \<Rightarrow> bus_value \<Rightarrow> conversion \<times> bool \<times> bool btree \<Rightarrow> ('b, 'f) shared \<Rightarrow>
     'n response \<times> ('b, 'f) shared" where
  "api_written E d f applied cit s =
     (let v = with_options applied (fr_options f); (conv, invert, truth) = cit
      in (rs_ok (Written_body (raw_json E v) (encode (en_num E) v conv invert truth)),
          s\<lparr>sh_values := (sh_values s)((dr_id d, fr_id f) \<mapsto> v)\<rparr>))"

text \<open>An output that events drive: on always, off only when the mapping allows it.\<close>

definition switch_output ::
  "('b, 'f, 'n) env \<Rightarrow> field_mapping option \<Rightarrow> device_rec \<Rightarrow> field_rec \<Rightarrow> bus_value \<Rightarrow> conversion \<times> bool \<times> bool btree \<Rightarrow>
     ('b, 'f) shared \<Rightarrow> ('n response \<times> ('b, 'f) shared) option" where
  "switch_output E entry d f v cit s =
     (case switched_on v of
        None \<Rightarrow> Some (rs_error 400 (Takes_on_or_off (fr_name f)), s)
      | Some on \<Rightarrow>
          if \<not> on \<and> \<not> (case entry of Some e \<Rightarrow> fm_allow_off e | None \<Rightarrow> False)
          then Some (\<lparr>rs_status = 403, rs_body = Needs_body (Only_on (fr_name f)) ''allowOff''\<rparr>, s)
          else do {
            (r, s1) \<leftarrow> on_bus (op_set_output (en_ops E) (dr_id d) (fr_id f) on) s;
            Some (case r of
                Inr applied \<Rightarrow> api_written E d f applied cit s1
              | Inl e \<Rightarrow> (rs_error 502 (Switching (fr_name f) e), s1))
          })"

definition write_result ::
  "('b, 'f, 'n) env \<Rightarrow> device_rec \<Rightarrow> field_rec \<Rightarrow> bus_value result \<Rightarrow> conversion \<times> bool \<times> bool btree \<Rightarrow> ('b, 'f) shared \<Rightarrow>
     'n response \<times> ('b, 'f) shared" where
  "write_result E d f r cit s =
     (case r of
        Inr applied \<Rightarrow> api_written E d f applied cit s
      | Inl e \<Rightarrow>
          ((case e of
              ReadOnly \<Rightarrow> \<lparr>rs_status = 403, rs_body = Needs_body (Read_only_now (fr_name f)) ''login''\<rparr>
            | WrongType w \<Rightarrow> rs_error 400 (Bad_value e)
            | InvalidText n w \<Rightarrow> rs_error 400 (Bad_value e)
            | _ \<Rightarrow> rs_error 502 (Writing (fr_name f) e)), s))"

text \<open>The ordinary write, with one retry after the login the request carries.\<close>

definition write_with_login ::
  "('b, 'f, 'n) env \<Rightarrow> 'n login_body option \<Rightarrow> device_rec \<Rightarrow> field_rec \<Rightarrow> bus_value \<Rightarrow> conversion \<times> bool \<times> bool btree \<Rightarrow>
     ('b, 'f) shared \<Rightarrow> ('n response \<times> ('b, 'f) shared) option" where
  "write_with_login E credentials d f v cit s =
     do {
       (r, s1) \<leftarrow> on_bus (op_write (en_ops E) (dr_id d) (fr_id f) v) s;
       (case (r, credentials) of
          (Inl ReadOnly, Some lb) \<Rightarrow>
            (case parse_level (lb_level lb) of
               None \<Rightarrow> Some (rs_error 400 (Unknown_level (lb_level lb)), s1)
             | Some level \<Rightarrow> do {
                 (g, s2) \<leftarrow> on_bus (op_login (en_ops E) (dr_id d) level (lb_code lb)) s1;
                 (case g of
                    Inl e \<Rightarrow> Some (rs_error 502 (Logging_in (dr_name d) e), s2)
                  | Inr got \<Rightarrow>
                      if got = level then do {
                        (r2, s3) \<leftarrow> on_bus (op_write (en_ops E) (dr_id d) (fr_id f) v) s2;
                        Some (write_result E d f r2 cit s3)
                      }
                      else Some (rs_error 403 (Code_rejected (dr_name d) level got), s2))
               })
        | _ \<Rightarrow> Some (write_result E d f r cit s1))
     }"

definition api_write_field ::
  "('b, 'f, 'n) env \<Rightarrow> string \<Rightarrow> string \<Rightarrow> bytes \<Rightarrow> ('b, 'f) shared \<Rightarrow> ('n response \<times> ('b, 'f) shared) option" where
  "api_write_field E serial key body s =
     (case en_write_body E body of
        Inl e \<Rightarrow> Some (rs_error 400 (Bad_body e), s)
      | Inr wb \<Rightarrow>
          (case locate serial key s of
             Inl r \<Rightarrow> Some (r, s)
           | Inr (d, f) \<Rightarrow>
               (let entry = mapping_field (sh_mapping s) serial (fr_id f);
                    cit = put_plan entry f
                in do {
                  (r, s1) \<leftarrow> on_bus (op_read (en_ops E) (dr_id d) (fr_id f)) s;
                  (case r of
                     Inl e \<Rightarrow> Some (rs_error 502 (Reading_before_write (fr_name f) e), s1)
                   | Inr v0 \<Rightarrow>
                       (case decode (en_num E) (wb_value wb) (with_options v0 (fr_options f)) (fst cit) (fst (snd cit)) (snd (snd cit)) of
                          Inl e \<Rightarrow> Some (rs_error 400 (Decode_failed e), s1)
                        | Inr v \<Rightarrow> do {
                            (evt, s2) \<leftarrow> event_only E (dr_id d) f s1;
                            (if evt then switch_output E entry d f v cit s2
                             else write_with_login E (wb_login wb) d f v cit s2)
                          }))
                })))"

section \<open>The mapping\<close>

definition api_put_mapping ::
  "('b, 'f, 'n) env \<Rightarrow> bytes \<Rightarrow> ('b, 'f) shared \<Rightarrow> ('n response \<times> ('b, 'f) shared) option" where
  "api_put_mapping E body s =
     (case en_mapping E body of
        Inl e \<Rightarrow> Some (rs_error 400 (Bad_mapping e), s)
      | Inr m \<Rightarrow>
          if mp_version m \<noteq> VERSION then Some (rs_error 400 (Bad_version (mp_version m)), s)
          else do {
            (r, s1) \<leftarrow> adopt E m s;
            Some (case r of
                Inr rv \<Rightarrow> rs_ok (Adopted_body (mapping_len m) (length (rv_emit rv)) (rv_diagnostics rv))
              | Inl e \<Rightarrow> rs_error 500 (Save_failed e), s1)
          })"

definition tier_name :: "tier \<Rightarrow> string" where
  "tier_name t =
     (case t of ModelFirmware \<Rightarrow> ''modelFirmware'' | TierModel \<Rightarrow> ''model'' | TierName \<Rightarrow> ''name'' | TierBuilt \<Rightarrow> ''built'')"

text \<open>The path of an entry, or one proposed that no other field of the device has, or a prefix to type
  after.\<close>

definition proposal ::
  "('b, 'f, 'n) env \<Rightarrow> device_mapping option \<Rightarrow> device_rec \<Rightarrow> field_rec \<Rightarrow> string \<times> bool \<times> string option" where
  "proposal E dm d f =
     (case Option.bind dm (\<lambda>m. bt_get (dm_fields m) (field_key (fr_id f))) of
        Some e \<Rightarrow> (fm_path e, fm_invert e, Some ''existing'')
      | None \<Rightarrow>
          (case suggest_or_build (en_lower E) (en_catalog E) (dr_article d) (dr_firmware d) (class_of (dr_name d))
                  (instance_in_use d dm) (mapped_node dm) (field_context f) of
             Some (sg, t) \<Rightarrow>
               (unique_path (sg_path sg) (fr_id f)
                  (case dm of None \<Rightarrow> []
                   | Some m \<Rightarrow> List.map_filter (\<lambda>(k, e). map_option (\<lambda>fid. (fid, fm_path e)) (parse_field_key k)) (dm_fields m)),
                sg_invert sg, Some (tier_name t))
           | None \<Rightarrow> (path_prefix dm, False, None)))"

definition api_suggest :: "('b, 'f, 'n) env \<Rightarrow> bytes \<Rightarrow> ('b, 'f) shared \<Rightarrow> 'n response" where
  "api_suggest E body s =
     (case en_field_ref E body of
        Inl e \<Rightarrow> rs_error 400 (Bad_body e)
      | Inr r \<Rightarrow>
          (case locate (rf_serial r) (rf_field r) s of
             Inl resp \<Rightarrow> resp
           | Inr (d, f) \<Rightarrow>
               (let (path, invert, t) = proposal E (bt_get (mp_devices (sh_mapping s)) (dr_serial d)) d f
                in rs_ok (Suggested_body path invert t
                     (if fr_options f = [] then None else truth_default (fr_options f)) (notify_default (fr_options f))))))"

definition loses_labels :: "field_rec \<Rightarrow> string \<Rightarrow> validate_warning" where
  "loses_labels f path = Loses_labels (length (fr_options f)) (mode_leaf path)"

definition api_validate ::
  "('b, 'f, 'n) env \<Rightarrow> bytes \<Rightarrow> ('b, 'f) shared \<Rightarrow> ('n response \<times> ('b, 'f) shared) option" where
  "api_validate E body s =
     (case en_validate_body E body of
        Inl e \<Rightarrow> Some (rs_error 400 (Bad_body e), s)
      | Inr b \<Rightarrow>
          (case locate (vb_serial b) (vb_field b) s of
             Inl r \<Rightarrow> Some (r, s)
           | Inr (d, f) \<Rightarrow>
               (let entry = vb_entry b; path = rust_trim (fm_path entry)
                in if path = [] then Some (rs_ok Empty_path_body, s)
                   else (case plan path (fr_unit f) (fr_options f) entry of
                       Inr p \<Rightarrow> do {
                         (output, s1) \<leftarrow> event_only E (dr_id d) f s;
                         Some (rs_ok (Valid_body
                           \<lparr>pv_unit = pl_unit p, pv_conv = pl_conv p, pv_boolean = leaf_is_boolean path,
                            pv_truth = pl_truth p, pv_notify = pl_notify p, pv_invert = pl_invert p,
                            pv_unit_warning = pl_warning p,
                            pv_warnings =
                              (if 2 < length (fr_options f) \<and> leaf_is_boolean path then [loses_labels f path] else []) @
                              (if fm_put entry \<and> output \<and> \<not> fm_allow_off entry then [Put_switches_on (fr_name f)] else []) @
                              (if fm_put entry \<and> \<not> fr_writable f \<and> \<not> output then [Put_needs_login] else [])\<rparr>), s1)
                       }
                     | Inl e \<Rightarrow>
                         Some (rs_ok (case e of
                             Refused_truth labels \<Rightarrow>
                               Refused_body e
                                 (bt_collect (List.map_filter (\<lambda>l. map_option (Pair l) (truth_of_label l)) labels))
                                 (if 2 < length (fr_options f) then Some (loses_labels f path) else None)
                           | _ \<Rightarrow> Refused_body e [] None), s)))))"

definition copy_target_of :: "device_rec \<Rightarrow> copy_target" where
  "copy_target_of d = \<lparr>ct_instance = dr_instance d, ct_have = field_ids d, ct_ident = dr_identity d\<rparr>"

definition api_apply_article ::
  "('b, 'f, 'n) env \<Rightarrow> bytes \<Rightarrow> ('b, 'f) shared \<Rightarrow> ('n response \<times> ('b, 'f) shared) option" where
  "api_apply_article E body s =
     (case en_serial_ref E body of
        Inl e \<Rightarrow> Some (rs_error 400 (Bad_body e), s)
      | Inr serial \<Rightarrow>
          (case bt_get (mp_devices (sh_mapping s)) serial of
             None \<Rightarrow> Some (rs_error 400 Map_a_field_first, s)
           | Some src \<Rightarrow>
               if dm_fields src = [] then Some (rs_error 400 Map_a_field_first, s)
               else if dm_article src = [] then Some (rs_error 400 No_article, s)
               else (let targets = map copy_target_of
                           (filter (\<lambda>d. dr_article d = dm_article src \<and> dr_serial d \<noteq> serial \<and> dr_serial d \<noteq> []) (sh_devices s))
                     in if targets = [] then Some (rs_ok (Copied_body 0 0 0 []), s)
                        else (let (m, copied, skipped) = copy_to_targets src targets (sh_mapping s, 0, 0)
                              in do {
                                (r, s1) \<leftarrow> adopt E m s;
                                Some (case r of
                                    Inr rv \<Rightarrow> rs_ok (Copied_body (length targets) copied skipped (rv_diagnostics rv))
                                  | Inl e \<Rightarrow> rs_error 500 (Save_failed e), s1)
                              }))))"

section \<open>Answering a request\<close>

datatype route =
    Get_status | Get_devices | Get_device string | Get_value string string | Put_value string string
  | Get_mapping | Put_mapping | Get_diagnostics | Post_suggest | Post_validate | Post_apply | Unrouted

definition route_of :: "string \<Rightarrow> string list \<Rightarrow> route" where
  "route_of meth seg =
     (let get = (meth = ''GET''); put = (meth = ''PUT''); post = (meth = ''POST'')
      in if get \<and> seg = [''status''] then Get_status
         else if get \<and> seg = [''devices''] then Get_devices
         else if get \<and> length seg = 2 \<and> seg ! 0 = ''devices'' then Get_device (seg ! 1)
         else if get \<and> length seg = 5 \<and> seg ! 0 = ''devices'' \<and> seg ! 2 = ''fields'' \<and> seg ! 4 = ''value''
           then Get_value (seg ! 1) (seg ! 3)
         else if put \<and> length seg = 4 \<and> seg ! 0 = ''devices'' \<and> seg ! 2 = ''fields'' then Put_value (seg ! 1) (seg ! 3)
         else if get \<and> seg = [''mapping''] then Get_mapping
         else if put \<and> seg = [''mapping''] then Put_mapping
         else if get \<and> seg = [''mapping'', ''diagnostics''] then Get_diagnostics
         else if post \<and> seg = [''mapping'', ''suggest''] then Post_suggest
         else if post \<and> seg = [''mapping'', ''validate''] then Post_validate
         else if post \<and> seg = [''mapping'', ''apply-article''] then Post_apply
         else Unrouted)"

definition handle_route ::
  "('b, 'f, 'n) env \<Rightarrow> request \<Rightarrow> route \<Rightarrow> ('b, 'f) shared \<Rightarrow> ('n response \<times> ('b, 'f) shared) option" where
  "handle_route E req rt s =
     (case rt of
        Get_status \<Rightarrow> Some (api_status E s, s)
      | Get_devices \<Rightarrow> Some (api_devices E s, s)
      | Get_device serial \<Rightarrow> api_device E serial (rq_query req ''menu'') s
      | Get_value serial key \<Rightarrow> api_read_field E serial key s
      | Put_value serial key \<Rightarrow> api_write_field E serial key (rq_body req) s
      | Get_mapping \<Rightarrow> Some (rs_ok (Mapping_body (sh_mapping s)), s)
      | Put_mapping \<Rightarrow> api_put_mapping E (rq_body req) s
      | Get_diagnostics \<Rightarrow> Some (rs_ok (Diagnostics_body (sh_diagnostics s)), s)
      | Post_suggest \<Rightarrow> Some (api_suggest E (rq_body req) s, s)
      | Post_validate \<Rightarrow> api_validate E (rq_body req) s
      | Post_apply \<Rightarrow> api_apply_article E (rq_body req) s
      | Unrouted \<Rightarrow> Some (rs_error 404 (No_route (rq_method req) (rq_path req)), s))"

definition request_route :: "request \<Rightarrow> route option" where
  "request_route req =
     map_option (\<lambda>rest. route_of (rq_method req) (split_on (\<lambda>c. c = CHR ''/'') (trim_end_of [''/''] rest)))
       (strip_prefix ''/api/'' (rq_path req))"

definition handle ::
  "('b, 'f, 'n) env \<Rightarrow> request \<Rightarrow> ('b, 'f) shared \<Rightarrow> ('n response \<times> ('b, 'f) shared) option" where
  "handle E req s =
     (if sh_token s \<noteq> None \<and> rq_bearer req \<noteq> sh_token s then Some (rs_error 401 Wrong_token, s)
      else (case request_route req of
          None \<Rightarrow> Some (rs_error 404 Not_an_api_path, s)
        | Some rt \<Rightarrow> handle_route E req rt s))"

text \<open>The bearer token of a request, from its \<open>Authorization\<close> header.\<close>

definition bearer_of :: "string option \<Rightarrow> string option" where
  "bearer_of header = Option.bind header (\<lambda>v. map_option rust_trim (strip_prefix ''Bearer '' v))"

definition respond ::
  "('b, 'f, 'n) env \<Rightarrow> string \<Rightarrow> string \<Rightarrow> string option \<Rightarrow> bytes \<Rightarrow> ('b, 'f) shared \<Rightarrow> ('n response \<times> ('b, 'f) shared) option" where
  "respond E meth url header body s = handle E ((request_new meth url body)\<lparr>rq_bearer := bearer_of header\<rparr>) s"

end
