(* ===== verification/WebFacts.thy ===== *)
theory WebFacts
  imports WebApi Client
begin

text \<open>
  What the API may do to the bus. The contract a handler relies on is a locale over the operations of
  \<open>BusOps\<close>: whatever property of the bus its asking operations keep, every request but the PUT of a
  value keeps; and a PUT on an output that events drive keeps it when switching on does. Both are
  interpreted on the client's calls, which gives what goes on the wire.
\<close>

section \<open>Asking\<close>

lemma bind_someE: "Option.bind x f = Some y \<Longrightarrow> (\<And>r s. x = Some (r, s) \<Longrightarrow> f (r, s) = Some y \<Longrightarrow> Q) \<Longrightarrow> Q"
  by (cases x) auto

locale asking_bus =
  fixes E :: "('b, 'f, 'n) env" and P :: "'b \<Rightarrow> bool"
  assumes discover: "op_discover_menu (en_ops E) addr m b = Some (r1, b') \<Longrightarrow> P b \<Longrightarrow> P b'"
    and info: "op_field_info (en_ops E) addr fid b = Some (r2, b') \<Longrightarrow> P b \<Longrightarrow> P b'"
    and reads: "op_read (en_ops E) addr fid b = Some (r3, b') \<Longrightarrow> P b \<Longrightarrow> P b'"
    and outputs: "op_outputs (en_ops E) addr b = Some (r4, b') \<Longrightarrow> P b \<Longrightarrow> P b'"
begin

abbreviation keeps :: "('b, 'f) shared \<Rightarrow> bool" where
  "keeps s \<equiv> P (sh_bus s)"

lemma on_bus_keeps:
  "on_bus f s = Some (r, s') \<Longrightarrow> (\<And>x b'. f (sh_bus s) = Some (x, b') \<Longrightarrow> P b') \<Longrightarrow> keeps s'"
  by (auto simp: on_bus_def)

lemma ops_keep:
  "on_bus (op_discover_menu (en_ops E) addr m) s = Some (r1, s') \<Longrightarrow> keeps s \<Longrightarrow> keeps s'"
  "on_bus (op_field_info (en_ops E) addr fid) s = Some (r2, s') \<Longrightarrow> keeps s \<Longrightarrow> keeps s'"
  "on_bus (op_read (en_ops E) addr fid) s = Some (r3, s') \<Longrightarrow> keeps s \<Longrightarrow> keeps s'"
  "on_bus (op_outputs (en_ops E) addr) s = Some (r4, s') \<Longrightarrow> keeps s \<Longrightarrow> keeps s'"
  by (erule on_bus_keeps, erule (1) discover info reads outputs)+

lemma keeps_merge [simp]: "sh_bus (merge_into addr m gs s) = sh_bus s"
  by (simp add: merge_into_def)

lemma discover_wanted_keeps: "discover_wanted E ws s = Some s' \<Longrightarrow> keeps s \<Longrightarrow> keeps s'"
proof (induction ws arbitrary: s)
  case (Cons w ws)
  obtain addr m where w: "w = (addr, m)" by (cases w)
  obtain r s1 where r: "on_bus (op_discover_menu (en_ops E) addr m) s = Some (r, s1)"
    using Cons.prems(1) unfolding w by (auto split: option.splits)
  have "keeps (case r of Inr gs \<Rightarrow> merge_into addr m gs s1 | Inl e \<Rightarrow> s1)"
    using ops_keep(1) [OF r Cons.prems(2)] by (simp split: sum.split)
  with Cons.IH Cons.prems(1) r show ?case by (simp add: w)
qed simp

lemma ask_fields_keeps: "ask_fields E addr fids s = Some (fs, s') \<Longrightarrow> keeps s \<Longrightarrow> keeps s'"
proof (induction fids arbitrary: s fs)
  case (Cons fid fids)
  let ?s = "s\<lparr>sh_asked := insert (addr, fid) (sh_asked s)\<rparr>"
  obtain r s1 where r: "on_bus (op_field_info (en_ops E) addr fid) ?s = Some (r, s1)"
    using Cons.prems(1) by (auto split: option.splits)
  have "keeps s1" by (rule ops_keep(2) [OF r]) (use Cons.prems(2) in simp)
  then show ?case using Cons.IH [of s1] Cons.prems(1) r by auto
qed simp

lemma ask_unlisted_keeps: "ask_unlisted E addr fids s = Some (fs, s') \<Longrightarrow> keeps s \<Longrightarrow> keeps s'"
proof (induction fids arbitrary: s fs)
  case (Cons fid fids)
  obtain r s1 where r: "on_bus (op_field_info (en_ops E) addr fid) s = Some (r, s1)"
    using Cons.prems(1) by (auto split: option.splits)
  have "keeps s1" by (rule ops_keep(2) [OF r Cons.prems(2)])
  then show ?case using Cons.IH [of s1] Cons.prems(1) r by auto
qed simp

lemma ask_wanted_keeps: "ask_wanted E ws s = Some s' \<Longrightarrow> keeps s \<Longrightarrow> keeps s'"
proof (induction ws arbitrary: s)
  case (Cons w ws)
  obtain addr fids where w: "w = (addr, fids)" by (cases w)
  obtain fs s1 where r: "ask_fields E addr fids s = Some (fs, s1)"
    using Cons.prems(1) unfolding w by (auto split: option.splits)
  have "keeps (if fs = [] then s1 else merge_into addr MENU [own_group [] fs] s1)"
    using ask_fields_keeps [OF r Cons.prems(2)] by simp
  with Cons.IH Cons.prems(1) r show ?case by (simp add: w)
qed simp

lemma ensure_menus_keeps: "ensure_menus E m s = Some s' \<Longrightarrow> keeps s \<Longrightarrow> keeps s'"
  by (auto simp: ensure_menus_def ensure_fields_def Option.bind_eq_Some_conv dest: discover_wanted_keeps ask_wanted_keeps)

lemma ensure_outputs_keeps:
  assumes "ensure_outputs E addr s = Some s'" and "keeps s"
  shows "keeps s'"
proof (cases "outputs_fresh E addr s")
  case True
  with assms show ?thesis by (simp add: ensure_outputs_def)
next
  case False
  then obtain r s1 where r: "on_bus (op_outputs (en_ops E) addr) s = Some (r, s1)"
    and rest: "(case r of Inl e \<Rightarrow> Some s1
      | Inr os \<Rightarrow> (case find (\<lambda>d. dr_id d = addr) (sh_devices s1) of None \<Rightarrow> Some s1
         | Some d \<Rightarrow> do {
             (found, s2) \<leftarrow> ask_unlisted E addr (filter (\<lambda>fid. dr_field d fid = None) os) s1;
             let s3 = (if found = [] then s2 else merge_into addr MENU [own_group ''Outputs'' found] s2);
             Some (s3\<lparr>sh_outputs := (sh_outputs s3)(addr \<mapsto> (os, op_clock (en_ops E) (sh_bus s3)))\<rparr>)})) = Some s'"
    using assms(1) by (auto simp: ensure_outputs_def Option.bind_eq_Some_conv)
  have s1: "keeps s1" by (rule ops_keep(4) [OF r assms(2)])
  show ?thesis
    using rest s1 by (auto simp: Option.bind_eq_Some_conv Let_def dest!: ask_unlisted_keeps split: sum.splits option.splits if_splits)
qed

lemma event_only_keeps: "event_only E addr f s = Some (b, s') \<Longrightarrow> keeps s \<Longrightarrow> keeps s'"
  by (auto simp: event_only_def is_output_def split: if_splits dest: ensure_outputs_keeps)

lemma adopt_keeps:
  assumes "adopt E m s = Some (r, s')" and "keeps s"
  shows "keeps s'"
proof -
  obtain p s1 where p: "persist E m s = (p, s1)" by (cases "persist E m s")
  have s1: "keeps s1" using p assms(2) by (auto simp: persist_def Let_def case_prod_beta split: option.splits)
  show ?thesis
    using assms(1) s1 p by (auto simp: adopt_def Let_def split: sum.splits dest!: ensure_menus_keeps)
qed

lemma api_device_keeps:
  assumes "api_device E serial menu_arg s = Some (resp, s')" and "keeps s"
  shows "keeps s'"
proof -
  obtain s1 where s1: "(case find_serial serial s of Some d \<Rightarrow> ensure_outputs E (dr_id d) s | None \<Rightarrow> Some s) = Some s1"
    using assms(1) by (auto simp: api_device_def Option.bind_eq_Some_conv)
  then have k: "keeps s1" using assms(2) ensure_outputs_keeps by (auto split: option.splits)
  show ?thesis
    using assms(1) k unfolding api_device_def s1 Option.bind.simps
    by (auto simp: Let_def elim!: bind_someE split: option.splits if_splits sum.splits) (erule ops_keep(1), assumption)+
qed

lemma api_read_field_keeps:
  "api_read_field E serial key s = Some (resp, s') \<Longrightarrow> keeps s \<Longrightarrow> keeps s'"
  by (auto simp: api_read_field_def Let_def elim!: bind_someE split: sum.splits; erule (1) ops_keep)

lemma api_put_mapping_keeps: "api_put_mapping E body s = Some (resp, s') \<Longrightarrow> keeps s \<Longrightarrow> keeps s'"
  by (auto simp: api_put_mapping_def elim!: bind_someE split: sum.splits if_splits dest: adopt_keeps)

lemma api_validate_keeps: "api_validate E body s = Some (resp, s') \<Longrightarrow> keeps s \<Longrightarrow> keeps s'"
  by (auto simp: api_validate_def Let_def elim!: bind_someE split: sum.splits if_splits dest: event_only_keeps)

lemma api_apply_article_keeps: "api_apply_article E body s = Some (resp, s') \<Longrightarrow> keeps s \<Longrightarrow> keeps s'"
  by (auto simp: api_apply_article_def Let_def elim!: bind_someE split: sum.splits option.splits if_splits prod.splits dest: adopt_keeps)

lemma asking_route_keeps:
  "handle_route E req rt s = Some (resp, s') \<Longrightarrow> (\<And>serial key. rt \<noteq> Put_value serial key) \<Longrightarrow> keeps s \<Longrightarrow> keeps s'"
  by (cases rt)
     (auto simp: handle_route_def dest: api_device_keeps api_read_field_keeps api_put_mapping_keeps api_validate_keeps
        api_apply_article_keeps)

text \<open>The first part of a PUT, up to the choice between switching and writing, only asks.\<close>

lemma api_write_field_start:
  assumes "api_write_field E serial key body s = Some (resp, s')" and "keeps s"
  obtains "keeps s'"
  | wb d f v evt s2 where "en_write_body E body = Inr wb" and "locate serial key s = (Inr (d, f) :: 'n response + device_rec \<times> field_rec)" and "keeps s2"
      and "\<exists>s1 v0. on_bus (op_read (en_ops E) (dr_id d) (fr_id f)) s = Some (Inr v0, s1) \<and> event_only E (dr_id d) f s1 = Some (evt, s2)"
      and "(if evt then switch_output E (mapping_field (sh_mapping s) serial (fr_id f)) d f v (put_plan (mapping_field (sh_mapping s) serial (fr_id f)) f) s2
            else write_with_login E (wb_login wb) d f v (put_plan (mapping_field (sh_mapping s) serial (fr_id f)) f) s2) = Some (resp, s')"
proof (cases "en_write_body E body")
  case (Inl e)
  with assms show ?thesis using that(1) by (simp add: api_write_field_def)
next
  case wb: (Inr wb)
  show ?thesis
  proof (cases "locate serial key s :: 'n response + device_rec \<times> field_rec")
    case (Inl r)
    with assms wb show ?thesis using that(1) by (simp add: api_write_field_def)
  next
    case df: (Inr x)
    obtain d f where x: "x = (d, f)" by (cases x)
    let ?entry = "mapping_field (sh_mapping s) serial (fr_id f)"
    let ?cit = "put_plan ?entry f"
    obtain r s1 where r: "on_bus (op_read (en_ops E) (dr_id d) (fr_id f)) s = Some (r, s1)"
      and rest: "(case r of Inl e \<Rightarrow> Some (rs_error 502 (Reading_before_write (fr_name f) e), s1)
        | Inr v0 \<Rightarrow>
            (case decode (en_num E) (wb_value wb) (with_options v0 (fr_options f)) (fst ?cit) (fst (snd ?cit)) (snd (snd ?cit)) of
               Inl e \<Rightarrow> Some (rs_error 400 (Decode_failed e), s1)
             | Inr v \<Rightarrow> do {
                 (evt, s2) \<leftarrow> event_only E (dr_id d) f s1;
                 (if evt then switch_output E ?entry d f v ?cit s2 else write_with_login E (wb_login wb) d f v ?cit s2)
               })) = Some (resp, s')"
      using assms(1) wb df x by (auto simp: api_write_field_def Let_def elim!: bind_someE)
    have s1: "keeps s1" by (rule ops_keep(3) [OF r assms(2)])
    show ?thesis
    proof (cases r)
      case (Inl e)
      with rest s1 show ?thesis using that(1) by simp
    next
      case v0: (Inr v0)
      show ?thesis
      proof (cases "decode (en_num E) (wb_value wb) (with_options v0 (fr_options f)) (fst ?cit) (fst (snd ?cit)) (snd (snd ?cit))")
        case (Inl e)
        with rest s1 v0 show ?thesis using that(1) by simp
      next
        case (Inr v)
        then obtain evt s2 where e: "event_only E (dr_id d) f s1 = Some (evt, s2)"
          and last: "(if evt then switch_output E ?entry d f v ?cit s2 else write_with_login E (wb_login wb) d f v ?cit s2) = Some (resp, s')"
          using rest v0 by (auto elim!: bind_someE)
        have "keeps s2" by (rule event_only_keeps [OF e s1])
        then show ?thesis using that(2) [of wb d f s2 evt v] wb df x r v0 e last by blast
      qed
    qed
  qed
qed

end

section \<open>Switching on\<close>

locale switching_bus = asking_bus E P for E :: "('b, 'f, 'n) env" and P +
  fixes dev :: u32 and fld :: field_id
  assumes switch_on: "op_set_output (en_ops E) dev fld True b = Some (r5, b') \<Longrightarrow> P b \<Longrightarrow> P b'"
begin

lemma switch_output_keeps:
  assumes "switch_output E entry d f v cit s = Some (resp, s')" and "keeps s"
    and "\<And>e. entry = Some e \<Longrightarrow> \<not> fm_allow_off e" and "dr_id d = dev" "fr_id f = fld"
  shows "keeps s'"
proof (cases "switched_on v")
  case None
  with assms show ?thesis by (simp add: switch_output_def)
next
  case (Some on)
  show ?thesis
  proof (cases on)
    case False
    with assms Some show ?thesis by (auto simp: switch_output_def split: option.splits)
  next
    case True
    obtain r s1 where r: "on_bus (op_set_output (en_ops E) (dr_id d) (fr_id f) True) s = Some (r, s1)"
      and s': "(case r of Inr applied \<Rightarrow> api_written E d f applied cit s1
        | Inl e \<Rightarrow> (rs_error 502 (Switching (fr_name f) e), s1)) = (resp, s')"
      using assms(1) Some True by (auto simp: switch_output_def elim!: bind_someE)
    have "keeps s1" using on_bus_keeps [OF r] switch_on assms(2,4,5) by blast
    then show ?thesis using s' by (cases r) (auto simp: api_written_def Let_def case_prod_beta)
  qed
qed

text \<open>An output the mapping does not let be switched off, that is known to be one.\<close>

lemma event_output_keeps:
  assumes "api_write_field E serial key body s = Some (resp, s')" and "keeps s"
    and "locate serial key s = (Inr (d, f) :: 'n response + device_rec \<times> field_rec)" and "dr_id d = dev" "fr_id f = fld"
    and "\<And>e. mapping_field (sh_mapping s) serial (fr_id f) = Some e \<Longrightarrow> \<not> fm_allow_off e"
    and "unlabeled (fr_options f) \<or>
      (\<not> fr_writable f \<and> (\<exists>os since. sh_outputs s (dr_id d) = Some (os, since) \<and> fr_id f \<in> set os))"
  shows "keeps s'"
  using assms(1,2)
proof (cases rule: api_write_field_start)
  case 1
  then show ?thesis .
next
  case (2 wb d' f' v evt s2)
  have df: "d' = d" "f' = f" using 2(2) assms(3) by auto
  obtain s1 v0 where r: "on_bus (op_read (en_ops E) (dr_id d) (fr_id f)) s = Some (Inr v0, s1)"
    and e: "event_only E (dr_id d) f s1 = Some (evt, s2)" using 2(4) df by blast
  have "sh_outputs s1 = sh_outputs s" using r by (auto simp: on_bus_def)
  then have evt
    using e assms(7) by (auto simp: event_only_def event_only_field_def is_output_def ensure_outputs_def outputs_fresh_def split: if_splits)
  with 2(5) df show ?thesis using switch_output_keeps [OF _ 2(3) assms(6,4,5)] by simp
qed

end

section \<open>On the client's calls\<close>

text \<open>A call that asks is calm, so behind the client the handlers that ask are.\<close>

lemma calm_call_for: "call_for f cmd s = Some y \<Longrightarrow> asking cmd \<Longrightarrow> calm a s \<Longrightarrow> calm a (snd y)"
  by (auto simp: call_for_def dest: calm_engine_call)

lemma calm_tab_info: "tab_info addr m s = Some y \<Longrightarrow> calm a s \<Longrightarrow> calm a (snd y)"
  by (auto simp: tab_info_def Option.bind_eq_Some_conv dest: calm_ensure_menu)

lemma calm_asking_calls:
  "engine_field_info addr fid s = Some y1 \<Longrightarrow> calm a s \<Longrightarrow> calm a (snd y1)"
  "field_value addr fid s = Some y2 \<Longrightarrow> calm a s \<Longrightarrow> calm a (snd y2)"
  "engine_eventable_outputs addr s = Some y3 \<Longrightarrow> calm a s \<Longrightarrow> calm a (snd y3)"
  by (auto simp: engine_field_info_def field_value_def engine_read_def engine_eventable_outputs_def
      split: option.splits dest!: calm_call_for)

lemma masterbus_ops_sel [simp]:
  "op_discover_menu (masterbus_ops link) = tab_info" "op_field_info (masterbus_ops link) = engine_field_info"
  "op_read (masterbus_ops link) = field_value" "op_outputs (masterbus_ops link) = engine_eventable_outputs"
  "op_set_output (masterbus_ops link) = field_set_output" "op_write (masterbus_ops link) = field_set"
  "op_login (masterbus_ops link) = login" "op_clock (masterbus_ops link) = b_clock"
  by (simp_all add: masterbus_ops_def)

interpretation http: asking_bus "E\<lparr>en_ops := masterbus_ops link\<rparr>" "calm a" for E :: "(sched, 'f, 'n) env" and link a
  by unfold_locales (auto dest: calm_tab_info calm_asking_calls)

text \<open>The frames that switch an output on, and what was sent when nothing but those and asking ones were.\<close>

definition switches_on :: "u32 \<Rightarrow> field_id \<Rightarrow> u32 \<Rightarrow> frame \<Rightarrow> bool" where
  "switches_on addr fid bus_id f \<longleftrightarrow>
     f \<in> {encode_set_boolean addr (field_id_index fid) True, encode_commit addr (field_id_index (fid + 1)) bus_id,
          value_write_raw Configuration addr (field_id_index fid) f32_one}"

definition gentle :: "u32 \<Rightarrow> field_id \<Rightarrow> sched \<Rightarrow> sched \<Rightarrow> bool" where
  "gentle addr fid a s \<longleftrightarrow> sched_bus_id s = sched_bus_id a \<and>
     (\<exists>new. b_sent s = b_sent a @ new \<and> list_all (\<lambda>x. read_only (snd x) \<or> switches_on addr fid (sched_bus_id a) (snd x)) new)"

lemma gentle_refl [simp]: "gentle addr fid s s"
  by (simp add: gentle_def)

lemma gentleI:
  "sched_bus_id s = sched_bus_id a \<Longrightarrow> b_sent s = b_sent a @ new \<Longrightarrow>
   list_all (\<lambda>x. read_only (snd x) \<or> switches_on addr fid (sched_bus_id a) (snd x)) new \<Longrightarrow> gentle addr fid a s"
  by (auto simp: gentle_def)

lemma gentle_trans:
  assumes "gentle addr fid a b" and "gentle addr fid b c"
  shows "gentle addr fid a c"
proof -
  let ?P = "list_all (\<lambda>x. read_only (snd x) \<or> switches_on addr fid (sched_bus_id a) (snd x))"
  obtain m n where "b_sent b = b_sent a @ m" "?P m" "b_sent c = b_sent b @ n" "?P n"
    and id: "sched_bus_id c = sched_bus_id a" using assms by (auto simp: gentle_def)
  then show ?thesis by (intro gentleI [OF id, of "m @ n"]) simp_all
qed

lemma sched_bus_id_cong:
  "sc_config s = sc_config t \<Longrightarrow> sc_random s = sc_random t \<Longrightarrow> sched_bus_id s = sched_bus_id t"
  by (simp add: sched_bus_id_def split: option.split)

lemma gentle_calm:
  assumes "calm a b"
  shows "gentle addr fid a b"
proof -
  obtain new where "b_sent b = b_sent a @ new" "list_all (\<lambda>x. read_only (snd x)) new"
    using assms by (auto simp: calm_def)
  moreover have "sched_bus_id b = sched_bus_id a" using assms by (auto simp: calm_def intro: sched_bus_id_cong)
  ultimately show ?thesis by (auto intro: gentleI elim: list.pred_mono_strong)
qed

lemma gentle_write_on:
  assumes "do_write between1 addr fid (WBool True) s = Some (r, s')"
  shows "gentle addr fid s s'"
proof (cases "write_frames addr fid (WBool True) s")
  case (Inl e)
  with assms show ?thesis by (simp add: do_write_frames)
next
  case (Inr frames)
  have c: "confirm_write between1 addr fid (WBool True) (fold sched_send frames s) = Some (r, s')"
    using assms Inr by (simp add: do_write_frames)
  obtain w where w: "b_sent (fold sched_send frames s) = b_sent s @ w" "map snd w = frames"
    using fold_sched_send by metis
  have "list_all (switches_on addr fid (sched_bus_id s)) frames"
    using Inr by (auto simp: write_frames_def switches_on_def Let_def split: menu.splits option.splits)
  then have on: "list_all (\<lambda>x. switches_on addr fid (sched_bus_id s) (snd x)) w"
    unfolding w(2) [symmetric] by (simp add: list.pred_map comp_def)
  have "sched_bus_id (fold sched_send fs t) = sched_bus_id t" for fs t
    by (induction fs arbitrary: t) (simp_all add: sched_bus_id_cong [of "sched_send f t" t for f t])
  then have "gentle addr fid s (fold sched_send frames s)"
    using w(1) on by (auto simp: gentle_def elim: list.pred_mono_strong)
  moreover have "calm (fold sched_send frames s) s'" using q1.calm_confirm [OF c calm_refl] by simp
  ultimately show ?thesis by (blast intro: gentle_trans gentle_calm)
qed

lemma gentle_set_output_on:
  assumes "do_set_output between1 addr fid True s = Some (r, s')"
  shows "gentle addr fid s s'"
proof -
  obtain os s1 where o: "do_eventable_outputs between1 addr s = Some (os, s1)"
    and rest: "(if fid \<notin> set os then Some (Inl (NotAnOutput (int (unat fid))), s1)
        else do {
          (f, s2) \<leftarrow> do_discover_field between1 addr fid s1;
          (case f of
             None \<Rightarrow> Some (Inl (FieldNotAvailable (int (unat fid))), s2)
           | Some _ \<Rightarrow> do_write between1 addr fid (WBool True) s2)
        }) = Some (r, s')"
    using assms unfolding do_set_output_def by (elim bind_someE) simp
  have g1: "gentle addr fid s s1" using q1.calm_outs [OF o calm_refl] by (simp add: gentle_calm)
  show ?thesis
  proof (cases "fid \<in> set os")
    case False
    with rest g1 show ?thesis by simp
  next
    case True
    then obtain f s2 where f: "do_discover_field between1 addr fid s1 = Some (f, s2)"
      and last: "(case f of
             None \<Rightarrow> Some (Inl (FieldNotAvailable (int (unat fid))), s2)
           | Some _ \<Rightarrow> do_write between1 addr fid (WBool True) s2) = Some (r, s')"
      using rest by (simp del: split_paired_Ex) (elim bind_someE, simp)
    have "gentle addr fid s1 s2" using q1.calm_do_field [OF f calm_refl] by (simp add: gentle_calm)
    moreover have "gentle addr fid s2 s'" using last by (cases f) (auto dest: gentle_write_on)
    ultimately show ?thesis using g1 by (blast intro: gentle_trans)
  qed
qed

lemma gentle_field_set_output:
  assumes "field_set_output addr fid True s = Some (r, s')" and "gentle addr fid a s"
  shows "gentle addr fid a s'"
proof -
  obtain r0 s1 s2 where r: "do_set_output between1 addr fid True s = Some (r0, s1)"
    and p: "process_due (maybe_heartbeat s1) = Some s2" and s': "s' = s2"
    using assms(1)
    by (auto simp: field_set_output_def engine_set_output_def call_for_def engine_call_def Option.bind_eq_Some_conv)
  have "calm s1 s2" by (rule calm_process_due [OF p]) (intro calm_maybe_heartbeat calm_refl)
  with gentle_set_output_on [OF r] assms(2) show ?thesis unfolding s' by (blast intro: gentle_trans gentle_calm)
qed

interpretation switching: switching_bus "E\<lparr>en_ops := masterbus_ops link\<rparr>" "gentle addr fid a" addr fid
  for E :: "(sched, 'f, 'n) env" and link addr fid a
  by unfold_locales
     (auto dest!: calm_tab_info [OF _ calm_refl] calm_asking_calls [OF _ calm_refl] gentle_calm intro: gentle_trans
        elim: gentle_field_set_output)

end
