(* ===== verification/WebProps.thy ===== *)
theory WebProps
  imports WebFacts
begin

text \<open>
  What a request to the API can do to the bus behind the client: which requests write, what a PUT on an
  output that events drive sends, and what a PUT makes of an entry under a key written by hand.
\<close>

section \<open>Which requests write\<close>

lemma put_value_only_by_put: "route_of meth seg = Put_value serial key \<Longrightarrow> meth = ''PUT''"
  by (auto simp: route_of_def Let_def split: if_splits)

text \<open>C9. Only a \<open>PUT\<close> of a field's value can write to the bus. A request without the daemon's token is
  refused and nothing changes, and every other request, whatever it asks of the devices on its way
  (discovering menus, reading fields, looking for outputs), sends frames that only ask.\<close>

theorem http_only_puts_write:
  assumes "handle (E\<lparr>en_ops := masterbus_ops link\<rparr>) req s = Some (resp, s')"
  shows "if sh_token s \<noteq> None \<and> rq_bearer req \<noteq> sh_token s then resp = rs_error 401 Wrong_token \<and> s' = s
    else (rq_method req = ''PUT'' \<and> (\<exists>serial key. request_route req = Some (Put_value serial key))) \<or>
      (\<exists>new. b_sent (sh_bus s') = b_sent (sh_bus s) @ new \<and> (\<forall>x \<in> set new. read_only (snd x)))"
proof (cases "(sh_token s \<noteq> None \<and> rq_bearer req \<noteq> sh_token s) \<or> request_route req = None")
  case True
  with assms show ?thesis by (auto simp: handle_def split: if_splits)
next
  case False
  then obtain rt where rt: "request_route req = Some rt"
    and h: "handle_route (E\<lparr>en_ops := masterbus_ops link\<rparr>) req rt s = Some (resp, s')"
    using assms by (auto simp: handle_def)
  show ?thesis
  proof (cases "\<exists>serial key. rt = Put_value serial key")
    case True
    then have "rq_method req = ''PUT''"
      using rt by (auto simp: request_route_def dest: put_value_only_by_put)
    with True False rt show ?thesis by auto
  next
    case f: False
    have "calm (sh_bus s) (sh_bus s')" using http.asking_route_keeps [OF h _ calm_refl] f by blast
    then have "\<exists>new. b_sent (sh_bus s') = b_sent (sh_bus s) @ new \<and> (\<forall>x \<in> set new. read_only (snd x))"
      unfolding calm_def list_all_iff by blast
    then show ?thesis using False by auto
  qed
qed

section \<open>A daemon to evaluate on\<close>

text \<open>One device with an output that the client knows and a value of it just read; the numbers of JSON
  are integers, and no parser accepts anything but the write of \<open>true\<close>.\<close>

definition lamp_bus :: sched where
  "lamp_bus = upd_state (put_value 1000 0x1234 5 (Boolean False)) (switch_start\<lparr>sc_outputs := [0x1234 \<mapsto> [5]]\<rparr>)"

definition lamp_field :: field_rec where
  "lamp_field = \<lparr>fr_id = 5, fr_name = ''Switch'', fr_unit = [], fr_options = [], fr_writable = False,
     fr_menu = Monitoring, fr_group = ''Outputs''\<rparr>"

definition lamp_device :: device_rec where
  "lamp_device = \<lparr>dr_id = 0x1234, dr_serial = ''A1'', dr_article = ''77'', dr_name = ''DSI Lamp'', dr_firmware = ''1.0'',
     dr_instance = ''lamp'', dr_fields = [lamp_field], dr_menus = [Monitoring]\<rparr>"

definition int_num :: "int json_num" where
  "int_num = \<lparr>num_from_f64 = (\<lambda>x. None), num_as_f64 = (\<lambda>n. None), num_as_u64 = (\<lambda>n. None), num_of_int = id\<rparr>"

definition put_true :: "bytes \<Rightarrow> string + int write_body" where
  "put_true body = Inr \<lparr>wb_value = JBool True, wb_login = None\<rparr>"

definition lamp_env :: "(sched, unit, int) env" where
  "lamp_env = \<lparr>en_ops = masterbus_ops True, en_save = (\<lambda>p m fs. (Inr (), fs)), en_num = int_num, en_write_body = put_true,
     en_mapping = (\<lambda>b. Inl []), en_field_ref = (\<lambda>b. Inl []), en_validate_body = (\<lambda>b. Inl []), en_serial_ref = (\<lambda>b. Inl []),
     en_shortest = (\<lambda>x. 0), en_catalog = [], en_lower = id\<rparr>"

definition lamp_state :: "(sched, unit) shared" where
  "lamp_state = \<lparr>sh_bus = lamp_bus, sh_devices = [lamp_device], sh_mapping = mapping_new, sh_diagnostics = [], sh_values = Map.empty,
     sh_mapping_path = None, sh_files = (), sh_reloads = 0, sh_started = 0,
     sh_info = \<lparr>in_transport = [], in_stream = [], in_api = []\<rparr>, sh_token = None, sh_streaming = 0, sh_clients = 0,
     sh_asked = {}, sh_outputs = [0x1234 \<mapsto> ([5], 0)], sh_timeline = \<lparr>tl_walked = None, tl_devices = Map.empty\<rparr>\<rparr>"

text \<open>Without subscriptions the polling pass does nothing; the value of the lamp is fresh.\<close>

lemma process_due_none: "sc_subs s = [] \<Longrightarrow> \<not> sc_servicing s \<Longrightarrow> process_due s = Some s"
  by (simp add: process_due_def poll_due_def due_work_def plan_new_def poll_values_def poll_loop.simps Let_def)

lemma lamp_bus_simps [simp]:
  "sc_subs lamp_bus = []" "sc_servicing lamp_bus = False" "sc_config lamp_bus = config_default" "b_clock lamp_bus = 1000"
  "sc_outputs lamp_bus = [0x1234 \<mapsto> [5]]" "b_sent lamp_bus = []" "sc_random lamp_bus = 7"
  "get_value 0x1234 5 (b_state lamp_bus) = Some \<lparr>cv_value = Boolean False, cv_at = 1000, cv_outdated = False\<rparr>"
  "state_field_info 0x1234 5 (b_state lamp_bus) = Some a_switch"
  by (simp_all add: lamp_bus_def switch_start_def quiet_start_def sched_start_def upd_state_def get_value_def put_value_def
      entry_or_new_def put_extra_field_def state_field_info_def device_entry_new_def a_switch_def)

lemma lamp_read: "field_value 0x1234 5 lamp_bus = Some (Inr (Boolean False), lamp_bus)"
  by (simp add: field_value_def engine_read_def call_for_def engine_call_def do_read_def maybe_heartbeat_def
      config_default_def process_due_none)

lemma lamp_switched: "\<exists>r s'. field_set_output 0x1234 5 True lamp_bus = Some (r, s')"
proof -
  have "\<exists>r s'. do_write between1 0x1234 5 (WBool True) lamp_bus = Some (r, s') \<and> sc_subs s' = []"
  proof (cases "write_frames 0x1234 5 (WBool True) lamp_bus")
    case (Inl e)
    then show ?thesis by (simp add: do_write_def)
  next
    case (Inr frames)
    have "knows 0x1234 5 a_switch (fold sched_send frames lamp_bus)"
      by (rule knows_fold_send) (simp add: knows_def)
    from confirm_write_returns [OF this _ refl, of between1 "WBool True"]
    obtain r s' where "confirm_write between1 0x1234 5 (WBool True) (fold sched_send frames lamp_bus) = Some (r, s')"
      "sc_subs s' = sc_subs (fold sched_send frames lamp_bus)" by (auto simp: a_switch_def)
    moreover have "sc_subs (fold sched_send fs t) = sc_subs t" for fs t by (induction fs arbitrary: t) simp_all
    ultimately show ?thesis using Inr by (simp add: do_write_def)
  qed
  then obtain r s' where w: "do_write between1 0x1234 5 (WBool True) lamp_bus = Some (r, s')" "sc_subs s' = []" by blast
  then have "sc_subs (maybe_heartbeat s') = []" by (simp add: maybe_heartbeat_def Let_def split: option.split)
  then obtain s2 where "process_due (maybe_heartbeat s') = Some s2" using process_due_idle by blast
  then show ?thesis
    by (simp add: field_set_output_def engine_set_output_def call_for_def engine_call_def do_set_output_def
        do_eventable_outputs_def do_discover_field_def w(1))
qed

lemma lamp_state_simps [simp]:
  "sh_bus lamp_state = lamp_bus" "sh_outputs lamp_state = [0x1234 \<mapsto> ([5], 0)]" "sh_mapping lamp_state = mapping_new"
  "sh_token lamp_state = None"
  by (simp_all add: lamp_state_def)

lemma locate_lamp: "locate ''A1'' ''0x005'' lamp_state = (Inr (lamp_device, lamp_field) :: 'n response + device_rec \<times> field_rec)"
proof -
  have "''0x005'' = field_key 5" by code_simp
  then have "parse_field_key ''0x005'' = Some 5" using parse_field_key_key by metis
  then show ?thesis
    by (simp add: locate_def find_serial_def lamp_state_def lamp_device_def dr_field_def lamp_field_def)
qed

lemma lamp_not_mapped: "mapping_field mapping_new serial fid = None"
  by (simp add: mapping_field_def mapping_new_def)

lemma lamp_put:
  "\<exists>resp s'. api_write_field lamp_env ''A1'' ''0x005'' body lamp_state = Some (resp, s')"
proof -
  obtain r b where "field_set_output 0x1234 5 True lamp_bus = Some (r, b)" using lamp_switched by blast
  then show ?thesis
    by (simp add: api_write_field_def lamp_env_def put_true_def locate_lamp lamp_not_mapped on_bus_def lamp_read lamp_device_def
        lamp_field_def put_plan_def event_only_def event_only_field_def is_output_def ensure_outputs_def
        outputs_fresh_def switch_output_def unlabeled_def)
qed

section \<open>Outputs that events drive\<close>



text \<open>The same daemon asked for the status of the lamp.\<close>

lemma http_only_puts_write_witness:
  "\<exists>resp s'. handle lamp_env (request_new ''GET'' ''/api/devices/A1/fields/0x005/value'' []) lamp_state = Some (resp, s') \<and>
    (\<exists>new. b_sent (sh_bus s') = new \<and> (\<forall>x \<in> set new. read_only (snd x)))"
proof -
  let ?req = "request_new ''GET'' ''/api/devices/A1/fields/0x005/value'' []"
  have E: "lamp_env\<lparr>en_ops := masterbus_ops True\<rparr> = lamp_env" by (simp add: lamp_env_def)
  have m: "rq_method ?req = ''GET''" by code_simp
  have rt: "request_route ?req = Some (Get_value ''A1'' ''0x005'')" by code_simp
  obtain resp s' where h: "handle (lamp_env\<lparr>en_ops := masterbus_ops True\<rparr>) ?req lamp_state = Some (resp, s')"
    unfolding E by (simp add: handle_def rt handle_route_def api_read_field_def locate_lamp on_bus_def lamp_env_def
        lamp_device_def lamp_field_def lamp_read)
  from http_only_puts_write [OF h] h m show ?thesis by (simp add: E)
qed

section \<open>Keys written by hand\<close>

text \<open>C14. A field may be named in the mapping in more ways than the one the tools write
  (\<open>0x6\<close> or \<open>006\<close> for \<open>0x006\<close>), and publishing takes them all. A PUT looks the
  entry up under the tools' spelling only: the field is published by its entry's plan but written as if
  it had none, so an inverted switch is set to the opposite of the value sent, even when that is the
  very value it publishes.\<close>

theorem hand_written_key_put_unplanned:
  assumes "bt_get (mp_devices m) serial = Some dm" and "(key, fm) \<in> set (dm_fields dm)"
    and "bt_get (dm_fields dm) (field_key fid) = None"
    and "devices_by_serial devices serial = Some dev" and "entry_plan dev key fm = Inr (fid, f, p)"
  shows "emitted (resolve devices m) (dr_id dev, fid) \<noteq> None \<and>
    put_plan (mapping_field m serial fid) f = (conv_IDENTITY, False, []) \<and>
    (\<exists>j. encode N (Boolean b) (pl_conv p) (pl_invert p) (pl_truth p) = Some j \<and>
      decode N j (Boolean c) conv_IDENTITY False [] = Inr (Boolean (b \<noteq> fm_invert fm)))"
proof -
  have "(serial, dm) \<in> set (mp_devices m)" using assms(1) by (rule map_of_SomeD)
  then have "emitted (resolve devices m) (dr_id dev, fid) \<noteq> None"
    by (rule planned_entry_emitted [OF _ assms(2,4,5)])
  moreover have "pl_invert p = fm_invert fm"
    using assms(5) by (auto simp: entry_plan_def plan_def Let_def split: option.splits sum.splits if_splits)
  ultimately show ?thesis
    using assms(1,3) by (simp add: put_plan_def mapping_field_def)
qed

text \<open>The lamp as an inverted switch, mapped under the key \<open>5\<close>.\<close>

definition upside_field :: field_mapping where
  "upside_field = default_field\<lparr>fm_path := ''electrical.switches.lamp.state'', fm_invert := True, fm_put := True\<rparr>"

definition upside_entry :: device_mapping where
  "upside_entry = \<lparr>dm_article = ''77'', dm_firmware = ''1.0'', dm_name = ''DSI Lamp'', dm_instance = ''lamp'',
     dm_fields = [(''5'', upside_field)]\<rparr>"

definition upside_plan :: sk_plan where
  "upside_plan = \<lparr>pl_conv = conv_IDENTITY, pl_unit = None, pl_truth = [], pl_invert = True, pl_notify = [], pl_warning = None\<rparr>"

lemma key_5: "parse_field_key ''5'' = Some 5"
  by (simp add: parse_field_key_def rust_trim_visible visible_def from_str_radix_def hex_digit_val_def Let_def)

lemma upside_planned: "entry_plan lamp_device ''5'' upside_field = Inr (5, lamp_field, upside_plan)"
proof -
  have c: "check_path ''electrical.switches.lamp.state'' = Inr ()"
    by (rule publishable_check) (simp add: publishable_def split_dot_acc segment_char_def is_ascii_alnum_def needed_segments_def)
  have l: "leaf_is_boolean ''electrical.switches.lamp.state''" "leaf_unit ''electrical.switches.lamp.state'' = None"
    by (simp_all add: leaf_is_boolean_def leaf_unit_def leaf_of_def split_dot_acc starts_with_def)
  have n: "normalize [] = []" "to_si [] = None" by (simp_all add: normalize_def to_si_def rust_trim_visible)
  show ?thesis
    by (simp add: entry_plan_def key_5 lamp_device_def dr_field_def lamp_field_def upside_field_def default_field_def plan_def c l n
        plan_truth_def plan_units_def upside_plan_def)
qed

lemma hand_written_key_put_unplanned_witness:
  "put_plan (mapping_field \<lparr>mp_version = 1, mp_devices = [(''A1'', upside_entry)]\<rparr> ''A1'' 5) lamp_field = (conv_IDENTITY, False, []) \<and>
   (\<exists>j. encode int_num (Boolean True) (pl_conv upside_plan) (pl_invert upside_plan) (pl_truth upside_plan) = Some j \<and>
      decode int_num j (Boolean False) conv_IDENTITY False [] = Inr (Boolean False))"
proof -
  have k: "field_key 5 = ''0x005''" by code_simp
  have "bt_get (dm_fields upside_entry) (field_key 5) = None" "(''5'', upside_field) \<in> set (dm_fields upside_entry)"
    by (simp_all add: upside_entry_def k)
  moreover have "devices_by_serial [lamp_device] ''A1'' = Some lamp_device"
    by (simp add: devices_by_serial_def lamp_device_def)
  ultimately show ?thesis
    using hand_written_key_put_unplanned [of "\<lparr>mp_version = 1, mp_devices = [(''A1'', upside_entry)]\<rparr>" "''A1''" upside_entry
        "''5''" upside_field 5 "[lamp_device]" lamp_device lamp_field upside_plan int_num True False] upside_planned
    by (simp add: upside_field_def)
qed

end
