(* ===== verification/Daemon.thy ===== *)
theory Daemon
  imports WebApi
begin

text \<open>
  The daemon's start and its walk over the bus: the first half of
  \<open>crates/masterbus-tools/src/bin/masterbus-signalk.rs\<close>. The command line, the addresses it listens on,
  what it refuses to start with, the order devices are identified in, and the calendar of its timestamps.
  Help and version texts, log lines and the opening of listeners are left out.
\<close>

section \<open>The command line\<close>

record daemon_args =
  ag_stream :: "string option"
  ag_api :: "string option"
  ag_token_file :: "string option"
  ag_config_dir :: "string option"
  ag_fake_bus :: bool

definition no_args :: daemon_args where
  "no_args = \<lparr>ag_stream = None, ag_api = None, ag_token_file = None, ag_config_dir = None, ag_fake_bus = False\<rparr>"

datatype args_error =
  Help_asked | Version_asked | Needs_value string | Unknown_option string | Unexpected_argument string

definition set_flag :: "string \<Rightarrow> string \<Rightarrow> daemon_args \<Rightarrow> daemon_args" where
  "set_flag flag v g =
     (if flag = ''--stream'' then g\<lparr>ag_stream := Some v\<rparr>
      else if flag = ''--api'' then g\<lparr>ag_api := Some v\<rparr>
      else if flag = ''--api-token-file'' then g\<lparr>ag_token_file := Some v\<rparr>
      else g\<lparr>ag_config_dir := Some v\<rparr>)"

fun parse_args_from :: "daemon_args \<Rightarrow> string list \<Rightarrow> args_error + daemon_args" where
  "parse_args_from g [] = Inr g"
| "parse_args_from g (a # rest) =
     (if a = ''--help'' \<or> a = ''-h'' then Inl Help_asked
      else if a = ''--version'' \<or> a = ''-V'' then Inl Version_asked
      else if a \<in> {''--stream'', ''--api'', ''--api-token-file'', ''--config-dir''}
        then (case rest of [] \<Rightarrow> Inl (Needs_value a) | v # others \<Rightarrow> parse_args_from (set_flag a v g) others)
      else if a = ''--fake-bus'' then parse_args_from (g\<lparr>ag_fake_bus := True\<rparr>) rest
      else if starts_with ''-'' a then Inl (Unknown_option a)
      else if ag_stream g = None then parse_args_from (g\<lparr>ag_stream := Some a\<rparr>) rest
      else Inl (Unexpected_argument a))"

definition parse_args :: "string list \<Rightarrow> args_error + daemon_args" where
  "parse_args = parse_args_from no_args"

section \<open>Socket addresses\<close>

text \<open>\<open>SocketAddr::from_str\<close>, as far as \<open>is\_loopback\<close> looks: numbers without superfluous zeros in dotted
  addresses, groups of up to four hex digits in the others, one \<open>::\<close> for a run of zeros.\<close>

definition given_char :: "char \<Rightarrow> string \<Rightarrow> string option" where
  "given_char c s = (case s of x # xs \<Rightarrow> if x = c then Some xs else None | [] \<Rightarrow> None)"

definition digits_of :: "nat \<Rightarrow> string \<Rightarrow> string" where
  "digits_of r = takeWhile (\<lambda>c. case hex_digit_val c of Some d \<Rightarrow> d < r | None \<Rightarrow> False)"

definition read_number :: "nat \<Rightarrow> nat option \<Rightarrow> bool \<Rightarrow> nat \<Rightarrow> string \<Rightarrow> (nat \<times> string) option" where
  "read_number r most zeros limit s =
     (let ds = digits_of r s
      in if ds = [] \<or> (case most of Some m \<Rightarrow> m < length ds | None \<Rightarrow> False) \<or>
            (\<not> zeros \<and> hd ds = CHR ''0'' \<and> 1 < length ds) then None
         else (case radix_digits r 0 ds of
                 Some n \<Rightarrow> if n < limit then Some (n, drop (length ds) s) else None
               | None \<Rightarrow> None))"

definition read_octet :: "string \<Rightarrow> (nat \<times> string) option" where
  "read_octet = read_number 10 (Some 3) False 256"

definition read_ipv4 :: "string \<Rightarrow> (nat list \<times> string) option" where
  "read_ipv4 s =
     do {
       (a, s1) \<leftarrow> read_octet s;
       (b, s2) \<leftarrow> Option.bind (given_char (CHR ''.'') s1) read_octet;
       (c, s3) \<leftarrow> Option.bind (given_char (CHR ''.'') s2) read_octet;
       (d, s4) \<leftarrow> Option.bind (given_char (CHR ''.'') s3) read_octet;
       Some ([a, b, c, d], s4)
     }"

definition after_colon :: "nat \<Rightarrow> (string \<Rightarrow> 'a option) \<Rightarrow> string \<Rightarrow> 'a option" where
  "after_colon i p s = (if i = 0 then p s else Option.bind (given_char (CHR '':'') s) p)"

text \<open>Up to \<open>n\<close> groups from the \<open>i\<close>-th on; a dotted address stands for the last two and ends them.\<close>

fun read_groups :: "nat \<Rightarrow> nat \<Rightarrow> string \<Rightarrow> nat list \<times> bool \<times> string" where
  "read_groups 0 i s = ([], False, s)"
| "read_groups (Suc n) i s =
     (case (if 0 < n then after_colon i read_ipv4 s else None) of
        Some (bs, s1) \<Rightarrow> ([bs ! 0 * 256 + bs ! 1, bs ! 2 * 256 + bs ! 3], True, s1)
      | None \<Rightarrow>
          (case after_colon i (read_number 16 (Some 4) True 65536) s of
             Some (g, s1) \<Rightarrow> (case read_groups n (Suc i) s1 of (gs, v4, s2) \<Rightarrow> (g # gs, v4, s2))
           | None \<Rightarrow> ([], False, s)))"

definition read_ipv6 :: "string \<Rightarrow> (nat list \<times> string) option" where
  "read_ipv6 s =
     (case read_groups 8 0 s of
        (hs, v4, s1) \<Rightarrow>
          if length hs = 8 then Some (hs, s1)
          else if v4 then None
          else do {
            s2 \<leftarrow> given_char (CHR '':'') s1;
            s3 \<leftarrow> given_char (CHR '':'') s2;
            (case read_groups (8 - (length hs + 1)) 0 s3 of
               (ts, _, s4) \<Rightarrow> Some (hs @ replicate (8 - length hs - length ts) 0 @ ts, s4))
          })"

definition read_port :: "string \<Rightarrow> (nat \<times> string) option" where
  "read_port s = Option.bind (given_char (CHR '':'') s) (read_number 10 None True 65536)"

definition read_scope :: "string \<Rightarrow> string" where
  "read_scope s =
     (case Option.bind (given_char (CHR ''%'') s) (read_number 10 None True (2 ^ 32)) of
        Some (n, s1) \<Rightarrow> s1 | None \<Rightarrow> s)"

datatype ip_addr = V4 "nat list" | V6 "nat list"

definition read_socket_addr :: "string \<Rightarrow> (ip_addr \<times> string) option" where
  "read_socket_addr s =
     (case do { (ip, s1) \<leftarrow> read_ipv4 s; (p, s2) \<leftarrow> read_port s1; Some (V4 ip, s2) } of
        Some r \<Rightarrow> Some r
      | None \<Rightarrow> do {
          s1 \<leftarrow> given_char (CHR ''['') s;
          (ip, s2) \<leftarrow> read_ipv6 s1;
          s3 \<leftarrow> given_char (CHR '']'') (read_scope s2);
          (p, s4) \<leftarrow> read_port s3;
          Some (V6 ip, s4)
        })"

definition parse_socket_addr :: "string \<Rightarrow> ip_addr option" where
  "parse_socket_addr s = (case read_socket_addr s of Some (ip, r) \<Rightarrow> if r = [] then Some ip else None | None \<Rightarrow> None)"

fun ip_is_loopback :: "ip_addr \<Rightarrow> bool" where
  "ip_is_loopback (V4 ip) \<longleftrightarrow> ip ! 0 = 127"
| "ip_is_loopback (V6 gs) \<longleftrightarrow> gs = [0, 0, 0, 0, 0, 0, 0, 1]"

definition is_loopback :: "string \<Rightarrow> bool" where
  "is_loopback addr =
     (case parse_socket_addr addr of Some ip \<Rightarrow> ip_is_loopback ip | None \<Rightarrow> starts_with ''localhost:'' addr)"

section \<open>Starting\<close>

definition DEFAULT_LISTEN :: string where "DEFAULT_LISTEN = ''0.0.0.0:3009''"

datatype start_error = Token_file_empty string | Token_file_unread string | Needs_token string

record daemon_options =
  op_listen :: string
  op_api_listen :: "string option"
  op_token :: "string option"
  op_mapping_path :: "string option"
  op_transport :: string

text \<open>The token of a file is trimmed and may not be empty; else it is the configuration's.\<close>

definition api_token_of ::
  "(string \<Rightarrow> string option) \<Rightarrow> daemon_args \<Rightarrow> file_config option \<Rightarrow> start_error + string option" where
  "api_token_of read_file g cfg =
     (case ag_token_file g of
        Some p \<Rightarrow>
          (case read_file p of
             Some t \<Rightarrow> if rust_trim t \<noteq> [] then Inr (Some (rust_trim t)) else Inl (Token_file_empty p)
           | None \<Rightarrow> Inl (Token_file_unread p))
      | None \<Rightarrow> Inr (Option.bind cfg fc_api_token))"

definition mapping_path_of :: "(string \<Rightarrow> string option) \<Rightarrow> file_config \<Rightarrow> string" where
  "mapping_path_of parent c = path_join (case parent (fc_path c) of Some p \<Rightarrow> p | None \<Rightarrow> ''.'') ''mapping.json''"

definition transport_name :: "daemon_args \<Rightarrow> file_config option \<Rightarrow> string" where
  "transport_name g cfg =
     (if ag_fake_bus g then ''fake''
      else case cfg of
          Some c \<Rightarrow>
            (case fc_device_type c of
               Can \<Rightarrow> ''can:'' @ fc_device_name c
             | Usb \<Rightarrow> if fc_device_name c = [] then ''usb'' else ''usb:'' @ fc_device_name c)
        | None \<Rightarrow> [])"

definition first_some :: "'a option list \<Rightarrow> 'a option" where
  "first_some xs = (case find (\<lambda>x. x \<noteq> None) xs of Some x \<Rightarrow> x | None \<Rightarrow> None)"

text \<open>The options \<open>main\<close> settles on: the command line, then the configuration, then the default.\<close>

definition start_options ::
  "(string \<Rightarrow> string option) \<Rightarrow> (string \<Rightarrow> string option) \<Rightarrow> string option \<Rightarrow> daemon_args \<Rightarrow> file_config option \<Rightarrow>
     start_error + daemon_options" where
  "start_options parent read_file MAPPING g cfg =
     (let listen = (case first_some [ag_stream g, Option.bind cfg fc_listen] of Some l \<Rightarrow> l | None \<Rightarrow> DEFAULT_LISTEN);
          api = first_some [ag_api g, Option.bind cfg fc_api_listen]
      in case api_token_of read_file g cfg of
           Inl e \<Rightarrow> Inl e
         | Inr token \<Rightarrow>
             (if (case api of Some a \<Rightarrow> \<not> is_loopback a \<and> token = None | None \<Rightarrow> False) then Inl (Needs_token (the api))
              else Inr \<lparr>op_listen = listen, op_api_listen = api, op_token = token,
                op_mapping_path = first_some [MAPPING, map_option (mapping_path_of parent) cfg,
                  if ag_fake_bus g then map_option (\<lambda>d. path_join d ''mapping.json'') (ag_config_dir g) else None],
                op_transport = transport_name g cfg\<rparr>))"

section \<open>The walk\<close>

definition IDENTIFY_AT_ONCE :: nat where "IDENTIFY_AT_ONCE = 5"

datatype device_event = Alive u32 | Gone u32

text \<open>What the walk calls, in order: \<open>batch\<close>, \<open>identify\<close> (late or not) and \<open>walked\<close>. The channel of
  events is what it gives until it is closed.\<close>

datatype walk_call = Batch "u32 list" | Ident u32 bool | Walked

fun fresh :: "'a set \<Rightarrow> 'a list \<Rightarrow> 'a list" where
  "fresh known [] = []"
| "fresh known (x # xs) = (if x \<in> known then fresh known xs else x # fresh (insert x known) xs)"

function batches :: "u32 list \<Rightarrow> u32 list list" where
  "batches [] = []"
| "batches (x # xs) = take IDENTIFY_AT_ONCE (x # xs) # batches (drop IDENTIFY_AT_ONCE (x # xs))"
  by pat_completeness auto
termination by (relation "measure length") (simp_all add: IDENTIFY_AT_ONCE_def)

fun late_walk :: "u32 set \<Rightarrow> device_event list \<Rightarrow> walk_call list" where
  "late_walk known [] = []"
| "late_walk known (Alive i # evs) =
     (if i \<in> known then late_walk known evs else Ident i True # late_walk (insert i known) evs)"
| "late_walk known (Gone i # evs) = late_walk known evs"

definition walk :: "u32 list \<Rightarrow> device_event list \<Rightarrow> walk_call list" where
  "walk first events =
     (let ids = fresh {} first
      in concat (map (\<lambda>b. Batch b # map (\<lambda>i. Ident i False) b) (batches ids)) @ Walked # late_walk (set ids) events)"

text \<open>Identifying one device: its record, and what its mapped fields need beyond Monitoring. The result
  is what is sent to the main loop.\<close>

definition identify ::
  "(sched, 'f, 'n) env \<Rightarrow> u32 \<Rightarrow> bool \<Rightarrow> (sched, 'f) shared \<Rightarrow> ((u32 \<times> bool) \<times> (sched, 'f) shared) option" where
  "identify E i late s =
     do {
       (r, b1) \<leftarrow> discover_device i (sh_bus s);
       let s1 = s\<lparr>sh_bus := b1\<rparr>;
       let m = sh_mapping s1;
       let mapped = (bt_get (mp_devices m) (dr_serial r) \<noteq> None);
       let s2 = (if list_ex (\<lambda>d. dr_id d = dr_id r) (sh_devices s1) then s1
                 else s1\<lparr>sh_devices := sort_key dr_id (sh_devices s1 @ [r])\<rparr>);
       s3 \<leftarrow> (if mapped then ensure_menus E m s2 else Some s2);
       let now = b_clock (sh_bus s3);
       let times = \<lparr>tm_identified = now - sh_started s3, tm_took = now - b_clock (sh_bus s), tm_late = late, tm_streaming = None\<rparr>;
       let tl = sh_timeline s3;
       Some ((i, mapped), s3\<lparr>sh_timeline := tl\<lparr>tl_devices := (tl_devices tl)(i \<mapsto> times)\<rparr>\<rparr>)
     }"

section \<open>Timestamps\<close>

text \<open>Days since 1 January 1970 to year, month and day. Integer division rounds down, which is
  \<open>div\_euclid\<close> for a positive divisor and what \<open>/\<close> does on the numbers here, none of them negative.\<close>

definition civil_from_days :: "int \<Rightarrow> int \<times> int \<times> int" where
  "civil_from_days days =
     (let z = days + 719468;
          era = z div 146097;
          doe = z mod 146097;
          yoe = (doe - doe div 1460 + doe div 36524 - doe div 146096) div 365;
          y = yoe + era * 400;
          doy = doe - (365 * yoe + yoe div 4 - yoe div 100);
          mp = (5 * doy + 2) div 153;
          d = doy - (153 * mp + 2) div 5 + 1;
          m = (if mp < 10 then mp + 3 else mp - 9)
      in (if m \<le> 2 then y + 1 else y, m, d))"

definition now_rfc3339 :: "nat \<Rightarrow> string" where
  "now_rfc3339 ms =
     (let secs = ms div 1000; (y, mo, day) = civil_from_days (int (secs div 86400))
      in fmt_pad 4 y @ ''-'' @ fmt_pad 2 mo @ ''-'' @ fmt_pad 2 day @ ''T'' @
         fmt_pad 2 (int ((secs div 3600) mod 24)) @ '':'' @ fmt_pad 2 (int ((secs div 60) mod 60)) @ '':'' @
         fmt_pad 2 (int (secs mod 60)) @ ''.'' @ fmt_pad 3 (int (ms mod 1000)) @ ''Z'')"

section \<open>The calendar\<close>

text \<open>The Gregorian calendar, a day at a time.\<close>

definition leap_year :: "int \<Rightarrow> bool" where
  "leap_year y \<longleftrightarrow> y mod 4 = 0 \<and> (y mod 100 \<noteq> 0 \<or> y mod 400 = 0)"

definition month_days :: "bool \<Rightarrow> int \<Rightarrow> int" where
  "month_days leap m = (if m = 2 then if leap then 29 else 28 else if m \<in> {4, 6, 9, 11} then 30 else 31)"

fun next_day :: "int \<times> int \<times> int \<Rightarrow> int \<times> int \<times> int" where
  "next_day (y, m, d) =
     (if d < month_days (leap_year y) m then (y, m, d + 1) else if m < 12 then (y, m + 1, 1) else (y + 1, 1, 1))"

text \<open>The code counts from 1 March of year 0; \<open>march\_start\<close> is the first day of the year that begins on
  1 March, and a day of it is at most the 365th after that.\<close>

definition march_start :: "int \<Rightarrow> int" where
  "march_start y = 365 * y + y div 4 - y div 100 + y div 400"

definition month_of :: "int \<Rightarrow> int" where
  "month_of t = (let mp = (5 * t + 2) div 153 in if mp < 10 then mp + 3 else mp - 9)"

definition day_of :: "int \<Rightarrow> int" where
  "day_of t = t - (153 * ((5 * t + 2) div 153) + 2) div 5 + 1"

definition march_date :: "int \<Rightarrow> int \<Rightarrow> int \<times> int \<times> int" where
  "march_date y t = (if month_of t \<le> 2 then y + 1 else y, month_of t, day_of t)"

lemma march_parts:
  obtains e c q r :: int where "y = 400 * e + 100 * c + 4 * q + r" "0 \<le> c" "c \<le> 3" "0 \<le> q" "q \<le> 24" "0 \<le> r" "r \<le> 3"
proof
  let ?a = "y mod 400" and ?b = "y mod 400 mod 100"
  have c: "0 \<le> a \<Longrightarrow> a < 400 \<Longrightarrow> a div 100 \<le> 3" and q: "0 \<le> a \<Longrightarrow> a < 100 \<Longrightarrow> a div 4 \<le> 24" for a :: int
    by presburger+
  show "y = 400 * (y div 400) + 100 * (?a div 100) + 4 * (?b div 4) + ?b mod 4"
    using div_mult_mod_eq [of y 400] div_mult_mod_eq [of ?a 100] div_mult_mod_eq [of ?b 4] by linarith
  show "0 \<le> ?a div 100" "?a div 100 \<le> 3" "0 \<le> ?b div 4" "?b div 4 \<le> 24" "0 \<le> ?b mod 4"
    using c [of ?a] q [of ?b] by (simp_all add: pos_imp_zdiv_nonneg_iff)
  have "?b mod 4 < 4" by simp
  then show "?b mod 4 \<le> 3" by linarith
qed

lemma int_div_eq: "(a :: int) = b * k + r \<Longrightarrow> 0 \<le> r \<Longrightarrow> r < b \<Longrightarrow> a div b = k"
  by (simp add: int_div_pos_eq)

lemma int_mod_eq': "(a :: int) = b * k + r \<Longrightarrow> 0 \<le> r \<Longrightarrow> r < b \<Longrightarrow> a mod b = r"
  by (simp add: int_mod_pos_eq)

lemma march_start_parts:
  assumes y: "y = 400 * e + 100 * c + 4 * q + r" and b: "0 \<le> c" "c \<le> 3" "0 \<le> q" "q \<le> 24" "0 \<le> r" "r \<le> (3 :: int)"
  shows "march_start y = 146097 * e + 36524 * c + 1461 * q + 365 * r"
    and "leap_year (y + 1) \<longleftrightarrow> r = 3 \<and> (q \<noteq> 24 \<or> c = 3)"
proof -
  have "y div 4 = 100 * e + 25 * c + q" using b by (intro int_div_eq [of _ _ _ r]) (simp_all add: y)
  moreover have "y div 100 = 4 * e + c" using b by (intro int_div_eq [of _ _ _ "4 * q + r"]) (simp_all add: y)
  moreover have "y div 400 = e" using b by (intro int_div_eq [of _ _ _ "100 * c + 4 * q + r"]) (simp_all add: y)
  ultimately show "march_start y = 146097 * e + 36524 * c + 1461 * q + 365 * r"
    by (simp add: march_start_def y)
  show "leap_year (y + 1) \<longleftrightarrow> r = 3 \<and> (q \<noteq> 24 \<or> c = 3)"
  proof (cases "r = 3")
    case False
    then have "(y + 1) mod 4 = r + 1" using b by (intro int_mod_eq' [of _ _ "100 * e + 25 * c + q"]) (simp_all add: y)
    with b False show ?thesis by (simp add: leap_year_def)
  next
    case True
    have "(y + 1) mod 4 = 0" by (rule int_mod_eq' [of _ _ "100 * e + 25 * c + q + 1"]) (simp_all add: y True)
    moreover have "(y + 1) mod 100 = (if q = 24 then 0 else 4 * q + 4)"
      using b by (intro int_mod_eq' [of _ _ "4 * e + c + (if q = 24 then 1 else 0)"]) (simp_all add: y True)
    moreover have "(y + 1) mod 400 = (if q = 24 \<and> c = 3 then 0 else 100 * c + 4 * q + 4)"
      using b by (intro int_mod_eq' [of _ _ "e + (if q = 24 \<and> c = 3 then 1 else 0)"]) (auto simp: y True)
    ultimately show ?thesis using b True by (auto simp: leap_year_def)
  qed
qed

lemma march_year_length:
  "march_start (y + 1) - march_start y = (if leap_year (y + 1) then 366 else 365)"
proof -
  obtain e c q r where p: "y = 400 * e + 100 * c + 4 * q + r" "0 \<le> c" "c \<le> 3" "0 \<le> q" "q \<le> 24" "0 \<le> r" "r \<le> 3"
    by (rule march_parts)
  note ms = march_start_parts [OF p]
  have later: "march_start (y + 1) = 146097 * e' + 36524 * c' + 1461 * q' + 365 * r'"
    if "y + 1 = 400 * e' + 100 * c' + 4 * q' + r'" "0 \<le> c'" "c' \<le> 3" "0 \<le> q'" "q' \<le> 24" "0 \<le> r'" "r' \<le> 3" for e' c' q' r'
    by (rule march_start_parts(1) [OF that])
  consider "r < 3" | "r = 3" "q < 24" | "r = 3" "q = 24" "c < 3" | "r = 3" "q = 24" "c = 3"
    using p by linarith
  then show ?thesis
  proof cases
    case 1
    then show ?thesis using later [of e c q "r + 1"] p ms by simp
  next
    case 2
    then show ?thesis using later [of e c "q + 1" 0] p ms by simp
  next
    case 3
    then show ?thesis using later [of e "c + 1" 0 0] p ms by simp
  next
    case 4
    then show ?thesis using later [of "e + 1" 0 0 0] p ms by simp
  qed
qed

lemma civil_of_march:
  assumes "0 \<le> t" and "t < march_start (y + 1) - march_start y"
  shows "civil_from_days (march_start y + t - 719468) = march_date y t"
proof -
  obtain e c q r where p: "y = 400 * e + 100 * c + 4 * q + r" and b: "0 \<le> c" "c \<le> 3" "0 \<le> q" "q \<le> 24" "0 \<le> r" "r \<le> 3"
    by (rule march_parts)
  note ms = march_start_parts [OF p b]
  define doe where "doe = 36524 * c + 1461 * q + 365 * r + t"
  have t: "t \<le> 364 \<or> t = 365 \<and> r = 3 \<and> (q \<noteq> 24 \<or> c = 3)"
    using assms(2) unfolding march_year_length ms(2) by (auto split: if_splits)
  have doe: "0 \<le> doe" "doe < 146097" using b t assms(1) unfolding doe_def by linarith+
  have z: "march_start y + t - 719468 + 719468 = 146097 * e + doe" by (simp add: ms(1) doe_def)
  have era: "(146097 * e + doe) div 146097 = e" "(146097 * e + doe) mod 146097 = doe" using doe by simp_all
  define k where "k = (if 1460 \<le> 24 * c + q + 365 * r + t then 1 else 0 :: int)"
  define g where "g = (if c = 3 \<and> q = 24 \<and> r = 3 \<and> t = 365 then 1 else 0 :: int)"
  have d1: "doe div 1460 = 25 * c + q + k"
    by (rule int_div_eq [of _ _ _ "24 * c + q + 365 * r + t - 1460 * k"]) (use b t assms(1) in \<open>auto simp: doe_def k_def\<close>)
  have d2: "doe div 36524 = c + g"
    by (rule int_div_eq [of _ _ _ "1461 * q + 365 * r + t - 36524 * g"]) (use b t assms(1) in \<open>auto simp: doe_def g_def\<close>)
  have d3: "doe div 146096 = g"
    by (rule int_div_eq [of _ _ _ "doe - 146096 * g"]) (use b t assms(1) in \<open>auto simp: doe_def g_def\<close>)
  have yoe: "(doe - doe div 1460 + doe div 36524 - doe div 146096) div 365 = 100 * c + 4 * q + r"
    unfolding d1 d2 d3
    by (rule int_div_eq [of _ _ _ "t - k"]) (use b t assms(1) in \<open>auto simp: doe_def k_def\<close>)
  have q4: "(100 * c + 4 * q + r) div 4 = 25 * c + q" using b by (intro int_div_eq [of _ _ _ r]) simp_all
  have q100: "(100 * c + 4 * q + r) div 100 = c" using b by (intro int_div_eq [of _ _ _ "4 * q + r"]) simp_all
  have doy: "doe - (365 * (100 * c + 4 * q + r) + (25 * c + q) - c) = t" by (simp add: doe_def)
  have y: "100 * c + 4 * q + r + e * 400 = y" by (simp add: p)
  show ?thesis
    unfolding civil_from_days_def z Let_def era yoe q4 q100 doy y
    by (simp add: march_date_def month_of_def day_of_def Let_def)
qed

text \<open>Within a year from March to February, checked day by day.\<close>

definition day_after :: "bool \<Rightarrow> int \<Rightarrow> bool" where
  "day_after leap t \<longleftrightarrow>
     (month_of t = 2 \<longrightarrow> month_of (t + 1) = 2) \<and>
     (if day_of t < month_days leap (month_of t) then month_of (t + 1) = month_of t \<and> day_of (t + 1) = day_of t + 1
      else day_of (t + 1) = 1 \<and> month_of (t + 1) = (if month_of t < 12 then month_of t + 1 else 1))"

lemma days_in_a_year:
  "list_all (day_after False) [0..363]" "list_all (day_after True) [0..364]"
  by code_simp+

lemma ends_of_a_year:
  "month_of 364 = 2" "day_of 364 = 28" "month_of 365 = 2" "day_of 365 = 29" "month_of 0 = 3" "day_of 0 = 1"
  by code_simp+

lemma next_march_date:
  assumes "0 \<le> t" and "t < march_start (y + 1) - march_start y"
  shows "next_day (march_date y t) =
    (if t + 1 < march_start (y + 1) - march_start y then march_date y (t + 1) else march_date (y + 1) 0)"
proof (cases "t + 1 < march_start (y + 1) - march_start y")
  case True
  then have "day_after (leap_year (y + 1)) t"
    using assms(1) days_in_a_year unfolding march_year_length list_all_iff by (auto split: if_splits)
  then show ?thesis
    using True by (auto simp: march_date_def day_after_def month_days_def split: if_splits)
next
  case False
  then have "t = (if leap_year (y + 1) then 365 else 364)"
    using assms(2) unfolding march_year_length by (auto split: if_splits)
  then show ?thesis
    using False by (auto simp: march_date_def month_days_def ends_of_a_year)
qed

lemma march_cover: "\<exists>y t. z = march_start y + t \<and> 0 \<le> t \<and> t < march_start (y + 1) - march_start y"
proof (induction z rule: int_induct [where k = 0])
  case base
  show ?case by (intro exI [of _ 0]) (simp add: march_start_def)
next
  case (step1 i)
  then obtain y t where i: "i = march_start y + t" "0 \<le> t" "t < march_start (y + 1) - march_start y" by blast
  show ?case
  proof (cases "t + 1 < march_start (y + 1) - march_start y")
    case True
    with i show ?thesis by (intro exI [of _ y] exI [of _ "t + 1"]) simp
  next
    case False
    with i march_year_length [of "y + 1"] show ?thesis
      by (intro exI [of _ "y + 1"] exI [of _ 0]) (simp split: if_splits)
  qed
next
  case (step2 i)
  then obtain y t where i: "i = march_start y + t" "0 \<le> t" "t < march_start (y + 1) - march_start y" by blast
  show ?case
  proof (cases "t = 0")
    case False
    with i show ?thesis by (intro exI [of _ y] exI [of _ "t - 1"]) simp
  next
    case True
    with i march_year_length [of "y - 1"] show ?thesis
      by (intro exI [of _ "y - 1"] exI [of _ "march_start y - march_start (y - 1) - 1"]) (simp split: if_splits)
  qed
qed

text \<open>C18. The dates in the timestamps are those of the Gregorian calendar, for every day before and after
  the epoch: day 0 is 1 January 1970, and the date of the next day is the next day's date, with the
  lengths of the months and the leap years of that calendar.\<close>

theorem timestamps_follow_the_calendar:
  "civil_from_days 0 = (1970, 1, 1) \<and> civil_from_days (days + 1) = next_day (civil_from_days days)"
proof -
  have epoch: "civil_from_days 0 = (1970, 1, 1)" by code_simp
  obtain y t where z: "days + 719468 = march_start y + t" and t: "0 \<le> t" "t < march_start (y + 1) - march_start y"
    using march_cover by blast
  have d: "civil_from_days days = march_date y t"
    using civil_of_march [OF t] by (simp add: z [symmetric])
  have "civil_from_days (days + 1) = (if t + 1 < march_start (y + 1) - march_start y then march_date y (t + 1) else march_date (y + 1) 0)"
  proof (cases "t + 1 < march_start (y + 1) - march_start y")
    case True
    have e: "march_start y + (t + 1) - 719468 = days + 1" using z by linarith
    show ?thesis using civil_of_march [of "t + 1" y, unfolded e] True t by simp
  next
    case False
    then have e: "march_start (y + 1) + 0 - 719468 = days + 1" using z t by linarith
    have "0 < march_start (y + 1 + 1) - march_start (y + 1)" unfolding march_year_length by simp
    then show ?thesis using civil_of_march [of 0 "y + 1", unfolded e] False by simp
  qed
  then show ?thesis using epoch d next_march_date [OF t] by simp
qed

section \<open>The order of the walk\<close>

fun identified :: "walk_call list \<Rightarrow> u32 list" where
  "identified [] = []"
| "identified (Ident i late # cs) = i # identified cs"
| "identified (_ # cs) = identified cs"

fun heard_alive :: "device_event list \<Rightarrow> u32 list" where
  "heard_alive [] = []"
| "heard_alive (Alive i # evs) = i # heard_alive evs"
| "heard_alive (Gone i # evs) = heard_alive evs"

text \<open>A device is asked for when its batch has just been fetched, or, late, after the first pass.\<close>

fun in_order :: "u32 list \<Rightarrow> bool \<Rightarrow> walk_call list \<Rightarrow> bool" where
  "in_order batch done_first [] = True"
| "in_order batch done_first (Batch b # cs) = (\<not> done_first \<and> b \<noteq> [] \<and> length b \<le> IDENTIFY_AT_ONCE \<and> in_order b done_first cs)"
| "in_order batch done_first (Walked # cs) = (\<not> done_first \<and> in_order [] True cs)"
| "in_order batch done_first (Ident i late # cs) =
     ((if late then done_first else \<not> done_first \<and> i \<in> set batch) \<and> in_order batch done_first cs)"

lemma identified_append [simp]: "identified (cs @ ds) = identified cs @ identified ds"
  by (induction cs rule: identified.induct) simp_all

lemma fresh_append: "fresh known (xs @ ys) = fresh known xs @ fresh (known \<union> set xs) ys"
  by (induction known xs rule: fresh.induct) (simp_all add: insert_absorb)

lemma set_fresh [simp]: "set (fresh known xs) = set xs - known"
  by (induction known xs rule: fresh.induct) auto

lemma distinct_fresh [simp]: "distinct (fresh known xs)"
  by (induction known xs rule: fresh.induct) auto

lemma late_walk_identified: "identified (late_walk known evs) = fresh known (heard_alive evs)"
  by (induction known evs rule: late_walk.induct) simp_all

lemma late_walk_in_order: "in_order b True (late_walk known evs)"
  by (induction known evs rule: late_walk.induct) simp_all

lemma identified_batch [simp]: "identified (map (\<lambda>i. Ident i False) b) = b"
  by (induction b) simp_all

lemma batches_identified: "identified (concat (map (\<lambda>b. Batch b # map (\<lambda>i. Ident i False) b) (batches ids))) = ids"
  by (induction ids rule: batches.induct) simp_all

lemma batch_in_order: "set is \<subseteq> set b \<Longrightarrow> in_order b False (map (\<lambda>i. Ident i False) is @ cs) = in_order b False cs"
  by (induction "is") simp_all

lemma batches_in_order:
  "(\<And>b. in_order b False cs) \<Longrightarrow>
   in_order b False (concat (map (\<lambda>b. Batch b # map (\<lambda>i. Ident i False) b) (batches ids)) @ cs)"
proof (induction ids arbitrary: b rule: batches.induct)
  case (2 x xs)
  have "set (take IDENTIFY_AT_ONCE (x # xs)) \<subseteq> set (take IDENTIFY_AT_ONCE (x # xs))" by simp
  from batch_in_order [OF this] 2 show ?case by (simp add: IDENTIFY_AT_ONCE_def del: take_Suc_Cons)
qed simp

text \<open>Every device that was on the bus at the start or announces itself later is identified exactly
  once, in the order it was first heard of, however often it comes and goes. Those of the start are
  identified right after the batch of at most five they were fetched in, and before the end of the first
  pass is reported, once; the others after it.\<close>

theorem walk_identifies_each_once:
  "identified (walk first evs) = fresh {} (first @ heard_alive evs) \<and> distinct (identified (walk first evs)) \<and>
   set (identified (walk first evs)) = set first \<union> set (heard_alive evs) \<and> in_order [] False (walk first evs)"
proof -
  have "identified (walk first evs) = fresh {} (first @ heard_alive evs)"
    by (simp add: walk_def Let_def batches_identified late_walk_identified fresh_append)
  moreover have "in_order [] False (walk first evs)"
    unfolding walk_def Let_def by (intro batches_in_order) (simp add: late_walk_in_order)
  ultimately show ?thesis by simp
qed

section \<open>Who may use the API\<close>

text \<open>The daemon never opens its HTTP API to the network without a token: if it starts and the API is
  to listen on an address that is not a loopback one, then it has a token, which the state it serves
  carries, and a request without it is refused and changes nothing.\<close>

theorem api_needs_token_off_loopback:
  assumes "start_options parent read_file MAPPING g cfg = Inr opts" and "op_api_listen opts = Some addr"
    and "\<not> is_loopback addr" and "sh_token s = op_token opts" and "rq_bearer req \<noteq> op_token opts"
  shows "\<exists>t. op_token opts = Some t \<and> handle E req s = Some (rs_error 401 Wrong_token, s)"
  using assms by (auto simp: start_options_def Let_def handle_def split: sum.splits if_splits option.splits)

definition open_args :: daemon_args where
  "open_args = no_args\<lparr>ag_api := Some ''0.0.0.0:3010'', ag_token_file := Some ''token''\<rparr>"

lemma open_args_parsed: "parse_args [''--api'', ''0.0.0.0:3010'', ''--api-token-file'', ''token''] = Inr open_args"
  by (simp add: parse_args_def set_flag_def open_args_def)

lemma replicate_numeral: "replicate (numeral k) x = x # replicate (pred_numeral k) x"
  by (simp add: numeral_eq_Suc)

lemma read_groups_numeral:
  "read_groups (numeral k) i s =
     (case (if 0 < pred_numeral k then after_colon i read_ipv4 s else None) of
        Some (bs, s1) \<Rightarrow> ([bs ! 0 * 256 + bs ! 1, bs ! 2 * 256 + bs ! 3], True, s1)
      | None \<Rightarrow>
          (case after_colon i (read_number 16 (Some 4) True 65536) s of
             Some (g, s1) \<Rightarrow> (case read_groups (pred_numeral k) (Suc i) s1 of (gs, v4, s2) \<Rightarrow> (g # gs, v4, s2))
           | None \<Rightarrow> ([], False, s)))"
  by (simp add: numeral_eq_Suc)

lemma loopback_addresses:
  "is_loopback ''127.0.0.1:3010''" "is_loopback ''[::1]:3010''" "is_loopback ''localhost:3010''"
  "\<not> is_loopback ''0.0.0.0:3010''" "\<not> is_loopback ''[fe80::1%2]:3010''" "\<not> is_loopback ''127.0.0.1''"
  by (simp_all add: is_loopback_def parse_socket_addr_def read_socket_addr_def read_ipv4_def read_octet_def read_number_def
      digits_of_def hex_digit_val_def given_char_def read_port_def read_scope_def read_ipv6_def after_colon_def starts_with_def
      read_groups_numeral replicate_numeral)

lemma api_needs_token_off_loopback_witness:
  "\<forall>E s. handle E (request_new ''GET'' ''/api/status'' []) (s\<lparr>sh_token := Some ''s3cret''\<rparr>) =
     Some (rs_error 401 Wrong_token, s\<lparr>sh_token := Some ''s3cret''\<rparr>)"
proof (intro allI)
  fix E s
  have t: "rust_trim ''s3cret'' = ''s3cret''" by (simp add: rust_trim_visible visible_def)
  obtain opts where o: "start_options (\<lambda>_. None) (\<lambda>_. Some ''s3cret'') None open_args None = Inr opts"
    "op_api_listen opts = Some ''0.0.0.0:3010''" "op_token opts = Some ''s3cret''"
    by (simp add: start_options_def api_token_of_def open_args_def no_args_def first_some_def t Let_def)
  have b: "rq_bearer (request_new ''GET'' ''/api/status'' []) = None" by (simp add: request_new_def Let_def case_prod_beta)
  show "handle E (request_new ''GET'' ''/api/status'' []) (s\<lparr>sh_token := Some ''s3cret''\<rparr>) =
     Some (rs_error 401 Wrong_token, s\<lparr>sh_token := Some ''s3cret''\<rparr>)"
    using api_needs_token_off_loopback [OF o(1,2) loopback_addresses(4), of "s\<lparr>sh_token := Some ''s3cret''\<rparr>"
        "request_new ''GET'' ''/api/status'' []" E] by (simp add: o(3) b)
qed

end
