(* ===== verification/Stream.thy ===== *)
theory Stream
  imports Daemon
begin

text \<open>
  The daemon's stream: the second half of \<open>crates/masterbus-tools/src/bin/masterbus-signalk.rs\<close>. What a
  mapping is turned into (subscriptions, units, the static lines a client gets first), the main loop, the
  thread that accepts clients, and the delta lines. A \<open>HashMap\<close> that is walked is a list with distinct
  keys in the order it is walked, which the code does not fix. What the channels hold when they are
  drained, which clients can be written to and the time of day are arguments of a turn; log lines are
  left out.
\<close>

section \<open>What is live\<close>

definition RATE :: nat where "RATE = 1000"
definition RELOAD_CHECK :: nat where "RELOAD_CHECK = 2000"
definition USIZE_MAX :: nat where "USIZE_MAX = 2 ^ 64 - 1"

record active =
  ac_emit :: "((u32 \<times> field_id) \<times> emit) list"
  ac_subs :: "(u32 \<times> field_id list \<times> nat) list"
  ac_units :: "string \<rightharpoonup> string"
  ac_meta_sent :: "string set"
  ac_notified :: "string \<rightharpoonup> notify_state option"
  ac_connections_seen :: nat

definition active_new :: active where
  "active_new = \<lparr>ac_emit = [], ac_subs = [], ac_units = Map.empty, ac_meta_sent = {}, ac_notified = Map.empty,
     ac_connections_seen = USIZE_MAX\<rparr>"

record progress =
  pg_ready :: "u32 set"
  pg_walked :: bool
  pg_printed :: "string set"
  pg_may_seed :: bool

definition progress_new :: progress where
  "progress_new = \<lparr>pg_ready = {}, pg_walked = False, pg_printed = {}, pg_may_seed = False\<rparr>"

text \<open>A line of the stream: the time, and the values or the units of paths. The source is the same in
  all.\<close>

datatype 'n line = Values_line string "(string \<times> 'n json) list" | Meta_line string "(string \<times> string) list"

text \<open>A client is its connection's number and the lines written to it.\<close>

type_synonym 'n client = "nat \<times> 'n line list"

definition write_clients :: "(nat \<Rightarrow> bool) \<Rightarrow> 'n line list \<Rightarrow> 'n client list \<Rightarrow> 'n client list" where
  "write_clients up ls cs = map (\<lambda>(i, got). (i, got @ ls)) (filter (\<lambda>(i, got). up i) cs)"

record ('f, 'n) daemon =
  dn_shared :: "(sched, 'f) shared"
  dn_next_sub :: nat
  dn_clients :: "'n client list"
  dn_connections :: nat
  dn_static :: "'n line list"
  dn_active :: active
  dn_progress :: progress
  dn_reloads :: nat
  dn_stamp :: "nat option"
  dn_last_check :: nat

text \<open>What the loop asks of the file system.\<close>

record ('f, 'i) file_ops =
  fo_exists :: "string \<Rightarrow> 'f \<Rightarrow> bool"
  fo_mtime :: "string \<Rightarrow> 'f \<Rightarrow> nat option"
  fo_read :: "string \<Rightarrow> 'f \<Rightarrow> 'i + bytes"
  fo_not_found :: "'i \<Rightarrow> bool"

section \<open>Subscriptions\<close>

definition plan_subs :: "(u32 \<times> field_id list) list \<Rightarrow> (u32 \<times> field_id list) list \<Rightarrow> u32 list \<times> u32 list" where
  "plan_subs old wanted =
     (let same = (\<lambda>(d, fs). map_of old d = Some fs)
      in (sort (map fst (filter same wanted)), sort (map fst (filter (\<lambda>w. \<not> same w) wanted))))"

definition per_device :: "((u32 \<times> field_id) \<times> emit) list \<Rightarrow> (u32 \<times> field_id list) list" where
  "per_device em =
     map (\<lambda>d. (d, sort (map snd (filter (\<lambda>k. fst k = d) (map fst em))))) (remdups (map (\<lambda>x. fst (fst x)) em))"

fun subscribe_all ::
  "(u32 \<times> field_id list) list \<Rightarrow> nat \<Rightarrow> sched \<Rightarrow> ((u32 \<times> field_id list \<times> nat) list \<times> nat \<times> sched) option" where
  "subscribe_all [] n s = Some ([], n, s)"
| "subscribe_all ((d, fs) # rest) n s =
     do {
       (i, n1, s1) \<leftarrow> engine_subscribe d fs RATE False n s;
       (subs, n2, s2) \<leftarrow> subscribe_all rest n1 s1;
       Some ((d, fs, i) # subs, n2, s2)
     }"

text \<open>A subscription that is dropped unsubscribes.\<close>

fun unsubscribe_all :: "nat list \<Rightarrow> sched \<Rightarrow> sched option" where
  "unsubscribe_all [] s = Some s"
| "unsubscribe_all (i # rest) s = Option.bind (engine_unsubscribe i s) (unsubscribe_all rest)"

section \<open>Lines\<close>

text \<open>The diagnostics to print now, each line once; \<open>show\<close> is the text of one.\<close>

definition to_print :: "(diagnostic \<Rightarrow> string) \<Rightarrow> diagnostic list \<Rightarrow> string set \<Rightarrow> progress \<Rightarrow> string list \<times> progress" where
  "to_print show_diag ds ready_serials pg =
     (let ls = fresh (pg_printed pg) (map show_diag (filter (\<lambda>d. pg_walked pg \<or> dg_serial d \<in> ready_serials) ds))
      in (ls, pg\<lparr>pg_printed := pg_printed pg \<union> set ls\<rparr>))"

definition notification ::
  "emit \<Rightarrow> bus_value \<Rightarrow> (string \<rightharpoonup> notify_state option) \<Rightarrow> (string \<times> 'n json) option \<times> (string \<rightharpoonup> notify_state option)" where
  "notification e v notified =
     (if pl_notify (em_plan e) = [] then (None, notified)
      else case value_label v of
          None \<Rightarrow> (None, notified)
        | Some label \<Rightarrow>
            (let st = notify_state_of label (pl_notify (em_plan e)); path = notification_path (em_path e)
             in if notified path = Some st then (None, notified)
                else (Some (path, notification_value (em_device e) label st), notified(path \<mapsto> st))))"

definition nodes_of :: "u32 \<Rightarrow> ((u32 \<times> field_id) \<times> emit) list \<Rightarrow> string list" where
  "nodes_of device em =
     remdups_adj (sort (List.map_filter (\<lambda>((d, fid), e). if d = device then node_of (em_path e) else None) em))"

definition node_values :: "device_rec \<Rightarrow> string \<Rightarrow> (string \<times> 'n json) list" where
  "node_values d base =
     (if dr_name d \<noteq> [] then [(base @ ''.name'', JString (dr_name d))] else []) @
     [(base @ ''.manufacturer.name'', JString ''Mastervolt'')] @
     (if dr_article d \<noteq> [] then [(base @ ''.manufacturer.model'', JString (dr_article d))] else [])"

definition static_meta_batch ::
  "string \<Rightarrow> device_rec list \<Rightarrow> ((u32 \<times> field_id) \<times> emit) list \<Rightarrow> u32 set \<Rightarrow> 'n line list" where
  "static_meta_batch stamp devices em published =
     map (Values_line stamp)
       (filter (\<lambda>vs. vs \<noteq> [])
          (map (\<lambda>d. concat (map (node_values d) (nodes_of (dr_id d) em)))
             (filter (\<lambda>d. dr_id d \<in> published) devices)))"

section \<open>Activation\<close>

definition unit_table :: "((u32 \<times> field_id) \<times> emit) list \<Rightarrow> string \<rightharpoonup> string" where
  "unit_table em = map_of (List.map_filter (\<lambda>(k, e). map_option (Pair (em_path e)) (pl_unit (em_plan e))) em)"

definition mark_streaming :: "nat \<Rightarrow> device_rec list \<Rightarrow> timeline \<Rightarrow> timeline" where
  "mark_streaming now devices tml =
     fold (\<lambda>d tml.
         let t = (case tl_devices tml (dr_id d) of Some t \<Rightarrow> t
                  | None \<Rightarrow> \<lparr>tm_identified = 0, tm_took = 0, tm_late = False, tm_streaming = None\<rparr>)
         in tml\<lparr>tl_devices := (tl_devices tml)(dr_id d \<mapsto> if tm_streaming t = None then t\<lparr>tm_streaming := Some now\<rparr> else t)\<rparr>)
       devices tml"

definition activate ::
  "(sched, 'f, 'n) env \<Rightarrow> (diagnostic \<Rightarrow> string) \<Rightarrow> (nat \<Rightarrow> bool) \<Rightarrow> nat \<Rightarrow> bool \<Rightarrow> ('f, 'n) daemon \<Rightarrow>
     ('f, 'n) daemon option" where
  "activate E show_diag up wall ensure d =
     do {
       let m = sh_mapping (dn_shared d);
       s1 \<leftarrow> (if ensure then ensure_menus E m (dn_shared d) else Some (dn_shared d));
       let devices = filter (\<lambda>x. dr_id x \<in> pg_ready (dn_progress d)) (sh_devices s1);
       let r = resolve devices m;
       let pg = snd (to_print show_diag (rv_diagnostics r) (set (map dr_serial devices)) (dn_progress d));
       let wanted = per_device (rv_emit r);
       let old = ac_subs (dn_active d);
       let (keep, new) = plan_subs (map (\<lambda>(x, fs, i). (x, fs)) old) wanted;
       (added, n, b1) \<leftarrow> subscribe_all (map (\<lambda>x. (x, case map_of wanted x of Some fs \<Rightarrow> fs | None \<Rightarrow> [])) new)
         (dn_next_sub d) (sh_bus s1);
       b2 \<leftarrow> unsubscribe_all (map (\<lambda>(x, fs, i). i) (filter (\<lambda>x. fst x \<notin> set keep) old)) b1;
       let published = set (map fst wanted);
       let sb = static_meta_batch (now_rfc3339 wall) devices (rv_emit r) published;
       Some (d\<lparr>dn_shared := s1\<lparr>sh_bus := b2, sh_diagnostics := rv_diagnostics r, sh_streaming := length (rv_emit r),
                sh_timeline := mark_streaming (b_clock b2 - sh_started s1)
                  (filter (\<lambda>x. dr_id x \<in> published) devices) (sh_timeline s1)\<rparr>,
              dn_next_sub := n, dn_progress := pg, dn_static := sb,
              dn_clients := (if sb = [] then dn_clients d else write_clients up sb (dn_clients d)),
              dn_active := \<lparr>ac_emit = rv_emit r, ac_subs = filter (\<lambda>x. fst x \<in> set keep) old @ added,
                ac_units = unit_table (rv_emit r), ac_meta_sent = {}, ac_notified = Map.empty,
                ac_connections_seen = USIZE_MAX\<rparr>\<rparr>)
     }"

section \<open>Seeding a first mapping\<close>

definition no_mapping_file :: "('f, 'i) file_ops \<Rightarrow> string option \<Rightarrow> 'f \<Rightarrow> bool" where
  "no_mapping_file F path fs = (case path of Some p \<Rightarrow> \<not> fo_exists F p fs | None \<Rightarrow> False)"

definition mtime_of :: "('f, 'i) file_ops \<Rightarrow> string option \<Rightarrow> 'f \<Rightarrow> nat option" where
  "mtime_of F path fs = (case path of Some p \<Rightarrow> fo_mtime F p fs | None \<Rightarrow> None)"

definition seed_if_empty ::
  "(sched, 'f, 'n) env \<Rightarrow> string option \<Rightarrow> bool \<Rightarrow> (sched, 'f) shared \<Rightarrow> bool \<times> (sched, 'f) shared" where
  "seed_if_empty E path report s =
     (let m = seed_mapping (en_lower E) (en_catalog E) (sh_devices s)
      in if \<not> mapping_is_empty (sh_mapping s) then (False, s)
         else if mapping_is_empty m \<and> \<not> report then (False, s)
         else (\<not> mapping_is_empty m,
           (case path of
              Some p \<Rightarrow> if \<not> mapping_is_empty m then s\<lparr>sh_files := snd (en_save E p m (sh_files s))\<rparr> else s
            | None \<Rightarrow> s)\<lparr>sh_mapping := m\<rparr>))"

section \<open>The main loop\<close>

datatype found = Found_device u32 bool | Found_walked

text \<open>One message of the discovery thread: whether to activate, whether a mapping was seeded, the state.\<close>

fun take_found ::
  "(sched, 'f, 'n) env \<Rightarrow> ('f, 'i) file_ops \<Rightarrow> string option \<Rightarrow> found \<Rightarrow> bool \<times> bool \<times> ('f, 'n) daemon \<Rightarrow>
     bool \<times> bool \<times> ('f, 'n) daemon" where
  "take_found E F path (Found_device i mapped) (changed, seeded, d) =
     (let d1 = d\<lparr>dn_progress := (dn_progress d)\<lparr>pg_ready := insert i (pg_ready (dn_progress d))\<rparr>\<rparr>;
          changed1 = (changed \<or> mapped)
      in if pg_may_seed (dn_progress d1) \<and> no_mapping_file F path (sh_files (dn_shared d1))
         then (case seed_if_empty E path False (dn_shared d1) of
             (True, s) \<Rightarrow> (True, True, d1\<lparr>dn_shared := s, dn_progress := (dn_progress d1)\<lparr>pg_may_seed := False\<rparr>,
                                     dn_stamp := mtime_of F path (sh_files s)\<rparr>)
           | (False, s) \<Rightarrow> (changed1, seeded, d1\<lparr>dn_shared := s\<rparr>))
         else (changed1, seeded, d1))"
| "take_found E F path Found_walked (changed, seeded, d) =
     (let first_run = (no_mapping_file F path (sh_files (dn_shared d)) \<or> path = None);
          (seeded1, s) = (if first_run then seed_if_empty E path True (dn_shared d) else (False, dn_shared d))
      in (True, seeded1, d\<lparr>dn_shared := s,
            dn_progress := (dn_progress d)\<lparr>pg_walked := True, pg_may_seed := first_run \<and> \<not> seeded1 \<and> path \<noteq> None\<rparr>,
            dn_stamp := (if seeded1 then mtime_of F path (sh_files s) else dn_stamp d)\<rparr>))"

text \<open>A mapping replaced through the API is in the shared state already; any number of such edits is one
  activation.\<close>

definition replaced :: "('f, 'n) daemon \<Rightarrow> ('f, 'n) daemon" where
  "replaced d = d\<lparr>dn_progress := (dn_progress d)\<lparr>pg_printed := {}, pg_may_seed := False\<rparr>\<rparr>"

definition check_reload ::
  "(sched, 'f, 'n) env \<Rightarrow> ('f, 'i) file_ops \<Rightarrow> (diagnostic \<Rightarrow> string) \<Rightarrow> (nat \<Rightarrow> bool) \<Rightarrow> nat \<Rightarrow> string option \<Rightarrow>
     ('f, 'n) daemon \<Rightarrow> ('f, 'n) daemon option" where
  "check_reload E F show_diag up wall path d =
     (if dn_reloads d < sh_reloads (dn_shared d)
      then activate E show_diag up wall True
             (replaced (d\<lparr>dn_reloads := sh_reloads (dn_shared d), dn_stamp := mtime_of F path (sh_files (dn_shared d))\<rparr>))
      else Some d)"

definition check_file ::
  "(sched, 'f, 'n) env \<Rightarrow> ('f, 'i) file_ops \<Rightarrow> (diagnostic \<Rightarrow> string) \<Rightarrow> (nat \<Rightarrow> bool) \<Rightarrow> nat \<Rightarrow> string option \<Rightarrow>
     ('f, 'n) daemon \<Rightarrow> ('f, 'n) daemon option" where
  "check_file E F show_diag up wall path d =
     (case path of
        None \<Rightarrow> Some d
      | Some p \<Rightarrow>
          (let s = dn_shared d; now = b_clock (sh_bus s); stamp = fo_mtime F p (sh_files s)
           in if now - dn_last_check d < RELOAD_CHECK then Some d
              else if stamp = dn_stamp d then Some (d\<lparr>dn_last_check := now\<rparr>)
              else (case mapping_load (\<lambda>q. fo_read F q (sh_files s)) (fo_not_found F) (en_mapping E) p of
                  Inl e \<Rightarrow> Some (d\<lparr>dn_last_check := now, dn_stamp := stamp\<rparr>)
                | Inr m \<Rightarrow>
                    activate E show_diag up wall True
                      (replaced (d\<lparr>dn_last_check := now, dn_stamp := stamp, dn_shared := s\<lparr>sh_mapping := m\<rparr>\<rparr>)))))"

text \<open>The values of one subscription: the last one of each path, and the notifications they call for.\<close>

type_synonym 'n gathered =
  "((u32 \<times> field_id) \<rightharpoonup> bus_value) \<times> (string \<times> 'n json) list \<times> (string \<rightharpoonup> notify_state option)"

definition take_update ::
  "'n json_num \<Rightarrow> ((u32 \<times> field_id) \<rightharpoonup> emit) \<Rightarrow> bool \<Rightarrow> value_update \<Rightarrow> 'n gathered \<Rightarrow> 'n gathered" where
  "take_update N em have_clients u g =
     (case g of (values, latest, notified) \<Rightarrow>
        (case em (vu_device u, vu_field u) of
           None \<Rightarrow> g
         | Some e \<Rightarrow>
             (let values1 = values((vu_device u, vu_field u) \<mapsto> vu_value u)
              in if \<not> have_clients then (values1, latest, notified)
                 else (let p = em_plan e;
                           latest1 = (case encode N (vu_value u) (pl_conv p) (pl_invert p) (pl_truth p) of
                               Some j \<Rightarrow> AList.update (em_path e) j latest | None \<Rightarrow> latest);
                           (n, notified1) = notification e (vu_value u) notified
                       in (values1, (case n of Some (path, j) \<Rightarrow> AList.update path j latest1 | None \<Rightarrow> latest1), notified1)))))"

text \<open>The units of paths seen for the first time.\<close>

fun new_units :: "(string \<rightharpoonup> string) \<Rightarrow> string list \<Rightarrow> string set \<Rightarrow> (string \<times> string) list \<times> string set" where
  "new_units units [] sent = ([], sent)"
| "new_units units (p # ps) sent =
     (case (if p \<in> sent then None else units p) of
        Some u \<Rightarrow> (case new_units units ps (insert p sent) of (us, sent1) \<Rightarrow> ((p, u) # us, sent1))
      | None \<Rightarrow> new_units units ps sent)"

text \<open>All subscriptions in turn, each with what its channel holds: the lines, the new units, the rest.\<close>

fun gather ::
  "'n json_num \<Rightarrow> active \<Rightarrow> bool \<Rightarrow> string \<Rightarrow> value_update list list \<Rightarrow>
     ((u32 \<times> field_id) \<rightharpoonup> bus_value) \<times> (string \<rightharpoonup> notify_state option) \<times> string set \<Rightarrow>
     ('n line list \<times> (string \<times> string) list) \<times> ((u32 \<times> field_id) \<rightharpoonup> bus_value) \<times> (string \<rightharpoonup> notify_state option) \<times> string set" where
  "gather N a have_clients stamp [] (values, notified, sent) = (([], []), values, notified, sent)"
| "gather N a have_clients stamp (us # rest) (values, notified, sent) =
     (case fold (take_update N (map_of (ac_emit a)) have_clients) us (values, [], notified) of
        (values1, latest, notified1) \<Rightarrow>
          (case (if latest = [] then ([], sent) else new_units (ac_units a) (map fst latest) sent) of
             (meta, sent1) \<Rightarrow>
               (case gather N a have_clients stamp rest (values1, notified1, sent1) of
                  ((ls, metas), st) \<Rightarrow>
                    (((if latest = [] then ls else Values_line stamp latest # ls), meta @ metas), st))))"

definition stream_values ::
  "(sched, 'f, 'n) env \<Rightarrow> (nat \<Rightarrow> bool) \<Rightarrow> nat \<Rightarrow> (nat \<Rightarrow> value_update list) \<Rightarrow> ('f, 'n) daemon \<Rightarrow> ('f, 'n) daemon" where
  "stream_values E up wall pending d =
     (let have_clients = (dn_clients d \<noteq> []);
          a = (if dn_connections d \<noteq> ac_connections_seen (dn_active d)
               then (dn_active d)\<lparr>ac_connections_seen := dn_connections d, ac_notified := Map.empty\<rparr> else dn_active d);
          s = dn_shared d; stamp = now_rfc3339 wall;
          ((ls, meta), vals, notified, sent) =
            gather (en_num E) a have_clients stamp (map (\<lambda>(x, fs, i). pending i) (ac_subs a))
              (sh_values s, ac_notified a, ac_meta_sent a);
          unit_lines = (if meta = [] then [] else [Meta_line stamp meta]);
          batch = unit_lines @ ls;
          clients = (if batch = [] then dn_clients d else write_clients up batch (dn_clients d))
      in d\<lparr>dn_shared := s\<lparr>sh_values := vals,
             sh_clients := (if length clients < length (dn_clients d) then length clients else sh_clients s)\<rparr>,
           dn_static := dn_static d @ unit_lines, dn_clients := clients,
           dn_active := a\<lparr>ac_notified := notified, ac_meta_sent := sent\<rparr>\<rparr>)"

definition main_turn ::
  "(sched, 'f, 'n) env \<Rightarrow> ('f, 'i) file_ops \<Rightarrow> (diagnostic \<Rightarrow> string) \<Rightarrow> (nat \<Rightarrow> bool) \<Rightarrow> nat \<Rightarrow> string option \<Rightarrow>
     found list \<Rightarrow> (nat \<Rightarrow> value_update list) \<Rightarrow> ('f, 'n) daemon \<Rightarrow> ('f, 'n) daemon option" where
  "main_turn E F show_diag up wall path founds pending d =
     (case fold (take_found E F path) founds (False, False, d) of
        (changed, seeded, d1) \<Rightarrow> do {
          d2 \<leftarrow> (if changed then activate E show_diag up wall seeded d1 else Some d1);
          d3 \<leftarrow> check_reload E F show_diag up wall path d2;
          d4 \<leftarrow> check_file E F show_diag up wall path d3;
          Some (stream_values E up wall pending d4)
        })"

section \<open>New clients\<close>

text \<open>The thread that accepts clients: it counts the connection, then writes what every client gets
  first, then adds the client. The main loop may run in between.\<close>

datatype 'n accept = Listening | Counted nat | Greeted "'n client"

inductive accept_step :: "'n accept \<times> ('f, 'n) daemon \<Rightarrow> 'n accept \<times> ('f, 'n) daemon \<Rightarrow> bool" where
  count: "accept_step (Listening, d) (Counted (dn_connections d), d\<lparr>dn_connections := dn_connections d + 1\<rparr>)"
| greet: "accept_step (Counted i, d) (Greeted (i, dn_static d), d)"
| push: "accept_step (Greeted c, d)
    (Listening, d\<lparr>dn_clients := dn_clients d @ [c],
       dn_shared := (dn_shared d)\<lparr>sh_clients := length (dn_clients d) + 1\<rparr>\<rparr>)"

end
