(* ===== verification/StreamProps.thy ===== *)
theory StreamProps
  imports Stream WebProps
begin

text \<open>
  What the daemon's stream promises: which subscriptions an activation leaves, that a mapping file is
  never seeded over, and what a client that joins gets.
\<close>

section \<open>Subscriptions\<close>

lemma subscribe_all_ids:
  "subscribe_all ws n s = Some (subs, n', s') \<Longrightarrow>
     map (\<lambda>(x, fs, i). (x, fs)) subs = ws \<and> (\<forall>(x, fs, i) \<in> set subs. n \<le> i \<and> i < n') \<and> n \<le> n'"
proof (induction ws arbitrary: n s subs)
  case (Cons w ws)
  obtain x fs where w: "w = (x, fs)" by (cases w)
  obtain n1 s1 subs2 where e: "engine_subscribe x fs RATE False n s = Some (n, n1, s1)" and n1: "n1 = n + 1"
    and r: "subscribe_all ws n1 s1 = Some (subs2, n', s')" and s: "subs = (x, fs, n) # subs2"
    using Cons.prems by (auto simp: w engine_subscribe_def Option.bind_eq_Some_conv)
  show ?case using Cons.IH [OF r] n1 by (fastforce simp: s w)
qed simp

lemma map_of_per_device:
  "map_of (per_device em) x =
     (if x \<in> (\<lambda>y. fst (fst y)) ` set em then Some (sort (map snd (filter (\<lambda>k. fst k = x) (map fst em)))) else None)"
proof -
  have "map_of (map (\<lambda>d. (d, g d)) ds) x = (if x \<in> set ds then Some (g x) else None)" for ds and g :: "u32 \<Rightarrow> field_id list"
    by (induction ds) auto
  then show ?thesis by (simp add: per_device_def)
qed

lemma per_device_fields:
  "map_of (per_device em) x = Some fs \<Longrightarrow> sorted fs \<and> set fs = {fid. (x, fid) \<in> fst ` set em}"
  by (force simp: map_of_per_device split: if_splits)

lemma distinct_per_device: "distinct (map fst (per_device em))"
  by (simp add: per_device_def comp_def)

lemma map_of_filter_key: "map_of (filter (\<lambda>y. P (fst y)) xs) x = (if P x then map_of xs x else None)"
  by (induction xs) auto

lemma plan_subs_sets:
  assumes "distinct (map fst wanted)"
  shows "x \<in> set (fst (plan_subs old wanted)) \<longleftrightarrow> (\<exists>fs. map_of wanted x = Some fs \<and> map_of old x = Some fs)"
    and "x \<in> set (snd (plan_subs old wanted)) \<longleftrightarrow> (\<exists>fs. map_of wanted x = Some fs \<and> map_of old x \<noteq> Some fs)"
  using assms by (force simp: plan_subs_def Let_def)+

lemma map_of_fields: "map_of (map (\<lambda>(x, fs, i). (x, fs)) subs) x = map_option fst (map_of subs x)"
  by (induction subs) auto

lemma map_of_tabulate: "map_of (map (\<lambda>y. (y, g y)) ys) x = (if x \<in> set ys then Some (g x) else None)"
  by (induction ys) auto

text \<open>What an activation is made of.\<close>

definition ready_devices :: "('f, 'n) daemon \<Rightarrow> (sched, 'f) shared \<Rightarrow> device_rec list" where
  "ready_devices d s = filter (\<lambda>x. dr_id x \<in> pg_ready (dn_progress d)) (sh_devices s)"

lemma activate_parts:
  assumes "activate E show_diag up wall ensure d = Some d'"
  obtains s1 added b1 where
    "(if ensure then ensure_menus E (sh_mapping (dn_shared d)) (dn_shared d) else Some (dn_shared d)) = Some s1"
    and "ac_emit (dn_active d') = rv_emit (resolve (ready_devices d s1) (sh_mapping (dn_shared d)))"
    and "subscribe_all
        (map (\<lambda>x. (x, case map_of (per_device (ac_emit (dn_active d'))) x of Some fs \<Rightarrow> fs | None \<Rightarrow> []))
          (snd (plan_subs (map (\<lambda>(x, fs, i). (x, fs)) (ac_subs (dn_active d))) (per_device (ac_emit (dn_active d'))))))
        (dn_next_sub d) (sh_bus s1) = Some (added, dn_next_sub d', b1)"
    and "ac_subs (dn_active d') =
        filter (\<lambda>y. fst y \<in> set (fst (plan_subs (map (\<lambda>(x, fs, i). (x, fs)) (ac_subs (dn_active d)))
          (per_device (ac_emit (dn_active d')))))) (ac_subs (dn_active d)) @ added"
    and "sh_devices (dn_shared d') = sh_devices s1" and "sh_mapping (dn_shared d') = sh_mapping s1"
    and "sh_files (dn_shared d') = sh_files s1" and "sh_reloads (dn_shared d') = sh_reloads s1"
    and "dn_stamp d' = dn_stamp d"
proof -
  obtain s1 where s1: "(if ensure then ensure_menus E (sh_mapping (dn_shared d)) (dn_shared d) else Some (dn_shared d)) = Some s1"
    using assms unfolding activate_def Let_def by (cases "if ensure then ensure_menus E (sh_mapping (dn_shared d)) (dn_shared d) else Some (dn_shared d)") simp_all
  obtain r where r: "subscribe_all
        (map (\<lambda>x. (x, case map_of (per_device (rv_emit (resolve (ready_devices d s1) (sh_mapping (dn_shared d))))) x of Some fs \<Rightarrow> fs | None \<Rightarrow> []))
          (snd (plan_subs (map (\<lambda>(x, fs, i). (x, fs)) (ac_subs (dn_active d)))
            (per_device (rv_emit (resolve (ready_devices d s1) (sh_mapping (dn_shared d))))))))
        (dn_next_sub d) (sh_bus s1) = Some r"
    using assms unfolding activate_def Let_def s1 Option.bind.simps ready_devices_def [symmetric]
    by (auto simp: case_prod_beta split: bind_splits)
  obtain added n b1 where "r = (added, n, b1)" by (cases r)
  note sub = r [unfolded this]
  show ?thesis
    using assms unfolding activate_def Let_def s1 Option.bind.simps ready_devices_def [symmetric]
    by (simp add: sub case_prod_beta Option.bind_eq_Some_conv) (rule that [OF s1], auto simp: sub case_prod_beta)
qed

text \<open>C15. An activation leaves exactly the subscriptions the mapping calls for: every device that publishes
  has one, to precisely its published fields, in order, and no other device has any. A device whose fields
  are what they were keeps its subscription, and every other subscription is a new one.\<close>

theorem activate_subscribes_exactly:
  assumes "activate E show_diag up wall ensure d = Some d'"
  shows "map_option fst (map_of (ac_subs (dn_active d')) x) = map_of (per_device (ac_emit (dn_active d'))) x \<and>
    (case map_of (ac_subs (dn_active d')) x of
       None \<Rightarrow> x \<notin> fst ` fst ` set (ac_emit (dn_active d'))
     | Some (fs, i) \<Rightarrow>
         sorted fs \<and> set fs = {fid. (x, fid) \<in> fst ` set (ac_emit (dn_active d'))} \<and>
         (if map_option fst (map_of (ac_subs (dn_active d)) x) = Some fs
          then map_of (ac_subs (dn_active d)) x = Some (fs, i)
          else dn_next_sub d \<le> i \<and> i < dn_next_sub d'))"
proof -
  define wanted where "wanted = per_device (ac_emit (dn_active d'))"
  define old where "old = map (\<lambda>(x, fs, i). (x, fs)) (ac_subs (dn_active d))"
  obtain b0 added b1 where
    sub: "subscribe_all (map (\<lambda>x. (x, case map_of wanted x of Some fs \<Rightarrow> fs | None \<Rightarrow> [])) (snd (plan_subs old wanted)))
        (dn_next_sub d) b0 = Some (added, dn_next_sub d', b1)"
    and subs: "ac_subs (dn_active d') = filter (\<lambda>y. fst y \<in> set (fst (plan_subs old wanted))) (ac_subs (dn_active d)) @ added"
    by (rule activate_parts [OF assms]) (fold wanted_def old_def, rule that, assumption, assumption)
  note ids = subscribe_all_ids [OF sub]
  note sets = plan_subs_sets [OF distinct_per_device, of x old "ac_emit (dn_active d')", folded wanted_def]
  have old_x: "map_of old x = map_option fst (map_of (ac_subs (dn_active d)) x)"
    by (simp add: old_def map_of_fields)
  have added_x: "map_option fst (map_of added x) =
      (if x \<in> set (snd (plan_subs old wanted)) then Some (case map_of wanted x of Some fs \<Rightarrow> fs | None \<Rightarrow> []) else None)"
    unfolding map_of_fields [symmetric] using ids by (simp add: map_of_tabulate)
  have added_id: "dn_next_sub d \<le> i \<and> i < dn_next_sub d'" if "map_of added x = Some (fs, i)" for fs i
    using ids map_of_SomeD [OF that] by auto
  have new_x: "map_of (ac_subs (dn_active d')) x =
      (case (if x \<in> set (fst (plan_subs old wanted)) then map_of (ac_subs (dn_active d)) x else None) of
         Some y \<Rightarrow> Some y | None \<Rightarrow> map_of added x)"
    by (simp add: subs map_add_def map_of_filter_key [where P = "\<lambda>k. k \<in> set (fst (plan_subs old wanted))"] split: option.split)
  have w: "map_of (per_device (ac_emit (dn_active d'))) x = map_of wanted x" by (simp add: wanted_def)
  have not_wanted: "map_of wanted x = None \<longleftrightarrow> x \<notin> fst ` fst ` set (ac_emit (dn_active d'))"
    by (auto simp: wanted_def map_of_per_device image_image)
  show ?thesis
  proof (cases "map_of wanted x")
    case None
    then have "map_of (ac_subs (dn_active d')) x = None"
      using added_x sets by (simp add: new_x)
    with None not_wanted show ?thesis by (simp add: w)
  next
    case (Some fs)
    note f = per_device_fields [of "ac_emit (dn_active d')" x fs, folded wanted_def, OF Some]
    show ?thesis
    proof (cases "map_of old x = Some fs")
      case True
      then obtain i where i: "map_of (ac_subs (dn_active d)) x = Some (fs, i)" by (auto simp: old_x)
      have "map_of (ac_subs (dn_active d')) x = Some (fs, i)"
        using added_x sets True Some i by (simp add: new_x)
      with Some f i show ?thesis by (simp add: w)
    next
      case False
      then obtain i where i: "map_of added x = Some (fs, i)" using added_x sets Some by auto
      moreover have "x \<notin> set (fst (plan_subs old wanted))" using sets Some False by simp
      ultimately have "map_of (ac_subs (dn_active d')) x = Some (fs, i)" by (simp add: new_x)
      with Some f False added_id [OF i] show ?thesis by (simp add: w old_x)
    qed
  qed
qed

text \<open>A lamp whose mapping was emptied loses its subscription.\<close>

definition lamp_daemon :: "(unit, int) daemon" where
  "lamp_daemon = \<lparr>dn_shared = lamp_state, dn_next_sub = 1, dn_clients = [], dn_connections = 0, dn_static = [],
     dn_active = active_new\<lparr>ac_subs := [(0x1234, [5], 0)]\<rparr>,
     dn_progress = progress_new\<lparr>pg_ready := {0x1234}, pg_walked := True\<rparr>, dn_reloads = 0, dn_stamp = None,
     dn_last_check = 0\<rparr>"

lemma lamp_no_emit: "rv_emit (resolve ds mapping_new) = []"
  by (simp add: resolve_def mapping_new_def)

lemma lamp_unsubscribe: "\<exists>b. engine_unsubscribe i lamp_bus = Some b"
proof -
  have "sc_subs (maybe_heartbeat (lamp_bus\<lparr>sc_subs := []\<rparr>)) = []"
    by (simp add: maybe_heartbeat_def Let_def split: option.split)
  then obtain s2 where "process_due (maybe_heartbeat (lamp_bus\<lparr>sc_subs := []\<rparr>)) = Some s2" using process_due_idle by blast
  then show ?thesis by (simp add: engine_unsubscribe_def engine_call_def)
qed

lemma lamp_activate:
  "\<exists>d'. activate lamp_env show_diag up wall False (lamp_daemon\<lparr>dn_progress := pg, dn_stamp := st\<rparr>) = Some d' \<and>
     ac_emit (dn_active d') = [] \<and> dn_reloads d' = 0 \<and> dn_stamp d' = st \<and> sh_reloads (dn_shared d') = 0"
proof -
  obtain b where "engine_unsubscribe 0 lamp_bus = Some b" using lamp_unsubscribe by blast
  then show ?thesis
    by (simp add: lamp_state_def activate_def lamp_daemon_def lamp_no_emit active_new_def per_device_def plan_subs_def Let_def)
qed

lemma activate_subscribes_exactly_witness:
  "\<exists>d'. activate lamp_env (\<lambda>g. []) (\<lambda>i. True) 0 False lamp_daemon = Some d' \<and> map_of (ac_subs (dn_active d')) 0x1234 = None"
proof -
  have "lamp_daemon\<lparr>dn_progress := dn_progress lamp_daemon, dn_stamp := dn_stamp lamp_daemon\<rparr> = lamp_daemon" by simp
  then obtain d' where d: "activate lamp_env (\<lambda>g. []) (\<lambda>i. True) 0 False lamp_daemon = Some d'" and e: "ac_emit (dn_active d') = []"
    using lamp_activate by metis
  from activate_subscribes_exactly [OF d, of "0x1234"] d show ?thesis by (simp add: e per_device_def)
qed

section \<open>The mapping file\<close>

text \<open>Asking the bus for the fields a mapping names touches neither the files nor the mapping.\<close>

definition same_mapping :: "('b, 'f) shared \<Rightarrow> ('b, 'f) shared \<Rightarrow> bool" where
  "same_mapping s s' \<longleftrightarrow>
     sh_files s' = sh_files s \<and> sh_mapping s' = sh_mapping s \<and> sh_reloads s' = sh_reloads s"

lemma same_mapping_simps [simp]:
  "same_mapping s s" "same_mapping s (merge_into addr m gs s1) = same_mapping s s1"
  "same_mapping (s\<lparr>sh_asked := a\<rparr>) s1 = same_mapping s s1"
  by (simp_all add: same_mapping_def merge_into_def)

lemma same_mapping_trans: "same_mapping s s1 \<Longrightarrow> same_mapping s1 s2 \<Longrightarrow> same_mapping s s2"
  by (simp add: same_mapping_def)

lemma on_bus_same: "on_bus f s = Some (r, s') \<Longrightarrow> same_mapping s s'"
  by (auto simp: on_bus_def same_mapping_def)

lemma discover_wanted_same: "discover_wanted E ws s = Some s' \<Longrightarrow> same_mapping s s'"
proof (induction ws arbitrary: s)
  case (Cons w ws)
  obtain addr m where w: "w = (addr, m)" by (cases w)
  obtain r s1 where r: "on_bus (op_discover_menu (en_ops E) addr m) s = Some (r, s1)"
    using Cons.prems unfolding w by (auto split: option.splits)
  have "same_mapping s (case r of Inr gs \<Rightarrow> merge_into addr m gs s1 | Inl e \<Rightarrow> s1)"
    using on_bus_same [OF r] by (simp split: sum.split)
  with Cons r show ?case by (auto simp: w elim: same_mapping_trans)
qed simp

lemma ask_fields_same: "ask_fields E addr fids s = Some (fs, s') \<Longrightarrow> same_mapping s s'"
proof (induction fids arbitrary: s fs)
  case (Cons fid fids)
  let ?s = "s\<lparr>sh_asked := insert (addr, fid) (sh_asked s)\<rparr>"
  obtain r s1 where r: "on_bus (op_field_info (en_ops E) addr fid) ?s = Some (r, s1)"
    using Cons.prems by (auto split: option.splits)
  from on_bus_same [OF r] have "same_mapping s s1" by simp
  then show ?case using Cons.IH [of s1] Cons.prems r by (auto elim: same_mapping_trans)
qed simp

lemma ask_wanted_same: "ask_wanted E ws s = Some s' \<Longrightarrow> same_mapping s s'"
proof (induction ws arbitrary: s)
  case (Cons w ws)
  obtain addr fids where w: "w = (addr, fids)" by (cases w)
  obtain fs s1 where r: "ask_fields E addr fids s = Some (fs, s1)"
    using Cons.prems unfolding w by (auto split: option.splits)
  have "same_mapping s (if fs = [] then s1 else merge_into addr MENU [own_group [] fs] s1)"
    using ask_fields_same [OF r] by simp
  with Cons r show ?case by (auto simp: w elim: same_mapping_trans)
qed simp

lemma ensure_menus_same: "ensure_menus E m s = Some s' \<Longrightarrow> same_mapping s s'"
  by (auto simp: ensure_menus_def ensure_fields_def Option.bind_eq_Some_conv
      dest!: discover_wanted_same ask_wanted_same elim: same_mapping_trans)

lemma activate_same:
  assumes "activate E show_diag up wall ensure d = Some d'"
  shows "same_mapping (dn_shared d) (dn_shared d') \<and> dn_stamp d' = dn_stamp d"
proof (rule activate_parts [OF assms])
  fix s1
  assume s1: "(if ensure then ensure_menus E (sh_mapping (dn_shared d)) (dn_shared d) else Some (dn_shared d)) = Some s1"
    and p: "sh_mapping (dn_shared d') = sh_mapping s1" "sh_files (dn_shared d') = sh_files s1"
      "sh_reloads (dn_shared d') = sh_reloads s1" and st: "dn_stamp d' = dn_stamp d"
  have "same_mapping (dn_shared d) s1" using s1 ensure_menus_same by (auto split: if_splits)
  with p st show ?thesis by (simp add: same_mapping_def)
qed

lemma take_found_same:
  assumes "fo_exists F p (sh_files (dn_shared d))"
  shows "\<exists>ch. take_found E F (Some p) f (changed, seeded, d) =
    (ch, (case f of Found_device i m \<Rightarrow> seeded | Found_walked \<Rightarrow> False),
     d\<lparr>dn_progress := dn_progress (snd (snd (take_found E F (Some p) f (changed, seeded, d))))\<rparr>)"
  using assms by (cases f) (auto simp: no_mapping_file_def Let_def)

lemma take_founds_same:
  assumes "fo_exists F p (sh_files (dn_shared d))"
  shows "\<exists>ch sd pg. fold (take_found E F (Some p)) fs (changed, seeded, d) = (ch, sd, d\<lparr>dn_progress := pg\<rparr>)"
  using assms
proof (induction fs arbitrary: changed seeded d)
  case (Cons f fs)
  obtain ch sd pg where "take_found E F (Some p) f (changed, seeded, d) = (ch, sd, d\<lparr>dn_progress := pg\<rparr>)"
    using take_found_same [OF Cons.prems, of E f changed seeded] by blast
  with Cons.IH [of "d\<lparr>dn_progress := pg\<rparr>" ch sd] Cons.prems show ?case by simp
qed (metis daemon.surjective daemon.update_convs(7) fold_simps(1))

text \<open>C16. A mapping file that exists is never written by the main loop: whatever devices are found while it
  is there, no seeded mapping takes its place, and the mapping in use stays what it was unless the file
  changed on disk, when it becomes what the file now holds.\<close>

theorem mapping_file_never_seeded_over:
  assumes "main_turn E F show_diag up wall (Some p) founds pending d = Some d'"
    and "fo_exists F p (sh_files (dn_shared d))"
  shows "sh_files (dn_shared d') = sh_files (dn_shared d) \<and>
    (sh_mapping (dn_shared d') = sh_mapping (dn_shared d) \<or>
     fo_mtime F p (sh_files (dn_shared d)) \<noteq> dn_stamp d \<and>
     mapping_load (\<lambda>q. fo_read F q (sh_files (dn_shared d))) (fo_not_found F) (en_mapping E) p = Inr (sh_mapping (dn_shared d')))"
proof -
  obtain ch sd pg where t: "fold (take_found E F (Some p)) founds (False, False, d) = (ch, sd, d\<lparr>dn_progress := pg\<rparr>)"
    using take_founds_same [OF assms(2), of E founds False False] by blast
  define d1 where "d1 = d\<lparr>dn_progress := pg\<rparr>"
  obtain d2 d3 d4 where d2: "(if ch then activate E show_diag up wall sd d1 else Some d1) = Some d2"
    and d3: "check_reload E F show_diag up wall (Some p) d2 = Some d3"
    and d4: "check_file E F show_diag up wall (Some p) d3 = Some d4" and d': "d' = stream_values E up wall pending d4"
    using assms(1) unfolding main_turn_def t d1_def [symmetric] by (auto simp: Option.bind_eq_Some_conv)
  have s1: "dn_shared d1 = dn_shared d" "dn_stamp d1 = dn_stamp d" by (simp_all add: d1_def)
  have s2: "same_mapping (dn_shared d) (dn_shared d2)" "dn_stamp d2 = dn_stamp d"
    using d2 activate_same [of E show_diag up wall sd d1 d2] s1 by (auto split: if_splits)
  have s3: "same_mapping (dn_shared d) (dn_shared d3)" and st3: "dn_stamp d3 \<in> {dn_stamp d, fo_mtime F p (sh_files (dn_shared d))}"
    using d3 s2 by (auto simp: check_reload_def replaced_def same_mapping_def mtime_of_def split: if_splits dest!: activate_same)
  have s5: "sh_files (dn_shared d') = sh_files (dn_shared d4)" "sh_mapping (dn_shared d') = sh_mapping (dn_shared d4)"
    by (simp_all add: d' stream_values_def Let_def case_prod_beta)
  show ?thesis
    using d4 s3 st3 unfolding s5
    by (auto simp: check_file_def Let_def replaced_def same_mapping_def split: if_splits sum.splits dest!: activate_same)
qed

definition one_file :: "(unit, unit) file_ops" where
  "one_file = \<lparr>fo_exists = (\<lambda>p fs. True), fo_mtime = (\<lambda>p fs. Some 0), fo_read = (\<lambda>p fs. Inl ()), fo_not_found = (\<lambda>e. True)\<rparr>"

lemma mapping_file_never_seeded_over_witness:
  "\<exists>d'. main_turn lamp_env one_file (\<lambda>g. []) (\<lambda>i. True) 0 (Some ''m'') [Found_walked] (\<lambda>i. [])
      (lamp_daemon\<lparr>dn_stamp := Some 0\<rparr>) = Some d' \<and> sh_mapping (dn_shared d') = mapping_new"
proof -
  let ?d = "lamp_daemon\<lparr>dn_stamp := Some 0\<rparr>"
  define pg where "pg = dn_progress lamp_daemon\<lparr>pg_walked := True, pg_may_seed := False\<rparr>"
  obtain d2 where a: "activate lamp_env (\<lambda>g. []) (\<lambda>i. True) 0 False (lamp_daemon\<lparr>dn_progress := pg, dn_stamp := Some 0\<rparr>) = Some d2"
    and r: "dn_reloads d2 = 0" "sh_reloads (dn_shared d2) = 0" "dn_stamp d2 = Some 0"
    using lamp_activate [of "\<lambda>g. []" "\<lambda>i. True" 0 "Some 0" pg] by blast
  have t: "fold (take_found lamp_env one_file (Some ''m'')) [Found_walked] (False, False, ?d) =
      (True, False, lamp_daemon\<lparr>dn_progress := pg, dn_stamp := Some 0\<rparr>)"
    by (simp add: no_mapping_file_def one_file_def pg_def)
  have "\<exists>d'. main_turn lamp_env one_file (\<lambda>g. []) (\<lambda>i. True) 0 (Some ''m'') [Found_walked] (\<lambda>i. []) ?d = Some d'"
    unfolding main_turn_def t by (simp add: a check_reload_def r check_file_def Let_def one_file_def)
  then obtain d' where d': "main_turn lamp_env one_file (\<lambda>g. []) (\<lambda>i. True) 0 (Some ''m'') [Found_walked] (\<lambda>i. []) ?d = Some d'" ..
  from mapping_file_never_seeded_over [OF d'] d' show ?thesis by (simp add: one_file_def lamp_daemon_def)
qed

section \<open>Clients that join\<close>

text \<open>A value under its own path, and an update that calls for no notification beyond those sent.\<close>

definition plain :: "'n json_num \<Rightarrow> ((u32 \<times> field_id) \<rightharpoonup> emit) \<Rightarrow> string \<Rightarrow> 'n json \<Rightarrow> bool" where
  "plain N em p j \<longleftrightarrow> (\<exists>key e v. em key = Some e \<and> p = em_path e \<and>
     encode N v (pl_conv (em_plan e)) (pl_invert (em_plan e)) (pl_truth (em_plan e)) = Some j)"

definition told :: "((u32 \<times> field_id) \<rightharpoonup> emit) \<Rightarrow> (string \<rightharpoonup> notify_state option) \<Rightarrow> value_update \<Rightarrow> bool" where
  "told em notified u \<longleftrightarrow> (\<forall>e label. em (vu_device u, vu_field u) = Some e \<longrightarrow> pl_notify (em_plan e) \<noteq> [] \<longrightarrow>
     value_label (vu_value u) = Some label \<longrightarrow>
     notified (notification_path (em_path e)) = Some (notify_state_of label (pl_notify (em_plan e))))"

definition plain_line :: "'n json_num \<Rightarrow> ((u32 \<times> field_id) \<rightharpoonup> emit) \<Rightarrow> 'n line \<Rightarrow> bool" where
  "plain_line N em l \<longleftrightarrow> (\<forall>t vs. l = Values_line t vs \<longrightarrow> (\<forall>(p, j) \<in> set vs. plain N em p j))"

lemma notification_told:
  "told em notified u \<Longrightarrow> em (vu_device u, vu_field u) = Some e \<Longrightarrow> notification e (vu_value u) notified = (None, notified)"
  by (auto simp: notification_def told_def Let_def split: option.split)

lemma set_AList_update: "set (AList.update k v al) \<subseteq> insert (k, v) (set al)"
  by (induction al) auto

lemma take_update_told:
  assumes "told em notified u" and "\<forall>(p, j) \<in> set latest. plain N em p j"
  shows "\<exists>values1 latest1. take_update N em hc u (vals, latest, notified) = (values1, latest1, notified) \<and>
    (\<forall>(p, j) \<in> set latest1. plain N em p j)"
proof (cases "em (vu_device u, vu_field u)")
  case (Some e)
  let ?p = "em_plan e"
  have "plain N em (em_path e) j" if "encode N (vu_value u) (pl_conv ?p) (pl_invert ?p) (pl_truth ?p) = Some j" for j
    using Some that unfolding plain_def by blast
  with assms(2) set_AList_update [of "em_path e" _ latest] show ?thesis
    by (auto simp: take_update_def Some notification_told [OF assms(1) Some] Let_def split: option.split dest: subsetD)
qed (use assms in \<open>simp add: take_update_def\<close>)

lemma take_updates_told:
  assumes "\<forall>u \<in> set us. told em notified u" and "\<forall>(p, j) \<in> set latest. plain N em p j"
  shows "\<exists>values1 latest1. fold (take_update N em hc) us (vals, latest, notified) = (values1, latest1, notified) \<and>
    (\<forall>(p, j) \<in> set latest1. plain N em p j)"
  using assms
proof (induction us arbitrary: vals latest)
  case (Cons u us)
  obtain values1 latest1 where "take_update N em hc u (vals, latest, notified) = (values1, latest1, notified)"
    "\<forall>(p, j) \<in> set latest1. plain N em p j"
    using take_update_told [of em notified u latest N hc vals] Cons.prems by auto
  with Cons.IH [of latest1 values1] Cons.prems show ?case by simp
qed simp

lemma gather_told:
  "\<forall>us \<in> set uss. \<forall>u \<in> set us. told (map_of (ac_emit a)) notified u \<Longrightarrow>
     gather N a hc stamp uss (vals, notified, sent) = ((ls, metas), st) \<Longrightarrow>
     \<forall>l \<in> set ls. plain_line N (map_of (ac_emit a)) l"
proof (induction uss arbitrary: vals sent ls metas st)
  case (Cons us uss)
  obtain values1 latest where f: "fold (take_update N (map_of (ac_emit a)) hc) us (vals, [], notified) = (values1, latest, notified)"
    and p: "\<forall>(p, j) \<in> set latest. plain N (map_of (ac_emit a)) p j"
    using take_updates_told [of us "map_of (ac_emit a)" notified "[]" N hc vals] Cons.prems(1) by auto
  obtain meta sent1 where m: "(if latest = [] then ([], sent) else new_units (ac_units a) (map fst latest) sent) = (meta, sent1)"
    by fastforce
  obtain ls1 metas1 st1 where g: "gather N a hc stamp uss (values1, notified, sent1) = ((ls1, metas1), st1)"
    by (metis surj_pair)
  have "\<forall>l \<in> set ls1. plain_line N (map_of (ac_emit a)) l" using Cons.IH [OF _ g] Cons.prems(1) by simp
  moreover have "plain_line N (map_of (ac_emit a)) (Values_line stamp latest)" using p by (simp add: plain_line_def)
  ultimately show ?case using Cons.prems(2) by (auto simp: f m g split: if_splits)
qed simp

inductive_cases countE: "accept_step (Listening, d) y"
inductive_cases greetE: "accept_step (Counted i, d) y"
inductive_cases pushE: "accept_step (Greeted c, d) y"

lemma stream_values_clients:
  assumes "(i, got) \<in> set (dn_clients d)" "up i" "ac_connections_seen (dn_active d) = dn_connections d"
    and "\<forall>(x, fs, k) \<in> set (ac_subs (dn_active d)). \<forall>u \<in> set (pending k). told (map_of (ac_emit (dn_active d))) (ac_notified (dn_active d)) u"
  shows "\<exists>new. (i, got @ new) \<in> set (dn_clients (stream_values E up wall pending d)) \<and>
    (\<forall>l \<in> set new. plain_line (en_num E) (map_of (ac_emit (dn_active d))) l)"
proof -
  obtain ls meta st where g: "gather (en_num E) (dn_active d) (dn_clients d \<noteq> []) (now_rfc3339 wall)
      (map (\<lambda>(x, fs, i). pending i) (ac_subs (dn_active d)))
      (sh_values (dn_shared d), ac_notified (dn_active d), ac_meta_sent (dn_active d)) = ((ls, meta), st)"
    by (metis surj_pair)
  have p: "\<forall>l \<in> set ls. plain_line (en_num E) (map_of (ac_emit (dn_active d))) l"
    by (rule gather_told [OF _ g]) (use assms(4) in auto)
  define batch where "batch = (if meta = [] then [] else [Meta_line (now_rfc3339 wall) meta]) @ ls"
  have c: "dn_clients (stream_values E up wall pending d) =
      (if batch = [] then dn_clients d else write_clients up batch (dn_clients d))"
    by (simp add: stream_values_def Let_def assms(3) g batch_def case_prod_beta)
  have "(i, got @ batch) \<in> set (dn_clients (stream_values E up wall pending d))"
    using assms(1,2) by (force simp: c write_clients_def)
  moreover have "\<forall>l \<in> set batch. plain_line (en_num E) (map_of (ac_emit (dn_active d))) l"
    using p by (auto simp: batch_def plain_line_def)
  ultimately show ?thesis by blast
qed

lemma stream_values_kept [simp]:
  "ac_connections_seen (dn_active (stream_values E up wall pending d)) = dn_connections d"
  "dn_connections (stream_values E up wall pending d) = dn_connections d"
  by (simp_all add: stream_values_def Let_def case_prod_beta)

text \<open>C17. A client that joins can miss a notification that holds. The thread that accepts clients counts the
  connection before it adds the client, and the main loop forgets what it notified when it sees the count:
  with a turn of the loop in between, the states notified in that turn are not sent again to the new
  client. While the labels stay what they were, what it gets is the static lines, then units and plain
  values, and no notification.\<close>

theorem joining_client_misses_notification:
  assumes "accept_step (Listening, d) (Counted i, d1)"
    and "accept_step (Counted i, stream_values E up wall pending d1) (Greeted c, d3)"
    and "accept_step (Greeted c, d3) (Listening, d4)" and "up i"
    and "\<forall>(x, fs, k) \<in> set (ac_subs (dn_active d4)). \<forall>u \<in> set (pending' k).
      told (map_of (ac_emit (dn_active d4))) (ac_notified (dn_active (stream_values E up wall pending d1))) u"
  shows "\<exists>new. (i, dn_static d3 @ new) \<in> set (dn_clients (stream_values E up wall' pending' d4)) \<and>
    (\<forall>l \<in> set new. plain_line (en_num E) (map_of (ac_emit (dn_active d4))) l)"
proof -
  let ?d2 = "stream_values E up wall pending d1"
  have d3: "d3 = ?d2" "c = (i, dn_static ?d2)" using assms(2) by (auto elim: greetE)
  have d4: "(i, dn_static d3) \<in> set (dn_clients d4)" "dn_active d4 = dn_active ?d2" "dn_connections d4 = dn_connections d1"
    using assms(3) unfolding d3 by (auto elim!: pushE)
  show ?thesis using stream_values_clients [OF d4(1), of up pending' E wall'] assms(4,5) by (simp add: d4)
qed

text \<open>A lamp that turns faulty in the turn between a client's count and its greeting: the client that was
  there is told, the new one gets the label and no notification, however often the lamp is read.\<close>

definition faulty_emit :: emit where
  "faulty_emit = \<lparr>em_path = ''electrical.lamp'', em_plan = \<lparr>pl_conv = conv_IDENTITY, pl_unit = None, pl_truth = [],
     pl_invert = False, pl_notify = [(''Faulty'', Ns_Alarm)], pl_warning = None\<rparr>, em_device = ''Lamp'', em_put = False\<rparr>"

definition faulty_daemon :: "(unit, int) daemon" where
  "faulty_daemon = lamp_daemon\<lparr>dn_clients := [(0, [])], dn_connections := 1,
     dn_active := active_new\<lparr>ac_emit := [((0x1234, 5), faulty_emit)], ac_subs := [(0x1234, [5], 0)], ac_connections_seen := 1\<rparr>\<rparr>"

definition faulty_update :: value_update where
  "faulty_update = \<lparr>vu_sub = 0, vu_device = 0x1234, vu_field = 5, vu_value = List 1 [''OK'', ''Faulty'']\<rparr>"

definition faulty_notice :: "string \<times> int json" where
  "faulty_notice = (''notifications.electrical.lamp'', notification_value ''Lamp'' ''Faulty'' (Some Ns_Alarm))"

lemma faulty_state: "notify_state_of ''Faulty'' [(''Faulty'', Ns_Alarm)] = Some Ns_Alarm" by code_simp

lemma faulty_path: "notification_path ''electrical.lamp'' = ''notifications.electrical.lamp''" by code_simp

lemma faulty_label: "value_label (List 1 [''OK'', ''Faulty'']) = Some ''Faulty''"
  by (simp add: get_opt_def as_usize_def)

lemma faulty_encoded: "encode int_num (List 1 [''OK'', ''Faulty'']) conv_IDENTITY False [] = Some (JString ''faulty'')"
proof -
  have "\<not> unlabeled [''OK'', ''Faulty'']" "to_ascii_lowercase ''Faulty'' = ''faulty''" by code_simp+
  then show ?thesis by (simp add: encode_enum_def faulty_label del: value_label.simps)
qed

lemma faulty_emit_simps [simp]:
  "em_path faulty_emit = ''electrical.lamp''" "em_device faulty_emit = ''Lamp''"
  "pl_conv (em_plan faulty_emit) = conv_IDENTITY" "pl_truth (em_plan faulty_emit) = []" "pl_invert (em_plan faulty_emit) = False"
  "pl_notify (em_plan faulty_emit) = [(''Faulty'', Ns_Alarm)]" "pl_unit (em_plan faulty_emit) = None"
  by (simp_all add: faulty_emit_def)

lemma faulty_update_simps [simp]:
  "vu_device faulty_update = 0x1234" "vu_field faulty_update = 5" "vu_value faulty_update = List 1 [''OK'', ''Faulty'']"
  by (simp_all add: faulty_update_def)

lemma faulty_taken:
  "take_update int_num (map_of [((0x1234, 5), faulty_emit)]) True faulty_update (vals, [], Map.empty) =
     (vals((0x1234, 5) \<mapsto> List 1 [''OK'', ''Faulty'']), [(''electrical.lamp'', JString ''faulty''), faulty_notice],
      [''notifications.electrical.lamp'' \<mapsto> Some Ns_Alarm])"
  by (simp add: take_update_def faulty_encoded notification_def faulty_label faulty_state faulty_path faulty_notice_def Let_def
      del: value_label.simps encode.simps)

lemma faulty_turn:
  fixes d :: "(unit, int) daemon"
  defines "d \<equiv> stream_values lamp_env (\<lambda>i. True) 0 (\<lambda>i. [faulty_update]) (faulty_daemon\<lparr>dn_connections := 2\<rparr>)"
  shows "ac_notified (dn_active d) = [''notifications.electrical.lamp'' \<mapsto> Some Ns_Alarm]"
    and "ac_emit (dn_active d) = [((0x1234, 5), faulty_emit)]" and "ac_subs (dn_active d) = [(0x1234, [5], 0)]"
    and "dn_clients d = [(0, [Values_line (now_rfc3339 0) [(''electrical.lamp'', JString ''faulty''), faulty_notice]])]"
    and "dn_static d = []"
proof -
  have e: "en_num lamp_env = int_num" by (simp add: lamp_env_def)
  note defs = d_def stream_values_def Let_def faulty_daemon_def lamp_daemon_def active_new_def e faulty_taken
    write_clients_def unit_table_def faulty_notice_def
  show "ac_notified (dn_active d) = [''notifications.electrical.lamp'' \<mapsto> Some Ns_Alarm]"
    and "ac_emit (dn_active d) = [((0x1234, 5), faulty_emit)]" and "ac_subs (dn_active d) = [(0x1234, [5], 0)]"
    and "dn_clients d = [(0, [Values_line (now_rfc3339 0) [(''electrical.lamp'', JString ''faulty''), faulty_notice]])]"
    and "dn_static d = []"
    by (simp_all add: defs del: map_of.simps)
qed

lemma joining_client_misses_notification_witness:
  "\<exists>d1 d3 d4 new. accept_step (Listening, faulty_daemon) (Counted 1, d1) \<and>
    accept_step (Counted 1, stream_values lamp_env (\<lambda>i. True) 0 (\<lambda>i. [faulty_update]) d1) (Greeted (1, []), d3) \<and>
    dn_clients d3 = [(0, [Values_line (now_rfc3339 0) [(''electrical.lamp'', JString ''faulty''), faulty_notice]])] \<and>
    accept_step (Greeted (1, []), d3) (Listening, d4) \<and>
    (1, new) \<in> set (dn_clients (stream_values lamp_env (\<lambda>i. True) 1 (\<lambda>i. [faulty_update]) d4)) \<and>
    list_all (\<lambda>l. case l of Values_line t vs \<Rightarrow> faulty_notice \<notin> set vs | Meta_line t us \<Rightarrow> True) new"
proof -
  let ?d1 = "faulty_daemon\<lparr>dn_connections := 2\<rparr>"
  let ?d2 = "stream_values lamp_env (\<lambda>i. True) 0 (\<lambda>i. [faulty_update]) ?d1"
  let ?d4 = "?d2\<lparr>dn_clients := dn_clients ?d2 @ [(1, [])], dn_shared := (dn_shared ?d2)\<lparr>sh_clients := length (dn_clients ?d2) + 1\<rparr>\<rparr>"
  have c: "accept_step (Listening, faulty_daemon) (Counted 1, ?d1)"
    using accept_step.count [of faulty_daemon] by (simp add: faulty_daemon_def numeral_2_eq_2)
  have g: "accept_step (Counted 1, ?d2) (Greeted (1, []), ?d2)"
    using accept_step.greet [of 1 ?d2] by (simp add: faulty_turn)
  have p: "accept_step (Greeted (1, []), ?d2) (Listening, ?d4)" by (rule accept_step.push)
  have t: "told [(0x1234, 5) \<mapsto> faulty_emit] [''notifications.electrical.lamp'' \<mapsto> Some Ns_Alarm] faulty_update"
    by (simp add: told_def faulty_path faulty_state faulty_label del: value_label.simps)
  obtain new where new: "(1, dn_static ?d2 @ new) \<in> set (dn_clients (stream_values lamp_env (\<lambda>i. True) 1 (\<lambda>i. [faulty_update]) ?d4))"
      "\<forall>l \<in> set new. plain_line (en_num lamp_env) (map_of (ac_emit (dn_active ?d4))) l"
    using joining_client_misses_notification [OF c g p, where pending' = "\<lambda>i. [faulty_update]" and wall' = 1] t by (auto simp: faulty_turn)
  have n: "\<not> plain N [(0x1234, 5) \<mapsto> faulty_emit] (fst faulty_notice) j" for N and j :: "int json"
    by (auto simp: plain_def faulty_notice_def split: if_splits)
  have "faulty_notice \<notin> set vs" if "Values_line t vs \<in> set new" for t vs
  proof
    assume "faulty_notice \<in> set vs"
    with new(2) that have "plain (en_num lamp_env) [(0x1234, 5) \<mapsto> faulty_emit] (fst faulty_notice) (snd faulty_notice)"
      by (fastforce simp: plain_line_def faulty_turn)
    with n show False by blast
  qed
  then have l: "list_all (\<lambda>l. case l of Values_line t vs \<Rightarrow> faulty_notice \<notin> set vs | Meta_line t us \<Rightarrow> True) new"
    by (auto simp: list_all_iff split: "line.split")
  have "(1, new) \<in> set (dn_clients (stream_values lamp_env (\<lambda>i. True) 1 (\<lambda>i. [faulty_update]) ?d4))"
    using new(1) by (simp add: faulty_turn)
  with c g p l faulty_turn(4) show ?thesis by blast
qed

end
