(* ===== verification/Decimal.thy ===== *)
theory Decimal
  imports Suggest
begin

text \<open>
  Reading a single from text: what \<open>str::parse::<f32>\<close> of Rust's standard library accepts, and the
  value it gives. The command-line and terminal programs read what a person typed with it.
\<close>

section \<open>The number nearest to a quotient\<close>

text \<open>The pattern (without the sign bit) of the single nearest to \<open>n / d * 2 ^ -149\<close>.\<close>

definition f32_ratio_bits :: "nat \<Rightarrow> nat \<Rightarrow> nat" where
  "f32_ratio_bits n d =
     (let s = nbits (n div d) - 24 in min (s * 2 ^ 23 + div_rne n (d * 2 ^ s)) 0x7F800000)"

section \<open>The grammar\<close>

definition is_digit :: "char \<Rightarrow> bool" where
  "is_digit c \<longleftrightarrow> 48 \<le> (of_char c :: nat) \<and> (of_char c :: nat) \<le> 57"

definition digits_val :: "string \<Rightarrow> nat" where
  "digits_val ds = foldl (\<lambda>n c. 10 * n + (of_char c - 48)) 0 ds"

definition take_sign :: "string \<Rightarrow> bool \<times> string" where
  "take_sign s =
     (case s of c # r \<Rightarrow> if c = CHR ''-'' then (True, r) else if c = CHR ''+'' then (False, r) else (False, s)
      | [] \<Rightarrow> (False, s))"

text \<open>An exponent: its value, or nothing when what is left is no exponent.\<close>

definition read_exponent :: "string \<Rightarrow> int option" where
  "read_exponent s =
     (case s of
        [] \<Rightarrow> Some 0
      | c # r \<Rightarrow>
          if c = CHR ''e'' \<or> c = CHR ''E''
          then (let (neg, ds) = take_sign r
                in if ds \<noteq> [] \<and> list_all is_digit ds then Some (if neg then - int (digits_val ds) else int (digits_val ds))
                   else None)
          else None)"

text \<open>Digits, perhaps a point and more digits, perhaps an exponent: all digits as a number, and the
  power of ten it is scaled by.\<close>

definition read_decimal :: "string \<Rightarrow> (nat \<times> int) option" where
  "read_decimal s =
     (let whole = takeWhile is_digit s; r = dropWhile is_digit s;
          (frac, r1) = (case r of
              c # t \<Rightarrow> if c = dot then (takeWhile is_digit t, dropWhile is_digit t) else ([], r)
            | [] \<Rightarrow> ([], r))
      in if whole = [] \<and> frac = [] then None
         else map_option (\<lambda>e. (digits_val (whole @ frac), e - int (length frac))) (read_exponent r1))"

definition parse_f32 :: "string \<Rightarrow> f32 option" where
  "parse_f32 s =
     (let (neg, t) = take_sign s; l = to_ascii_lowercase t
      in if l = ''inf'' \<or> l = ''infinity'' then Some (f32_make neg 0x7F800000)
         else if l = ''nan'' then Some (f32_make neg (unat f32_nan))
         else map_option
           (\<lambda>(m, e). f32_make neg
              (if 0 \<le> e then f32_ratio_bits (m * 10 ^ nat e * 2 ^ 149) 1
               else f32_ratio_bits (m * 2 ^ 149) (10 ^ nat (- e))))
           (read_decimal t))"

section \<open>Whole numbers\<close>

text \<open>Digits alone are read as the single nearest to their number.\<close>

lemma parse_f32_whole:
  assumes "ds \<noteq> []" and "list_all is_digit ds"
  shows "parse_f32 ds = Some (f32_make False (f32_ratio_bits (digits_val ds * 2 ^ 149) 1))"
proof -
  obtain c cs where ds: "ds = c # cs" using assms(1) by (cases ds) auto
  have c: "c \<noteq> CHR ''-''" "c \<noteq> CHR ''+''" using assms(2) by (auto simp: ds is_digit_def)
  have tw: "takeWhile is_digit ds = ds" "dropWhile is_digit ds = []"
    using assms(2) by (simp_all add: list_all_iff takeWhile_eq_all_conv dropWhile_eq_Nil_conv)
  have low: "hd (to_ascii_lowercase ds) = c"
    using assms(2) by (auto simp: ds to_ascii_lowercase_def is_digit_def)
  have c2: "c \<noteq> CHR ''i''" "c \<noteq> CHR ''n''" using assms(2) by (auto simp: ds is_digit_def)
  then have "to_ascii_lowercase ds \<noteq> ''inf''" "to_ascii_lowercase ds \<noteq> ''infinity''" "to_ascii_lowercase ds \<noteq> ''nan''"
    using low by auto
  moreover have "take_sign ds = (False, ds)" using c by (simp add: take_sign_def ds)
  ultimately show ?thesis
    using assms(1) by (simp add: parse_f32_def Let_def read_decimal_def tw read_exponent_def)
qed

end
