(* ===== verification/Tui.thy ===== *)
theory Tui
  imports Publish Decimal
begin

text \<open>
  The state of the terminal program and what its keys do, but for the mapping editor:
  \<open>crates/masterbus-tools/src/bin/masterbus-tui/app.rs\<close>, first half. The bus is behind the operations the
  program calls, which may not return. A tab is discovered by a worker thread; its answer is in the channel
  of the pending discovery until the main loop takes it. What is drawn is left out, and with it the start
  time of a discovery; the texts of the status line are constructors, one per \<open>format!\<close>.
\<close>

section \<open>State\<close>

datatype tab_kind = Summary | Tab_menu menu

definition TABS :: "tab_kind list" where
  "TABS = [Summary, Tab_menu Monitoring, Tab_menu Alarm, Tab_menu History, Tab_menu Configuration]"

datatype row = Row_group string | Row_field field_info

fun row_field :: "row \<Rightarrow> field_info option" where
  "row_field (Row_field f) = Some f"
| "row_field (Row_group g) = None"

record values_view =
  vv_name :: string
  vv_options :: "string list"
  vv_current :: "int option"

datatype focus = Devices | Fields

datatype edit_kind = Edit_number string | Edit_choice "string list" nat | Edit_text u16 string

record editor =
  ed_field :: field_id
  ed_name :: string
  ed_kind :: edit_kind

definition LOGIN_LEVELS :: "access_level list" where
  "LOGIN_LEVELS = [EndUser, Installer, Distributor, MvService]"

datatype login_stage = Pick_level | Enter_password access_level string

record login_prompt =
  lp_device :: u32
  lp_sel :: nat
  lp_current :: "access_level option"
  lp_stage :: login_stage

text \<open>The worker's channel: empty, holding the groups, or closed without an answer.\<close>

datatype worker = Working | Found_groups "group_info list" | Gone_worker

record pending =
  pd_id :: u32
  pd_tab :: tab_kind
  pd_name :: string
  pd_rx :: worker

record mapping_session =
  ms_path :: string
  ms_map :: mapping
  ms_dirty :: bool

datatype quit_choice = Quit_write | Quit_discard | Quit_stay

datatype origin = Existing | Suggested tier | Blank

datatype stage = Stage_path | Stage_truth nat | Stage_notify nat

record path_editor =
  pe_field :: field_id
  pe_name :: string
  pe_unit :: string
  pe_options :: "string list"
  pe_buf :: string
  pe_cursor :: nat
  pe_invert :: bool
  pe_truth :: "bool btree"
  pe_notify :: "notify_state btree"
  pe_origin :: origin
  pe_stage :: stage
  pe_notify_offered :: bool

datatype status =
    St_scanning | St_empty | St_at string tab_kind | St_discovering string menu
  | St_discovery_failed | St_discovery_cancelled | St_reread
  | St_read_only string | St_not_editable string | St_not_loaded string | St_edit_cancelled
  | St_no_options string | St_not_a_number string | St_set_ok | St_set_failed error
  | St_select_level | St_login_cancelled | St_enter_password | St_wrong_password
  | St_level u32 access_level | St_login_failed u32 error
  | St_no_serial | St_unmapped string | St_empty_path | St_lossy nat string | St_boolean_leaf
  | St_refused refusal | St_notify_labels | St_mapped string string "(string \<times> notify_state) list"
  | St_only_enums | St_labels_missing | St_map_first | St_no_article | St_no_target string
  | St_copied nat string nat | St_wrote string nat | St_not_written string string | St_mapping_off

record 'b app =
  ap_bus :: 'b
  ap_device_ids :: "u32 list"
  ap_names :: "u32 \<rightharpoonup> string"
  ap_dev_sel :: nat
  ap_focus :: focus
  ap_cur_device :: "u32 option"
  ap_cur_info :: "device_identity option"
  ap_cur_access :: "access_level option"
  ap_cur_tab :: tab_kind
  ap_loaded :: "menu set"
  ap_rows :: "row list"
  ap_row_sel :: nat
  ap_values :: "field_id \<rightharpoonup> bus_value"
  ap_sub :: "nat option"
  ap_editor :: "editor option"
  ap_values_modal :: "values_view option"
  ap_login :: "login_prompt option"
  ap_pending :: "pending option"
  ap_status :: status
  ap_should_quit :: bool
  ap_show_logs :: bool
  ap_logs_in_tui :: bool
  ap_idents :: "u32 \<rightharpoonup> device_identity"
  ap_mapping :: "mapping_session option"
  ap_path_editor :: "path_editor option"
  ap_quit_prompt :: "quit_choice option"
  ap_cur_serial :: "string option"
  ap_cur_instance :: string

text \<open>What the program asks of the bus and the file system, and what it takes from outside: the shortest
  decimal of a single, Unicode lower case and the catalog of models.\<close>

record 'b tui_env =
  te_identity :: "u32 \<Rightarrow> 'b \<Rightarrow> (device_identity result \<times> 'b) option"
  te_name :: "u32 \<Rightarrow> 'b \<Rightarrow> (string result \<times> 'b) option"
  te_level :: "u32 \<Rightarrow> 'b \<Rightarrow> (access_level result \<times> 'b) option"
  te_tab :: "u32 \<Rightarrow> menu \<Rightarrow> 'b \<Rightarrow> (group_info list result \<times> 'b) option"
  te_value :: "u32 \<Rightarrow> field_id \<Rightarrow> 'b \<Rightarrow> (bus_value result \<times> 'b) option"
  te_set :: "u32 \<Rightarrow> field_id \<Rightarrow> bus_value \<Rightarrow> 'b \<Rightarrow> (bus_value result \<times> 'b) option"
  te_login :: "u32 \<Rightarrow> access_level \<Rightarrow> f32 \<Rightarrow> 'b \<Rightarrow> (access_level result \<times> 'b) option"
  te_logout :: "u32 \<Rightarrow> 'b \<Rightarrow> (access_level result \<times> 'b) option"
  te_subscribe :: "u32 \<Rightarrow> field_id list \<Rightarrow> 'b \<Rightarrow> (nat \<times> 'b) option"
  te_unsubscribe :: "nat \<Rightarrow> 'b \<Rightarrow> 'b option"
  te_save :: "string \<Rightarrow> mapping \<Rightarrow> 'b \<Rightarrow> (string + unit) \<times> 'b"
  te_show :: "f32 \<Rightarrow> string"
  te_lower :: "string \<Rightarrow> string"
  te_catalog :: model_catalog

definition POLL_INTERVAL :: nat where "POLL_INTERVAL = 1000"

text \<open>The client's calls. Beside the scheduler the world holds the number of the next subscription and
  the files.\<close>

definition on_sched :: "'r call \<Rightarrow> sched \<times> nat \<times> 'f \<Rightarrow> ('r \<times> sched \<times> nat \<times> 'f) option" where
  "on_sched c w = (case w of (s, n, fs) \<Rightarrow> map_option (\<lambda>(r, s1). (r, s1, n, fs)) (c s))"

definition masterbus_tui ::
  "(string \<Rightarrow> mapping \<Rightarrow> 'f \<Rightarrow> (string + unit) \<times> 'f) \<Rightarrow> (f32 \<Rightarrow> string) \<Rightarrow> (string \<Rightarrow> string) \<Rightarrow> model_catalog \<Rightarrow>
     (sched \<times> nat \<times> 'f) tui_env" where
  "masterbus_tui save shw lower cat =
     \<lparr>te_identity = (\<lambda>d. on_sched (engine_identity d)), te_name = (\<lambda>d. on_sched (device_name d)),
      te_level = (\<lambda>d. on_sched (engine_access_level d)), te_tab = (\<lambda>d m. on_sched (tab_info d m)),
      te_value = (\<lambda>d f. on_sched (field_value d f)), te_set = (\<lambda>d f v. on_sched (field_set d f v)),
      te_login = (\<lambda>d l c. on_sched (login d l c)), te_logout = (\<lambda>d. on_sched (logout d)),
      te_subscribe = (\<lambda>d fs (s, n, files). map_option (\<lambda>(i, n1, s1). (i, s1, n1, files))
        (engine_subscribe d fs POLL_INTERVAL False n s)),
      te_unsubscribe = (\<lambda>i (s, n, files). map_option (\<lambda>s1. (s1, n, files)) (engine_unsubscribe i s)),
      te_save = (\<lambda>p m (s, n, files). case save p m files of (r, files1) \<Rightarrow> (r, s, n, files1)),
      te_show = shw, te_lower = lower, te_catalog = cat\<rparr>"

section \<open>Asking the bus\<close>

definition ask :: "('b \<Rightarrow> ('r \<times> 'b) option) \<Rightarrow> 'b app \<Rightarrow> ('r \<times> 'b app) option" where
  "ask f a = map_option (\<lambda>(r, b). (r, a\<lparr>ap_bus := b\<rparr>)) (f (ap_bus a))"

definition ok :: "'a result \<Rightarrow> 'a option" where
  "ok r = (case r of Inr x \<Rightarrow> Some x | Inl e \<Rightarrow> None)"

text \<open>A new value of \<open>sub\<close>; the old subscription is dropped.\<close>

definition put_sub :: "'b tui_env \<Rightarrow> nat option \<Rightarrow> 'b app \<Rightarrow> 'b app option" where
  "put_sub E new a =
     map_option (\<lambda>b. a\<lparr>ap_bus := b, ap_sub := new\<rparr>)
       (case ap_sub a of None \<Rightarrow> Some (ap_bus a) | Some i \<Rightarrow> te_unsubscribe E i (ap_bus a))"

definition app_new :: "'b \<Rightarrow> u32 list \<Rightarrow> (u32 \<rightharpoonup> string) \<Rightarrow> (u32 \<rightharpoonup> device_identity) \<Rightarrow> mapping_session option \<Rightarrow> bool \<Rightarrow> 'b app" where
  "app_new b ids names idents m logs =
     \<lparr>ap_bus = b, ap_device_ids = ids, ap_names = names, ap_dev_sel = 0, ap_focus = Devices, ap_cur_device = None,
      ap_cur_info = None, ap_cur_access = None, ap_cur_tab = Summary, ap_loaded = {}, ap_rows = [], ap_row_sel = 0,
      ap_values = Map.empty, ap_sub = None, ap_editor = None, ap_values_modal = None, ap_login = None, ap_pending = None,
      ap_status = St_scanning, ap_should_quit = False, ap_show_logs = False, ap_logs_in_tui = logs, ap_idents = idents,
      ap_mapping = m, ap_path_editor = None, ap_quit_prompt = None, ap_cur_serial = None, ap_cur_instance = []\<rparr>"

definition toggle_logs :: "'b app \<Rightarrow> 'b app" where
  "toggle_logs a = (if ap_logs_in_tui a then a\<lparr>ap_show_logs := \<not> ap_show_logs a\<rparr> else a)"

definition device_label :: "'b app \<Rightarrow> u32 \<Rightarrow> string" where
  "device_label a i = (case ap_names a i of Some n \<Rightarrow> n | None \<Rightarrow> fmt_dec (unat i))"

definition note_alive :: "u32 \<Rightarrow> 'b app \<Rightarrow> 'b app" where
  "note_alive i a = (if i \<in> set (ap_device_ids a) then a else a\<lparr>ap_device_ids := ap_device_ids a @ [i]\<rparr>)"

definition move_device :: "int \<Rightarrow> 'b app \<Rightarrow> 'b app" where
  "move_device delta a =
     (if ap_device_ids a = [] then a
      else a\<lparr>ap_dev_sel := nat (min (max (int (ap_dev_sel a) + delta) 0) (int (length (ap_device_ids a)) - 1))\<rparr>)"

section \<open>Rows\<close>

text \<open>The next field row in a direction; a step of nothing would look at the same row for ever, and no key
  asks for it.\<close>

function next_field :: "row list \<Rightarrow> int \<Rightarrow> int \<Rightarrow> nat option" where
  "next_field rows delta i =
     (if delta = 0 \<or> i + delta < 0 \<or> int (length rows) \<le> i + delta then None
      else if row_field (rows ! nat (i + delta)) \<noteq> None then Some (nat (i + delta))
      else next_field rows delta (i + delta))"
  by auto
termination
  by (relation "measure (\<lambda>(rows, delta, i). nat (if 0 < delta then int (length rows) - i else i + 1))") auto

declare next_field.simps [simp del]

definition selected_field :: "'b app \<Rightarrow> field_info option" where
  "selected_field a = Option.bind (get_opt (ap_rows a) (ap_row_sel a)) row_field"

definition ensure_value :: "'b tui_env \<Rightarrow> field_id \<Rightarrow> 'b app \<Rightarrow> 'b app option" where
  "ensure_value E fid a =
     (if ap_values a fid \<noteq> None then Some a
      else case ap_cur_device a of
          None \<Rightarrow> Some a
        | Some d \<Rightarrow>
            map_option (\<lambda>(r, a1). case r of Inr v \<Rightarrow> a1\<lparr>ap_values := (ap_values a1)(fid \<mapsto> v)\<rparr> | Inl e \<Rightarrow> a1)
              (ask (te_value E d fid) a))"

definition refresh_selected :: "'b tui_env \<Rightarrow> 'b app \<Rightarrow> 'b app option" where
  "refresh_selected E a = (case selected_field a of None \<Rightarrow> Some a | Some f \<Rightarrow> ensure_value E (fi_index f) a)"

definition move_row :: "'b tui_env \<Rightarrow> int \<Rightarrow> 'b app \<Rightarrow> 'b app option" where
  "move_row E delta a =
     (case next_field (ap_rows a) delta (int (ap_row_sel a)) of
        None \<Rightarrow> Some a
      | Some i \<Rightarrow> refresh_selected E (a\<lparr>ap_row_sel := i\<rparr>))"

definition select_first_field :: "'b tui_env \<Rightarrow> 'b app \<Rightarrow> 'b app option" where
  "select_first_field E a =
     (case position_of (\<lambda>r. row_field r \<noteq> None) (ap_rows a) of
        None \<Rightarrow> Some a
      | Some i \<Rightarrow> refresh_selected E (a\<lparr>ap_row_sel := i\<rparr>))"

definition reread_selected :: "'b tui_env \<Rightarrow> 'b app \<Rightarrow> 'b app option" where
  "reread_selected E a =
     (case selected_field a of
        None \<Rightarrow> Some a
      | Some f \<Rightarrow>
          map_option (\<lambda>a1. a1\<lparr>ap_status := St_reread\<rparr>)
            (ensure_value E (fi_index f) (a\<lparr>ap_values := (ap_values a)(fi_index f := None)\<rparr>)))"

text \<open>The subscription's channel is drained; the last value of a field stays.\<close>

definition pump_subscription :: "(field_id \<times> bus_value) list \<Rightarrow> 'b app \<Rightarrow> 'b app" where
  "pump_subscription us a =
     (if ap_sub a = None then a else a\<lparr>ap_values := fold (\<lambda>(f, v) vs. vs(f \<mapsto> v)) us (ap_values a)\<rparr>)"

section \<open>Tabs\<close>

definition build_rows :: "group_info list \<Rightarrow> row list" where
  "build_rows gs = concat (map (\<lambda>g. Row_group (gi_name g) # map Row_field (gi_fields g)) gs)"

definition show_groups :: "'b tui_env \<Rightarrow> u32 \<Rightarrow> menu \<Rightarrow> group_info list \<Rightarrow> 'b app \<Rightarrow> 'b app option" where
  "show_groups E d m gs a =
     do {
       let fields = concat (map (\<lambda>g. map fi_index (gi_fields g)) gs);
       let a1 = a\<lparr>ap_rows := build_rows gs, ap_values := Map.empty\<rparr>;
       (new, a2) \<leftarrow> (if fields \<noteq> [] then map_option (\<lambda>(i, a2). (Some i, a2)) (ask (te_subscribe E d fields) a1)
                    else Some (None, a1));
       a3 \<leftarrow> put_sub E new a2;
       a4 \<leftarrow> select_first_field E (a3\<lparr>ap_row_sel := 0\<rparr>);
       Some (a4\<lparr>ap_status := St_at (device_label a4 d) (Tab_menu m)\<rparr>)
     }"

definition enter_summary :: "'b tui_env \<Rightarrow> 'b app \<Rightarrow> 'b app option" where
  "enter_summary E a =
     (case ap_cur_device a of
        None \<Rightarrow> Some a
      | Some d \<Rightarrow> do {
          a1 \<leftarrow> put_sub E None (a\<lparr>ap_cur_tab := Summary\<rparr>);
          (r, a2) \<leftarrow> ask (te_identity E d) (a1\<lparr>ap_rows := [], ap_row_sel := 0\<rparr>);
          let a3 = (case r of
              Inl e \<Rightarrow> a2\<lparr>ap_cur_info := None\<rparr>
            | Inr i \<Rightarrow> a2\<lparr>ap_cur_info := Some i, ap_cur_serial := (if di_serial i = [] then None else Some (di_serial i)),
                ap_cur_instance := instance_of (di_name i) d, ap_idents := (ap_idents a2)(d \<mapsto> i)\<rparr>);
          (l, a4) \<leftarrow> ask (te_level E d) a3;
          Some (a4\<lparr>ap_cur_access := ok l, ap_status := St_at (device_label a4 d) Summary\<rparr>)
        })"

definition start_menu_discovery :: "u32 \<Rightarrow> menu \<Rightarrow> 'b app \<Rightarrow> 'b app" where
  "start_menu_discovery d m a =
     a\<lparr>ap_status := St_discovering (device_label a d) m,
       ap_pending := Some \<lparr>pd_id = d, pd_tab = Tab_menu m, pd_name = device_label a d, pd_rx = Working\<rparr>\<rparr>"

definition switch_tab :: "'b tui_env \<Rightarrow> tab_kind \<Rightarrow> 'b app \<Rightarrow> 'b app option" where
  "switch_tab E t a =
     (case ap_cur_device a of
        None \<Rightarrow> Some a
      | Some d \<Rightarrow>
          (case t of
             Summary \<Rightarrow> enter_summary E (a\<lparr>ap_cur_tab := t\<rparr>)
           | Tab_menu m \<Rightarrow>
               if m \<in> ap_loaded a
               then do {
                 (r, a1) \<leftarrow> ask (te_tab E d m) (a\<lparr>ap_cur_tab := t\<rparr>);
                 show_groups E d m (case r of Inr gs \<Rightarrow> gs | Inl e \<Rightarrow> []) a1
               }
               else Some (start_menu_discovery d m (a\<lparr>ap_cur_tab := t, ap_rows := [], ap_row_sel := 0\<rparr>))))"

text \<open>A step on a ring of \<open>n\<close>, with the remainders of the source.\<close>

definition ring_step :: "nat \<Rightarrow> nat \<Rightarrow> int \<Rightarrow> nat" where
  "ring_step n i delta = nat (trem (trem (int i + delta) (int n) + int n) (int n))"

definition cycle_tab :: "'b tui_env \<Rightarrow> int \<Rightarrow> 'b app \<Rightarrow> 'b app option" where
  "cycle_tab E delta a =
     (if ap_cur_device a = None \<or> ap_pending a \<noteq> None then Some a
      else switch_tab E
        (TABS ! ring_step (length TABS) (case position_of (\<lambda>t. t = ap_cur_tab a) TABS of Some i \<Rightarrow> i | None \<Rightarrow> 0) delta) a)"

definition open_device :: "'b tui_env \<Rightarrow> 'b app \<Rightarrow> 'b app option" where
  "open_device E a =
     (case get_opt (ap_device_ids a) (ap_dev_sel a) of
        None \<Rightarrow> Some a
      | Some d \<Rightarrow> do {
          a1 \<leftarrow> put_sub E None (a\<lparr>ap_cur_device := Some d, ap_loaded := {}\<rparr>);
          enter_summary E (a1\<lparr>ap_rows := [], ap_values := Map.empty, ap_row_sel := 0, ap_focus := Fields, ap_cur_tab := Summary\<rparr>)
        })"

text \<open>What the worker of a pending discovery does, on its own thread, and what the main loop does with
  its answer.\<close>

definition run_worker :: "'b tui_env \<Rightarrow> 'b app \<Rightarrow> 'b app option" where
  "run_worker E a =
     (case ap_pending a of
        None \<Rightarrow> Some a
      | Some p \<Rightarrow>
          (case (pd_rx p, pd_tab p) of
             (Working, Tab_menu m) \<Rightarrow>
               map_option (\<lambda>(r, a1). a1\<lparr>ap_pending := Some (p\<lparr>pd_rx := (case r of Inr gs \<Rightarrow> Found_groups gs | Inl e \<Rightarrow> Gone_worker)\<rparr>)\<rparr>)
                 (ask (te_tab E (pd_id p) m) a)
           | _ \<Rightarrow> Some a))"

definition poll_pending :: "'b tui_env \<Rightarrow> 'b app \<Rightarrow> 'b app option" where
  "poll_pending E a =
     (case ap_pending a of
        None \<Rightarrow> Some a
      | Some p \<Rightarrow>
          (case pd_rx p of
             Working \<Rightarrow> Some a
           | Gone_worker \<Rightarrow> Some (a\<lparr>ap_pending := None, ap_focus := Devices, ap_status := St_discovery_failed\<rparr>)
           | Found_groups gs \<Rightarrow> do {
               (r, a1) \<leftarrow> ask (te_name E (pd_id p)) (a\<lparr>ap_pending := None\<rparr>);
               let a2 = (case r of Inr n \<Rightarrow> a1\<lparr>ap_names := (ap_names a1)(pd_id p \<mapsto> n)\<rparr> | Inl e \<Rightarrow> a1);
               (case pd_tab p of
                  Tab_menu m \<Rightarrow> show_groups E (pd_id p) m gs (a2\<lparr>ap_loaded := insert m (ap_loaded a2)\<rparr>)
                | Summary \<Rightarrow> Some a2)
             }))"

definition cancel_pending :: "'b app \<Rightarrow> 'b app" where
  "cancel_pending a = a\<lparr>ap_pending := None, ap_cur_device := None, ap_focus := Devices, ap_status := St_discovery_cancelled\<rparr>"

definition back_to_devices :: "'b tui_env \<Rightarrow> 'b app \<Rightarrow> 'b app option" where
  "back_to_devices E a =
     map_option (\<lambda>a1. a1\<lparr>ap_pending := None, ap_rows := [], ap_loaded := {}, ap_cur_tab := Summary, ap_cur_info := None,
         ap_cur_access := None, ap_cur_device := None, ap_status := St_empty\<rparr>)
       (put_sub E None (a\<lparr>ap_focus := Devices\<rparr>))"

section \<open>Editing a value\<close>

definition tui_write :: "'b tui_env \<Rightarrow> field_id \<Rightarrow> bus_value \<Rightarrow> 'b app \<Rightarrow> 'b app option" where
  "tui_write E fid v a =
     (case ap_cur_device a of
        None \<Rightarrow> Some a
      | Some d \<Rightarrow>
          map_option (\<lambda>(r, a1). case r of
              Inr w \<Rightarrow> a1\<lparr>ap_values := (ap_values a1)(fid \<mapsto> w), ap_status := St_set_ok\<rparr>
            | Inl e \<Rightarrow> a1\<lparr>ap_status := St_set_failed e\<rparr>)
            (ask (te_set E d fid v) a))"

definition open_editor :: "field_info \<Rightarrow> edit_kind \<Rightarrow> 'b app \<Rightarrow> 'b app option" where
  "open_editor f k a = Some (a\<lparr>ap_editor := Some \<lparr>ed_field = fi_index f, ed_name = fi_name f, ed_kind = k\<rparr>\<rparr>)"

definition begin_edit :: "'b tui_env \<Rightarrow> 'b app \<Rightarrow> 'b app option" where
  "begin_edit E a =
     (case selected_field a of
        None \<Rightarrow> Some a
      | Some f \<Rightarrow>
          if \<not> fi_writeable f then Some (a\<lparr>ap_status := St_read_only (fi_name f)\<rparr>)
          else (let cur = ap_values a (fi_index f)
            in if fi_viz f \<in> {CheckBox, ToggleButton, PushButton}
               then tui_write E (fi_index f) (Boolean (cur \<noteq> Some (Boolean True))) a
               else if fi_viz f = Viz_Float
               then open_editor f (Edit_number (case cur of Some (Float x) \<Rightarrow> if f32_is_nan x then [] else te_show E x | _ \<Rightarrow> [])) a
               else if fi_viz f \<in> {Radio, DropDown}
               then open_editor f (Edit_choice (fi_options f)
                 (min (case cur of Some (List i labels) \<Rightarrow> as_usize i | _ \<Rightarrow> 0) (length (fi_options f) - 1))) a
               else if fi_viz f = Viz_Text
               then (case cur of
                   Some (Text sid t) \<Rightarrow> open_editor f (Edit_text sid t) a
                 | _ \<Rightarrow> Some (a\<lparr>ap_status := St_not_loaded (fi_name f)\<rparr>))
               else Some (a\<lparr>ap_status := St_not_editable (fi_name f)\<rparr>)))"

definition cancel_edit :: "'b app \<Rightarrow> 'b app" where
  "cancel_edit a = a\<lparr>ap_editor := None, ap_status := St_edit_cancelled\<rparr>"

definition open_values :: "'b app \<Rightarrow> 'b app" where
  "open_values a =
     (case selected_field a of
        None \<Rightarrow> a
      | Some f \<Rightarrow>
          if fi_options f = [] then a\<lparr>ap_status := St_no_options (fi_name f)\<rparr>
          else a\<lparr>ap_values_modal := Some \<lparr>vv_name = fi_name f, vv_options = fi_options f,
              vv_current = (case ap_values a (fi_index f) of
                Some (List i labels) \<Rightarrow> Some i | Some (Eventable i labels) \<Rightarrow> Some i | _ \<Rightarrow> None)\<rparr>\<rparr>)"

definition close_values :: "'b app \<Rightarrow> 'b app" where
  "close_values a = a\<lparr>ap_values_modal := None\<rparr>"

definition commit_edit :: "'b tui_env \<Rightarrow> 'b app \<Rightarrow> 'b app option" where
  "commit_edit E a =
     (case ap_editor a of
        None \<Rightarrow> Some a
      | Some e \<Rightarrow>
          (let a1 = a\<lparr>ap_editor := None\<rparr>
           in case ed_kind e of
                Edit_number buf \<Rightarrow>
                  (case parse_f32 (rust_trim buf) of
                     Some x \<Rightarrow> tui_write E (ed_field e) (Float x) a1
                   | None \<Rightarrow> Some (a1\<lparr>ap_status := St_not_a_number buf\<rparr>))
              | Edit_choice options sel \<Rightarrow> tui_write E (ed_field e) (List (as_i32 (int sel)) options) a1
              | Edit_text sid buf \<Rightarrow> tui_write E (ed_field e) (Text sid buf) a1))"

text \<open>A character is its UTF-8 bytes; one byte alone is ASCII.\<close>

definition ascii_char :: "(char \<Rightarrow> bool) \<Rightarrow> string \<Rightarrow> bool" where
  "ascii_char P c = (case c of [b] \<Rightarrow> P b | _ \<Rightarrow> False)"

definition is_ascii_graphic :: "char \<Rightarrow> bool" where
  "is_ascii_graphic b \<longleftrightarrow> 33 \<le> (of_char b :: nat) \<and> (of_char b :: nat) \<le> 126"

text \<open>\<open>String::pop\<close>\<close>

definition pop_char :: "string \<Rightarrow> string" where
  "pop_char s = concat (butlast (utf8_chars s))"

definition edit_buffer :: "(edit_kind \<Rightarrow> edit_kind) \<Rightarrow> 'b app \<Rightarrow> 'b app" where
  "edit_buffer f a = a\<lparr>ap_editor := map_option (\<lambda>e. e\<lparr>ed_kind := f (ed_kind e)\<rparr>) (ap_editor a)\<rparr>"

fun type_char :: "string \<Rightarrow> edit_kind \<Rightarrow> edit_kind" where
  "type_char c (Edit_number buf) =
     (if ascii_char (\<lambda>b. is_digit b \<or> b = dot \<or> b = CHR ''-'') c then Edit_number (buf @ c) else Edit_number buf)"
| "type_char c (Edit_text sid buf) =
     (if ascii_char (\<lambda>b. is_ascii_graphic b \<or> b = CHR '' '') c \<and> length buf < MAX_EDITABLE_TEXT_BYTES
      then Edit_text sid (buf @ c) else Edit_text sid buf)"
| "type_char c k = k"

fun erase_char :: "edit_kind \<Rightarrow> edit_kind" where
  "erase_char (Edit_number buf) = Edit_number (pop_char buf)"
| "erase_char (Edit_text sid buf) = Edit_text sid (pop_char buf)"
| "erase_char k = k"

fun move_choice :: "int \<Rightarrow> edit_kind \<Rightarrow> edit_kind" where
  "move_choice delta (Edit_choice options sel) =
     (if options = [] then Edit_choice options sel else Edit_choice options (ring_step (length options) sel delta))"
| "move_choice delta k = k"

definition editor_char :: "string \<Rightarrow> 'b app \<Rightarrow> 'b app" where "editor_char c = edit_buffer (type_char c)"
definition editor_backspace :: "'b app \<Rightarrow> 'b app" where "editor_backspace = edit_buffer erase_char"
definition editor_choice_move :: "int \<Rightarrow> 'b app \<Rightarrow> 'b app" where "editor_choice_move delta = edit_buffer (move_choice delta)"

section \<open>Logging in\<close>

definition login_at_password_stage :: "'b app \<Rightarrow> bool" where
  "login_at_password_stage a =
     (case ap_login a of Some p \<Rightarrow> (case lp_stage p of Enter_password l buf \<Rightarrow> True | Pick_level \<Rightarrow> False) | None \<Rightarrow> False)"

definition login_target :: "'b app \<Rightarrow> u32 option" where
  "login_target a = (case ap_cur_device a of Some d \<Rightarrow> Some d | None \<Rightarrow> get_opt (ap_device_ids a) (ap_dev_sel a))"

definition open_login :: "'b tui_env \<Rightarrow> 'b app \<Rightarrow> 'b app option" where
  "open_login E a =
     (case login_target a of
        None \<Rightarrow> Some a
      | Some d \<Rightarrow>
          map_option (\<lambda>(r, a1). a1\<lparr>
              ap_login := Some \<lparr>lp_device = d,
                lp_sel = (case Option.bind (ok r) (\<lambda>l. position_of (\<lambda>x. x = l) LOGIN_LEVELS) of Some i \<Rightarrow> i | None \<Rightarrow> 0),
                lp_current = ok r, lp_stage = Pick_level\<rparr>,
              ap_status := St_select_level\<rparr>)
            (ask (te_level E d) a))"

definition login_move :: "int \<Rightarrow> 'b app \<Rightarrow> 'b app" where
  "login_move delta a =
     a\<lparr>ap_login := map_option (\<lambda>p. if lp_stage p = Pick_level
         then p\<lparr>lp_sel := ring_step (length LOGIN_LEVELS) (lp_sel p) delta\<rparr> else p) (ap_login a)\<rparr>"

definition cancel_login :: "'b app \<Rightarrow> 'b app" where
  "cancel_login a = a\<lparr>ap_login := None, ap_status := St_login_cancelled\<rparr>"

definition edit_password :: "(string \<Rightarrow> string) \<Rightarrow> 'b app \<Rightarrow> 'b app" where
  "edit_password f a =
     a\<lparr>ap_login := map_option (\<lambda>p. case lp_stage p of
         Enter_password l buf \<Rightarrow> p\<lparr>lp_stage := Enter_password l (f buf)\<rparr> | Pick_level \<Rightarrow> p) (ap_login a)\<rparr>"

definition login_char :: "string \<Rightarrow> 'b app \<Rightarrow> 'b app" where
  "login_char c = edit_password (\<lambda>buf. if ascii_char is_ascii_graphic c then buf @ c else buf)"

definition login_backspace :: "'b app \<Rightarrow> 'b app" where
  "login_backspace = edit_password pop_char"

definition apply_login_result ::
  "'b tui_env \<Rightarrow> u32 \<Rightarrow> access_level \<Rightarrow> access_level result \<Rightarrow> access_level option \<Rightarrow> 'b app \<Rightarrow> 'b app option" where
  "apply_login_result E d attempted reported prev a =
     (case reported of
        Inl e \<Rightarrow> Some (a\<lparr>ap_status := St_login_failed d e\<rparr>)
      | Inr l \<Rightarrow>
          (let a1 = a\<lparr>ap_status := (if Some l = prev \<and> attempted \<noteq> EndUser then St_wrong_password else St_level d l)\<rparr>
           in if ap_cur_device a1 \<noteq> Some d then Some a1
              else do {
                a2 \<leftarrow> put_sub E None (a1\<lparr>ap_cur_access := Some l, ap_loaded := {}, ap_values := Map.empty\<rparr>);
                (case ap_cur_tab a2 of
                   Summary \<Rightarrow> map_option (\<lambda>(r, a3). a3\<lparr>ap_cur_info := ok r\<rparr>) (ask (te_identity E d) a2)
                 | Tab_menu m \<Rightarrow> switch_tab E (Tab_menu m) (a2\<lparr>ap_rows := [], ap_row_sel := 0\<rparr>))
              }))"

definition commit_login :: "'b tui_env \<Rightarrow> 'b app \<Rightarrow> 'b app option" where
  "commit_login E a =
     (case ap_login a of
        None \<Rightarrow> Some a
      | Some p \<Rightarrow>
          (let a1 = a\<lparr>ap_login := None\<rparr>
           in case lp_stage p of
                Pick_level \<Rightarrow>
                  (let l = LOGIN_LEVELS ! lp_sel p
                   in if l = EndUser
                      then do { (r, a2) \<leftarrow> ask (te_logout E (lp_device p)) a1; apply_login_result E (lp_device p) l r (lp_current p) a2 }
                      else Some (a1\<lparr>ap_status := St_enter_password, ap_login := Some (p\<lparr>lp_stage := Enter_password l []\<rparr>)\<rparr>))
              | Enter_password l buf \<Rightarrow> do {
                  (r, a2) \<leftarrow> ask (te_login E (lp_device p) l (case parse_f32 buf of Some x \<Rightarrow> x | None \<Rightarrow> f32_zero)) a1;
                  apply_login_result E (lp_device p) l r (lp_current p) a2
                }))"

end
