(* ===== verification/TuiMap.thy ===== *)
theory TuiMap
  imports Tui
begin

text \<open>
  The mapping editor of the terminal program, second half of
  \<open>crates/masterbus-tools/src/bin/masterbus-tui/app.rs\<close>. The path is a \<open>String\<close>, the cursor a byte offset: taking a \<open>String\<close> apart inside a
  character is a panic of the standard library, and the result is \<open>None\<close>, as it is for a bus operation that
  does not return.
\<close>

section \<open>Strings taken apart\<close>

text \<open>\<open>is\_char\_boundary\<close>, and the two halves of a string around a boundary.\<close>

definition is_boundary :: "string \<Rightarrow> nat \<Rightarrow> bool" where
  "is_boundary s i \<longleftrightarrow> i = 0 \<or> i = length s \<or> (i < length s \<and> \<not> is_cont (s ! i))"

definition split_str :: "string \<Rightarrow> nat \<Rightarrow> (string \<times> string) option" where
  "split_str s i = (if is_boundary s i then Some (take i s, drop i s) else None)"

definition position_last :: "('a \<Rightarrow> bool) \<Rightarrow> 'a list \<Rightarrow> nat option" where
  "position_last P xs = map_option (\<lambda>i. length xs - 1 - i) (position_of P (rev xs))"

section \<open>The editor\<close>

definition pe_entry :: "path_editor \<Rightarrow> field_mapping" where
  "pe_entry e =
     \<lparr>fm_path = rust_trim (pe_buf e), fm_invert = pe_invert e, fm_truth = pe_truth e, fm_notify = pe_notify e,
      fm_put = False, fm_allow_off = False\<rparr>"

definition pe_plan :: "path_editor \<Rightarrow> refusal + sk_plan" where
  "pe_plan e = plan (rust_trim (pe_buf e)) (pe_unit e) (pe_options e) (pe_entry e)"

definition wants_notify_stage :: "path_editor \<Rightarrow> bool" where
  "wants_notify_stage e \<longleftrightarrow>
     \<not> pe_notify_offered e \<and> pe_origin e \<noteq> Existing \<and> notify_default (pe_options e) \<noteq> []"

definition lossy_boolean :: "path_editor \<Rightarrow> bool" where
  "lossy_boolean e \<longleftrightarrow> 2 < length (pe_options e) \<and> leaf_is_boolean (rust_trim (pe_buf e))"

definition truth_complete :: "path_editor \<Rightarrow> bool" where
  "truth_complete e \<longleftrightarrow> list_all (\<lambda>l. bt_get (pe_truth e) l \<noteq> None) (pe_options e)"

text \<open>What the modal says of the path as typed.\<close>

datatype hint =
    Hint_lossy nat string | Hint_refused refusal | Hint_truth "bool btree" | Hint_warning string
  | Hint_notify "notify_state btree" | Hint_as_is | Hint_unit string conversion

definition hint_of :: "path_editor \<Rightarrow> hint" where
  "hint_of e =
     (case pe_plan e of
        Inl (Refused_truth ls) \<Rightarrow>
          (if lossy_boolean e then Hint_lossy (length (pe_options e)) (mode_leaf (pe_buf e)) else Hint_refused (Refused_truth ls))
      | Inl r \<Rightarrow> Hint_refused r
      | Inr p \<Rightarrow>
          if lossy_boolean e then Hint_lossy (length (pe_options e)) (mode_leaf (pe_buf e))
          else if pl_truth p \<noteq> [] then Hint_truth (pl_truth p)
          else (case (pl_unit p, pl_warning p) of
              (_, Some w) \<Rightarrow> Hint_warning w
            | (None, None) \<Rightarrow> if pl_notify p \<noteq> [] then Hint_notify (pl_notify p) else Hint_as_is
            | (Some u, None) \<Rightarrow> Hint_unit u (pl_conv p)))"

section \<open>Looking things up\<close>

definition serial_of :: "'b app \<Rightarrow> u32 \<Rightarrow> string option" where
  "serial_of a d =
     (case ap_idents a d of Some i \<Rightarrow> if di_serial i = [] then None else Some (di_serial i) | None \<Rightarrow> None)"

definition mapped_count :: "'b app \<Rightarrow> u32 \<Rightarrow> nat option" where
  "mapped_count a d =
     do {
       s \<leftarrow> ap_mapping a;
       serial \<leftarrow> serial_of a d;
       Some (case bt_get (mp_devices (ms_map s)) serial of Some dm \<Rightarrow> length (dm_fields dm) | None \<Rightarrow> 0)
     }"

definition mapped_path :: "'b app \<Rightarrow> field_id \<Rightarrow> string option" where
  "mapped_path a fid =
     do {
       s \<leftarrow> ap_mapping a;
       serial \<leftarrow> ap_cur_serial a;
       map_option fm_path (mapping_field (ms_map s) serial fid)
     }"

text \<open>The group heading a row is under.\<close>

definition row_group :: "row list \<Rightarrow> nat \<Rightarrow> string" where
  "row_group rows i =
     (if length rows \<le> i then []
      else case find_map (\<lambda>r. case r of Row_group g \<Rightarrow> Some g | Row_field f \<Rightarrow> None) (rev (take (i + 1) rows)) of
          Some g \<Rightarrow> g
        | None \<Rightarrow> [])"

definition open_mapping :: "'b app \<Rightarrow> string \<Rightarrow> device_mapping option" where
  "open_mapping a serial = Option.bind (ap_mapping a) (\<lambda>s. bt_get (mp_devices (ms_map s)) serial)"

section \<open>Mapping a field\<close>

text \<open>What the editor opens with: the entry there is, a proposal, or a prefix.\<close>

definition proposed ::
  "'b tui_env \<Rightarrow> 'b app \<Rightarrow> string \<Rightarrow> field_info \<Rightarrow> string \<times> bool \<times> bool btree \<times> notify_state btree \<times> origin" where
  "proposed E a serial f =
     (let dm = open_mapping a serial;
          (name, article, firmware) = (case ap_cur_info a of
              Some i \<Rightarrow> (di_name i, di_article i, di_firmware i) | None \<Rightarrow> ([], [], []));
          inst = (case dm of Some d \<Rightarrow> if dm_instance d = [] then ap_cur_instance a else dm_instance d
                  | None \<Rightarrow> ap_cur_instance a)
      in case suggest_or_build (te_lower E) (te_catalog E) article firmware (class_of name) inst (mapped_node dm)
            \<lparr>fx_id = fi_index f, fx_name = fi_name f, fx_unit = fi_unit f, fx_group = row_group (ap_rows a) (ap_row_sel a)\<rparr> of
           Some (s, t) \<Rightarrow>
             (unique_path (sg_path s) (fi_index f)
                (case dm of None \<Rightarrow> []
                 | Some d \<Rightarrow> List.map_filter (\<lambda>(k, e). map_option (\<lambda>i. (i, fm_path e)) (parse_field_key k)) (dm_fields d)),
              sg_invert s, [], [], Suggested t)
         | None \<Rightarrow> (path_prefix (Option.bind (ap_cur_serial a) (open_mapping a)), False, [], [], Blank))"

definition begin_map :: "'b tui_env \<Rightarrow> 'b app \<Rightarrow> 'b app" where
  "begin_map E a =
     (case (ap_mapping a, selected_field a) of
        (Some s, Some f) \<Rightarrow>
          (case ap_cur_serial a of
             None \<Rightarrow> a\<lparr>ap_status := St_no_serial\<rparr>
           | Some serial \<Rightarrow>
               (let (buf, inv0, truth, notify, orig) =
                  (case mapping_field (ms_map s) serial (fi_index f) of
                     Some fm \<Rightarrow> (fm_path fm, fm_invert fm, fm_truth fm, fm_notify fm, Existing)
                   | None \<Rightarrow> proposed E a serial f)
                in a\<lparr>ap_path_editor := Some \<lparr>pe_field = fi_index f, pe_name = fi_name f, pe_unit = fi_unit f,
                       pe_options = fi_options f, pe_buf = buf, pe_cursor = length buf, pe_invert = inv0, pe_truth = truth,
                       pe_notify = notify, pe_origin = orig, pe_stage = Stage_path, pe_notify_offered = False\<rparr>\<rparr>))
      | _ \<Rightarrow> a)"

text \<open>The instance recorded with a device: the one most of its paths use.\<close>

definition used_instance :: "device_mapping \<Rightarrow> string option" where
  "used_instance d = main_instance (map (\<lambda>(k, fm). fm_path fm) (dm_fields d)) (dm_instance d)"

definition edit_mapping :: "(mapping \<Rightarrow> mapping) \<Rightarrow> 'b app \<Rightarrow> 'b app" where
  "edit_mapping f a = a\<lparr>ap_mapping := map_option (\<lambda>s. s\<lparr>ms_map := f (ms_map s), ms_dirty := True\<rparr>) (ap_mapping a)\<rparr>"

definition put_device :: "string \<Rightarrow> device_mapping \<Rightarrow> mapping \<Rightarrow> mapping" where
  "put_device serial d m = m\<lparr>mp_devices := bt_insert serial d (mp_devices m)\<rparr>"

definition unmap_selected :: "'b app \<Rightarrow> 'b app" where
  "unmap_selected a =
     (case (selected_field a, ap_cur_serial a) of
        (Some f, Some serial) \<Rightarrow>
          (case open_mapping a serial of
             None \<Rightarrow> a
           | Some d \<Rightarrow>
               if bt_get (dm_fields d) (field_key (fi_index f)) = None then a
               else (let d1 = d\<lparr>dm_fields := filter (\<lambda>(k, fm). k \<noteq> field_key (fi_index f)) (dm_fields d)\<rparr>;
                         d2 = (case used_instance d1 of Some i \<Rightarrow> d1\<lparr>dm_instance := i\<rparr> | None \<Rightarrow> d1)
                     in (edit_mapping (put_device serial d2) a)\<lparr>ap_status := St_unmapped (field_key (fi_index f))\<rparr>))
      | _ \<Rightarrow> a)"

text \<open>The entry of a device with a field saved: its identity is recorded, flags the editor does not edit
  survive.\<close>

definition saved_device ::
  "path_editor \<Rightarrow> sk_plan \<Rightarrow> device_identity option \<Rightarrow> string \<Rightarrow> device_mapping \<Rightarrow> device_mapping" where
  "saved_device e p ident inst d =
     (let key = field_key (pe_field e);
          (put, off) = (case bt_get (dm_fields d) key of Some f \<Rightarrow> (fm_put f, fm_allow_off f) | None \<Rightarrow> (False, False));
          d1 = (case ident of
              Some i \<Rightarrow> d\<lparr>dm_article := di_article i, dm_firmware := di_firmware i, dm_name := di_name i\<rparr> | None \<Rightarrow> d);
          d2 = d1\<lparr>dm_fields := bt_insert key
             \<lparr>fm_path = rust_trim (pe_buf e), fm_invert = pe_invert e, fm_truth = pl_truth p, fm_notify = pl_notify p,
              fm_put = put, fm_allow_off = off\<rparr> (dm_fields d1)\<rparr>
      in case used_instance d2 of
           Some i \<Rightarrow> d2\<lparr>dm_instance := i\<rparr>
         | None \<Rightarrow> if dm_instance d2 = [] then d2\<lparr>dm_instance := inst\<rparr> else d2)"

text \<open>The meanings of labels a build knows, where the table has none.\<close>

definition fill_truth :: "string list \<Rightarrow> bool btree \<Rightarrow> bool btree" where
  "fill_truth ls t =
     fold (\<lambda>l t. case truth_of_label l of Some b \<Rightarrow> if bt_get t l = None then bt_insert l b t else t | None \<Rightarrow> t) ls t"

definition commit_map :: "'b app \<Rightarrow> 'b app" where
  "commit_map a =
     (case ap_path_editor a of
        None \<Rightarrow> a
      | Some e \<Rightarrow>
          (let a1 = a\<lparr>ap_path_editor := None\<rparr>; path = rust_trim (pe_buf e)
           in case ap_cur_serial a of
                None \<Rightarrow> a1
              | Some serial \<Rightarrow>
                  if path = [] then a1\<lparr>ap_status := St_empty_path\<rparr>
                  else (case pe_plan e of
                      Inl (Refused_truth ls) \<Rightarrow>
                        (let e1 = e\<lparr>pe_truth := fill_truth ls (pe_truth e), pe_stage := Stage_truth 0\<rparr>
                         in a1\<lparr>ap_status := (if lossy_boolean e1 then St_lossy (length (pe_options e1)) (mode_leaf (pe_buf e1))
                               else St_boolean_leaf), ap_path_editor := Some e1\<rparr>)
                    | Inl r \<Rightarrow> a1\<lparr>ap_status := St_refused r, ap_path_editor := Some e\<rparr>
                    | Inr p \<Rightarrow>
                        if wants_notify_stage e
                        then a1\<lparr>ap_status := St_notify_labels, ap_path_editor := Some (e\<lparr>pe_notify := notify_default (pe_options e),
                               pe_notify_offered := True, pe_stage := Stage_notify 0\<rparr>)\<rparr>
                        else if ap_mapping a = None then a1
                        else (let d = (case open_mapping a serial of Some d \<Rightarrow> d | None \<Rightarrow> default_device)
                              in (edit_mapping (put_device serial (saved_device e p (ap_cur_info a) (ap_cur_instance a) d)) a1)\<lparr>
                                   ap_status := St_mapped (field_key (pe_field e)) path (pl_notify p)\<rparr>))))"

section \<open>The two tables\<close>

definition on_editor :: "(path_editor \<Rightarrow> path_editor) \<Rightarrow> 'b app \<Rightarrow> 'b app" where
  "on_editor f a = a\<lparr>ap_path_editor := map_option f (ap_path_editor a)\<rparr>"

definition notify_editing :: "'b app \<Rightarrow> bool" where
  "notify_editing a = (case map_option pe_stage (ap_path_editor a) of Some (Stage_notify i) \<Rightarrow> True | _ \<Rightarrow> False)"

definition truth_editing :: "'b app \<Rightarrow> bool" where
  "truth_editing a = (case map_option pe_stage (ap_path_editor a) of Some (Stage_truth i) \<Rightarrow> True | _ \<Rightarrow> False)"

definition open_notify :: "'b app \<Rightarrow> 'b app" where
  "open_notify a =
     (case ap_path_editor a of
        None \<Rightarrow> a
      | Some e \<Rightarrow>
          if pe_options e = [] then a\<lparr>ap_status := St_only_enums\<rparr>
          else a\<lparr>ap_path_editor := Some (e\<lparr>pe_notify := (if pe_notify e = [] then notify_default (pe_options e) else pe_notify e),
                 pe_notify_offered := True, pe_stage := Stage_notify 0\<rparr>)\<rparr>)"

text \<open>\<open>rem\_euclid\<close> on a ring.\<close>

definition ring_move :: "nat \<Rightarrow> nat \<Rightarrow> int \<Rightarrow> nat" where
  "ring_move n i delta = nat ((int i + delta) mod int n)"

definition notify_move :: "int \<Rightarrow> 'b app \<Rightarrow> 'b app" where
  "notify_move delta = on_editor (\<lambda>e. case pe_stage e of
     Stage_notify i \<Rightarrow> if pe_options e = [] then e else e\<lparr>pe_stage := Stage_notify (ring_move (length (pe_options e)) i delta)\<rparr>
   | _ \<Rightarrow> e)"

definition set_notify :: "string \<Rightarrow> notify_state option \<Rightarrow> path_editor \<Rightarrow> path_editor" where
  "set_notify l st e =
     e\<lparr>pe_notify := (case st of Some s \<Rightarrow> bt_insert l s (pe_notify e) | None \<Rightarrow> filter (\<lambda>(k, v). k \<noteq> l) (pe_notify e))\<rparr>"

definition at_label :: "(string \<Rightarrow> path_editor \<Rightarrow> path_editor) \<Rightarrow> nat \<Rightarrow> path_editor \<Rightarrow> path_editor" where
  "at_label f i e = (case get_opt (pe_options e) i of Some l \<Rightarrow> f l e | None \<Rightarrow> e)"

definition next_state :: "notify_state option \<Rightarrow> notify_state option" where
  "next_state st =
     (case st of
        None \<Rightarrow> Some (notify_ALL ! 0)
      | Some s \<Rightarrow> Option.bind (position_of (\<lambda>x. x = s) notify_ALL) (\<lambda>p. get_opt notify_ALL (p + 1)))"

definition notify_cycle :: "'b app \<Rightarrow> 'b app" where
  "notify_cycle = on_editor (\<lambda>e. case pe_stage e of
     Stage_notify i \<Rightarrow> at_label (\<lambda>l e. set_notify l (next_state (bt_get (pe_notify e) l)) e) i e | _ \<Rightarrow> e)"

definition notify_set :: "notify_state option \<Rightarrow> 'b app \<Rightarrow> 'b app" where
  "notify_set st = on_editor (\<lambda>e. case pe_stage e of Stage_notify i \<Rightarrow> at_label (\<lambda>l. set_notify l st) i e | _ \<Rightarrow> e)"

text \<open>Leaving a table for the path, from either.\<close>

definition back_to_path :: "'b app \<Rightarrow> 'b app" where
  "back_to_path = on_editor (\<lambda>e. e\<lparr>pe_stage := Stage_path\<rparr>)"

definition commit_notify :: "'b app \<Rightarrow> 'b app" where
  "commit_notify a = commit_map (on_editor (\<lambda>e. e\<lparr>pe_notify_offered := True\<rparr>) a)"

definition truth_move :: "int \<Rightarrow> 'b app \<Rightarrow> 'b app" where
  "truth_move delta = on_editor (\<lambda>e. case pe_stage e of
     Stage_truth i \<Rightarrow> if pe_options e = [] then e else e\<lparr>pe_stage := Stage_truth (ring_move (length (pe_options e)) i delta)\<rparr>
   | _ \<Rightarrow> e)"

definition set_truth :: "(bool option \<Rightarrow> bool) \<Rightarrow> 'b app \<Rightarrow> 'b app" where
  "set_truth f = on_editor (\<lambda>e. case pe_stage e of
     Stage_truth i \<Rightarrow> at_label (\<lambda>l e. e\<lparr>pe_truth := bt_insert l (f (bt_get (pe_truth e) l)) (pe_truth e)\<rparr>) i e | _ \<Rightarrow> e)"

definition truth_toggle :: "'b app \<Rightarrow> 'b app" where
  "truth_toggle = set_truth (\<lambda>b. b \<noteq> Some True)"

definition truth_set :: "bool \<Rightarrow> 'b app \<Rightarrow> 'b app" where
  "truth_set b = set_truth (\<lambda>_. b)"

definition commit_truth :: "'b app \<Rightarrow> 'b app" where
  "commit_truth a =
     (case ap_path_editor a of
        None \<Rightarrow> a
      | Some e \<Rightarrow> if \<not> truth_complete e then a\<lparr>ap_status := St_labels_missing\<rparr> else commit_map a)"

section \<open>The text of the path\<close>

definition edit_path :: "(path_editor \<Rightarrow> path_editor option) \<Rightarrow> 'b app \<Rightarrow> 'b app option" where
  "edit_path f a =
     (case ap_path_editor a of
        None \<Rightarrow> Some a
      | Some e \<Rightarrow> map_option (\<lambda>e1. a\<lparr>ap_path_editor := Some e1\<rparr>) (f e))"

definition type_path :: "string \<Rightarrow> path_editor \<Rightarrow> path_editor option" where
  "type_path c e =
     map_option (\<lambda>(l, r). e\<lparr>pe_buf := l @ c @ r, pe_cursor := pe_cursor e + length c\<rparr>) (split_str (pe_buf e) (pe_cursor e))"

definition erase_before :: "path_editor \<Rightarrow> path_editor option" where
  "erase_before e =
     map_option (\<lambda>(l, r). if l = [] then e
         else e\<lparr>pe_buf := concat (butlast (utf8_chars l)) @ r, pe_cursor := pe_cursor e - length (last (utf8_chars l))\<rparr>)
       (split_str (pe_buf e) (pe_cursor e))"

definition erase_at :: "path_editor \<Rightarrow> path_editor option" where
  "erase_at e =
     (if length (pe_buf e) \<le> pe_cursor e then Some e
      else map_option (\<lambda>(l, r). e\<lparr>pe_buf := l @ concat (tl (utf8_chars r))\<rparr>) (split_str (pe_buf e) (pe_cursor e)))"

definition move_path :: "int \<Rightarrow> path_editor \<Rightarrow> path_editor option" where
  "move_path delta e =
     map_option (\<lambda>(l, r).
         if delta < 0 then (if l = [] then e else e\<lparr>pe_cursor := pe_cursor e - length (last (utf8_chars l))\<rparr>)
         else (if r = [] then e else e\<lparr>pe_cursor := pe_cursor e + length (hd (utf8_chars r))\<rparr>))
       (split_str (pe_buf e) (pe_cursor e))"

definition move_segment :: "int \<Rightarrow> path_editor \<Rightarrow> path_editor option" where
  "move_segment delta e =
     (if delta < 0
      then map_option (\<lambda>(l, r). e\<lparr>pe_cursor := (case position_last (\<lambda>c. c = dot) l of Some i \<Rightarrow> i + 1 | None \<Rightarrow> 0)\<rparr>)
             (split_str (pe_buf e) (pe_cursor e - 1))
      else map_option (\<lambda>(l, r). e\<lparr>pe_cursor := (case position_of (\<lambda>c. c = dot) r of
               Some i \<Rightarrow> pe_cursor e + i + 1 | None \<Rightarrow> length (pe_buf e))\<rparr>)
             (split_str (pe_buf e) (pe_cursor e)))"

definition home_end :: "bool \<Rightarrow> path_editor \<Rightarrow> path_editor option" where
  "home_end last_char e = Some (e\<lparr>pe_cursor := (if last_char then length (pe_buf e) else 0)\<rparr>)"

definition toggle_invert :: "path_editor \<Rightarrow> path_editor" where
  "toggle_invert e =
     (if pe_options e = [] \<or> \<not> leaf_is_boolean (rust_trim (pe_buf e)) then e\<lparr>pe_invert := \<not> pe_invert e\<rparr>
      else (let t = (case pe_plan e of Inr p \<Rightarrow> if pl_truth p \<noteq> [] then pl_truth p else fill_truth (pe_options e) (pe_truth e)
                     | Inl r \<Rightarrow> fill_truth (pe_options e) (pe_truth e))
            in e\<lparr>pe_truth := map (\<lambda>(k, v). (k, \<not> v)) t, pe_invert := False\<rparr>))"

definition flips_truth :: "'b app \<Rightarrow> bool" where
  "flips_truth a =
     (case ap_path_editor a of
        Some e \<Rightarrow> pe_options e \<noteq> [] \<and> leaf_is_boolean (rust_trim (pe_buf e)) | None \<Rightarrow> False)"

section \<open>Other devices of the article, saving and quitting\<close>

fun copy_targets ::
  "'b tui_env \<Rightarrow> string \<Rightarrow> string \<Rightarrow> u32 list \<Rightarrow> 'b app \<Rightarrow> (copy_target list \<times> 'b app) option" where
  "copy_targets E article src [] a = Some ([], a)"
| "copy_targets E article src (d # ds) a =
     (case ap_idents a d of
        None \<Rightarrow> copy_targets E article src ds a
      | Some i \<Rightarrow>
          if di_article i \<noteq> article \<or> di_serial i = src \<or> di_serial i = [] then copy_targets E article src ds a
          else do {
            (r, a1) \<leftarrow> ask (te_tab E d Monitoring) a;
            (ts, a2) \<leftarrow> copy_targets E article src ds a1;
            Some (\<lparr>ct_instance = instance_of (di_name i) d,
                   ct_have = concat (map (\<lambda>g. map fi_index (gi_fields g)) (case r of Inr gs \<Rightarrow> gs | Inl e \<Rightarrow> [])),
                   ct_ident = i\<rparr> # ts, a2)
          })"

definition apply_to_article :: "'b tui_env \<Rightarrow> 'b app \<Rightarrow> 'b app option" where
  "apply_to_article E a =
     (case ap_cur_serial a of
        None \<Rightarrow> Some a
      | Some serial \<Rightarrow>
          (case open_mapping a serial of
             None \<Rightarrow> Some (a\<lparr>ap_status := St_map_first\<rparr>)
           | Some src \<Rightarrow>
               if dm_article src = [] then Some (a\<lparr>ap_status := St_no_article\<rparr>)
               else do {
                 (ts, a1) \<leftarrow> copy_targets E (dm_article src) serial (ap_device_ids a) a;
                 (if ts = [] then Some (a1\<lparr>ap_status := St_no_target (dm_article src)\<rparr>)
                  else (case ap_mapping a1 of
                      None \<Rightarrow> Some a1
                    | Some s \<Rightarrow>
                        (case copy_to_targets src ts (ms_map s, 0, 0) of (m, copied, skipped) \<Rightarrow>
                           Some ((edit_mapping (\<lambda>_. m) a1)\<lparr>ap_status := St_copied copied (dm_article src) skipped\<rparr>))))
               }))"

definition save_mapping :: "'b tui_env \<Rightarrow> 'b app \<Rightarrow> 'b app" where
  "save_mapping E a =
     (case ap_mapping a of
        None \<Rightarrow> a
      | Some s \<Rightarrow>
          (case te_save E (ms_path s) (ms_map s) (ap_bus a) of
             (Inr u, b) \<Rightarrow> a\<lparr>ap_bus := b, ap_mapping := Some (s\<lparr>ms_dirty := False\<rparr>),
                 ap_status := St_wrote (ms_path s) (mapping_len (ms_map s))\<rparr>
           | (Inl e, b) \<Rightarrow> a\<lparr>ap_bus := b, ap_status := St_not_written (ms_path s) e\<rparr>))"

definition dirty :: "'b app \<Rightarrow> bool" where
  "dirty a = (case ap_mapping a of Some s \<Rightarrow> ms_dirty s | None \<Rightarrow> False)"

definition quit_checked :: "'b app \<Rightarrow> 'b app" where
  "quit_checked a = (if dirty a then a\<lparr>ap_quit_prompt := Some Quit_write\<rparr> else a\<lparr>ap_should_quit := True\<rparr>)"

definition quit_ALL :: "quit_choice list" where
  "quit_ALL = [Quit_write, Quit_discard, Quit_stay]"

definition quit_prompt_move :: "int \<Rightarrow> 'b app \<Rightarrow> 'b app" where
  "quit_prompt_move delta a =
     (case ap_quit_prompt a of
        None \<Rightarrow> a
      | Some c \<Rightarrow>
          a\<lparr>ap_quit_prompt := Some (quit_ALL ! ring_move (length quit_ALL)
             (case position_of (\<lambda>x. x = c) quit_ALL of Some i \<Rightarrow> i | None \<Rightarrow> 0) delta)\<rparr>)"

definition quit_prompt_choose :: "'b tui_env \<Rightarrow> quit_choice \<Rightarrow> 'b app \<Rightarrow> 'b app" where
  "quit_prompt_choose E c a =
     (let a1 = a\<lparr>ap_quit_prompt := None\<rparr>
      in case c of
           Quit_write \<Rightarrow> (let a2 = save_mapping E a1 in if dirty a2 then a2 else a2\<lparr>ap_should_quit := True\<rparr>)
         | Quit_discard \<Rightarrow> a1\<lparr>ap_should_quit := True\<rparr>
         | Quit_stay \<Rightarrow> a1\<lparr>ap_status := St_empty\<rparr>)"

definition quit_prompt_commit :: "'b tui_env \<Rightarrow> 'b app \<Rightarrow> 'b app" where
  "quit_prompt_commit E a = (case ap_quit_prompt a of None \<Rightarrow> a | Some c \<Rightarrow> quit_prompt_choose E c a)"

end
