(* ===== verification/TuiKeys.thy ===== *)
theory TuiKeys
  imports TuiMap
begin

text \<open>
  The keys of the terminal program and the turns of its main loop: \<open>handle_key\<close> and \<open>run_tui\<close> of
  \<open>crates/masterbus-tools/src/bin/masterbus-tui/main.rs\<close>. Which modal is open decides who gets a key. The
  threads beside the loop (the worker of a discovery, the name backfill) are steps of their own.
\<close>

section \<open>Keys\<close>

datatype key_code =
    Key_char string | Key_enter | Key_esc | Key_tab | Key_backtab | Key_up | Key_down | Key_left | Key_right
  | Key_home | Key_end | Key_backspace | Key_delete | Key_other

type_synonym key_event = "key_code \<times> bool"

definition quit_prompt_key :: "'b tui_env \<Rightarrow> key_code \<Rightarrow> 'b app \<Rightarrow> 'b app" where
  "quit_prompt_key E k a =
     (if k \<in> {Key_tab, Key_right} then quit_prompt_move 1 a
      else if k \<in> {Key_backtab, Key_left} then quit_prompt_move (- 1) a
      else if k = Key_enter then quit_prompt_commit E a
      else if k = Key_char ''w'' then quit_prompt_choose E Quit_write a
      else if k = Key_char ''d'' then quit_prompt_choose E Quit_discard a
      else if k \<in> {Key_esc, Key_char ''q'', Key_char ''k''} then quit_prompt_choose E Quit_stay a
      else a)"

definition notify_key :: "key_code \<Rightarrow> 'b app \<Rightarrow> 'b app" where
  "notify_key k a =
     (if k \<in> {Key_up, Key_char ''k''} then notify_move (- 1) a
      else if k \<in> {Key_down, Key_char ''j''} then notify_move 1 a
      else if k = Key_char '' '' then notify_cycle a
      else if k = Key_char ''a'' then notify_set (Some Ns_Alarm) a
      else if k = Key_char ''w'' then notify_set (Some Ns_Warn) a
      else if k = Key_char ''e'' then notify_set (Some Ns_Emergency) a
      else if k = Key_char ''l'' then notify_set (Some Ns_Alert) a
      else if k \<in> {Key_char ''n'', Key_char ''-''} then notify_set None a
      else if k = Key_enter then commit_notify a
      else if k = Key_esc then back_to_path a
      else a)"

definition truth_key :: "key_event \<Rightarrow> 'b app \<Rightarrow> 'b app" where
  "truth_key key a =
     (let (k, ctrl) = key
      in if k \<in> {Key_up, Key_char ''k''} then truth_move (- 1) a
         else if k \<in> {Key_down, Key_char ''j''} then truth_move 1 a
         else if k = Key_char '' '' then truth_toggle a
         else if k = Key_char ''n'' \<and> ctrl then on_editor toggle_invert a
         else if k \<in> {Key_char ''t'', Key_char ''y'', Key_char ''1''} then truth_set True a
         else if k \<in> {Key_char ''f'', Key_char ''n'', Key_char ''0''} then truth_set False a
         else if k = Key_enter then commit_truth a
         else if k = Key_esc then back_to_path a
         else a)"

definition path_key :: "key_event \<Rightarrow> 'b app \<Rightarrow> 'b app option" where
  "path_key key a =
     (let (k, ctrl) = key
      in if k = Key_enter then Some (commit_map a)
         else if k = Key_esc then Some (a\<lparr>ap_path_editor := None\<rparr>)
         else if k = Key_backspace then edit_path erase_before a
         else if k = Key_delete then edit_path erase_at a
         else if k = Key_left \<and> ctrl then edit_path (move_segment (- 1)) a
         else if k = Key_right \<and> ctrl then edit_path (move_segment 1) a
         else if k = Key_left then edit_path (move_path (- 1)) a
         else if k = Key_right then edit_path (move_path 1) a
         else if k = Key_home then edit_path (home_end False) a
         else if k = Key_end then edit_path (home_end True) a
         else if k = Key_char ''e'' \<and> ctrl then edit_path (home_end True) a
         else if k = Key_char ''n'' \<and> ctrl then Some (on_editor toggle_invert a)
         else if k = Key_char ''a'' \<and> ctrl then Some (open_notify a)
         else (case k of Key_char c \<Rightarrow> edit_path (type_path c) a | _ \<Rightarrow> Some a))"

definition path_editing_key :: "key_event \<Rightarrow> 'b app \<Rightarrow> 'b app option" where
  "path_editing_key key a =
     (if notify_editing a then Some (notify_key (fst key) a)
      else if truth_editing a then Some (truth_key key a)
      else path_key key a)"

definition values_key :: "key_code \<Rightarrow> 'b app \<Rightarrow> 'b app" where
  "values_key k a = (if k \<in> {Key_esc, Key_enter, Key_char ''?'', Key_char ''q''} then close_values a else a)"

definition editing_key :: "'b tui_env \<Rightarrow> key_code \<Rightarrow> 'b app \<Rightarrow> 'b app option" where
  "editing_key E k a =
     (case k of
        Key_enter \<Rightarrow> commit_edit E a
      | Key_esc \<Rightarrow> Some (cancel_edit a)
      | Key_backspace \<Rightarrow> Some (editor_backspace a)
      | Key_left \<Rightarrow> Some (editor_choice_move (- 1) a)
      | Key_right \<Rightarrow> Some (editor_choice_move 1 a)
      | Key_char c \<Rightarrow> Some (editor_char c a)
      | _ \<Rightarrow> Some a)"

definition login_key :: "'b tui_env \<Rightarrow> key_code \<Rightarrow> 'b app \<Rightarrow> 'b app option" where
  "login_key E k a =
     (if login_at_password_stage a
      then (case k of
          Key_enter \<Rightarrow> commit_login E a
        | Key_esc \<Rightarrow> Some (cancel_login a)
        | Key_backspace \<Rightarrow> Some (login_backspace a)
        | Key_char c \<Rightarrow> Some (login_char c a)
        | _ \<Rightarrow> Some a)
      else if k \<in> {Key_up, Key_char ''k''} then Some (login_move (- 1) a)
      else if k \<in> {Key_down, Key_char ''j''} then Some (login_move 1 a)
      else if k = Key_enter then commit_login E a
      else if k = Key_esc then Some (cancel_login a)
      else Some a)"

definition devices_key :: "'b tui_env \<Rightarrow> key_code \<Rightarrow> 'b app \<Rightarrow> 'b app option" where
  "devices_key E k a =
     (if k \<in> {Key_up, Key_char ''k''} then Some (move_device (- 1) a)
      else if k \<in> {Key_down, Key_char ''j''} then Some (move_device 1 a)
      else if k \<in> {Key_enter, Key_right} then open_device E a
      else Some a)"

definition fields_key :: "'b tui_env \<Rightarrow> key_code \<Rightarrow> 'b app \<Rightarrow> 'b app option" where
  "fields_key E k a =
     (if k \<in> {Key_up, Key_char ''k''} then move_row E (- 1) a
      else if k \<in> {Key_down, Key_char ''j''} then move_row E 1 a
      else if k = Key_tab then cycle_tab E 1 a
      else if k = Key_backtab then cycle_tab E (- 1) a
      else if k \<in> {Key_enter, Key_char ''e''} then begin_edit E a
      else if k = Key_char ''r'' then reread_selected E a
      else if k = Key_char ''?'' then Some (open_values a)
      else if k \<in> {Key_char ''+'', Key_char ''=''} \<and> ap_mapping a \<noteq> None then Some (begin_map E a)
      else if k = Key_char ''-'' \<and> ap_mapping a \<noteq> None then Some (unmap_selected a)
      else if k = Key_char ''a'' \<and> ap_mapping a \<noteq> None then apply_to_article E a
      else if k \<in> {Key_esc, Key_left, Key_char ''h''} then back_to_devices E a
      else Some a)"

definition browse_key :: "'b tui_env \<Rightarrow> key_code \<Rightarrow> 'b app \<Rightarrow> 'b app option" where
  "browse_key E k a =
     (if k = Key_char ''q'' then Some (quit_checked a)
      else if k \<in> {Key_char ''l'', Key_char ''L''} then open_login E a
      else if k = Key_char ''~'' then Some (toggle_logs a)
      else if k = Key_char ''w'' \<and> ap_mapping a \<noteq> None then Some (save_mapping E a)
      else if k \<in> {Key_char ''+'', Key_char ''='', Key_char ''-'', Key_char ''a'', Key_char ''w''} \<and>
          ap_mapping a = None \<and> ap_focus a = Fields then Some (a\<lparr>ap_status := St_mapping_off\<rparr>)
      else case ap_focus a of Devices \<Rightarrow> devices_key E k a | Fields \<Rightarrow> fields_key E k a)"

definition handle_key :: "'b tui_env \<Rightarrow> key_event \<Rightarrow> 'b app \<Rightarrow> 'b app option" where
  "handle_key E key a =
     (if ap_quit_prompt a \<noteq> None then Some (quit_prompt_key E (fst key) a)
      else if ap_path_editor a \<noteq> None then path_editing_key key a
      else if ap_values_modal a \<noteq> None then Some (values_key (fst key) a)
      else if ap_editor a \<noteq> None then editing_key E (fst key) a
      else if ap_login a \<noteq> None then login_key E (fst key) a
      else if ap_pending a \<noteq> None
      then (if fst key = Key_char ''q'' then Some (quit_checked a)
            else if fst key = Key_esc then Some (cancel_pending a) else Some a)
      else browse_key E (fst key) a)"

section \<open>The main loop\<close>

text \<open>A turn: perhaps a key, the devices that announced themselves, the pending discovery and what the
  subscription's channel holds.\<close>

definition tui_turn ::
  "'b tui_env \<Rightarrow> key_event option \<Rightarrow> u32 list \<Rightarrow> (field_id \<times> bus_value) list \<Rightarrow> 'b app \<Rightarrow> 'b app option" where
  "tui_turn E key alive us a =
     do {
       a1 \<leftarrow> (case key of Some k \<Rightarrow> handle_key E k a | None \<Rightarrow> Some a);
       a2 \<leftarrow> poll_pending E (fold note_alive alive a1);
       Some (pump_subscription us a2)
     }"

text \<open>The backfill thread asks a device nobody asked yet who it is.\<close>

definition backfill :: "'b tui_env \<Rightarrow> u32 \<Rightarrow> 'b app \<Rightarrow> 'b app option" where
  "backfill E d a =
     (if ap_idents a d \<noteq> None then Some a
      else map_option (\<lambda>(r, a1). case r of
          Inr i \<Rightarrow> a1\<lparr>ap_names := (if di_name i = [] then ap_names a1 else (ap_names a1)(d \<mapsto> di_name i)),
            ap_idents := (ap_idents a1)(d \<mapsto> i)\<rparr>
        | Inl e \<Rightarrow> a1) (ask (te_identity E d) a))"

text \<open>The program goes on until a turn ends with the wish to quit. A worker whose discovery was abandoned
  still asks the bus. What a key types is one character: a byte, and the continuation bytes it calls for.\<close>

definition one_char :: "string \<Rightarrow> bool" where
  "one_char c \<longleftrightarrow> c \<noteq> [] \<and> \<not> is_cont (hd c) \<and> list_all is_cont (tl c) \<and> (tl c \<noteq> [] \<longrightarrow> 128 \<le> (of_char (hd c) :: nat))"

definition key_ok :: "key_event \<Rightarrow> bool" where
  "key_ok key = (case fst key of Key_char c \<Rightarrow> one_char c | _ \<Rightarrow> True)"

inductive tui_step :: "'b tui_env \<Rightarrow> 'b app \<Rightarrow> 'b app \<Rightarrow> bool" for E where
  turn: "\<not> ap_should_quit a \<Longrightarrow> pred_option key_ok key \<Longrightarrow> tui_turn E key alive us a = Some a' \<Longrightarrow> tui_step E a a'"
| worker: "\<not> ap_should_quit a \<Longrightarrow> run_worker E a = Some a' \<Longrightarrow> tui_step E a a'"
| abandoned: "\<not> ap_should_quit a \<Longrightarrow> ask (te_tab E d m) a = Some (r, a') \<Longrightarrow> tui_step E a a'"
| names: "\<not> ap_should_quit a \<Longrightarrow> backfill E d a = Some a' \<Longrightarrow> tui_step E a a'"

inductive tui_run :: "'b tui_env \<Rightarrow> 'b app \<Rightarrow> 'b app \<Rightarrow> bool" for E where
  start: "tui_run E a a"
| step: "tui_run E a b \<Longrightarrow> tui_step E b c \<Longrightarrow> tui_run E a c"

end
