(* ===== verification/TuiFacts.thy ===== *)
theory TuiFacts
  imports TuiKeys
begin

text \<open>
  How the state of the terminal program stays consistent: what each operation leaves alone, the invariant of
  what is shown, of the open modal and of the mapping editor, and that every operation keeps it.
\<close>

section \<open>What browsing leaves alone\<close>

definition keeps_frame :: "'b app \<Rightarrow> 'b app \<Rightarrow> bool" where
  "keeps_frame a a' \<longleftrightarrow> ap_device_ids a' = ap_device_ids a \<and> ap_dev_sel a' = ap_dev_sel a \<and>
     ap_should_quit a' = ap_should_quit a \<and> ap_mapping a' = ap_mapping a \<and> ap_quit_prompt a' = ap_quit_prompt a \<and>
     ap_path_editor a' = ap_path_editor a \<and> ap_values_modal a' = ap_values_modal a"

lemma keeps_frame_refl [simp]: "keeps_frame a a" by (simp add: keeps_frame_def)
lemma keeps_frame_trans: "keeps_frame a b \<Longrightarrow> keeps_frame b c \<Longrightarrow> keeps_frame a c" by (simp add: keeps_frame_def)

lemma ask_Some: "ask f a = Some (r, a') \<longleftrightarrow> (\<exists>b. f (ap_bus a) = Some (r, b) \<and> a' = a\<lparr>ap_bus := b\<rparr>)"
  by (auto simp: ask_def)

lemma put_sub_Some:
  "put_sub E n a = Some a' \<longleftrightarrow>
     (\<exists>b. (case ap_sub a of None \<Rightarrow> Some (ap_bus a) | Some i \<Rightarrow> te_unsubscribe E i (ap_bus a)) = Some b \<and>
       a' = a\<lparr>ap_bus := b, ap_sub := n\<rparr>)"
  by (auto simp: put_sub_def)

text \<open>The row in focus is a field when there is one; what is being discovered is the open tab of the open
  device.\<close>

definition row_ok :: "row list \<Rightarrow> nat \<Rightarrow> bool" where
  "row_ok rows i \<longleftrightarrow> list_ex (\<lambda>r. row_field r \<noteq> None) rows \<longrightarrow> i < length rows \<and> row_field (rows ! i) \<noteq> None"

definition shown_ok :: "row list \<Rightarrow> nat \<Rightarrow> focus \<Rightarrow> u32 option \<Rightarrow> tab_kind \<Rightarrow> pending option \<Rightarrow> bool" where
  "shown_ok rows i foc dev tab pd \<longleftrightarrow> row_ok rows i \<and> (foc = Fields \<longrightarrow> dev \<noteq> None) \<and>
     (\<forall>p. pd = Some p \<longrightarrow> dev = Some (pd_id p) \<and> pd_tab p = tab \<and> tab \<noteq> Summary)"

definition view_ok :: "'b app \<Rightarrow> bool" where
  "view_ok a = shown_ok (ap_rows a) (ap_row_sel a) (ap_focus a) (ap_cur_device a) (ap_cur_tab a) (ap_pending a)"

definition choice_ok :: "editor \<Rightarrow> bool" where
  "choice_ok e = (case ed_kind e of Edit_choice options sel \<Rightarrow> options = [] \<or> sel < length options | _ \<Rightarrow> True)"

definition modal_ok :: "'b app \<Rightarrow> bool" where
  "modal_ok a \<longleftrightarrow> pred_option choice_ok (ap_editor a) \<and> pred_option (\<lambda>p. lp_sel p < length LOGIN_LEVELS) (ap_login a) \<and>
     (ap_login a \<noteq> None \<longrightarrow> ap_pending a = None)"

definition sel_ok :: "'b app \<Rightarrow> bool" where
  "sel_ok a \<longleftrightarrow> ap_dev_sel a < length (ap_device_ids a) \<or> ap_device_ids a = [] \<and> ap_dev_sel a = 0"

definition stage_ok :: "path_editor \<Rightarrow> bool" where
  "stage_ok e = (case pe_stage e of
     Stage_path \<Rightarrow> True | Stage_truth i \<Rightarrow> i < length (pe_options e) | Stage_notify i \<Rightarrow> i < length (pe_options e))"

definition tui_ok :: "'b app \<Rightarrow> bool" where
  "tui_ok a \<longleftrightarrow> view_ok a \<and> modal_ok a \<and> sel_ok a \<and> pred_option stage_ok (ap_path_editor a)"

lemma row_ok_Nil [simp]: "row_ok [] i" by (simp add: row_ok_def)

lemma next_field_Some: "next_field rows delta i = Some j \<Longrightarrow> j < length rows \<and> row_field (rows ! j) \<noteq> None"
proof (induction rows delta i rule: next_field.induct)
  case (1 rows delta i)
  then show ?case by (subst (asm) next_field.simps) (auto split: if_splits)
qed

lemma trem_pos: "0 < b \<Longrightarrow> trem a b = sgn a * (\<bar>a\<bar> mod b)"
proof -
  assume b: "0 < b"
  then have "trem a b = sgn a * \<bar>a\<bar> - b * (sgn a * (\<bar>a\<bar> div b))" by (simp add: trem_def tdiv_def sgn_mult_abs)
  also have "\<dots> = sgn a * (\<bar>a\<bar> - b * (\<bar>a\<bar> div b))" by (simp add: algebra_simps)
  finally show ?thesis by (simp add: minus_mult_div_eq_mod)
qed

lemma ring_step_less: "0 < n \<Longrightarrow> ring_step n i delta < n"
proof -
  assume n: "0 < n"
  let ?r = "trem (int i + delta) (int n)"
  have "\<bar>?r\<bar> < int n" using n by (simp add: trem_pos abs_mult sgn_if)
  then have "trem (?r + int n) (int n) = (?r + int n) mod int n" using n by (simp add: trem_pos)
  then show ?thesis using n by (simp add: ring_step_def nat_less_iff)
qed

lemma ring_move_less: "0 < n \<Longrightarrow> ring_move n i delta < n"
  by (simp add: ring_move_def nat_less_iff)

section \<open>Each operation on what is shown\<close>

lemma ensure_value_frame:
  "ensure_value E fid a = Some a' \<Longrightarrow> \<exists>b vs. a' = a\<lparr>ap_bus := b, ap_values := vs\<rparr>"
proof (cases "ap_values a fid \<noteq> None \<or> ap_cur_device a = None")
  case True
  moreover assume "ensure_value E fid a = Some a'"
  ultimately have "a' = a\<lparr>ap_bus := ap_bus a, ap_values := ap_values a\<rparr>" by (auto simp: ensure_value_def split: if_splits)
  then show ?thesis by blast
next
  case False
  moreover assume e: "ensure_value E fid a = Some a'"
  ultimately obtain d r b where "te_value E d fid (ap_bus a) = Some (r, b)" "ap_values a fid = None" "ap_cur_device a = Some d"
    by (auto simp: ensure_value_def ask_Some)
  then have "a' = a\<lparr>ap_bus := b, ap_values := (case r of Inr v \<Rightarrow> (ap_values a)(fid \<mapsto> v) | Inl e \<Rightarrow> ap_values a)\<rparr>"
    using e by (cases r) (auto simp: ensure_value_def ask_def)
  then show ?thesis by blast
qed

lemma refresh_frame: "refresh_selected E a = Some a' \<Longrightarrow> \<exists>b vs. a' = a\<lparr>ap_bus := b, ap_values := vs\<rparr>"
proof (cases "selected_field a")
  case None
  moreover assume "refresh_selected E a = Some a'"
  ultimately have "a' = a\<lparr>ap_bus := ap_bus a, ap_values := ap_values a\<rparr>" by (simp add: refresh_selected_def)
  then show ?thesis by blast
qed (simp add: refresh_selected_def ensure_value_frame)

text \<open>An operation on the view: it leaves the frame and the other modals alone and keeps the view.\<close>

definition browses :: "'b app \<Rightarrow> 'b app \<Rightarrow> bool" where
  "browses a a' \<longleftrightarrow> keeps_frame a a' \<and> (view_ok a \<longrightarrow> view_ok a') \<and> ap_editor a' = ap_editor a \<and> ap_login a' = ap_login a"

lemma browses_refl [simp]: "browses a a" by (simp add: browses_def)
lemma browses_trans: "browses a b \<Longrightarrow> browses b c \<Longrightarrow> browses a c"
  by (auto simp: browses_def intro: keeps_frame_trans)

lemma browses_silent:
  "browses a (a\<lparr>ap_bus := b\<rparr>)" "browses a (a\<lparr>ap_status := st\<rparr>)" "browses a (a\<lparr>ap_values := vs\<rparr>)"
  "browses a (a\<lparr>ap_names := ns\<rparr>)" "browses a (a\<lparr>ap_idents := ids\<rparr>)"
  by (simp_all add: browses_def keeps_frame_def view_ok_def)

lemma refresh_browses: "refresh_selected E a = Some a' \<Longrightarrow> browses a a'"
  by (auto dest!: refresh_frame simp: browses_def keeps_frame_def view_ok_def)

lemma ensure_value_browses: "ensure_value E fid a = Some a' \<Longrightarrow> browses a a'"
  by (auto dest!: ensure_value_frame simp: browses_def keeps_frame_def view_ok_def)

lemma move_row_browses: "move_row E delta a = Some a' \<Longrightarrow> browses a a'"
proof (cases "next_field (ap_rows a) delta (int (ap_row_sel a))")
  case (Some i)
  assume "move_row E delta a = Some a'"
  with Some have "browses (a\<lparr>ap_row_sel := i\<rparr>) a'" by (auto simp: move_row_def intro: refresh_browses)
  moreover have "browses a (a\<lparr>ap_row_sel := i\<rparr>)"
    using next_field_Some [OF Some] by (auto simp: browses_def keeps_frame_def view_ok_def shown_ok_def row_ok_def)
  ultimately show ?thesis by (rule browses_trans [rotated])
qed (simp add: move_row_def)

lemma reread_browses: "reread_selected E a = Some a' \<Longrightarrow> browses a a'"
  by (auto simp: reread_selected_def split: option.splits dest!: ensure_value_frame)
    (simp_all add: browses_def keeps_frame_def view_ok_def)

lemma tui_write_browses: "tui_write E fid v a = Some a' \<Longrightarrow> browses a a'"
proof (cases "ap_cur_device a")
  case (Some d)
  moreover assume w: "tui_write E fid v a = Some a'"
  ultimately obtain r b where "te_set E d fid v (ap_bus a) = Some (r, b)" by (auto simp: tui_write_def ask_Some)
  then show ?thesis using w Some by (cases r) (auto simp: tui_write_def ask_def browses_def keeps_frame_def view_ok_def)
qed (simp add: tui_write_def)

text \<open>The tabs.\<close>

lemma position_of_None: "position_of P xs = None \<Longrightarrow> \<not> list_ex P xs"
  by (induction xs) (auto split: if_splits)

lemma row_ok_0: "position_of (\<lambda>r. row_field r \<noteq> None) rows = None \<Longrightarrow> row_ok rows 0"
  using position_of_None by (fastforce simp: row_ok_def)

lemma select_first_field_frame:
  assumes "select_first_field E (a\<lparr>ap_row_sel := 0\<rparr>) = Some a'"
  shows "\<exists>b vs i. a' = a\<lparr>ap_bus := b, ap_values := vs, ap_row_sel := i\<rparr> \<and> row_ok (ap_rows a) i"
proof (cases "position_of (\<lambda>r. row_field r \<noteq> None) (ap_rows a)")
  case None
  then have "a' = a\<lparr>ap_bus := ap_bus a, ap_values := ap_values a, ap_row_sel := 0\<rparr>"
    using assms by (simp add: select_first_field_def)
  with row_ok_0 [OF None] show ?thesis by blast
next
  case (Some i)
  then obtain b vs where "a' = a\<lparr>ap_row_sel := i, ap_bus := b, ap_values := vs\<rparr>"
    using assms by (auto simp: select_first_field_def dest!: refresh_frame)
  then have "a' = a\<lparr>ap_bus := b, ap_values := vs, ap_row_sel := i\<rparr>" by simp
  moreover have "row_ok (ap_rows a) i" using position_of_Some [OF Some] by (simp add: row_ok_def)
  ultimately show ?thesis by blast
qed

lemma show_groups_frame:
  assumes "show_groups E d m gs a = Some a'"
  shows "\<exists>b vs i n st. a' = a\<lparr>ap_bus := b, ap_rows := build_rows gs, ap_values := vs, ap_sub := n, ap_row_sel := i, ap_status := st\<rparr> \<and>
    row_ok (build_rows gs) i"
proof -
  let ?fields = "concat (map (\<lambda>g. map fi_index (gi_fields g)) gs)"
  let ?a1 = "a\<lparr>ap_rows := build_rows gs, ap_values := Map.empty\<rparr>"
  obtain n a2 a3 a4 where n: "(if ?fields \<noteq> [] then map_option (\<lambda>(i, a2). (Some i, a2)) (ask (te_subscribe E d ?fields) ?a1)
        else Some (None, ?a1)) = Some (n, a2)"
    and p: "put_sub E n a2 = Some a3" and f: "select_first_field E (a3\<lparr>ap_row_sel := 0\<rparr>) = Some a4"
    and e: "a' = a4\<lparr>ap_status := St_at (device_label a4 d) (Tab_menu m)\<rparr>"
    using assms unfolding show_groups_def Let_def by (auto simp: Option.bind_eq_Some_conv)
  have "\<exists>b. a2 = ?a1\<lparr>ap_bus := b\<rparr>"
  proof (cases "?fields = []")
    case True
    with n have "a2 = ?a1" by simp
    then have "a2 = ?a1\<lparr>ap_bus := ap_bus a\<rparr>" by simp
    then show ?thesis by blast
  qed (use n in \<open>auto simp: ask_Some split: if_splits\<close>)
  then obtain b where a2: "a2 = ?a1\<lparr>ap_bus := b\<rparr>" ..
  obtain b1 where a3: "a3 = a2\<lparr>ap_bus := b1, ap_sub := n\<rparr>" using p by (auto simp: put_sub_Some)
  obtain b2 vs i where a4: "a4 = a3\<lparr>ap_bus := b2, ap_values := vs, ap_row_sel := i\<rparr>" "row_ok (ap_rows a3) i"
    using select_first_field_frame [OF f] by blast
  have "a' = a\<lparr>ap_bus := b2, ap_rows := build_rows gs, ap_values := vs, ap_sub := n, ap_row_sel := i,
      ap_status := St_at (device_label a4 d) (Tab_menu m)\<rparr>" by (simp add: e a4 a3 a2)
  moreover have "row_ok (build_rows gs) i" using a4(2) by (simp add: a3 a2)
  ultimately show ?thesis by blast
qed

lemma enter_summary_frame:
  assumes "enter_summary E a = Some a'" and "ap_cur_device a = Some d"
  shows "\<exists>r b b1. te_identity E d b = Some (r, b1) \<and> browses (a\<lparr>ap_pending := None\<rparr>) (a'\<lparr>ap_pending := None\<rparr>) \<and>
    ap_pending a' = ap_pending a \<and> ap_cur_device a' = Some d \<and> ap_focus a' = ap_focus a \<and> ap_cur_tab a' = Summary \<and>
    ap_rows a' = [] \<and> ap_cur_info a' = ok r \<and>
    ap_cur_serial a' = (case r of Inl e \<Rightarrow> ap_cur_serial a | Inr i \<Rightarrow> if di_serial i = [] then None else Some (di_serial i)) \<and>
    ap_cur_instance a' = (case r of Inl e \<Rightarrow> ap_cur_instance a | Inr i \<Rightarrow> instance_of (di_name i) d)"
proof -
  obtain a1 r a2 l a4 where p: "put_sub E None (a\<lparr>ap_cur_tab := Summary\<rparr>) = Some a1"
    and i: "ask (te_identity E d) (a1\<lparr>ap_rows := [], ap_row_sel := 0\<rparr>) = Some (r, a2)"
    and l: "ask (te_level E d) (case r of Inl e \<Rightarrow> a2\<lparr>ap_cur_info := None\<rparr>
            | Inr i \<Rightarrow> a2\<lparr>ap_cur_info := Some i, ap_cur_serial := (if di_serial i = [] then None else Some (di_serial i)),
                ap_cur_instance := instance_of (di_name i) d, ap_idents := (ap_idents a2)(d \<mapsto> i)\<rparr>) = Some (l, a4)"
    and e: "a' = a4\<lparr>ap_cur_access := ok l, ap_status := St_at (device_label a4 d) Summary\<rparr>"
    using assms unfolding enter_summary_def Let_def by (auto simp: Option.bind_eq_Some_conv)
  obtain b b1 where "te_identity E d b = Some (r, b1)" using i by (auto simp: ask_Some)
  moreover have "browses (a\<lparr>ap_pending := None\<rparr>) (a'\<lparr>ap_pending := None\<rparr>) \<and>
    ap_pending a' = ap_pending a \<and> ap_cur_device a' = Some d \<and> ap_focus a' = ap_focus a \<and> ap_cur_tab a' = Summary \<and>
    ap_rows a' = [] \<and> ap_cur_info a' = ok r \<and>
    ap_cur_serial a' = (case r of Inl e \<Rightarrow> ap_cur_serial a | Inr i \<Rightarrow> if di_serial i = [] then None else Some (di_serial i)) \<and>
    ap_cur_instance a' = (case r of Inl e \<Rightarrow> ap_cur_instance a | Inr i \<Rightarrow> instance_of (di_name i) d)"
    using p i l e assms(2)
    by (cases r) (auto simp: put_sub_Some ask_Some browses_def keeps_frame_def view_ok_def shown_ok_def ok_def)
  ultimately show ?thesis by blast
qed

lemma enter_summary_browses:
  assumes "enter_summary E a = Some a'" and "ap_pending a = None"
  shows "browses a a'"
proof (cases "ap_cur_device a")
  case (Some d)
  have "a\<lparr>ap_pending := None\<rparr> = a" using assms(2) by simp
  moreover have "a'\<lparr>ap_pending := None\<rparr> = a'" using enter_summary_frame [OF assms(1) Some] assms(2) by auto
  ultimately show ?thesis using enter_summary_frame [OF assms(1) Some] by auto
qed (use assms in \<open>simp add: enter_summary_def\<close>)

lemma show_groups_browses:
  assumes "show_groups E d m gs a = Some a'"
  shows "keeps_frame a a' \<and> ap_editor a' = ap_editor a \<and> ap_login a' = ap_login a \<and> ap_pending a' = ap_pending a \<and>
    (shown_ok [] 0 (ap_focus a) (ap_cur_device a) (ap_cur_tab a) (ap_pending a) \<longrightarrow> view_ok a')"
  using show_groups_frame [OF assms(1)] by (auto simp: keeps_frame_def view_ok_def shown_ok_def)

lemma switch_tab_browses:
  assumes "switch_tab E t a = Some a'" and p: "ap_pending a = None"
  shows "browses a a'"
proof (cases "ap_cur_device a")
  case (Some d)
  have t: "browses a (a\<lparr>ap_cur_tab := t\<rparr>)" using p by (simp add: browses_def keeps_frame_def view_ok_def shown_ok_def)
  show ?thesis
  proof (cases t)
    case Summary
    then have "browses (a\<lparr>ap_cur_tab := t\<rparr>) a'" using assms Some by (auto simp: switch_tab_def intro: enter_summary_browses)
    with t show ?thesis by (rule browses_trans)
  next
    case (Tab_menu m)
    show ?thesis
    proof (cases "m \<in> ap_loaded a")
      case True
      obtain r :: "group_info list result" and b where g: "show_groups E d m (case r of Inr gs \<Rightarrow> gs | Inl e \<Rightarrow> []) (a\<lparr>ap_cur_tab := t, ap_bus := b\<rparr>) = Some a'"
        using assms(1) True Some Tab_menu by (auto simp: switch_tab_def ask_Some Option.bind_eq_Some_conv)
      show ?thesis using show_groups_browses [OF g] p by (auto simp: browses_def keeps_frame_def view_ok_def shown_ok_def)
    next
      case False
      then show ?thesis
        using assms Some Tab_menu
        by (auto simp: switch_tab_def start_menu_discovery_def browses_def keeps_frame_def view_ok_def shown_ok_def)
    qed
  qed
qed (use assms in \<open>simp add: switch_tab_def\<close>)

lemma cycle_tab_browses: "cycle_tab E delta a = Some a' \<Longrightarrow> browses a a'"
  by (auto simp: cycle_tab_def split: if_splits dest: switch_tab_browses)

lemma open_device_browses:
  assumes "open_device E a = Some a'" and "ap_pending a = None"
  shows "browses a a'"
proof (cases "get_opt (ap_device_ids a) (ap_dev_sel a)")
  case (Some d)
  then obtain a1 where p: "put_sub E None (a\<lparr>ap_cur_device := Some d, ap_loaded := {}\<rparr>) = Some a1"
    and e: "enter_summary E (a1\<lparr>ap_rows := [], ap_values := Map.empty, ap_row_sel := 0, ap_focus := Fields, ap_cur_tab := Summary\<rparr>) = Some a'"
    using assms(1) by (auto simp: open_device_def Option.bind_eq_Some_conv)
  let ?a2 = "a1\<lparr>ap_rows := [], ap_values := Map.empty, ap_row_sel := 0, ap_focus := Fields, ap_cur_tab := Summary\<rparr>"
  have "browses a ?a2" using p assms(2) by (auto simp: put_sub_Some browses_def keeps_frame_def view_ok_def shown_ok_def)
  moreover have "browses ?a2 a'" by (rule enter_summary_browses [OF e]) (use p assms(2) in \<open>auto simp: put_sub_Some\<close>)
  ultimately show ?thesis by (rule browses_trans)
qed (use assms in \<open>simp add: open_device_def\<close>)

lemma run_worker_browses: "run_worker E a = Some a' \<Longrightarrow> browses a a' \<and> (ap_pending a = None \<longrightarrow> ap_pending a' = None)"
  by (auto simp: run_worker_def ask_Some browses_def keeps_frame_def view_ok_def shown_ok_def
      split: option.splits worker.splits tab_kind.splits)

lemma poll_pending_browses:
  assumes "poll_pending E a = Some a'"
  shows "browses a a' \<and> (ap_pending a = None \<longrightarrow> ap_pending a' = None)"
proof (cases "ap_pending a")
  case (Some p)
  show ?thesis
  proof (cases "pd_rx p")
    case (Found_groups gs)
    then obtain r b where r: "te_name E (pd_id p) (ap_bus a) = Some (r, b)" using assms Some by (auto simp: poll_pending_def ask_Some Option.bind_eq_Some_conv)
    define a2 where "a2 = a\<lparr>ap_pending := None, ap_bus := b, ap_names := (case r of Inr n \<Rightarrow> (ap_names a)(pd_id p \<mapsto> n) | Inl e \<Rightarrow> ap_names a)\<rparr>"
    have a2: "browses a a2" by (simp add: a2_def browses_def keeps_frame_def view_ok_def shown_ok_def)
    show ?thesis
    proof (cases "pd_tab p")
      case Summary
      then have "a' = a2" using assms Some Found_groups r by (cases r) (auto simp: poll_pending_def ask_def a2_def)
      with a2 Some show ?thesis by simp
    next
      case (Tab_menu m)
      then have g: "show_groups E (pd_id p) m gs (a2\<lparr>ap_loaded := insert m (ap_loaded a2)\<rparr>) = Some a'"
        using assms Some Found_groups r by (cases r) (auto simp: poll_pending_def ask_def a2_def)
      show ?thesis using show_groups_browses [OF g] a2 Some
        by (auto simp: a2_def browses_def keeps_frame_def view_ok_def shown_ok_def)
    qed
  qed (use assms Some in \<open>auto simp: poll_pending_def browses_def keeps_frame_def view_ok_def shown_ok_def\<close>)
qed (use assms in \<open>simp add: poll_pending_def\<close>)

lemma back_browses: "back_to_devices E a = Some a' \<Longrightarrow> browses a a'"
  by (auto simp: back_to_devices_def put_sub_Some browses_def keeps_frame_def view_ok_def shown_ok_def)

lemma cancel_pending_browses: "browses a (cancel_pending a)"
  by (simp add: cancel_pending_def browses_def keeps_frame_def view_ok_def shown_ok_def)

lemma apply_login_result_browses:
  assumes "apply_login_result E d l r prev a = Some a'" and "ap_pending a = None"
  shows "browses a a'"
proof (cases r)
  case (Inr got)
  define a1 where "a1 = a\<lparr>ap_status := (if Some got = prev \<and> l \<noteq> EndUser then St_wrong_password else St_level d got)\<rparr>"
  have a1: "browses a a1" by (simp add: a1_def browses_silent)
  show ?thesis
  proof (cases "ap_cur_device a1 = Some d")
    case True
    then obtain a2 where p: "put_sub E None (a1\<lparr>ap_cur_access := Some got, ap_loaded := {}, ap_values := Map.empty\<rparr>) = Some a2"
      and t: "(case ap_cur_tab a2 of
                   Summary \<Rightarrow> map_option (\<lambda>(r, a3). a3\<lparr>ap_cur_info := ok r\<rparr>) (ask (te_identity E d) a2)
                 | Tab_menu m \<Rightarrow> switch_tab E (Tab_menu m) (a2\<lparr>ap_rows := [], ap_row_sel := 0\<rparr>)) = Some a'"
      using assms(1) unfolding apply_login_result_def Inr Let_def a1_def [symmetric] sum.case by (auto simp: Option.bind_eq_Some_conv)
    have a2: "browses a1 a2" "ap_pending a2 = None" using p assms(2) by (auto simp: put_sub_Some browses_def keeps_frame_def view_ok_def a1_def)
    have "browses a2 a'"
    proof (cases "ap_cur_tab a2")
      case Summary
      with t show ?thesis by (auto simp: ask_Some browses_def keeps_frame_def view_ok_def)
    next
      case (Tab_menu m)
      then have "browses (a2\<lparr>ap_rows := [], ap_row_sel := 0\<rparr>) a'" using t a2(2) by (auto intro: switch_tab_browses)
      moreover have "browses a2 (a2\<lparr>ap_rows := [], ap_row_sel := 0\<rparr>)" by (simp add: browses_def keeps_frame_def view_ok_def shown_ok_def)
      ultimately show ?thesis by (rule browses_trans [rotated])
    qed
    with a1 a2(1) show ?thesis by (blast intro: browses_trans)
  next
    case False
    then show ?thesis using assms(1) a1 unfolding apply_login_result_def Inr Let_def a1_def [symmetric] sum.case by simp
  qed
qed (use assms in \<open>auto simp: apply_login_result_def browses_silent\<close>)

section \<open>The state stays consistent\<close>

lemma browses_ok: "browses a a' \<Longrightarrow> tui_ok a \<Longrightarrow> ap_login a = None \<or> ap_pending a' = None \<Longrightarrow> tui_ok a'"
  by (auto simp: tui_ok_def browses_def keeps_frame_def modal_ok_def sel_ok_def)

text \<open>What the parts of the state are that the invariant looks at; an operation that leaves them alone
  keeps it.\<close>

lemma tui_ok_cong:
  "ap_rows a' = ap_rows a \<Longrightarrow> ap_row_sel a' = ap_row_sel a \<Longrightarrow> ap_focus a' = ap_focus a \<Longrightarrow>
   ap_cur_device a' = ap_cur_device a \<Longrightarrow> ap_cur_tab a' = ap_cur_tab a \<Longrightarrow> ap_pending a' = ap_pending a \<Longrightarrow>
   ap_editor a' = ap_editor a \<Longrightarrow> ap_login a' = ap_login a \<Longrightarrow> ap_dev_sel a' = ap_dev_sel a \<Longrightarrow>
   ap_device_ids a' = ap_device_ids a \<Longrightarrow> ap_path_editor a' = ap_path_editor a \<Longrightarrow> tui_ok a' = tui_ok a"
  by (simp add: tui_ok_def view_ok_def modal_ok_def sel_ok_def)

lemma tui_ok_silent [simp]:
  "tui_ok (a\<lparr>ap_status := st\<rparr>) = tui_ok a" "tui_ok (a\<lparr>ap_bus := b\<rparr>) = tui_ok a" "tui_ok (a\<lparr>ap_values := vs\<rparr>) = tui_ok a"
  "tui_ok (a\<lparr>ap_mapping := m\<rparr>) = tui_ok a" "tui_ok (a\<lparr>ap_quit_prompt := q\<rparr>) = tui_ok a"
  "tui_ok (a\<lparr>ap_should_quit := sq\<rparr>) = tui_ok a" "tui_ok (a\<lparr>ap_show_logs := sl\<rparr>) = tui_ok a"
  "tui_ok (a\<lparr>ap_values_modal := vm\<rparr>) = tui_ok a" "tui_ok (a\<lparr>ap_names := ns\<rparr>) = tui_ok a"
  "tui_ok (a\<lparr>ap_idents := ids\<rparr>) = tui_ok a"
  by (rule tui_ok_cong; simp)+

lemma view_sel_silent [simp]:
  "view_ok (a\<lparr>ap_editor := ed\<rparr>) = view_ok a" "sel_ok (a\<lparr>ap_editor := ed\<rparr>) = sel_ok a"
  "view_ok (a\<lparr>ap_login := lp\<rparr>) = view_ok a" "sel_ok (a\<lparr>ap_login := lp\<rparr>) = sel_ok a"
  "view_ok (a\<lparr>ap_path_editor := pe\<rparr>) = view_ok a" "sel_ok (a\<lparr>ap_path_editor := pe\<rparr>) = sel_ok a"
  "modal_ok (a\<lparr>ap_path_editor := pe\<rparr>) = modal_ok a"
  "view_ok (a\<lparr>ap_status := st\<rparr>) = view_ok a" "sel_ok (a\<lparr>ap_status := st\<rparr>) = sel_ok a" "modal_ok (a\<lparr>ap_status := st\<rparr>) = modal_ok a"
  by (simp_all add: view_ok_def sel_ok_def modal_ok_def)

lemma tui_ok_parts [simp]:
  "tui_ok (a\<lparr>ap_path_editor := e\<rparr>) \<longleftrightarrow> view_ok a \<and> modal_ok a \<and> sel_ok a \<and> pred_option stage_ok e"
  "tui_ok (a\<lparr>ap_editor := ed\<rparr>) \<longleftrightarrow> view_ok a \<and> modal_ok (a\<lparr>ap_editor := ed\<rparr>) \<and> sel_ok a \<and> pred_option stage_ok (ap_path_editor a)"
  "tui_ok (a\<lparr>ap_login := lp\<rparr>) \<longleftrightarrow> view_ok a \<and> modal_ok (a\<lparr>ap_login := lp\<rparr>) \<and> sel_ok a \<and> pred_option stage_ok (ap_path_editor a)"
  by (simp_all add: tui_ok_def view_ok_def modal_ok_def sel_ok_def)

lemma ring_levels: "ring_step (length LOGIN_LEVELS) i delta < length LOGIN_LEVELS"
  by (rule ring_step_less) (simp add: LOGIN_LEVELS_def)

text \<open>The value editor and the login.\<close>

lemma choice_ok_simps [simp]:
  "choice_ok \<lparr>ed_field = f, ed_name = n, ed_kind = Edit_number b\<rparr>" "choice_ok \<lparr>ed_field = f, ed_name = n, ed_kind = Edit_text sid b\<rparr>"
  "choice_ok \<lparr>ed_field = f, ed_name = n, ed_kind = Edit_choice os i\<rparr> \<longleftrightarrow> os = [] \<or> i < length os"
  by (simp_all add: choice_ok_def)

lemma begin_edit_ok:
  assumes "begin_edit E a = Some a'" and "tui_ok a" and "ap_login a = None"
  shows "tui_ok a'"
proof (cases "selected_field a")
  case (Some f)
  have m: "tui_ok (a\<lparr>ap_editor := Some e\<rparr>)" if "choice_ok e" for e
    using assms(2) that by (simp add: tui_ok_def modal_ok_def)
  have c: "choice_ok \<lparr>ed_field = x, ed_name = n, ed_kind = Edit_choice (fi_options f) (min i (length (fi_options f) - Suc 0))\<rparr>" for x n i
    by (cases "fi_options f") auto
  show ?thesis
    using assms Some c [of _ _ 0] c
    by (auto simp: begin_edit_def Let_def open_editor_def simp del: tui_ok_parts choice_ok_simps(3) intro!: m split: if_splits option.splits bus_value.splits
        dest!: tui_write_browses intro: browses_ok)
qed (use assms in \<open>simp add: begin_edit_def\<close>)

lemma tui_write_pending: "tui_write E fid v a = Some a' \<Longrightarrow> ap_pending a' = ap_pending a"
proof (cases "ap_cur_device a")
  case (Some d)
  moreover assume w: "tui_write E fid v a = Some a'"
  ultimately obtain r b where "te_set E d fid v (ap_bus a) = Some (r, b)" by (auto simp: tui_write_def ask_Some)
  then show ?thesis using w Some by (cases r) (auto simp: tui_write_def ask_def)
qed (simp add: tui_write_def)

lemma commit_edit_ok:
  assumes "commit_edit E a = Some a'" and "tui_ok a"
  shows "tui_ok a'"
proof (cases "ap_editor a")
  case (Some e)
  have t: "tui_ok (a\<lparr>ap_editor := None\<rparr>)" using assms(2) by (simp add: tui_ok_def modal_ok_def)
  have l: "ap_login a = None \<or> ap_pending a = None" using assms(2) by (auto simp: tui_ok_def modal_ok_def)
  have w: "tui_ok a'" if "tui_write E fid v (a\<lparr>ap_editor := None\<rparr>) = Some a'" for fid v
    by (rule browses_ok [OF tui_write_browses [OF that] t]) (use l tui_write_pending [OF that] in simp)
  show ?thesis using assms(1) Some t
    by (auto simp: commit_edit_def Let_def simp del: tui_ok_parts split: edit_kind.splits option.splits intro: w)
qed (use assms in \<open>simp add: commit_edit_def\<close>)

lemma choice_ok_keys:
  "choice_ok e \<Longrightarrow> choice_ok (e\<lparr>ed_kind := type_char c (ed_kind e)\<rparr>)"
  "choice_ok e \<Longrightarrow> choice_ok (e\<lparr>ed_kind := erase_char (ed_kind e)\<rparr>)"
  "choice_ok e \<Longrightarrow> choice_ok (e\<lparr>ed_kind := move_choice delta (ed_kind e)\<rparr>)"
  by (cases "ed_kind e"; simp add: choice_ok_def ring_step_less)+

lemma edit_buffer_ok:
  "tui_ok a \<Longrightarrow> (\<And>e. choice_ok e \<Longrightarrow> choice_ok (e\<lparr>ed_kind := f (ed_kind e)\<rparr>)) \<Longrightarrow> tui_ok (edit_buffer f a)"
  by (auto simp: edit_buffer_def tui_ok_def modal_ok_def view_ok_def sel_ok_def option.pred_map comp_def elim!: option.pred_mono_strong)

lemma open_login_ok:
  assumes "open_login E a = Some a'" and "tui_ok a" and "ap_pending a = None"
  shows "tui_ok a'"
proof (cases "login_target a")
  case (Some d)
  have l: "(case Option.bind (ok r) (\<lambda>l. position_of (\<lambda>x. x = l) LOGIN_LEVELS) of Some i \<Rightarrow> i | None \<Rightarrow> 0) < length LOGIN_LEVELS" for r
    by (auto split: option.splits dest: position_of_Some simp: Option.bind_eq_Some_conv) (simp add: LOGIN_LEVELS_def)
  show ?thesis using assms Some l
    by (auto simp: open_login_def ask_Some tui_ok_def modal_ok_def view_ok_def sel_ok_def)
qed (use assms in \<open>simp add: open_login_def\<close>)

lemma login_edits_ok:
  "tui_ok a \<Longrightarrow> tui_ok (login_move delta a)" "tui_ok a \<Longrightarrow> tui_ok (cancel_login a)" "tui_ok a \<Longrightarrow> tui_ok (edit_password f a)"
  by (cases "ap_login a"; auto simp: login_move_def cancel_login_def edit_password_def tui_ok_def modal_ok_def view_ok_def sel_ok_def
      ring_levels split: login_stage.split)+

lemma commit_login_ok:
  assumes "commit_login E a = Some a'" and t: "tui_ok a"
  shows "tui_ok a'"
proof (cases "ap_login a")
  case (Some p)
  let ?a1 = "a\<lparr>ap_login := None\<rparr>"
  have p: "ap_pending a = None" and t1: "tui_ok ?a1" and s: "lp_sel p < length LOGIN_LEVELS"
    using t Some by (auto simp: tui_ok_def modal_ok_def view_ok_def sel_ok_def)
  have r: "tui_ok a'" if "apply_login_result E d l r prev (?a1\<lparr>ap_bus := b\<rparr>) = Some a'" for d l r prev b
  proof -
    have "browses (?a1\<lparr>ap_bus := b\<rparr>) a'" by (rule apply_login_result_browses [OF that]) (simp add: p)
    then show ?thesis by (rule browses_ok) (use t1 in simp_all)
  qed
  show ?thesis
  proof (cases "lp_stage p = Pick_level \<and> LOGIN_LEVELS ! lp_sel p \<noteq> EndUser")
    case True
    then show ?thesis using assms Some p s
      by (auto simp: commit_login_def Let_def tui_ok_def modal_ok_def view_ok_def sel_ok_def)
  next
    case False
    then show ?thesis using assms(1) Some
      by (auto simp: commit_login_def Let_def ask_Some Option.bind_eq_Some_conv simp del: tui_ok_parts intro: r split: login_stage.splits)
  qed
qed (use assms in \<open>simp add: commit_login_def\<close>)

text \<open>The mapping editor.\<close>

lemma refused_truth_options: "plan path unit options entry = Inl (Refused_truth ls) \<Longrightarrow> options \<noteq> []"
  by (auto simp: plan_def Let_def plan_truth_def plan_units_def split: sum.splits if_splits option.splits)

lemma notify_default_Nil [simp]: "notify_default [] = []"
  by (simp add: notify_default_def bt_collect_def map_filter_def)

lemma begin_map_ok: "tui_ok a \<Longrightarrow> tui_ok (begin_map E a)"
  by (auto simp: begin_map_def Let_def stage_ok_def tui_ok_def split: option.split prod.split)

lemma edit_mapping_ok [simp]: "tui_ok (edit_mapping f a) = tui_ok a"
  by (simp add: edit_mapping_def)

lemma unmap_ok: "tui_ok a \<Longrightarrow> tui_ok (unmap_selected a)"
  by (simp add: unmap_selected_def Let_def split: option.split)

lemma commit_map_ok:
  assumes "tui_ok a" shows "tui_ok (commit_map a)"
proof (cases "ap_path_editor a")
  case (Some e)
  have v: "view_ok a" "modal_ok a" "sel_ok a" using assms by (simp_all add: tui_ok_def)
  have e: "stage_ok e" using assms Some by (simp add: tui_ok_def)
  have w: "wants_notify_stage e \<Longrightarrow> 0 < length (pe_options e)" by (auto simp: wants_notify_stage_def)
  have t: "pe_plan e = Inl (Refused_truth ls) \<Longrightarrow> 0 < length (pe_options e)" for ls
    by (auto simp: pe_plan_def dest: refused_truth_options)
  show ?thesis
    using Some e w t v
    by (auto simp: commit_map_def Let_def stage_ok_def split: option.split sum.split refusal.split)
qed (use assms in \<open>simp add: commit_map_def\<close>)

lemma on_editor_ok: "tui_ok a \<Longrightarrow> (\<And>e. stage_ok e \<Longrightarrow> stage_ok (f e)) \<Longrightarrow> tui_ok (on_editor f a)"
  by (auto simp: on_editor_def tui_ok_def option.pred_map comp_def elim!: option.pred_mono_strong)

lemma stage_ok_cong: "pe_stage e' = pe_stage e \<Longrightarrow> pe_options e' = pe_options e \<Longrightarrow> stage_ok e' = stage_ok e"
  by (cases "pe_stage e") (simp_all add: stage_ok_def)

lemma toggle_invert_parts [simp]: "pe_stage (toggle_invert e) = pe_stage e" "pe_options (toggle_invert e) = pe_options e"
  by (simp_all add: toggle_invert_def Let_def)

lemma set_notify_parts [simp]: "pe_stage (set_notify l st e) = pe_stage e" "pe_options (set_notify l st e) = pe_options e"
  by (simp_all add: set_notify_def)

lemma stage_ok_notify:
  "stage_ok e \<Longrightarrow> stage_ok (case pe_stage e of Stage_notify i \<Rightarrow> if pe_options e = [] then e
      else e\<lparr>pe_stage := Stage_notify (ring_move (length (pe_options e)) i delta)\<rparr> | _ \<Rightarrow> e)"
  "stage_ok e \<Longrightarrow> stage_ok (case pe_stage e of Stage_truth i \<Rightarrow> if pe_options e = [] then e
      else e\<lparr>pe_stage := Stage_truth (ring_move (length (pe_options e)) i delta)\<rparr> | _ \<Rightarrow> e)"
  "stage_ok e \<Longrightarrow> stage_ok (case pe_stage e of Stage_notify i \<Rightarrow>
      at_label (\<lambda>l e. set_notify l (next_state (bt_get (pe_notify e) l)) e) i e | _ \<Rightarrow> e)"
  "stage_ok e \<Longrightarrow> stage_ok (case pe_stage e of Stage_notify i \<Rightarrow> at_label (\<lambda>l. set_notify l st) i e | _ \<Rightarrow> e)"
  "stage_ok e \<Longrightarrow> stage_ok (case pe_stage e of Stage_truth i \<Rightarrow>
      at_label (\<lambda>l e. e\<lparr>pe_truth := bt_insert l (g (bt_get (pe_truth e) l)) (pe_truth e)\<rparr>) i e | _ \<Rightarrow> e)"
  by (auto simp: stage_ok_def at_label_def ring_move_less split: stage.split option.split)

lemma tables_ok:
  "tui_ok a \<Longrightarrow> tui_ok (notify_move delta a)" "tui_ok a \<Longrightarrow> tui_ok (notify_cycle a)" "tui_ok a \<Longrightarrow> tui_ok (notify_set st a)"
  "tui_ok a \<Longrightarrow> tui_ok (truth_move delta a)" "tui_ok a \<Longrightarrow> tui_ok (set_truth g a)" "tui_ok a \<Longrightarrow> tui_ok (back_to_path a)"
  unfolding notify_move_def notify_cycle_def notify_set_def truth_move_def set_truth_def back_to_path_def
  by (rule on_editor_ok, assumption, (erule stage_ok_notify | simp add: stage_ok_def))+

lemma toggle_invert_stage: "stage_ok e \<Longrightarrow> stage_ok (toggle_invert e)"
  by (subst stage_ok_cong) simp_all

lemma open_notify_ok: "tui_ok a \<Longrightarrow> tui_ok (open_notify a)"
  by (auto simp: open_notify_def stage_ok_def tui_ok_def split: option.split)

lemma commit_tables_ok: "tui_ok a \<Longrightarrow> tui_ok (commit_notify a)" "tui_ok a \<Longrightarrow> tui_ok (commit_truth a)"
proof -
  assume t: "tui_ok a"
  have "tui_ok (on_editor (\<lambda>e. e\<lparr>pe_notify_offered := True\<rparr>) a)"
    by (rule on_editor_ok [OF t]) (subst stage_ok_cong, simp_all)
  then show "tui_ok (commit_notify a)" by (simp only: commit_notify_def commit_map_ok)
  show "tui_ok (commit_truth a)" using t by (simp add: commit_truth_def commit_map_ok split: option.split)
qed

text \<open>Typing leaves everything but the text and the cursor alone.\<close>

definition same_field :: "path_editor \<Rightarrow> path_editor \<Rightarrow> bool" where
  "same_field e e' \<longleftrightarrow> (\<exists>buf cur. e' = e\<lparr>pe_buf := buf, pe_cursor := cur\<rparr>)"

lemma same_field_simps [simp]:
  "same_field e (e\<lparr>pe_buf := buf, pe_cursor := cur\<rparr>)" "same_field e (e\<lparr>pe_buf := buf\<rparr>)"
  "same_field e (e\<lparr>pe_cursor := cur\<rparr>)" "same_field e e"
proof -
  show "same_field e (e\<lparr>pe_buf := buf, pe_cursor := cur\<rparr>)" for buf cur unfolding same_field_def by blast
  from this [where buf = buf and cur = "pe_cursor e"] this [where buf = "pe_buf e" and cur = cur]
    this [where buf = "pe_buf e" and cur = "pe_cursor e"]
  show "same_field e (e\<lparr>pe_buf := buf\<rparr>)" "same_field e (e\<lparr>pe_cursor := cur\<rparr>)" "same_field e e" by simp_all
qed

lemma typing_same_field:
  "type_path c e = Some e' \<Longrightarrow> same_field e e'" "erase_before e = Some e' \<Longrightarrow> same_field e e'" "erase_at e = Some e' \<Longrightarrow> same_field e e'"
  "move_path delta e = Some e' \<Longrightarrow> same_field e e'" "move_segment delta e = Some e' \<Longrightarrow> same_field e e'"
  "home_end b e = Some e' \<Longrightarrow> same_field e e'"
proof -
  show "type_path c e = Some e' \<Longrightarrow> same_field e e'" by (auto simp: type_path_def)
  show "erase_before e = Some e' \<Longrightarrow> same_field e e'" by (auto simp: erase_before_def)
  show "erase_at e = Some e' \<Longrightarrow> same_field e e'" by (auto simp: erase_at_def split: if_splits)
  show "move_path delta e = Some e' \<Longrightarrow> same_field e e'" by (auto simp: move_path_def)
  show "move_segment delta e = Some e' \<Longrightarrow> same_field e e'" by (auto simp: move_segment_def split: if_splits)
  show "home_end b e = Some e' \<Longrightarrow> same_field e e'" by (auto simp: home_end_def)
qed

lemma same_field_stage: "same_field e e' \<Longrightarrow> stage_ok e' = stage_ok e"
  by (rule stage_ok_cong) (auto simp: same_field_def)

lemma edit_path_ok:
  assumes "edit_path f a = Some a'" and "tui_ok a" and "\<And>e e'. f e = Some e' \<Longrightarrow> same_field e e'"
  shows "tui_ok a'"
proof (cases "ap_path_editor a")
  case (Some e)
  then obtain e' where e': "f e = Some e'" "a' = a\<lparr>ap_path_editor := Some e'\<rparr>" using assms(1) by (auto simp: edit_path_def)
  have "stage_ok e'" using same_field_stage [OF assms(3) [OF e'(1)]] assms(2) Some by (simp add: tui_ok_def)
  with assms(2) e'(2) show ?thesis by (simp add: tui_ok_def)
qed (use assms in \<open>simp add: edit_path_def\<close>)

end
