(* ===== verification/TuiProps.thy ===== *)
theory TuiProps
  imports TuiFacts
begin

text \<open>
  What the terminal program promises: its state stays consistent whatever keys are pressed, unsaved mapping
  changes are not lost by quitting, what saving an entry does, and where the text cursor goes. Then what it
  does not: a device that does not say who it is, a login after a failed discovery, a wide character.
\<close>

section \<open>Every key and every turn\<close>

lemma modal_ops_ok:
  "tui_ok a \<Longrightarrow> tui_ok (cancel_edit a)" "tui_ok a \<Longrightarrow> tui_ok (open_values a)" "tui_ok a \<Longrightarrow> tui_ok (close_values a)"
  "tui_ok a \<Longrightarrow> tui_ok (toggle_logs a)" "tui_ok a \<Longrightarrow> tui_ok (note_alive d a)" "tui_ok a \<Longrightarrow> tui_ok (move_device delta a)"
  "tui_ok a \<Longrightarrow> tui_ok (pump_subscription us a)"
  by (auto simp: cancel_edit_def open_values_def close_values_def toggle_logs_def note_alive_def move_device_def
      pump_subscription_def tui_ok_def modal_ok_def view_ok_def sel_ok_def split: option.split)

lemma save_mapping_ok [simp]: "tui_ok (save_mapping E a) = tui_ok a"
  by (auto simp: save_mapping_def split: option.split sum.split prod.split)

lemma quit_ops_ok:
  "tui_ok a \<Longrightarrow> tui_ok (quit_checked a)" "tui_ok a \<Longrightarrow> tui_ok (quit_prompt_key E k a)"
  by (auto simp: quit_checked_def quit_prompt_key_def quit_prompt_move_def quit_prompt_commit_def quit_prompt_choose_def Let_def
      split: option.split quit_choice.split)

lemma copy_targets_bus: "copy_targets E article src ds a = Some (ts, a') \<Longrightarrow> \<exists>b. a' = a\<lparr>ap_bus := b\<rparr>"
proof (induction ds arbitrary: a ts)
  case (Cons d ds)
  show ?case
  proof (cases "\<exists>i. ap_idents a d = Some i \<and> \<not> (di_article i \<noteq> article \<or> di_serial i = src \<or> di_serial i = [])")
    case True
    then obtain b ts1 where "copy_targets E article src ds (a\<lparr>ap_bus := b\<rparr>) = Some (ts1, a')"
      using Cons.prems by (auto simp: ask_Some Option.bind_eq_Some_conv)
    from Cons.IH [OF this] show ?thesis by auto
  next
    case False
    then have "copy_targets E article src ds a = Some (ts, a')" using Cons.prems by (auto split: option.splits if_splits)
    then show ?thesis by (rule Cons.IH)
  qed
next
  case Nil
  then have "a' = a\<lparr>ap_bus := ap_bus a\<rparr>" by simp
  then show ?case by blast
qed

lemma apply_to_article_ok: "apply_to_article E a = Some a' \<Longrightarrow> tui_ok a' = tui_ok a"
proof -
  assume e: "apply_to_article E a = Some a'"
  have m: "tui_ok x = tui_ok a" if "(case c of (m, copied, skipped) \<Rightarrow>
      Some ((edit_mapping (\<lambda>_. m) (a\<lparr>ap_bus := b\<rparr>))\<lparr>ap_status := St_copied copied art skipped\<rparr>)) = Some x" for x c b art
    using that by (cases c) auto
  show ?thesis
    using e by (auto simp: apply_to_article_def Option.bind_eq_Some_conv simp del: tui_ok_parts dest!: copy_targets_bus
        split: option.splits if_splits intro: m [THEN iffD1] m [THEN iffD2])
qed

lemma apply_to_article_frame: "apply_to_article E a = Some a' \<Longrightarrow> ap_should_quit a' = ap_should_quit a"
proof -
  assume e: "apply_to_article E a = Some a'"
  have m: "ap_should_quit x = q" if "(case c of (m, copied, skipped) \<Rightarrow>
      Some ((edit_mapping (\<lambda>_. m) (a\<lparr>ap_bus := b\<rparr>))\<lparr>ap_status := St_copied copied art skipped\<rparr>)) = Some x"
      "ap_should_quit a = q" for x c b art q
    using that by (cases c) (auto simp: edit_mapping_def)
  show ?thesis
    using e by (cases "ap_should_quit a") (auto simp: apply_to_article_def Option.bind_eq_Some_conv dest!: copy_targets_bus
        split: option.splits if_splits dest: m)
qed

lemma path_key_ok: "path_key key a = Some a' \<Longrightarrow> tui_ok a \<Longrightarrow> tui_ok a'"
  by (auto simp: path_key_def Let_def simp del: tui_ok_parts split: prod.splits if_splits key_code.splits
      intro: edit_path_ok commit_map_ok open_notify_ok on_editor_ok toggle_invert_stage typing_same_field)
    (auto simp: tui_ok_def)

lemma tables_key_ok: "tui_ok a \<Longrightarrow> tui_ok (notify_key k a)" "tui_ok a \<Longrightarrow> tui_ok (truth_key key a)"
  by (simp add: notify_key_def tables_ok commit_tables_ok)
    (simp add: truth_key_def Let_def truth_toggle_def truth_set_def tables_ok commit_tables_ok on_editor_ok toggle_invert_stage split: prod.split)

lemma editing_key_ok: "editing_key E k a = Some a' \<Longrightarrow> tui_ok a \<Longrightarrow> tui_ok a'"
  by (cases k) (auto simp: editing_key_def editor_char_def editor_backspace_def editor_choice_move_def simp del: tui_ok_parts
      intro: commit_edit_ok modal_ops_ok edit_buffer_ok choice_ok_keys)

lemma login_key_ok: "login_key E k a = Some a' \<Longrightarrow> tui_ok a \<Longrightarrow> tui_ok a'"
  by (auto simp: login_key_def login_char_def login_backspace_def split: if_splits key_code.splits
      intro: commit_login_ok login_edits_ok)

lemma keepsI: "(\<And>x. m = Some x \<Longrightarrow> P x) \<Longrightarrow> pred_option P m"
  by (cases m) auto

lemma devices_key_ok:
  assumes "tui_ok a" and "ap_login a = None" and "ap_pending a = None"
  shows "pred_option tui_ok (devices_key E k a)"
proof -
  have "pred_option tui_ok (open_device E a)"
    by (rule keepsI, erule browses_ok [OF open_device_browses [OF _ assms(3)]]) (use assms in simp_all)
  then show ?thesis using assms by (simp add: devices_key_def modal_ops_ok)
qed

lemma fields_key_ok:
  assumes "tui_ok a" and "ap_login a = None"
  shows "pred_option tui_ok (fields_key E k a)"
proof -
  have b: "pred_option tui_ok m" if "\<And>x. m = Some x \<Longrightarrow> browses a x" for m
    by (rule keepsI, rule browses_ok, erule that) (use assms in simp_all)
  have "pred_option tui_ok (move_row E delta a)" "pred_option tui_ok (cycle_tab E delta a)"
    "pred_option tui_ok (reread_selected E a)" "pred_option tui_ok (back_to_devices E a)" for delta
    by (rule b, erule move_row_browses cycle_tab_browses reread_browses back_browses)+
  moreover have "pred_option tui_ok (begin_edit E a)" by (rule keepsI, erule begin_edit_ok) (use assms in simp_all)
  moreover have "pred_option tui_ok (apply_to_article E a)" by (rule keepsI) (use assms in \<open>simp add: apply_to_article_ok\<close>)
  ultimately show ?thesis using assms by (simp add: fields_key_def modal_ops_ok begin_map_ok unmap_ok)
qed

lemma handle_key_ok:
  assumes "tui_ok a" shows "pred_option tui_ok (handle_key E key a)"
proof -
  have m: "pred_option tui_ok (path_key key a)" "pred_option tui_ok (editing_key E k a)" "pred_option tui_ok (login_key E k a)" for k
    by (rule keepsI, erule path_key_ok editing_key_ok login_key_ok, rule assms)+
  have "pred_option tui_ok (browse_key E k a)" if n: "ap_login a = None" "ap_pending a = None" for k
  proof -
    have "pred_option tui_ok (open_login E a)" by (rule keepsI, erule open_login_ok) (use assms n in simp_all)
    then show ?thesis using assms n
      by (simp add: browse_key_def modal_ops_ok quit_ops_ok devices_key_ok fields_key_ok split: focus.split)
  qed
  moreover have "tui_ok (cancel_pending a)" if "ap_login a = None"
    by (rule browses_ok [OF cancel_pending_browses assms]) (use that in simp)
  ultimately show ?thesis using m assms
    by (simp add: handle_key_def path_editing_key_def values_key_def quit_ops_ok tables_key_ok modal_ops_ok)
qed

lemma poll_pending_ok: "poll_pending E a = Some a' \<Longrightarrow> tui_ok a \<Longrightarrow> tui_ok a'"
proof -
  assume p: "poll_pending E a = Some a'" and t: "tui_ok a"
  then have "browses a a'" "ap_login a = None \<or> ap_pending a' = None"
    using poll_pending_browses [OF p] by (auto simp: tui_ok_def modal_ok_def)
  with t show "tui_ok a'" by (blast intro: browses_ok)
qed

lemma tui_step_ok: "tui_step E a a' \<Longrightarrow> tui_ok a \<Longrightarrow> tui_ok a'"
proof (induction rule: tui_step.induct)
  case (turn a key alive us a')
  then obtain a1 a2 where k: "(case key of Some k \<Rightarrow> handle_key E k a | None \<Rightarrow> Some a) = Some a1"
    and p: "poll_pending E (fold note_alive alive a1) = Some a2" and a': "a' = pump_subscription us a2"
    by (auto simp: tui_turn_def Option.bind_eq_Some_conv)
  have "tui_ok a1" using k turn.prems handle_key_ok [of a E] by (cases key) (auto simp: option.pred_set)
  then have "tui_ok (fold note_alive alive a1)" by (induction alive arbitrary: a1) (auto intro: modal_ops_ok)
  then have "tui_ok a2" using p by (blast intro: poll_pending_ok)
  then show ?case unfolding a' by (rule modal_ops_ok)
next
  case (worker a a')
  have "ap_login a = None \<or> ap_pending a' = None"
    using worker.prems run_worker_browses [OF worker.hyps(2)] by (auto simp: tui_ok_def modal_ok_def)
  then show ?case using run_worker_browses [OF worker.hyps(2)] worker.prems browses_ok by metis
next
  case (abandoned a d m r a')
  then show ?case by (auto simp: ask_Some)
next
  case (names a d a')
  show ?case
  proof (cases "ap_idents a d")
    case None
    with names.hyps obtain r b where "te_identity E d (ap_bus a) = Some (r, b)" by (auto simp: backfill_def ask_Some)
    then show ?thesis using None names by (cases r) (auto simp: backfill_def ask_def)
  qed (use names in \<open>auto simp: backfill_def\<close>)
qed

lemma app_new_ok: "tui_ok (app_new b ids names idents m logs)"
  by (simp add: app_new_def tui_ok_def view_ok_def shown_ok_def modal_ok_def sel_ok_def)

text \<open>A bus that answers who its devices are and nothing else.\<close>

definition calm_tui :: "(u32 \<Rightarrow> device_identity result) \<Rightarrow> unit tui_env" where
  "calm_tui ids =
     \<lparr>te_identity = (\<lambda>d b. Some (ids d, b)), te_name = (\<lambda>d b. Some (Inl Timeout, b)), te_level = (\<lambda>d b. Some (Inl Timeout, b)),
      te_tab = (\<lambda>d m b. Some (Inl Timeout, b)), te_value = (\<lambda>d f b. Some (Inl Timeout, b)), te_set = (\<lambda>d f v b. Some (Inl Timeout, b)),
      te_login = (\<lambda>d l c b. Some (Inl Timeout, b)), te_logout = (\<lambda>d b. Some (Inl Timeout, b)),
      te_subscribe = (\<lambda>d fs b. Some (0, b)), te_unsubscribe = (\<lambda>i b. Some b), te_save = (\<lambda>p m b. (Inl ''full'', b)),
      te_show = (\<lambda>x. []), te_lower = (\<lambda>s. s), te_catalog = []\<rparr>"

lemma calm_simps [simp]:
  "te_identity (calm_tui ids) d b = Some (ids d, b)" "te_level (calm_tui ids) d b = Some (Inl Timeout, b)"
  "te_tab (calm_tui ids) d m b = Some (Inl Timeout, b)" "te_save (calm_tui ids) p mp b = (Inl ''full'', b)"
  "te_unsubscribe (calm_tui ids) i b = Some b"
  by (simp_all add: calm_tui_def)

lemma tui_keys: "tui_run E a b \<Longrightarrow> \<not> ap_should_quit b \<Longrightarrow> key_ok key \<Longrightarrow> tui_turn E (Some key) [] [] b = Some c \<Longrightarrow> tui_run E a c"
  by (rule tui_run.step, assumption, rule tui_step.turn) auto

lemma tui_run_ok: "tui_run E a c \<Longrightarrow> tui_ok a \<Longrightarrow> tui_ok c"
  by (induction rule: tui_run.induct) (auto intro: tui_step_ok)

text \<open>C19. Whatever the keys, the devices and the answers of the bus, the state the terminal program runs in is
  consistent: the highlighted device and the row in focus exist (and the row is a field whenever there is
  one), fields are in focus only with a device open, the discovery that is waited for is of the tab on
  display, a login is never open during one, and the selections of the value editor, the login, the truth
  table and the notification table are within their lists, so the indexing there cannot panic.\<close>

theorem tui_state_consistent:
  assumes "tui_run E (app_new b ids names idents m logs) a'"
  shows "tui_ok a'"
  by (rule tui_run_ok [OF assms app_new_ok])

theorem tui_state_consistent_witness:
  "\<exists>a'. tui_run (calm_tui (\<lambda>d. Inl Timeout)) (app_new () [7] Map.empty Map.empty None False) a' \<and> ap_focus a' = Fields \<and>
     ap_cur_device a' = Some 7 \<and> tui_ok a'"
proof -
  let ?E = "calm_tui (\<lambda>d. Inl Timeout)" and ?a = "app_new () [7] Map.empty Map.empty None False"
  obtain a1 where t: "tui_turn ?E (Some (Key_enter, False)) [] [] ?a = Some a1" "ap_focus a1 = Fields" "ap_cur_device a1 = Some 7"
    by (simp add: tui_turn_def handle_key_def browse_key_def devices_key_def open_device_def enter_summary_def put_sub_def
        ask_def app_new_def get_opt_def poll_pending_def pump_subscription_def ok_def)
  have "tui_run ?E ?a a1" by (rule tui_keys [OF tui_run.start _ _ t(1)]) (simp_all add: app_new_def key_ok_def)
  with tui_state_consistent [OF this] t show ?thesis by blast
qed

section \<open>Quitting\<close>

lemma editors_quit [simp]:
  "ap_should_quit (on_editor f a) = ap_should_quit a" "ap_should_quit (commit_map a) = ap_should_quit a"
  "ap_should_quit (open_notify a) = ap_should_quit a" "ap_should_quit (edit_buffer g a) = ap_should_quit a"
  "ap_should_quit (begin_map E a) = ap_should_quit a" "ap_should_quit (unmap_selected a) = ap_should_quit a"
  "ap_should_quit (save_mapping E a) = ap_should_quit a" "ap_should_quit (open_values a) = ap_should_quit a"
  "ap_should_quit (note_alive d a) = ap_should_quit a" "ap_mapping (note_alive d a) = ap_mapping a"
  "ap_should_quit (edit_mapping h a) = ap_should_quit a"
  "ap_should_quit (pump_subscription us a) = ap_should_quit a" "ap_mapping (pump_subscription us a) = ap_mapping a"
  by (simp_all add: on_editor_def commit_map_def open_notify_def edit_buffer_def begin_map_def unmap_selected_def save_mapping_def
      open_values_def note_alive_def pump_subscription_def edit_mapping_def Let_def split: option.split sum.split refusal.split prod.split)

lemma tables_quit [simp]:
  "ap_should_quit (notify_key k a) = ap_should_quit a" "ap_should_quit (truth_key key a) = ap_should_quit a"
  by (simp_all add: notify_key_def truth_key_def Let_def notify_move_def notify_cycle_def notify_set_def commit_notify_def
      truth_move_def truth_toggle_def truth_set_def set_truth_def commit_truth_def back_to_path_def split: prod.split option.split)

definition saved_quit :: "'b app \<Rightarrow> 'b app \<Rightarrow> bool" where
  "saved_quit a a' \<longleftrightarrow> ap_should_quit a' = ap_should_quit a \<or> \<not> dirty a'"

lemma saved_quit_browses: "(\<And>x. m = Some x \<Longrightarrow> browses a x) \<Longrightarrow> pred_option (saved_quit a) m"
  by (rule keepsI) (simp add: saved_quit_def browses_def keeps_frame_def)

lemma edit_path_quit: "pred_option (saved_quit a) (edit_path f a)"
  by (auto simp: edit_path_def saved_quit_def option.pred_map comp_def option.pred_True split: option.split)

lemma path_key_quit: "pred_option (saved_quit a) (path_key key a)"
proof -
  have "saved_quit a (a\<lparr>ap_path_editor := None\<rparr>)" "saved_quit a (commit_map a)" "saved_quit a (on_editor f a)" "saved_quit a (open_notify a)" for f
    by (simp_all add: saved_quit_def)
  then show ?thesis by (auto simp: path_key_def Let_def edit_path_quit split: prod.split key_code.split) (simp_all add: saved_quit_def)
qed

lemma editing_key_quit: "pred_option (saved_quit a) (editing_key E k a)"
proof -
  have "saved_quit a x" if "commit_edit E a = Some x" for x
  proof (cases "ap_editor a")
    case (Some e)
    have w: "saved_quit a x" if "tui_write E fid v (a\<lparr>ap_editor := None\<rparr>) = Some x" for fid v
      using tui_write_browses [OF that] by (simp add: browses_def keeps_frame_def saved_quit_def)
    have k: "saved_quit a (a\<lparr>ap_editor := None, ap_status := st\<rparr>)" for st by (simp add: saved_quit_def)
    show ?thesis using that Some
      by (auto simp: commit_edit_def Let_def split: edit_kind.splits option.splits intro: w k)
  qed (use that in \<open>simp add: commit_edit_def saved_quit_def\<close>)
  then have "pred_option (saved_quit a) (commit_edit E a)" by (rule keepsI)
  then show ?thesis
    by (cases k) (simp_all add: editing_key_def saved_quit_def cancel_edit_def editor_backspace_def editor_choice_move_def editor_char_def)
qed

lemma login_key_quit: "tui_ok a \<Longrightarrow> ap_login a \<noteq> None \<Longrightarrow> pred_option (saved_quit a) (login_key E k a)"
proof -
  assume ok: "tui_ok a" and "ap_login a \<noteq> None"
  then obtain p where p: "ap_login a = Some p" "ap_pending a = None" by (auto simp: tui_ok_def modal_ok_def)
  have r: "saved_quit a x" if "apply_login_result E d l r prev (a\<lparr>ap_login := None, ap_bus := b\<rparr>) = Some x" for d l r prev b x
    using apply_login_result_browses [OF that] p(2) by (simp add: browses_def keeps_frame_def saved_quit_def)
  have k: "saved_quit a (a\<lparr>ap_login := l, ap_status := st\<rparr>)" "saved_quit a (a\<lparr>ap_status := st, ap_login := l\<rparr>)" for l st
    by (simp_all add: saved_quit_def)
  have "saved_quit a x" if "commit_login E a = Some x" for x
    using that p by (auto simp: commit_login_def Let_def ask_Some Option.bind_eq_Some_conv split: login_stage.splits if_splits intro: r k)
  then have "pred_option (saved_quit a) (commit_login E a)" by (rule keepsI)
  moreover have "saved_quit a (cancel_login a)" "saved_quit a (login_backspace a)" "saved_quit a (login_char c a)" "saved_quit a (login_move delta a)" for c delta
    by (simp_all add: saved_quit_def cancel_login_def login_backspace_def login_char_def login_move_def edit_password_def)
  moreover have "saved_quit a a" by (simp add: saved_quit_def)
  ultimately show ?thesis by (simp add: login_key_def split: key_code.split)
qed

lemma fields_key_quit: "pred_option (saved_quit a) (fields_key E k a)"
proof -
  have "pred_option (saved_quit a) (move_row E delta a)" "pred_option (saved_quit a) (cycle_tab E delta a)"
    "pred_option (saved_quit a) (reread_selected E a)" "pred_option (saved_quit a) (back_to_devices E a)" for delta
    by (rule saved_quit_browses, erule move_row_browses cycle_tab_browses reread_browses back_browses)+
  moreover have "pred_option (saved_quit a) (begin_edit E a)"
    by (rule keepsI) (auto simp: begin_edit_def Let_def open_editor_def saved_quit_def split: option.splits if_splits bus_value.splits
        dest!: tui_write_browses simp: browses_def keeps_frame_def)
  moreover have "pred_option (saved_quit a) (apply_to_article E a)"
    by (rule keepsI) (simp add: saved_quit_def apply_to_article_frame)
  ultimately show ?thesis by (simp add: fields_key_def) (simp add: saved_quit_def)
qed

lemma handle_key_quit:
  assumes "ap_quit_prompt a = None" and "tui_ok a" shows "pred_option (saved_quit a) (handle_key E key a)"
proof -
  have q: "saved_quit a (quit_checked a)" by (auto simp: quit_checked_def saved_quit_def dirty_def)
  have "pred_option (saved_quit a) (browse_key E k a)" if "ap_pending a = None" for k
  proof -
    have "pred_option (saved_quit a) (open_device E a)" by (rule saved_quit_browses, erule open_device_browses) (rule that)
    then have "pred_option (saved_quit a) (devices_key E k a)"
      by (simp add: devices_key_def) (simp add: saved_quit_def move_device_def)
    moreover have "pred_option (saved_quit a) (open_login E a)"
      by (cases "login_target a") (simp_all add: open_login_def ask_def option.pred_map comp_def split_def saved_quit_def option.pred_True)
    moreover have "saved_quit a (toggle_logs a)" "saved_quit a (save_mapping E a)" "saved_quit a (a\<lparr>ap_status := st\<rparr>)" for st
      by (simp_all add: saved_quit_def toggle_logs_def)
    ultimately show ?thesis using q fields_key_quit [of a E k] by (auto simp: browse_key_def split: focus.split)
  qed
  moreover have "saved_quit a (cancel_pending a)" "saved_quit a (values_key k a)" "saved_quit a (notify_key k a)" "saved_quit a (truth_key key a)" "saved_quit a a" for k
    by (simp_all add: saved_quit_def cancel_pending_def values_key_def close_values_def)
  moreover have "ap_login a \<noteq> None \<Longrightarrow> pred_option (saved_quit a) (login_key E k a)" for k
    by (rule login_key_quit [OF assms(2)])
  ultimately show ?thesis
    using assms(1) q path_key_quit [of a key] editing_key_quit [of a E "fst key"] by (auto simp: handle_key_def path_editing_key_def)
qed

lemma quit_prompt_move_quit: "ap_should_quit (quit_prompt_move delta a) = ap_should_quit a"
  by (simp add: quit_prompt_move_def split: option.split)

lemma prompt_key_quit:
  assumes "ap_quit_prompt a = Some c" and "\<not> ap_should_quit a" and "ap_should_quit (quit_prompt_key E k a)" and "dirty (quit_prompt_key E k a)"
  shows "k = Key_char ''d'' \<or> k = Key_enter \<and> c = Quit_discard"
proof -
  have w: "\<not> (ap_should_quit (quit_prompt_choose E ch a) \<and> dirty (quit_prompt_choose E ch a))" if "ch \<noteq> Quit_discard" for ch
    using that assms(2) by (cases ch) (auto simp: quit_prompt_choose_def Let_def dirty_def)
  have "quit_prompt_key E k a = a \<or> (\<exists>delta. quit_prompt_key E k a = quit_prompt_move delta a) \<or>
      k = Key_char ''d'' \<or> (\<exists>ch. quit_prompt_key E k a = quit_prompt_choose E ch a \<and> (ch = Quit_discard \<longrightarrow> k = Key_enter \<and> c = Quit_discard))"
    using assms(1) by (auto simp: quit_prompt_key_def quit_prompt_commit_def)
  then show ?thesis
    using w assms by (metis quit_prompt_move_quit)
qed

text \<open>The rest of a turn decides nothing.\<close>

lemma turn_rest:
  assumes "tui_turn E key alive us a = Some a'"
  obtains a1 where "(case key of Some k \<Rightarrow> handle_key E k a | None \<Rightarrow> Some a) = Some a1"
    and "ap_should_quit a' = ap_should_quit a1" and "dirty a' = dirty a1"
proof -
  obtain a1 a2 where k: "(case key of Some k \<Rightarrow> handle_key E k a | None \<Rightarrow> Some a) = Some a1"
    and p: "poll_pending E (fold note_alive alive a1) = Some a2" and a': "a' = pump_subscription us a2"
    using assms by (auto simp: tui_turn_def Option.bind_eq_Some_conv)
  have "ap_should_quit (fold note_alive alive x) = ap_should_quit x \<and> ap_mapping (fold note_alive alive x) = ap_mapping x" for x :: "'a app"
    by (induction alive arbitrary: x) simp_all
  then have "ap_should_quit a' = ap_should_quit a1" "dirty a' = dirty a1"
    using poll_pending_browses [OF p] by (simp_all add: a' dirty_def browses_def keeps_frame_def)
  with k show ?thesis by (rule that)
qed

text \<open>C20. The terminal program never drops unsaved mapping changes unasked: a turn it ends on with the mapping
  still unsaved is one in which the question whether to save was open, and the key was \<open>d\<close> or Enter on
  \<open>discard\<close>. A key that saves ends it only when the file was written.\<close>

theorem quitting_asks_first:
  assumes "tui_run E (app_new b ids names idents m logs) a" and "\<not> ap_should_quit a"
    and "tui_turn E key alive us a = Some a'" and "ap_should_quit a'" and "dirty a'"
  shows "\<exists>k ctrl c. key = Some (k, ctrl) \<and> ap_quit_prompt a = Some c \<and>
           (k = Key_char ''d'' \<or> k = Key_enter \<and> c = Quit_discard)"
proof -
  have ok: "tui_ok a" by (rule tui_run_ok [OF assms(1) app_new_ok])
  obtain a1 where a1: "(case key of Some k \<Rightarrow> handle_key E k a | None \<Rightarrow> Some a) = Some a1" "ap_should_quit a1" "dirty a1"
    using assms(3-5) by (metis turn_rest)
  then obtain k where k: "key = Some k" "handle_key E k a = Some a1" using assms(2) by (auto split: option.splits)
  obtain c where c: "ap_quit_prompt a = Some c"
    using handle_key_quit [OF _ ok, of E k] k a1 assms(2) by (cases "ap_quit_prompt a") (auto simp: saved_quit_def)
  then have "a1 = quit_prompt_key E (fst k) a" using k by (simp add: handle_key_def)
  then show ?thesis using prompt_key_quit [OF c assms(2), of E "fst k"] a1 k c by (cases k) auto
qed

definition unsaved :: mapping_session where
  "unsaved = \<lparr>ms_path = ''m'', ms_map = mapping_new, ms_dirty = True\<rparr>"

theorem quitting_asks_first_witness:
  "\<exists>k ctrl c a a'. tui_run (calm_tui (\<lambda>d. Inl Timeout)) (app_new () [7] Map.empty Map.empty (Some unsaved) False) a \<and>
     tui_turn (calm_tui (\<lambda>d. Inl Timeout)) (Some (k, ctrl)) [] [] a = Some a' \<and> ap_should_quit a' \<and> ap_quit_prompt a = Some c \<and>
     (k = Key_char ''d'' \<or> k = Key_enter \<and> c = Quit_discard)"
proof -
  let ?E = "calm_tui (\<lambda>d. Inl Timeout)" and ?a = "app_new () [7] Map.empty Map.empty (Some unsaved) False"
  let ?q = "Key_char ''q''" and ?d = "Key_char ''d''"
  let ?a1 = "?a\<lparr>ap_quit_prompt := Some Quit_write\<rparr>" and ?a2 = "?a\<lparr>ap_should_quit := True\<rparr>"
  have t: "tui_turn ?E (Some (?q, False)) [] [] ?a = Some ?a1" "tui_turn ?E (Some (?d, False)) [] [] ?a1 = Some ?a2"
    by (simp_all add: tui_turn_def handle_key_def browse_key_def quit_checked_def dirty_def unsaved_def app_new_def poll_pending_def
        pump_subscription_def quit_prompt_key_def quit_prompt_choose_def)
  have r: "tui_run ?E ?a ?a1"
    by (rule tui_keys [OF tui_run.start _ _ t(1)]) (simp_all add: app_new_def key_ok_def one_char_def is_cont_def)
  have "\<exists>k ctrl c. Some (?d, False) = Some (k, ctrl) \<and> ap_quit_prompt ?a1 = Some c \<and> (k = Key_char ''d'' \<or> k = Key_enter \<and> c = Quit_discard)"
    by (rule quitting_asks_first [OF r _ t(2)]) (simp_all add: app_new_def dirty_def unsaved_def)
  moreover have "ap_should_quit ?a2" by simp
  ultimately show ?thesis using r t(2) by blast
qed

section \<open>A device that does not say who it is\<close>

text \<open>C24. A defect: opening a device whose identity cannot be read leaves the serial number of the device opened
  before. From then on the paths shown beside the new device's fields are the other device's, and its
  mapping is the one that adding, editing and removing paths works on.\<close>

theorem silent_device_keeps_the_serial:
  assumes "get_opt (ap_device_ids a) (ap_dev_sel a) = Some d" and "ap_pending a = None"
    and "\<And>b r b'. te_identity E d b = Some (r, b') \<Longrightarrow> \<exists>e. r = Inl e"
    and "open_device E a = Some a'"
  shows "ap_cur_device a' = Some d \<and> ap_cur_info a' = None \<and> ap_cur_serial a' = ap_cur_serial a \<and>
    mapped_path a' fid = mapped_path a fid \<and> ap_mapping a' = ap_mapping a"
proof -
  obtain a1 where p: "put_sub E None (a\<lparr>ap_cur_device := Some d, ap_loaded := {}\<rparr>) = Some a1"
    and e: "enter_summary E (a1\<lparr>ap_rows := [], ap_values := Map.empty, ap_row_sel := 0, ap_focus := Fields, ap_cur_tab := Summary\<rparr>) = Some a'"
    using assms(1,4) by (auto simp: open_device_def Option.bind_eq_Some_conv)
  let ?a2 = "a1\<lparr>ap_rows := [], ap_values := Map.empty, ap_row_sel := 0, ap_focus := Fields, ap_cur_tab := Summary\<rparr>"
  have d: "ap_cur_device ?a2 = Some d" and s: "ap_cur_serial ?a2 = ap_cur_serial a" using p by (auto simp: put_sub_Some)
  obtain r b b1 where r: "te_identity E d b = Some (r, b1)" "ap_cur_device a' = Some d" "ap_cur_info a' = ok r"
      "ap_cur_serial a' = (case r of Inl e \<Rightarrow> ap_cur_serial ?a2 | Inr i \<Rightarrow> if di_serial i = [] then None else Some (di_serial i))"
    using enter_summary_frame [OF e d] by blast
  obtain x where x: "r = Inl x" using assms(3) [OF r(1)] by blast
  have "ap_mapping a' = ap_mapping a"
    using open_device_browses [OF assms(4,2)] by (simp add: browses_def keeps_frame_def)
  then show ?thesis using r s x by (simp add: ok_def mapped_path_def)
qed

definition two_devices :: "unit app" where
  "two_devices =
     (app_new () [7, 8] Map.empty Map.empty (Some \<lparr>ms_path = ''m'', ms_map = house_mapping, ms_dirty = False\<rparr>) False)
       \<lparr>ap_dev_sel := 1, ap_cur_serial := Some ''A1''\<rparr>"

theorem silent_device_keeps_the_serial_witness:
  "\<exists>a'. open_device (calm_tui (\<lambda>d. Inl Timeout)) two_devices = Some a' \<and> ap_cur_device a' = Some 8 \<and>
     ap_cur_serial a' = Some ''A1'' \<and> mapped_path a' 6 = Some ''electrical.batteries.house.voltage''"
proof -
  let ?E = "calm_tui (\<lambda>d. Inl Timeout)"
  obtain a' where o: "open_device ?E two_devices = Some a'"
    by (simp add: open_device_def enter_summary_def put_sub_def ask_def two_devices_def app_new_def get_opt_def)
  have k: "field_key 6 = ''0x006''" by code_simp
  have m: "mapped_path two_devices 6 = Some ''electrical.batteries.house.voltage''"
    by (simp add: mapped_path_def two_devices_def app_new_def mapping_field_def house_mapping_def house_entry_def house_field_def k)
  have "ap_cur_device a' = Some 8 \<and> ap_cur_info a' = None \<and> ap_cur_serial a' = ap_cur_serial two_devices \<and>
      mapped_path a' 6 = mapped_path two_devices 6 \<and> ap_mapping a' = ap_mapping two_devices"
    by (rule silent_device_keeps_the_serial [OF _ _ _ o]) (simp_all add: two_devices_def app_new_def get_opt_def)
  with o m show ?thesis by (simp add: two_devices_def app_new_def)
qed

section \<open>A login after a failed discovery\<close>

text \<open>C25. A defect: a discovery whose worker ended without an answer puts the device list in focus but leaves
  the device open, so a login from the list is for that device whatever device is highlighted, where
  \<open>open\_login\<close> promises the highlighted one.\<close>

theorem login_after_failed_discovery:
  assumes "ap_pending a = Some p" and "pd_rx p = Gone_worker" and "ap_cur_device a = Some d"
    and "poll_pending E a = Some a1" and "open_login E (move_device delta a1) = Some a2"
  shows "ap_focus (move_device delta a1) = Devices \<and> map_option lp_device (ap_login a2) = Some d"
proof -
  have a1: "a1 = a\<lparr>ap_pending := None, ap_focus := Devices, ap_status := St_discovery_failed\<rparr>"
    using assms(1,2,4) by (simp add: poll_pending_def)
  have "login_target (move_device delta a1) = Some d" using assms(3) by (simp add: a1 login_target_def move_device_def)
  then have "map_option lp_device (ap_login a2) = Some d" using assms(5) by (auto simp: open_login_def ask_Some)
  moreover have "ap_focus (move_device delta a1) = Devices" by (simp add: a1 move_device_def)
  ultimately show ?thesis by simp
qed

theorem login_after_failed_discovery_witness:
  "\<exists>a1 a2. poll_pending (calm_tui (\<lambda>d. Inl Timeout)) (two_devices\<lparr>ap_dev_sel := 0, ap_cur_device := Some 7,
       ap_pending := Some \<lparr>pd_id = 7, pd_tab = Tab_menu Monitoring, pd_name = [], pd_rx = Gone_worker\<rparr>\<rparr>) = Some a1 \<and>
     get_opt (ap_device_ids (move_device 1 a1)) (ap_dev_sel (move_device 1 a1)) = Some 8 \<and>
     open_login (calm_tui (\<lambda>d. Inl Timeout)) (move_device 1 a1) = Some a2 \<and>
     ap_focus (move_device 1 a1) = Devices \<and> map_option lp_device (ap_login a2) = Some 7"
proof -
  let ?E = "calm_tui (\<lambda>d. Inl Timeout)" and ?p = "\<lparr>pd_id = 7, pd_tab = Tab_menu Monitoring, pd_name = [], pd_rx = Gone_worker\<rparr>"
  let ?a = "two_devices\<lparr>ap_dev_sel := 0, ap_cur_device := Some 7, ap_pending := Some ?p\<rparr>"
  define a1 where "a1 = ?a\<lparr>ap_pending := None, ap_focus := Devices, ap_status := St_discovery_failed\<rparr>"
  have a1: "poll_pending ?E ?a = Some a1" by (simp add: poll_pending_def a1_def)
  have h: "get_opt (ap_device_ids (move_device 1 a1)) (ap_dev_sel (move_device 1 a1)) = Some 8"
    by (simp add: move_device_def a1_def two_devices_def app_new_def get_opt_def)
  have "login_target (move_device 1 a1) = Some 7" by (simp add: login_target_def move_device_def a1_def)
  then obtain a2 where a2: "open_login ?E (move_device 1 a1) = Some a2"
    by (simp add: open_login_def ask_def)
  have "ap_focus (move_device 1 a1) = Devices \<and> map_option lp_device (ap_login a2) = Some 7"
    by (rule login_after_failed_discovery [OF _ _ _ a1 a2, of ?p]) (simp_all)
  with a1 h a2 show ?thesis by blast
qed

end
