(* ===== verification/TuiPath.thy ===== *)
theory TuiPath
  imports TuiFacts
begin

text \<open>
  The mapping editor's promises: what saving an entry leaves in the mapping, and where the cursor in the path
  goes, a multi-byte character behind it included.
\<close>

section \<open>What is saved\<close>

lemma complete_truth_keeps: "complete_truth ls t = Some u \<Longrightarrow> fst ` set t \<subseteq> fst ` set u"
proof (induction ls t rule: complete_truth.induct)
  case (2 l ls t)
  show ?case
  proof (cases "list_ex (\<lambda>(k, v). eq_ignore_ascii_case k l) t")
    case True
    then show ?thesis using "2.prems" by (intro "2.IH"(1)) simp_all
  next
    case False
    then obtain b where "truth_of_label l = Some b" "complete_truth ls (bt_insert l b t) = Some u"
      using "2.prems" by (auto split: option.splits)
    with "2.IH"(2) [OF False this] show ?thesis by auto
  qed
qed simp

text \<open>A completed table has a meaning for every label: completing it again changes nothing.\<close>

lemma has_label_mono:
  "fst ` set t \<subseteq> fst ` set u \<Longrightarrow> list_ex (\<lambda>(k, v). eq_ignore_ascii_case k l) t \<Longrightarrow> list_ex (\<lambda>(k, v). eq_ignore_ascii_case k l) u"
  by (fastforce simp: list_ex_iff)

lemma complete_truth_labels:
  "complete_truth ls t = Some u \<Longrightarrow> list_all (\<lambda>l. list_ex (\<lambda>(k, v). eq_ignore_ascii_case k l) u) ls"
proof (induction ls t rule: complete_truth.induct)
  case (2 l ls t)
  show ?case
  proof (cases "list_ex (\<lambda>(k, v). eq_ignore_ascii_case k l) t")
    case True
    then have "complete_truth ls t = Some u" using "2.prems" by simp
    with True "2.IH"(1) [OF True] show ?thesis using has_label_mono [OF complete_truth_keeps] by simp
  next
    case False
    then obtain b where b: "truth_of_label l = Some b" "complete_truth ls (bt_insert l b t) = Some u"
      using "2.prems" by (auto split: option.splits)
    then have "l \<in> fst ` set u" using complete_truth_keeps [OF b(2)] by auto
    then have "list_ex (\<lambda>(k, v). eq_ignore_ascii_case k l) u" by (force simp: list_ex_iff eq_ignore_ascii_case_def)
    with b "2.IH"(2) [OF False b] show ?thesis by simp
  qed
qed simp

lemma complete_truth_complete:
  "list_all (\<lambda>l. list_ex (\<lambda>(k, v). eq_ignore_ascii_case k l) u) ls \<Longrightarrow> complete_truth ls u = Some u"
  by (induction ls) simp_all

lemma truth_table_labels: "truth_table ls t = Some u \<Longrightarrow> set ls \<union> fst ` set t \<subseteq> fst ` set u"
  by (induction ls t rule: truth_table.induct) (auto split: option.splits)

lemma truth_default_complete:
  assumes "truth_default ls = Some u" and "ls \<noteq> []"
  shows "u \<noteq> [] \<and> complete_truth ls u = Some u"
proof
  have u: "set ls \<subseteq> fst ` set u" using assms(1) truth_table_labels by (fastforce simp: truth_default_def split: option.splits if_splits)
  then show "u \<noteq> []" using assms(2) by (cases ls) auto
  show "complete_truth ls u = Some u"
    by (rule complete_truth_complete) (use u in \<open>force simp: list_all_iff list_ex_iff eq_ignore_ascii_case_def\<close>)
qed

lemma plan_truth_again: "plan_truth bl options t = Inr u \<Longrightarrow> plan_truth bl options u = Inr u"
proof (cases "bl \<and> options \<noteq> [] \<and> \<not> unlabeled options")
  case True
  assume p: "plan_truth bl options t = Inr u"
  have "u \<noteq> [] \<and> complete_truth options u = Some u"
  proof (cases "t = []")
    case t: True
    then have "truth_default options = Some u" using p True by (auto simp: plan_truth_def split: option.splits)
    with True show ?thesis by (simp add: truth_default_complete)
  next
    case t: False
    then have c: "complete_truth options t = Some u" using p True by (auto simp: plan_truth_def split: option.splits)
    have "u \<noteq> []" using complete_truth_keeps [OF c] t by auto
    with complete_truth_complete [OF complete_truth_labels [OF c]] show ?thesis by simp
  qed
  then show ?thesis using True by (simp add: plan_truth_def)
qed (auto simp: plan_truth_def)

text \<open>The plan of what is saved is the plan that was saved.\<close>

lemma plan_again:
  assumes "plan path unit options entry = Inr p"
    and "fm_invert fm = fm_invert entry" and "fm_truth fm = pl_truth p" and "fm_notify fm = pl_notify p"
  shows "plan path unit options fm = Inr p"
proof -
  obtain t where t: "plan_truth (leaf_is_boolean path) options (fm_truth entry) = Inr t" "pl_truth p = t" "pl_notify p = fm_notify entry"
    using assms(1) by (auto simp: plan_def Let_def split: sum.splits if_splits)
  have "plan path unit options fm = plan path unit options entry"
    unfolding plan_def Let_def assms(2) assms(3) assms(4) t(2) t(3) t(1) plan_truth_again [OF t(1)] by (rule refl)
  with assms(1) show ?thesis by simp
qed

lemma saved_device_fields:
  "dm_fields (saved_device e p ident inst d) =
     bt_insert (field_key (pe_field e))
       \<lparr>fm_path = rust_trim (pe_buf e), fm_invert = pe_invert e, fm_truth = pl_truth p, fm_notify = pl_notify p,
        fm_put = (case bt_get (dm_fields d) (field_key (pe_field e)) of Some f \<Rightarrow> fm_put f | None \<Rightarrow> False),
        fm_allow_off = (case bt_get (dm_fields d) (field_key (pe_field e)) of Some f \<Rightarrow> fm_allow_off f | None \<Rightarrow> False)\<rparr>
       (dm_fields d)"
  by (cases ident; cases "bt_get (dm_fields d) (field_key (pe_field e))")
    (simp_all add: saved_device_def Let_def split: option.split)

lemma mapping_field_put:
  "mapping_field (put_device serial d m) serial' f =
     (if serial' = serial then bt_get (dm_fields d) (field_key f) else mapping_field m serial' f)"
  by (simp add: mapping_field_def put_device_def)

text \<open>C21. A path that is saved replaces the entry of exactly that field, for the serial the session holds:
  its path, inversion and tables become those of the editor as its plan completes them, the flags that allow
  writing survive, no other field or device changes, and the daemon's plan of what was saved is the plan the
  editor showed.\<close>

theorem saving_a_path_saves_its_plan:
  assumes "ap_path_editor a = Some e" and "ap_mapping a = Some s" and "ap_cur_serial a = Some serial"
    and "rust_trim (pe_buf e) \<noteq> []" and "ap_path_editor (commit_map a) = None"
  shows "\<exists>p fm s'. pe_plan e = Inr p \<and> ap_mapping (commit_map a) = Some s' \<and> ms_dirty s' \<and>
     mapping_field (ms_map s') serial (pe_field e) = Some fm \<and>
     fm_path fm = rust_trim (pe_buf e) \<and> fm_invert fm = pe_invert e \<and> fm_notify fm = pe_notify e \<and>
     plan (fm_path fm) (pe_unit e) (pe_options e) fm = Inr p \<and>
     (fm_put fm, fm_allow_off fm) = (case mapping_field (ms_map s) serial (pe_field e) of
        Some f \<Rightarrow> (fm_put f, fm_allow_off f) | None \<Rightarrow> (False, False)) \<and>
     (\<forall>serial' f. (serial', f) = (serial, pe_field e) \<or>
        mapping_field (ms_map s') serial' f = mapping_field (ms_map s) serial' f)"
proof -
  obtain p where p: "pe_plan e = Inr p" and w: "\<not> wants_notify_stage e"
    using assms by (auto simp: commit_map_def Let_def split: sum.splits refusal.splits if_splits)
  let ?d = "case open_mapping a serial of Some d \<Rightarrow> d | None \<Rightarrow> default_device"
  let ?d1 = "saved_device e p (ap_cur_info a) (ap_cur_instance a) ?d"
  let ?m = "put_device serial ?d1 (ms_map s)"
  have d: "bt_get (dm_fields ?d) (field_key f) = mapping_field (ms_map s) serial f" for f
    using assms(2) by (simp add: open_mapping_def mapping_field_def default_device_def split: option.split)
  have m: "ap_mapping (commit_map a) = Some (s\<lparr>ms_map := ?m, ms_dirty := True\<rparr>)"
    using assms p w by (simp add: commit_map_def Let_def edit_mapping_def)
  have n: "pl_notify p = pe_notify e"
    using p by (auto simp: pe_plan_def pe_entry_def plan_def Let_def split: sum.splits if_splits)
  obtain fm where fm: "mapping_field ?m serial (pe_field e) = Some fm" "fm_path fm = rust_trim (pe_buf e)" "fm_invert fm = pe_invert e"
      "fm_truth fm = pl_truth p" "fm_notify fm = pl_notify p"
      "(fm_put fm, fm_allow_off fm) = (case mapping_field (ms_map s) serial (pe_field e) of
        Some f \<Rightarrow> (fm_put f, fm_allow_off f) | None \<Rightarrow> (False, False))"
    by (simp add: mapping_field_put saved_device_fields d split: option.split)
  have "plan (fm_path fm) (pe_unit e) (pe_options e) fm = Inr p"
    unfolding fm(2) by (rule plan_again [OF p [unfolded pe_plan_def]]) (simp_all add: fm pe_entry_def)
  moreover have "(serial', f) = (serial, pe_field e) \<or> mapping_field ?m serial' f = mapping_field (ms_map s) serial' f" for serial' f
    by (auto simp: mapping_field_put saved_device_fields d)
  ultimately show ?thesis using p m fm n by auto
qed

text \<open>A battery's voltage, mapped for the first time.\<close>

definition house_editor :: path_editor where
  "house_editor =
     \<lparr>pe_field = 6, pe_name = ''Voltage'', pe_unit = ''V'', pe_options = [], pe_buf = ''electrical.batteries.house.voltage'',
      pe_cursor = 0, pe_invert = False, pe_truth = [], pe_notify = [], pe_origin = Existing, pe_stage = Stage_path,
      pe_notify_offered = False\<rparr>"

definition house_saving :: "unit app" where
  "house_saving =
     (app_new () [7] Map.empty Map.empty (Some \<lparr>ms_path = ''m'', ms_map = mapping_new, ms_dirty = False\<rparr>) False)
       \<lparr>ap_path_editor := Some house_editor, ap_cur_serial := Some ''A1''\<rparr>"

lemma house_planned: "rust_trim (pe_buf house_editor) = ''electrical.batteries.house.voltage''"
    "pe_plan house_editor = Inr (em_plan house_emit)"
proof -
  show t: "rust_trim (pe_buf house_editor) = ''electrical.batteries.house.voltage''"
    by (simp add: house_editor_def rust_trim_visible visible_def)
  show "pe_plan house_editor = Inr (em_plan house_emit)"
    unfolding pe_plan_def t plan_def house_path
    by (simp add: pe_entry_def house_editor_def plan_truth_def plan_units_def house_path volts house_emit_def)
qed

theorem saving_a_path_saves_its_plan_witness:
  "\<exists>p fm s'. pe_plan house_editor = Inr p \<and> ap_mapping (commit_map house_saving) = Some s' \<and> ms_dirty s' \<and>
     mapping_field (ms_map s') ''A1'' 6 = Some fm \<and> fm_path fm = ''electrical.batteries.house.voltage'' \<and>
     plan (fm_path fm) ''V'' [] fm = Inr p \<and> fm_put fm = False"
proof -
  have "ap_path_editor (commit_map house_saving) = None"
    by (simp add: commit_map_def house_saving_def house_planned wants_notify_stage_def edit_mapping_def app_new_def)
      (simp add: house_editor_def edit_mapping_def)
  then show ?thesis
    using saving_a_path_saves_its_plan [of house_saving house_editor "\<lparr>ms_path = ''m'', ms_map = mapping_new, ms_dirty = False\<rparr>" "''A1''"]
    by (auto simp: house_saving_def app_new_def house_planned mapping_field_def mapping_new_def) (simp_all add: house_editor_def)
qed

section \<open>The cursor\<close>

text \<open>In the bytes of a string no continuation byte follows an ASCII byte, or comes first.\<close>

definition text_ok :: "string \<Rightarrow> bool" where
  "text_ok s \<longleftrightarrow> \<not> (s \<noteq> [] \<and> is_cont (hd s)) \<and> successively (\<lambda>x y. is_cont y \<longrightarrow> 128 \<le> (of_char x :: nat)) s"

definition cursor_ok :: "path_editor \<Rightarrow> bool" where
  "cursor_ok e \<longleftrightarrow> text_ok (pe_buf e) \<and> is_boundary (pe_buf e) (pe_cursor e)"

lemma concat_utf8 [simp]: "concat (utf8_chars s) = s"
  by (induction s) (auto split: list.split)

lemma utf8_chars_Nil [simp]: "utf8_chars s = [] \<longleftrightarrow> s = []"
  by (cases s) (auto split: list.split)

lemma utf8_chars_ne: "[] \<notin> set (utf8_chars s)"
  by (induction s) (auto split: list.split)

lemma utf8_chars_heads: "list_all (\<lambda>w. \<not> is_cont (hd w)) (tl (utf8_chars s))"
  by (induction s) (auto split: list.split)

lemma utf8_head: "\<not> (s \<noteq> [] \<and> is_cont (hd s)) \<Longrightarrow> list_all (\<lambda>w. \<not> is_cont (hd w)) (utf8_chars s)"
proof (cases "utf8_chars s")
  case (Cons w ws)
  assume s: "\<not> (s \<noteq> [] \<and> is_cont (hd s))"
  have "w \<noteq> []" using Cons utf8_chars_ne [of s] by auto
  moreover have "s = w @ concat ws" using concat_utf8 [of s] Cons by simp
  ultimately have "\<not> is_cont (hd w)" using s by auto
  with Cons utf8_chars_heads [of s] show ?thesis by simp
qed simp

lemma is_boundary_append: "is_boundary (l @ r) (length l) \<longleftrightarrow> l = [] \<or> r = [] \<or> \<not> is_cont (hd r)"
  by (cases r) (auto simp: is_boundary_def nth_append)

lemma text_ok_append: "text_ok (l @ r) \<Longrightarrow> text_ok l"
  unfolding text_ok_def successively_append_iff by (cases l) auto

lemma text_ok_glue: "text_ok l \<Longrightarrow> text_ok r \<Longrightarrow> text_ok (l @ r)"
  by (auto simp: text_ok_def successively_append_iff hd_append)

lemma split_str_Some:
  "split_str s i = Some (l, r) \<Longrightarrow> s = l @ r \<and> (i \<le> length s \<longrightarrow> i = length l)"
  by (auto simp: split_str_def split: if_splits)

lemma split_str_some: "is_boundary s i \<Longrightarrow> \<exists>l r. split_str s i = Some (l, r) \<and> s = l @ r \<and> i = length l"
  by (auto simp: split_str_def is_boundary_def intro: exI [of _ "take i s"])

lemma cursor_split:
  assumes "cursor_ok e"
  obtains l r where "split_str (pe_buf e) (pe_cursor e) = Some (l, r)" "pe_buf e = l @ r" "pe_cursor e = length l"
    "text_ok (l @ r)" "l = [] \<or> r = [] \<or> \<not> is_cont (hd r)"
  using assms split_str_some [of "pe_buf e" "pe_cursor e"] is_boundary_append
  by (auto simp: cursor_ok_def)

lemma text_ok_suffix: "text_ok (l @ r) \<Longrightarrow> l = [] \<or> r = [] \<or> \<not> is_cont (hd r) \<Longrightarrow> text_ok r"
  unfolding text_ok_def successively_append_iff by (cases "l = []") auto

lemma cursor_okI: "pe_buf e = l @ r \<Longrightarrow> pe_cursor e = length l \<Longrightarrow> text_ok l \<Longrightarrow> text_ok r \<Longrightarrow> cursor_ok e"
  by (simp add: cursor_ok_def text_ok_glue is_boundary_append) (auto simp: text_ok_def)

text \<open>The text before its last character, and after its first.\<close>

lemma last_char:
  assumes "l \<noteq> []" and "text_ok l"
  shows "l = concat (butlast (utf8_chars l)) @ last (utf8_chars l)" and "text_ok (concat (butlast (utf8_chars l)))"
    and "text_ok (last (utf8_chars l))"
proof -
  obtain ws w where w: "utf8_chars l = ws @ [w]" using assms(1) by (metis rev_exhaust utf8_chars_Nil)
  show l: "l = concat (butlast (utf8_chars l)) @ last (utf8_chars l)" using concat_utf8 [of l] w by simp
  show "text_ok (concat (butlast (utf8_chars l)))" using assms(2) by (subst (asm) l) (rule text_ok_append)
  have "\<not> is_cont (hd (last (utf8_chars l)))"
    using utf8_head [of l] assms by (simp add: text_ok_def list_all_iff)
  with assms(2) show "text_ok (last (utf8_chars l))" by (subst (asm) l) (blast intro: text_ok_suffix)
qed

lemma first_char:
  assumes "r \<noteq> []" and "text_ok r"
  shows "r = hd (utf8_chars r) @ concat (tl (utf8_chars r))" and "text_ok (hd (utf8_chars r))"
    and "text_ok (concat (tl (utf8_chars r)))"
proof -
  have "utf8_chars r \<noteq> []" using assms(1) by simp
  then have "concat (utf8_chars r) = hd (utf8_chars r) @ concat (tl (utf8_chars r))" by (cases "utf8_chars r") simp_all
  then show r: "r = hd (utf8_chars r) @ concat (tl (utf8_chars r))" by simp
  show "text_ok (hd (utf8_chars r))" using assms(2) by (subst (asm) r) (rule text_ok_append)
  have "concat (tl (utf8_chars r)) = [] \<or> \<not> is_cont (hd (concat (tl (utf8_chars r))))"
  proof (cases "tl (utf8_chars r)")
    case (Cons w ws)
    then have "w \<noteq> []" using utf8_chars_ne [of r] by (cases "utf8_chars r") auto
    then show ?thesis using utf8_chars_heads [of r] Cons by simp
  qed simp
  with assms(2) show "text_ok (concat (tl (utf8_chars r)))" by (subst (asm) r) (blast intro: text_ok_suffix)
qed

text \<open>Every edit of the text, but for a step of a segment to the left, finds the cursor between two characters
  and leaves it there.\<close>

lemma one_char_text: "one_char c \<Longrightarrow> text_ok c"
proof -
  assume c: "one_char c"
  have t: "list_all is_cont xs \<Longrightarrow> successively (\<lambda>x y. is_cont y \<longrightarrow> 128 \<le> (of_char x :: nat)) xs" for xs
    by (induction xs) (auto simp: successively_Cons is_cont_def list_all_iff)
  show ?thesis using c t [of "tl c"] by (cases c) (auto simp: one_char_def text_ok_def successively_Cons)
qed

lemma type_path_cursor: "cursor_ok e \<Longrightarrow> one_char c \<Longrightarrow> \<exists>e'. type_path c e = Some e' \<and> cursor_ok e'"
proof -
  assume e: "cursor_ok e" and c: "one_char c"
  from e obtain l r where s: "split_str (pe_buf e) (pe_cursor e) = Some (l, r)" "pe_cursor e = length l" "text_ok (l @ r)"
      "l = [] \<or> r = [] \<or> \<not> is_cont (hd r)" by (rule cursor_split)
  have "text_ok (l @ c)" by (rule text_ok_glue) (use s text_ok_append one_char_text [OF c] in blast)+
  then show ?thesis using s text_ok_suffix [OF s(3,4)]
    by (auto simp: type_path_def intro!: cursor_okI [where l = "l @ c" and r = r])
qed

lemma erase_before_cursor: "cursor_ok e \<Longrightarrow> \<exists>e'. erase_before e = Some e' \<and> cursor_ok e'"
proof -
  assume e: "cursor_ok e"
  then obtain l r where s: "split_str (pe_buf e) (pe_cursor e) = Some (l, r)" "pe_cursor e = length l" "text_ok (l @ r)"
      "l = [] \<or> r = [] \<or> \<not> is_cont (hd r)" by (rule cursor_split)
  show ?thesis
  proof (cases "l = []")
    case False
    note w = last_char [OF False text_ok_append [OF s(3)]]
    have "length l - length (last (utf8_chars l)) = length (concat (butlast (utf8_chars l)))" by (subst w(1)) simp
    then show ?thesis using s False w(2) text_ok_suffix [OF s(3,4)]
      by (auto simp: erase_before_def intro!: cursor_okI [where l = "concat (butlast (utf8_chars l))" and r = r])
  qed (use s e in \<open>simp add: erase_before_def\<close>)
qed

lemma erase_at_cursor: "cursor_ok e \<Longrightarrow> \<exists>e'. erase_at e = Some e' \<and> cursor_ok e'"
proof -
  assume e: "cursor_ok e"
  then obtain l r where s: "split_str (pe_buf e) (pe_cursor e) = Some (l, r)" "pe_buf e = l @ r" "pe_cursor e = length l" "text_ok (l @ r)"
      "l = [] \<or> r = [] \<or> \<not> is_cont (hd r)" by (rule cursor_split)
  show ?thesis
  proof (cases "r = []")
    case False
    note w = first_char [OF False text_ok_suffix [OF s(4,5)]]
    show ?thesis using s False w(3) text_ok_append [OF s(4)]
      by (auto simp: erase_at_def intro!: cursor_okI [where l = l and r = "concat (tl (utf8_chars r))"])
  qed (use s e in \<open>simp add: erase_at_def\<close>)
qed

lemma move_path_cursor: "cursor_ok e \<Longrightarrow> \<exists>e'. move_path delta e = Some e' \<and> cursor_ok e'"
proof -
  assume e: "cursor_ok e"
  then obtain l r where s: "split_str (pe_buf e) (pe_cursor e) = Some (l, r)" "pe_buf e = l @ r" "pe_cursor e = length l" "text_ok (l @ r)"
      "l = [] \<or> r = [] \<or> \<not> is_cont (hd r)" by (rule cursor_split)
  have l: "text_ok l" and r: "text_ok r" by (rule text_ok_append [OF s(4)], rule text_ok_suffix [OF s(4,5)])
  show ?thesis
  proof (cases "delta < 0")
    case True
    show ?thesis
    proof (cases "l = []")
      case False
      note w = last_char [OF False l]
      have "length l - length (last (utf8_chars l)) = length (concat (butlast (utf8_chars l)))" by (subst w(1)) simp
      moreover have "l @ r = concat (butlast (utf8_chars l)) @ last (utf8_chars l) @ r" by (subst w(1)) simp
      ultimately show ?thesis using s True False w(2) text_ok_glue [OF w(3) r]
        by (auto simp: move_path_def
            intro!: cursor_okI [where l = "concat (butlast (utf8_chars l))" and r = "last (utf8_chars l) @ r"])
    qed (use s e True in \<open>simp add: move_path_def\<close>)
  next
    case False
    show ?thesis
    proof (cases "r = []")
      case False
      note w = first_char [OF False r]
      have "l @ r = (l @ hd (utf8_chars r)) @ concat (tl (utf8_chars r))" by (subst w(1)) simp
      then show ?thesis using s \<open>\<not> delta < 0\<close> False w(3) text_ok_glue [OF l w(2)]
        by (auto simp: move_path_def
            intro!: cursor_okI [where l = "l @ hd (utf8_chars r)" and r = "concat (tl (utf8_chars r))"])
    qed (use s e False in \<open>simp add: move_path_def\<close>)
  qed
qed

lemma position_last_Some: "position_last P xs = Some i \<Longrightarrow> i < length xs \<and> P (xs ! i)"
  using position_of_Some [of P "rev xs"] by (auto simp: position_last_def rev_nth)

lemma boundary_after_dot: "text_ok s \<Longrightarrow> i < length s \<Longrightarrow> s ! i = dot \<Longrightarrow> is_boundary s (i + 1)"
proof -
  assume s: "text_ok s" "i < length s" "s ! i = dot"
  have "\<not> is_cont (s ! Suc i)" if "Suc i < length s"
  proof -
    have "is_cont (s ! Suc i) \<longrightarrow> 128 \<le> (of_char (s ! i) :: nat)"
      using s(1) that successively_nth unfolding text_ok_def by fastforce
    then show ?thesis using s(3) by (auto simp: dot_def)
  qed
  with s show ?thesis by (auto simp: is_boundary_def)
qed

lemma move_segment_cursor:
  assumes "cursor_ok e" and "\<not> delta < 0 \<or> is_boundary (pe_buf e) (pe_cursor e - 1)"
  shows "\<exists>e'. move_segment delta e = Some e' \<and> cursor_ok e'"
proof (cases "delta < 0")
  case True
  with assms(2) obtain l r where s: "split_str (pe_buf e) (pe_cursor e - 1) = Some (l, r)" "pe_buf e = l @ r"
    using split_str_some by blast
  have "is_boundary (pe_buf e) (case position_last (\<lambda>c. c = dot) l of Some i \<Rightarrow> i + 1 | None \<Rightarrow> 0)"
  proof (cases "position_last (\<lambda>c. c = dot) l")
    case (Some i)
    then have "i < length (l @ r)" "(l @ r) ! i = dot" using position_last_Some [OF Some] by (simp_all add: nth_append)
    then show ?thesis using Some assms(1) boundary_after_dot [of "l @ r" i] by (simp add: cursor_ok_def s(2))
  qed (simp add: is_boundary_def)
  then show ?thesis using True s assms(1) by (simp add: move_segment_def cursor_ok_def)
next
  case False
  from assms(1) obtain l r where s: "split_str (pe_buf e) (pe_cursor e) = Some (l, r)" "pe_buf e = l @ r" "pe_cursor e = length l"
    by (rule cursor_split)
  have "is_boundary (pe_buf e) (case position_of (\<lambda>c. c = dot) r of Some i \<Rightarrow> pe_cursor e + i + 1 | None \<Rightarrow> length (pe_buf e))"
  proof (cases "position_of (\<lambda>c. c = dot) r")
    case (Some i)
    then have "length l + i < length (l @ r)" "(l @ r) ! (length l + i) = dot" using position_of_Some [OF Some] by simp_all
    then show ?thesis using Some assms(1) boundary_after_dot [of "l @ r" "length l + i"] by (simp add: cursor_ok_def s(2,3))
  qed (simp add: is_boundary_def)
  then show ?thesis using False s assms(1) by (simp add: move_segment_def cursor_ok_def)
qed

lemma home_end_cursor: "cursor_ok e \<Longrightarrow> \<exists>e'. home_end b e = Some e' \<and> cursor_ok e'"
  by (simp add: home_end_def cursor_ok_def is_boundary_def)

lemma toggle_invert_cursor [simp]: "cursor_ok (toggle_invert e) = cursor_ok e"
  by (simp add: toggle_invert_def Let_def cursor_ok_def)

definition cursors_ok :: "'b app \<Rightarrow> bool" where
  "cursors_ok a = pred_option cursor_ok (ap_path_editor a)"

lemma edit_path_cursor:
  "cursors_ok a \<Longrightarrow> (\<And>e. ap_path_editor a = Some e \<Longrightarrow> cursor_ok e \<Longrightarrow> \<exists>e'. f e = Some e' \<and> cursor_ok e') \<Longrightarrow>
     \<exists>a'. edit_path f a = Some a' \<and> cursors_ok a'"
  by (cases "ap_path_editor a") (auto simp: cursors_ok_def edit_path_def)

lemma commit_map_cursor: "cursors_ok a \<Longrightarrow> cursors_ok (commit_map a)"
proof (cases "ap_path_editor a")
  case (Some e)
  assume "cursors_ok a"
  with Some have "cursor_ok e" by (simp add: cursors_ok_def)
  then have "cursor_ok (e\<lparr>pe_truth := t, pe_stage := st\<rparr>)" "cursor_ok (e\<lparr>pe_notify := n, pe_notify_offered := no, pe_stage := st\<rparr>)" for t st n no
    by (simp_all add: cursor_ok_def)
  with Some \<open>cursor_ok e\<close> show ?thesis
    by (simp add: commit_map_def cursors_ok_def Let_def edit_mapping_def split: option.split sum.split refusal.split)
qed (simp add: commit_map_def)

lemma open_notify_cursor: "cursors_ok a \<Longrightarrow> cursors_ok (open_notify a)"
  by (auto simp: open_notify_def cursors_ok_def cursor_ok_def split: option.split)

text \<open>C22. The cursor of the path editor is between two characters and every key of the editor returns (no slice
  of the path panics) and leaves it so, whatever is typed or erased, multi-byte characters included; the one
  key with a condition is a step of a segment to the left, which needs the byte before the cursor to begin a
  character.\<close>

theorem path_keys_keep_the_cursor:
  assumes "ap_path_editor a = Some e" and "cursor_ok e" and "key_ok key"
    and "key \<noteq> (Key_left, True) \<or> is_boundary (pe_buf e) (pe_cursor e - 1)"
  shows "\<exists>a'. path_key key a = Some a' \<and> pred_option cursor_ok (ap_path_editor a')"
proof -
  obtain k ctrl where key: "key = (k, ctrl)" by fastforce
  have c: "cursors_ok a" using assms by (simp add: cursors_ok_def)
  have e: "\<exists>a'. edit_path f a = Some a' \<and> cursors_ok a'" if "\<And>x. cursor_ok x \<Longrightarrow> \<exists>e'. f x = Some e' \<and> cursor_ok e'" for f
    by (rule edit_path_cursor [OF c]) (rule that)
  have l: "\<exists>a'. edit_path (move_segment (- 1)) a = Some a' \<and> cursors_ok a'" if "k = Key_left" ctrl
    by (rule edit_path_cursor [OF c]) (use assms key that move_segment_cursor in auto)
  have r: "\<exists>a'. edit_path (move_segment 1) a = Some a' \<and> cursors_ok a'" by (rule e) (simp add: move_segment_cursor)
  have ch: "\<exists>a'. edit_path (type_path c) a = Some a' \<and> cursors_ok a'" if "k = Key_char c" for c
    by (rule e) (use assms(3) key that in \<open>simp add: type_path_cursor key_ok_def\<close>)
  have t: "cursors_ok (on_editor toggle_invert a)" using assms by (simp add: on_editor_def cursors_ok_def)
  have n: "cursors_ok (a\<lparr>ap_path_editor := None\<rparr>)" by (simp add: cursors_ok_def)
  show ?thesis unfolding cursors_ok_def [symmetric] key
    using l r t n e [OF erase_before_cursor] e [OF erase_at_cursor] e [OF move_path_cursor] e [OF home_end_cursor]
      commit_map_cursor [OF c] open_notify_cursor [OF c] c ch
    by (cases k) (simp_all add: path_key_def)
qed

text \<open>The cursor behind a text of two bytes a character.\<close>

definition e_acute :: string where
  "e_acute = bytes_str [195, 169]"

definition wide_editor :: path_editor where
  "wide_editor = house_editor\<lparr>pe_buf := e_acute, pe_cursor := 2\<rparr>"

lemma e_acute_facts: "one_char e_acute" "text_ok e_acute" "is_boundary e_acute 2" "length e_acute = 2"
  by code_simp+

theorem path_keys_keep_the_cursor_witness:
  "\<exists>a'. path_key (Key_backspace, False) (house_saving\<lparr>ap_path_editor := Some wide_editor\<rparr>) = Some a' \<and>
     pred_option cursor_ok (ap_path_editor a')"
  by (rule path_keys_keep_the_cursor [where e = wide_editor])
    (simp_all add: wide_editor_def cursor_ok_def e_acute_facts key_ok_def)

text \<open>C23. A defect: typing a character of more than one byte and then stepping a segment to the left panics,
  since \<open>map\_editor\_move\_segment\<close> slices the path one byte before the cursor, inside that character.\<close>

theorem segment_left_panics_behind_wide_character:
  assumes "ap_path_editor a = Some e" and "cursor_ok e" and "one_char c" and "1 < length c"
  shows "\<exists>a'. path_key (Key_char c, False) a = Some a' \<and> path_key (Key_left, True) a' = None"
proof -
  from assms(2) obtain l r where s: "split_str (pe_buf e) (pe_cursor e) = Some (l, r)" "pe_cursor e = length l" by (rule cursor_split)
  let ?e = "e\<lparr>pe_buf := l @ c @ r, pe_cursor := length l + length c\<rparr>"
  have t: "path_key (Key_char c, False) a = Some (a\<lparr>ap_path_editor := Some ?e\<rparr>)"
    using assms(1) s by (simp add: path_key_def edit_path_def type_path_def)
  obtain x xs where c: "c = x # xs" "xs \<noteq> []" using assms(4) by (cases c) auto
  have "(l @ c @ r) ! (length l + length c - 1) = last xs"
    using c by (simp add: nth_append last_conv_nth)
  moreover have "is_cont (last xs)" using assms(3) c by (simp add: one_char_def list_all_iff)
  ultimately have "\<not> is_boundary (l @ c @ r) (length l + length c - 1)"
    using c by (auto simp: is_boundary_def)
  then have "split_str (pe_buf ?e) (pe_cursor ?e - 1) = None" by (simp add: split_str_def)
  then have "path_key (Key_left, True) (a\<lparr>ap_path_editor := Some ?e\<rparr>) = None"
    by (simp add: path_key_def edit_path_def move_segment_def)
  with t show ?thesis by blast
qed

theorem segment_left_panics_behind_wide_character_witness:
  "\<exists>a'. path_key (Key_char e_acute, False) (house_saving\<lparr>ap_path_editor := Some wide_editor\<rparr>) = Some a' \<and>
     path_key (Key_left, True) a' = None"
  by (rule segment_left_panics_behind_wide_character [where e = wide_editor])
    (simp_all add: wide_editor_def cursor_ok_def e_acute_facts)

end
