(* ===== verification/SetField.thy ===== *)
theory SetField
  imports WebFacts Decimal
begin

text \<open>
  The program that writes one field: \<open>crates/masterbus-tools/src/bin/masterbus-set-field.rs\<close>. Its three
  arguments are read, the bus is joined, the value is taken as the field's type says, and written. Rust's
  decimal of a single and its \<open>Debug\<close> texts are parameters; a message is a constructor.
\<close>

section \<open>Arguments\<close>

definition parse_hex_u32 :: "string \<Rightarrow> u32 option" where
  "parse_hex_u32 s = map_option word_of_nat (from_str_radix 32 16 (trim_start_of [''0X''] (trim_start_of [''0x''] (rust_trim s))))"

text \<open>\<open>i32::from_str_radix\<close>: digits after one optional sign.\<close>

definition signed_radix :: "nat \<Rightarrow> string \<Rightarrow> int option" where
  "signed_radix b s =
     (let (neg, t) = take_sign s; ds = (if t = [] then s else t)
      in if ds = [] then None
         else (case radix_digits b 0 ds of
             None \<Rightarrow> None
           | Some n \<Rightarrow> if neg then (if n \<le> 2 ^ 31 then Some (- int n) else None)
               else if n < 2 ^ 31 then Some (int n) else None))"

datatype set_refusal =
    Not_boolean string | Not_number string | Not_option string "string list" | No_sid error | No_text bus_value
  | Date_or_time | Device_ref

definition resolve_index :: "string \<Rightarrow> string list \<Rightarrow> set_refusal + int" where
  "resolve_index arg options =
     (case position_of (\<lambda>l. l = arg) options of
        Some i \<Rightarrow> Inr (as_i32 (int i))
      | None \<Rightarrow>
          (case signed_radix 10 arg of
             Some i \<Rightarrow> Inr i
           | None \<Rightarrow>
               (let t = rust_trim arg
                in case (if starts_with ''0x'' t \<or> starts_with ''0X'' t then signed_radix 16 (drop 2 t) else None) of
                     Some i \<Rightarrow> Inr i
                   | None \<Rightarrow> Inl (Not_option arg options))))"

section \<open>The value\<close>

text \<open>A text is written under the id the field's current text has.\<close>

definition build_value :: "viz \<Rightarrow> string list \<Rightarrow> string \<Rightarrow> u32 \<Rightarrow> field_id \<Rightarrow> sched \<Rightarrow> ((set_refusal + bus_value) \<times> sched) option" where
  "build_value viz options arg addr fid s =
     (if viz \<in> {CheckBox, ToggleButton, PushButton}
      then (let l = to_ascii_lowercase arg
            in Some (if l \<in> {''true'', ''on'', ''1'', ''yes''} then Inr (Boolean True)
                     else if l \<in> {''false'', ''off'', ''0'', ''no''} then Inr (Boolean False) else Inl (Not_boolean arg), s))
      else if viz \<in> {Viz_Float, GrayVisualization}
      then Some (case parse_f32 arg of Some x \<Rightarrow> Inr (Float x) | None \<Rightarrow> Inl (Not_number arg), s)
      else if viz \<in> {Radio, DropDown, EventCommand}
      then Some (map_sum id (\<lambda>i. List i options) (resolve_index arg options), s)
      else if viz = Viz_Eventable then Some (map_sum id (\<lambda>i. Eventable i options) (resolve_index arg options), s)
      else if viz = Viz_Text
      then map_option (\<lambda>(r, s1). (case r of
            Inl e \<Rightarrow> Inl (No_sid e)
          | Inr (Text sid t) \<Rightarrow> Inr (Text sid arg)
          | Inr other \<Rightarrow> Inl (No_text other), s1)) (field_value addr fid s)
      else Some (Inl (if viz = DeviceList then Device_ref else Date_or_time), s))"

record texts =
  tx_single :: "f32 \<Rightarrow> string"
  tx_quoted :: "string \<Rightarrow> string"
  tx_debug :: "bus_value \<Rightarrow> string"

definition fmt_int :: "int \<Rightarrow> string" where
  "fmt_int i = (if i < 0 then ''-'' @ fmt_dec (nat (- i)) else fmt_dec (nat i))"

definition render_value :: "texts \<Rightarrow> bus_value \<Rightarrow> string" where
  "render_value T v =
     (case v of
        Float x \<Rightarrow> tx_single T x
      | Boolean b \<Rightarrow> (if b then ''true'' else ''false'')
      | Text sid t \<Rightarrow> tx_quoted T t
      | List i options \<Rightarrow> (case get_opt options (as_usize i) of
          Some l \<Rightarrow> l @ '' ('' @ fmt_int i @ '')'' | None \<Rightarrow> ''index '' @ fmt_int i)
      | _ \<Rightarrow> tx_debug T v)"

section \<open>The program\<close>

datatype set_exit =
    Sf_version | Sf_help | Sf_usage | Sf_bad_device string | Sf_bad_field string | Sf_no_connection error
  | Sf_no_field error | Sf_read_only string | Sf_refused set_refusal | Sf_done string string | Sf_failed error

fun exit_code :: "set_exit \<Rightarrow> nat" where
  "exit_code Sf_version = 0" | "exit_code Sf_help = 0" | "exit_code Sf_usage = 1"
| "exit_code (Sf_bad_device a) = 2" | "exit_code (Sf_bad_field a) = 2" | "exit_code (Sf_no_connection e) = 3"
| "exit_code (Sf_no_field e) = 4" | "exit_code (Sf_read_only n) = 5" | "exit_code (Sf_refused r) = 6"
| "exit_code (Sf_done n t) = 0" | "exit_code (Sf_failed e) = 7"

text \<open>On the bus.\<close>

definition set_one :: "texts \<Rightarrow> u32 \<Rightarrow> field_id \<Rightarrow> string \<Rightarrow> sched \<Rightarrow> (set_exit \<times> sched) option" where
  "set_one T addr fid arg s =
     do {
       (info, s1) \<leftarrow> field_info_of addr fid s;
       (case info of
          Inl e \<Rightarrow> Some (Sf_no_field e, s1)
        | Inr f \<Rightarrow>
            if \<not> fi_writeable f then Some (Sf_read_only (fi_name f), s1)
            else do {
              (v, s2) \<leftarrow> build_value (fi_viz f) (fi_options f) arg addr fid s1;
              (case v of
                 Inl e \<Rightarrow> Some (Sf_refused e, s2)
               | Inr x \<Rightarrow>
                   map_option (\<lambda>(r, s3). (case r of Inr w \<Rightarrow> Sf_done (fi_name f) (render_value T w) | Inl e \<Rightarrow> Sf_failed e, s3))
                     (field_set addr fid x s2))
            })
     }"

definition tool_config :: config where
  "tool_config = config_default\<lparr>cf_connect_timeout := 5000\<rparr>"

definition set_field_main ::
  "texts \<Rightarrow> (config \<Rightarrow> sched result) \<Rightarrow> string list \<Rightarrow> (set_exit \<times> sched option) option" where
  "set_field_main T auto_joined args =
     (if args \<noteq> [] \<and> hd args \<in> {''--version'', ''-V''} then Some (Sf_version, None)
      else if args \<noteq> [] \<and> hd args \<in> {''--help'', ''-h''} then Some (Sf_help, None)
      else (case args of
          [dev, fld, arg] \<Rightarrow>
            (case parse_hex_u32 dev of
               None \<Rightarrow> Some (Sf_bad_device dev, None)
             | Some d \<Rightarrow>
                 if 0xFFFFFF < d then Some (Sf_bad_device dev, None)
                 else (case parse_hex_u32 fld of
                     None \<Rightarrow> Some (Sf_bad_field fld, None)
                   | Some f \<Rightarrow>
                       if 0xFFFF < f then Some (Sf_bad_field fld, None)
                       else (case auto_joined tool_config of
                           Inl e \<Rightarrow> Some (Sf_no_connection e, None)
                         | Inr s \<Rightarrow> map_option (\<lambda>(x, s1). (x, Some s1)) (set_one T d (ucast f) arg s))))
        | _ \<Rightarrow> Some (Sf_usage, None)))"

section \<open>What is typed is what is meant\<close>

lemma position_of_nth: "distinct xs \<Longrightarrow> i < length xs \<Longrightarrow> position_of (\<lambda>x. x = xs ! i) xs = Some i"
  by (induction xs arbitrary: i) (auto simp: nth_Cons' in_set_conv_nth less_Suc_eq_0_disj)

lemma digits_dec: "list_all (\<lambda>c. \<exists>d < 10. c = digit_char d) (digits_in 10 n) \<and> digits_in 10 n \<noteq> []"
proof (induction "10 :: nat" n rule: digits_in.induct)
  case (1 n)
  show ?case
  proof (cases "n < 10")
    case True
    then show ?thesis by (auto simp: digits_in.simps [of 10 n])
  next
    case False
    with 1 have "list_all (\<lambda>c. \<exists>d < 10. c = digit_char d) (digits_in 10 (n div 10))" by simp
    moreover have "\<exists>d < 10. digit_char (n mod 10) = digit_char d" by (intro exI [of _ "n mod 10"]) simp
    ultimately show ?thesis using False by (simp add: digits_in.simps [of 10 n])
  qed
qed

lemma radix_digits_dec:
  "list_all (\<lambda>c. \<exists>d < 10. c = digit_char d) s \<Longrightarrow> radix_digits 10 a s = Some (foldl (\<lambda>a c. a * 10 + digit_val c) a s)"
  by (induction s arbitrary: a) (auto simp: upper_hex_digit)

lemma signed_radix_dec: "n < 2 ^ 31 \<Longrightarrow> signed_radix 10 (fmt_dec n) = Some (int n)"
proof -
  assume n: "n < 2 ^ 31"
  obtain c cs where c: "fmt_dec n = c # cs" using digits_dec [of n] by (cases "fmt_dec n") (auto simp: fmt_dec_def)
  obtain d where d: "d < 10" "c = digit_char d" using digits_dec [of n] c by (auto simp: fmt_dec_def)
  have "c \<noteq> CHR ''-''" "c \<noteq> CHR ''+''" using d by (auto simp: digit_char_def of_char_of dest!: arg_cong [of _ _ "of_char :: char \<Rightarrow> nat"])
  then have t: "take_sign (fmt_dec n) = (False, fmt_dec n)" by (simp add: take_sign_def c)
  have "radix_digits 10 0 (fmt_dec n) = Some n"
    using radix_digits_dec [of "fmt_dec n" 0] digits_dec [of n] undigits_fmt_dec [of n] by (simp add: fmt_dec_def undigits_def)
  with t n c show ?thesis by (simp add: signed_radix_def)
qed

lemma as_i32_small: "int i < 2 ^ 31 \<Longrightarrow> as_i32 (int i) = int i"
  by (simp add: as_i32_def)

text \<open>What the screen shows beside a list, a label and its number, can be typed and is taken for just that
  choice: a label is the index it stands at, however it would read as a number, and a decimal number that is
  no label is itself.\<close>

lemma typed_choice_is_the_one_shown:
  assumes "distinct options" and "i < length options" and "length options < 2 ^ 31" and "n < 2 ^ 31"
  shows "resolve_index (options ! i) options = Inr (int i) \<and>
     (fmt_dec n \<in> set options \<or> resolve_index (fmt_dec n) options = Inr (int n))"
proof -
  have "resolve_index (options ! i) options = Inr (int i)"
    using position_of_nth [OF assms(1,2)] assms(2,3) by (simp add: resolve_index_def as_i32_small)
  moreover have "resolve_index (fmt_dec n) options = Inr (int n)" if "fmt_dec n \<notin> set options"
  proof -
    have "position_of (\<lambda>l. l = fmt_dec n) options = None" using that by (induction options) auto
    then show ?thesis using signed_radix_dec [OF assms(4)] by (simp add: resolve_index_def)
  qed
  ultimately show ?thesis by blast
qed

lemma typed_choice_is_the_one_shown_witness:
  "resolve_index ''AC'' [''Off'', ''AC''] = Inr 1 \<and> resolve_index (fmt_dec 12) [''Off'', ''AC''] = Inr 12"
proof -
  have "fmt_dec 12 = ''12''" by code_simp
  then show ?thesis using typed_choice_is_the_one_shown [of "[''Off'', ''AC'']" 1 12] by simp
qed

section \<open>When it writes\<close>

lemma calm_field_value: "field_value addr fid s = Some y \<Longrightarrow> calm a s \<Longrightarrow> calm a (snd y)"
  by (rule calm_asking_calls(2))

lemma calm_build_value: "build_value viz options arg addr fid s = Some y \<Longrightarrow> calm a s \<Longrightarrow> calm a (snd y)"
  by (auto simp: build_value_def Let_def split: if_splits dest: calm_field_value)

text \<open>C26. The program writes only what it was asked to: when it ends before the write (the field is unknown or
  read-only, or the text is no value of its type) it has sent nothing that writes; otherwise it built a value
  from the field's type and the text, wrote exactly that, and its exit says how that went.\<close>

theorem set_field_program_writes_last:
  assumes "set_one T addr fid arg s = Some (out, s')"
  shows "if exit_code out \<in> {4, 5, 6} then calm s s'
    else \<exists>f v s1 s2 r. field_info_of addr fid s = Some (Inr f, s1) \<and> fi_writeable f \<and>
       build_value (fi_viz f) (fi_options f) arg addr fid s1 = Some (Inr v, s2) \<and> calm s s2 \<and>
       field_set addr fid v s2 = Some (r, s') \<and>
       out = (case r of Inr w \<Rightarrow> Sf_done (fi_name f) (render_value T w) | Inl e \<Rightarrow> Sf_failed e)"
proof -
  obtain info s1 where i: "field_info_of addr fid s = Some (info, s1)"
    using assms by (auto simp: set_one_def Option.bind_eq_Some_conv)
  have c1: "calm s s1" using calm_field_info_of [OF i calm_refl] by simp
  show ?thesis
  proof (cases "\<exists>f. info = Inr f \<and> fi_writeable f")
    case False
    then show ?thesis using assms i c1 by (auto simp: set_one_def split: sum.splits)
  next
    case True
    then obtain f where f: "info = Inr f" "fi_writeable f" by blast
    then obtain v s2 where b: "build_value (fi_viz f) (fi_options f) arg addr fid s1 = Some (v, s2)"
      using assms i by (auto simp: set_one_def Option.bind_eq_Some_conv)
    have c2: "calm s s2" using calm_build_value [OF b c1] by simp
    show ?thesis
    proof (cases v)
      case (Inl e)
      then show ?thesis using assms i f b c2 by (auto simp: set_one_def)
    next
      case (Inr x)
      then obtain r where r: "field_set addr fid x s2 = Some (r, s')"
        "out = (case r of Inr w \<Rightarrow> Sf_done (fi_name f) (render_value T w) | Inl e \<Rightarrow> Sf_failed e)"
        using assms i f b by (auto simp: set_one_def)
      then have "exit_code out \<notin> {4, 5, 6}" by (cases r) simp_all
      moreover have "\<exists>f v s1 s2 r. field_info_of addr fid s = Some (Inr f, s1) \<and> fi_writeable f \<and>
          build_value (fi_viz f) (fi_options f) arg addr fid s1 = Some (Inr v, s2) \<and> calm s s2 \<and> field_set addr fid v s2 = Some (r, s') \<and>
          out = (case r of Inr w \<Rightarrow> Sf_done (fi_name f) (render_value T w) | Inl e \<Rightarrow> Sf_failed e)"
        using i f b Inr c2 r by blast
      ultimately show ?thesis by simp
    qed
  qed
qed

definition plain_texts :: texts where
  "plain_texts = \<lparr>tx_single = (\<lambda>x. []), tx_quoted = (\<lambda>t. t), tx_debug = (\<lambda>v. [])\<rparr>"

theorem set_field_program_writes_last_witness:
  "set_one plain_texts 0x1234 5 ''maybe'' switch_start = Some (Sf_refused (Not_boolean ''maybe''), switch_start) \<and> calm switch_start switch_start"
proof -
  have "set_one plain_texts 0x1234 5 ''maybe'' switch_start = Some (Sf_refused (Not_boolean ''maybe''), switch_start)"
    by (simp add: set_one_def known_field_info [OF switch_start_knows] a_switch_def build_value_def to_ascii_lowercase_def)
  from set_field_program_writes_last [OF this] this show ?thesis by simp
qed

end
