(* ===== verification/Dump.thy ===== *)
theory Dump
  imports SetField Daemon
begin

text \<open>
  The program that writes down the whole bus: \<open>crates/masterbus-tools/src/bin/masterbus-dump.rs\<close>. Its command
  line, the walk over devices, tabs and fields, and the document; serde's JSON text of the document and
  the file it goes to are left out. Rust's two decimals of a single are a parameter; errors stay values.
\<close>

section \<open>The command line\<close>

datatype value_mode = No_values | Monitoring_values | All_values

definition value_mode_name :: "value_mode \<Rightarrow> string" where
  "value_mode_name m = (case m of No_values \<Rightarrow> ''none'' | Monitoring_values \<Rightarrow> ''monitoring'' | All_values \<Rightarrow> ''all'')"

definition value_wants :: "value_mode \<Rightarrow> menu \<Rightarrow> bool" where
  "value_wants mode m = (case mode of No_values \<Rightarrow> False | Monitoring_values \<Rightarrow> m = Monitoring | All_values \<Rightarrow> True)"

record dump_args =
  da_output :: "string option"
  da_menus :: "menu list"
  da_values :: value_mode
  da_devices :: "u32 list"
  da_probe :: bool
  da_pretty :: bool
  da_timeout :: "nat option"

definition DEFAULT_MENUS :: "menu list" where
  "DEFAULT_MENUS = [Monitoring, Configuration]"

datatype dump_error =
    Dump_help | Dump_version | Dump_needs string | Dump_menu string | Dump_no_menus | Dump_values string
  | Dump_device string | Dump_timeout string | Dump_option string | Dump_twice

definition parse_menu :: "string \<Rightarrow> menu option" where
  "parse_menu s =
     (let l = to_ascii_lowercase (rust_trim s)
      in if l \<in> {''monitoring'', ''mon''} then Some Monitoring
         else if l \<in> {''configuration'', ''config'', ''cfg''} then Some Configuration
         else if l \<in> {''alarm'', ''alarms''} then Some Alarm
         else if l \<in> {''history'', ''hist''} then Some History else None)"

fun each_menu :: "string list \<Rightarrow> dump_error + menu list" where
  "each_menu [] = Inr []"
| "each_menu (p # ps) =
     (case parse_menu p of
        None \<Rightarrow> Inl (Dump_menu p)
      | Some m \<Rightarrow> map_sum id (\<lambda>ms. m # ms) (each_menu ps))"

definition parse_menus :: "string \<Rightarrow> dump_error + menu list" where
  "parse_menus v =
     (case (if eq_ignore_ascii_case (rust_trim v) ''all'' then Inr menu_ALL
            else each_menu (filter (\<lambda>p. rust_trim p \<noteq> []) (split_on (\<lambda>c. c = CHR '','') v))) of
        Inl e \<Rightarrow> Inl e
      | Inr ms \<Rightarrow> if ms = [] then Inl Dump_no_menus else Inr ms)"

definition parse_value_mode :: "string \<Rightarrow> dump_error + value_mode" where
  "parse_value_mode v =
     (let l = to_ascii_lowercase (rust_trim v)
      in if l \<in> {''none'', ''no''} then Inr No_values
         else if l \<in> {''monitoring'', ''mon''} then Inr Monitoring_values
         else if l = ''all'' then Inr All_values else Inl (Dump_values l))"

text \<open>An option with a value; each takes its place in what was read so far.\<close>

definition dump_option :: "string \<Rightarrow> string \<Rightarrow> dump_args \<Rightarrow> dump_error + dump_args" where
  "dump_option flag v g =
     (if flag \<in> {''-o'', ''--output''} then Inr (g\<lparr>da_output := Some v\<rparr>)
      else if flag = ''--menus'' then map_sum id (\<lambda>ms. g\<lparr>da_menus := ms\<rparr>) (parse_menus v)
      else if flag = ''--values'' then map_sum id (\<lambda>m. g\<lparr>da_values := m\<rparr>) (parse_value_mode v)
      else if flag = ''--device''
      then (case parse_hex_u32 v of
          Some d \<Rightarrow> Inr (g\<lparr>da_devices := da_devices g @ [d]\<rparr>) | None \<Rightarrow> Inl (Dump_device v))
      else (case from_str_radix 64 10 (rust_trim v) of
          Some ms \<Rightarrow> if 0 < ms then Inr (g\<lparr>da_timeout := Some ms\<rparr>) else Inl (Dump_timeout v)
        | None \<Rightarrow> Inl (Dump_timeout v)))"

fun dump_args_from :: "dump_args \<Rightarrow> string list \<Rightarrow> dump_error + dump_args" where
  "dump_args_from g [] = Inr g"
| "dump_args_from g (a # rest) =
     (if a \<in> {''-h'', ''--help''} then Inl Dump_help
      else if a \<in> {''-V'', ''--version''} then Inl Dump_version
      else if a \<in> {''-o'', ''--output'', ''--menus'', ''--values'', ''--device'', ''--discovery-timeout''}
      then (case rest of
          [] \<Rightarrow> Inl (Dump_needs a)
        | v # others \<Rightarrow> (case dump_option a v g of Inl e \<Rightarrow> Inl e | Inr g1 \<Rightarrow> dump_args_from g1 others))
      else if a = ''--probe'' then dump_args_from (g\<lparr>da_probe := True\<rparr>) rest
      else if a = ''--compact'' then dump_args_from (g\<lparr>da_pretty := False\<rparr>) rest
      else if starts_with ''-'' a then Inl (Dump_option a)
      else if da_output g \<noteq> None then Inl Dump_twice
      else dump_args_from (g\<lparr>da_output := Some a\<rparr>) rest)"

definition parse_dump_args :: "string list \<Rightarrow> dump_error + dump_args" where
  "parse_dump_args =
     dump_args_from \<lparr>da_output = None, da_menus = DEFAULT_MENUS, da_values = Monitoring_values, da_devices = [],
       da_probe = False, da_pretty = True, da_timeout = None\<rparr>"

definition dump_config :: "dump_args \<Rightarrow> config" where
  "dump_config g = (case da_timeout g of Some t \<Rightarrow> config_default\<lparr>cf_discovery_timeout := t\<rparr> | None \<Rightarrow> config_default)"

section \<open>The document\<close>

record field_dump =
  fd_id :: string
  fd_index :: field_id
  fd_tab :: string
  fd_name :: string
  fd_unit :: string
  fd_viz :: viz
  fd_writeable :: bool
  fd_eventable :: bool
  fd_min :: f64
  fd_max :: f64
  fd_step :: f64
  fd_options :: "string list"
  fd_value :: "bus_value option"
  fd_value_text :: "string option"
  fd_value_error :: "error option"
  fd_signalk :: "string option"

record group_dump =
  gd_id :: int
  gd_name :: string
  gd_menu :: string
  gd_fields :: "field_dump list"

datatype trouble = No_identity error | No_menu string error | No_probe error

record device_dump =
  dd_id :: string
  dd_address :: u32
  dd_article :: string
  dd_serial :: string
  dd_revision :: string
  dd_name :: string
  dd_firmware :: string
  dd_status :: device_status
  dd_access :: "access_level option"
  dd_errors :: "trouble list"
  dd_groups :: "group_dump list"
  dd_ungrouped :: "field_dump list"

record dump_doc =
  dp_format :: nat
  dp_tool :: string
  dp_generated :: string
  dp_generated_unix :: nat
  dp_menus :: "string list"
  dp_values :: string
  dp_probed :: bool
  dp_mapping :: "mapping option"
  dp_mapping_path :: "string option"
  dp_devices :: "device_dump list"

definition FORMAT :: nat where "FORMAT = 2"

text \<open>A value as the screen shows it.\<close>

definition long_dash :: string where
  "long_dash = bytes_str [226, 128, 148]"

definition index_text :: "int \<Rightarrow> string" where
  "index_text i = ''['' @ fmt_int i @ '']''"

definition format_value :: "(f32 \<Rightarrow> string) \<Rightarrow> bus_value \<Rightarrow> string" where
  "format_value two_decimals v =
     (case v of
        Float x \<Rightarrow> if f32_is_nan x then long_dash else two_decimals x
      | Boolean b \<Rightarrow> (if b then ''on'' else ''off'')
      | Date d \<Rightarrow> if d_year d < 0 \<or> d_mon d < 0 \<or> d_day d < 0 then long_dash
          else fmt_pad 4 (d_year d) @ ''-'' @ fmt_pad 2 (d_mon d) @ ''-'' @ fmt_pad 2 (d_day d)
      | Time t \<Rightarrow> if t_sec t < 0 then long_dash
          else fmt_dec (unat (t_days t)) @ ''d '' @ fmt_pad 2 (t_hour t) @ '':'' @ fmt_pad 2 (t_min t) @ '':'' @ fmt_pad 2 (t_sec t)
      | List i options \<Rightarrow> (case get_opt options (as_usize i) of Some l \<Rightarrow> l | None \<Rightarrow> index_text i)
      | Text sid t \<Rightarrow> t
      | DeviceRef i ids \<Rightarrow> (case get_opt ids (as_usize i) of Some d \<Rightarrow> ''0x'' @ fmt_hex 6 (unat d) | None \<Rightarrow> index_text i)
      | Eventable i labels \<Rightarrow> (case get_opt labels (as_usize i) of Some l \<Rightarrow> l | None \<Rightarrow> index_text i)
      | Invalid \<Rightarrow> ''invalid'')"

definition dump_of_field :: "field_info \<Rightarrow> field_dump" where
  "dump_of_field f =
     \<lparr>fd_id = ''0x'' @ fmt_hex 3 (unat (fi_index f)), fd_index = fi_index f, fd_tab = menu_tag (field_id_menu (fi_index f)),
      fd_name = fi_name f, fd_unit = fi_unit f, fd_viz = fi_viz f, fd_writeable = fi_writeable f, fd_eventable = fi_eventable f,
      fd_min = fi_min f, fd_max = fi_max f, fd_step = fi_step f, fd_options = fi_options f,
      fd_value = None, fd_value_text = None, fd_value_error = None, fd_signalk = None\<rparr>"

text \<open>\<open>iso8601\_utc\<close> of seconds since the epoch.\<close>

definition iso8601_utc :: "nat \<Rightarrow> string" where
  "iso8601_utc secs =
     (let tod = secs mod 86400; z = int (secs div 86400) + 719468;
          era = z div 146097; doe = z mod 146097;
          yoe = (doe - doe div 1460 + doe div 36524 - doe div 146096) div 365;
          y = yoe + era * 400;
          doy = doe - (365 * yoe + yoe div 4 - yoe div 100);
          mp = (5 * doy + 2) div 153;
          d = doy - (153 * mp + 2) div 5 + 1;
          m = (if mp < 10 then mp + 3 else mp - 9);
          y1 = (if m \<le> 2 then y + 1 else y)
      in fmt_pad 4 y1 @ ''-'' @ fmt_pad 2 m @ ''-'' @ fmt_pad 2 d @ ''T'' @ fmt_pad 2 (int (tod div 3600)) @ '':'' @
         fmt_pad 2 (int ((tod mod 3600) div 60)) @ '':'' @ fmt_pad 2 (int (tod mod 60)) @ ''Z'')"

section \<open>The walk\<close>

text \<open>A field, with its path and, when wanted, its value or why there is none.\<close>

definition dump_field ::
  "(f32 \<Rightarrow> string) \<Rightarrow> mapping option \<Rightarrow> string \<Rightarrow> bool \<Rightarrow> u32 \<Rightarrow> field_info \<Rightarrow> sched \<Rightarrow> (field_dump \<times> sched) option" where
  "dump_field two_decimals mp serial wanted addr f s =
     (let fd = (dump_of_field f)\<lparr>fd_signalk := Option.bind mp (\<lambda>m. map_option fm_path (mapping_field m serial (fi_index f)))\<rparr>
      in if \<not> wanted then Some (fd, s)
         else map_option (\<lambda>(r, s1). (case r of
               Inr v \<Rightarrow> fd\<lparr>fd_value_text := Some (format_value two_decimals v), fd_value := Some v\<rparr>
             | Inl e \<Rightarrow> fd\<lparr>fd_value_error := Some e\<rparr>, s1)) (field_value addr (fi_index f) s))"

fun dump_each :: "(field_info \<Rightarrow> sched \<Rightarrow> (field_dump \<times> sched) option) \<Rightarrow> field_info list \<Rightarrow> sched \<Rightarrow> (field_dump list \<times> sched) option" where
  "dump_each df [] s = Some ([], s)"
| "dump_each df (f # fs) s =
     do {
       (fd, s1) \<leftarrow> df f s;
       (fds, s2) \<leftarrow> dump_each df fs s1;
       Some (fd # fds, s2)
     }"

fun dump_groups ::
  "(field_info \<Rightarrow> sched \<Rightarrow> (field_dump \<times> sched) option) \<Rightarrow> menu \<Rightarrow> group_info list \<Rightarrow> sched \<Rightarrow> (group_dump list \<times> sched) option" where
  "dump_groups df m [] s = Some ([], s)"
| "dump_groups df m (g # gs) s =
     do {
       (fds, s1) \<leftarrow> dump_each df (gi_fields g) s;
       (gds, s2) \<leftarrow> dump_groups df m gs s1;
       Some (\<lparr>gd_id = gi_id g, gd_name = gi_name g, gd_menu = menu_tag m, gd_fields = fds\<rparr> # gds, s2)
     }"

text \<open>The tabs that were asked for; one that fails leaves its error.\<close>

fun dump_menus ::
  "(bool \<Rightarrow> field_info \<Rightarrow> sched \<Rightarrow> (field_dump \<times> sched) option) \<Rightarrow> value_mode \<Rightarrow> u32 \<Rightarrow> menu list \<Rightarrow> sched \<Rightarrow>
     (trouble list \<times> group_dump list \<times> sched) option" where
  "dump_menus df mode addr [] s = Some ([], [], s)"
| "dump_menus df mode addr (m # ms) s =
     do {
       (r, s1) \<leftarrow> tab_info addr m s;
       (case r of
          Inl e \<Rightarrow> do {
            (errs, gds, s2) \<leftarrow> dump_menus df mode addr ms s1;
            Some (No_menu (menu_tag m) e # errs, gds, s2)
          }
        | Inr gs \<Rightarrow> do {
            (gds, s2) \<leftarrow> dump_groups (df (value_wants mode m)) m gs s1;
            (errs, more_gds, s3) \<leftarrow> dump_menus df mode addr ms s2;
            Some (errs, gds @ more_gds, s3)
          })
     }"

text \<open>The first of each field that no dumped group lists.\<close>

fun unseen :: "field_id set \<Rightarrow> field_info list \<Rightarrow> field_info list" where
  "unseen seen [] = []"
| "unseen seen (f # fs) = (if fi_index f \<in> seen then unseen seen fs else f # unseen (insert (fi_index f) seen) fs)"

definition dump_probe ::
  "(bool \<Rightarrow> field_info \<Rightarrow> sched \<Rightarrow> (field_dump \<times> sched) option) \<Rightarrow> value_mode \<Rightarrow> u32 \<Rightarrow> field_id set \<Rightarrow> sched \<Rightarrow>
     (trouble list \<times> field_dump list \<times> sched) option" where
  "dump_probe df mode addr seen s =
     do {
       (r, s1) \<leftarrow> all_fields addr s;
       (case r of
          Inl e \<Rightarrow> Some ([No_probe e], [], s1)
        | Inr fs \<Rightarrow> map_option (\<lambda>(fds, s2). ([], fds, s2)) (dump_each (df (mode = All_values)) (unseen seen fs) s1))
     }"

definition dump_device ::
  "(f32 \<Rightarrow> string) \<Rightarrow> mapping option \<Rightarrow> dump_args \<Rightarrow> u32 \<Rightarrow> sched \<Rightarrow> (device_dump \<times> sched) option" where
  "dump_device two_decimals mp g addr s =
     do {
       (r, s1) \<leftarrow> engine_identity addr s;
       let i = (case r of Inr i \<Rightarrow> i | Inl e \<Rightarrow> empty_identity);
       let df = (\<lambda>wanted. dump_field two_decimals mp (di_serial i) wanted addr);
       (errs, gds, s2) \<leftarrow> dump_menus df (da_values g) addr (da_menus g) s1;
       (errs1, fds, s3) \<leftarrow> (if da_probe g then dump_probe df (da_values g) addr (fd_index ` set (concat (map gd_fields gds))) s2
                            else Some ([], [], s2));
       Some (\<lparr>dd_id = ''0x'' @ fmt_hex 6 (unat addr), dd_address = addr, dd_article = di_article i, dd_serial = di_serial i,
              dd_revision = di_revision i, dd_name = di_name i, dd_firmware = di_firmware i, dd_status = device_presence addr s3,
              dd_access = cached_access_level addr s3,
              dd_errors = (case r of Inl e \<Rightarrow> [No_identity e] | Inr i \<Rightarrow> []) @ errs @ errs1,
              dd_groups = gds, dd_ungrouped = fds\<rparr>, s3)
     }"

fun dump_devices ::
  "(f32 \<Rightarrow> string) \<Rightarrow> mapping option \<Rightarrow> dump_args \<Rightarrow> u32 list \<Rightarrow> sched \<Rightarrow> (device_dump list \<times> sched) option" where
  "dump_devices two_decimals mp g [] s = Some ([], s)"
| "dump_devices two_decimals mp g (d # ds) s =
     (if da_devices g \<noteq> [] \<and> d \<notin> set (da_devices g) then dump_devices two_decimals mp g ds s
      else do {
        (dd, s1) \<leftarrow> dump_device two_decimals mp g d s;
        (dds, s2) \<leftarrow> dump_devices two_decimals mp g ds s1;
        Some (dd # dds, s2)
      })"

text \<open>\<open>collect\<close>: \<open>version\<close> is the program's, \<open>addrs\<close> is what the bus lists, \<open>file\<close> where the mapping is and what loading it gave.\<close>

definition collect_bus ::
  "(f32 \<Rightarrow> string) \<Rightarrow> string \<Rightarrow> (string \<times> ('e + mapping)) option \<Rightarrow> nat \<Rightarrow> dump_args \<Rightarrow> u32 list \<Rightarrow> sched \<Rightarrow> (dump_doc \<times> sched) option" where
  "collect_bus two_decimals version file now g addrs s =
     (let mp = (case file of Some (p, Inr m) \<Rightarrow> if mapping_is_empty m then None else Some m | _ \<Rightarrow> None)
      in map_option (\<lambda>(dds, s1).
           (\<lparr>dp_format = FORMAT, dp_tool = ''masterbus-dump '' @ version, dp_generated = iso8601_utc now, dp_generated_unix = now, dp_menus = map menu_tag (da_menus g),
             dp_values = value_mode_name (da_values g), dp_probed = da_probe g, dp_mapping = mp,
             dp_mapping_path = (if mp = None then None else map_option fst file), dp_devices = dds\<rparr>, s1))
         (dump_devices two_decimals mp g (sort addrs) s))"

section \<open>What it sends\<close>

lemma calm_identity_call: "engine_identity addr s = Some y \<Longrightarrow> calm a s \<Longrightarrow> calm a (snd y)"
proof -
  assume y: "engine_identity addr s = Some y" and a: "calm a s"
  obtain r t where e: "ensure_identity addr s = Some (r, t)" using y by (auto simp: engine_identity_def Option.bind_eq_Some_conv)
  then have "snd y = t" using y by (cases r) (auto simp: engine_identity_def)
  moreover have "calm a t" using e a by (auto simp: ensure_identity_def split: if_splits dest: calm_call_unit)
  ultimately show "calm a (snd y)" by simp
qed

lemma calm_all_fields_call: "all_fields addr s = Some y \<Longrightarrow> calm a s \<Longrightarrow> calm a (snd y)"
  by (auto simp: all_fields_def Option.bind_eq_Some_conv dest: calm_ensure_all)

lemma calm_dump_field: "dump_field fx mp serial w addr f s = Some (fd, s') \<Longrightarrow> calm a s \<Longrightarrow> calm a s'"
  by (auto simp: dump_field_def Let_def split: if_splits dest: calm_field_value)

lemma calm_dump_each:
  "dump_each df fs s = Some (fds, s') \<Longrightarrow> (\<And>f s fd s'. df f s = Some (fd, s') \<Longrightarrow> calm a s \<Longrightarrow> calm a s') \<Longrightarrow> calm a s \<Longrightarrow> calm a s'"
proof (induction fs arbitrary: s fds)
  case (Cons f fs)
  then obtain fd s1 fds1 where "df f s = Some (fd, s1)" "dump_each df fs s1 = Some (fds1, s')" by (auto simp: Option.bind_eq_Some_conv)
  with Cons show ?case by blast
qed simp

lemma calm_dump_groups:
  "dump_groups df m gs s = Some (gds, s') \<Longrightarrow> (\<And>f s fd s'. df f s = Some (fd, s') \<Longrightarrow> calm a s \<Longrightarrow> calm a s') \<Longrightarrow> calm a s \<Longrightarrow> calm a s'"
proof (induction gs arbitrary: s gds)
  case (Cons g gs)
  then obtain fds s1 gds1 where e: "dump_each df (gi_fields g) s = Some (fds, s1)" "dump_groups df m gs s1 = Some (gds1, s')"
    by (auto simp: Option.bind_eq_Some_conv)
  have "calm a s1" by (rule calm_dump_each [OF e(1)]) (use Cons.prems in blast)+
  with Cons.IH [OF e(2)] Cons.prems(2) show ?case by blast
qed simp

lemma calm_dump_menus:
  "dump_menus df mode addr ms s = Some (errs, gds, s') \<Longrightarrow>
     (\<And>w f s fd s'. df w f s = Some (fd, s') \<Longrightarrow> calm a s \<Longrightarrow> calm a s') \<Longrightarrow> calm a s \<Longrightarrow> calm a s'"
proof (induction ms arbitrary: s errs gds)
  case (Cons m ms)
  then obtain r s1 where t: "tab_info addr m s = Some (r, s1)" by (auto simp: Option.bind_eq_Some_conv)
  have s1: "calm a s1" using calm_tab_info [OF t Cons.prems(3)] by simp
  show ?case
  proof (cases r)
    case (Inl e)
    then obtain errs1 gds1 where "dump_menus df mode addr ms s1 = Some (errs1, gds1, s')"
      using Cons.prems(1) t by (auto simp: Option.bind_eq_Some_conv)
    from Cons.IH [OF this _ s1] Cons.prems(2) show ?thesis by blast
  next
    case (Inr gs)
    then obtain gds1 s2 errs1 gds2 where g: "dump_groups (df (value_wants mode m)) m gs s1 = Some (gds1, s2)"
      "dump_menus df mode addr ms s2 = Some (errs1, gds2, s')"
      using Cons.prems(1) t by (auto simp: Option.bind_eq_Some_conv)
    have "calm a s2" by (rule calm_dump_groups [OF g(1)]) (use Cons.prems s1 in blast)+
    from Cons.IH [OF g(2) _ this] Cons.prems(2) show ?thesis by blast
  qed
qed simp

lemma calm_dump_device: "dump_device fx mp g addr s = Some (dd, s') \<Longrightarrow> calm a s \<Longrightarrow> calm a s'"
proof -
  assume d: "dump_device fx mp g addr s = Some (dd, s')" and a: "calm a s"
  obtain r s1 where r: "engine_identity addr s = Some (r, s1)" using d by (auto simp: dump_device_def Option.bind_eq_Some_conv)
  define df where "df = (\<lambda>wanted. dump_field fx mp (di_serial (case r of Inr i \<Rightarrow> i | Inl e \<Rightarrow> empty_identity)) wanted addr)"
  obtain errs gds s2 errs1 fds where m: "dump_menus df (da_values g) addr (da_menus g) s1 = Some (errs, gds, s2)"
    and p: "(if da_probe g then dump_probe df (da_values g) addr (fd_index ` set (concat (map gd_fields gds))) s2
        else Some ([], [], s2)) = Some (errs1, fds, s')"
    using d r unfolding dump_device_def Let_def df_def by (auto simp: Option.bind_eq_Some_conv)
  have df: "df w f s = Some (fd, t) \<Longrightarrow> calm a s \<Longrightarrow> calm a t" for w f s fd t by (simp add: df_def calm_dump_field)
  have s1: "calm a s1" using calm_identity_call [OF r a] by simp
  have s2: "calm a s2" by (rule calm_dump_menus [OF m df s1])
  show "calm a s'"
  proof (cases "da_probe g")
    case True
    then obtain q s3 where q: "all_fields addr s2 = Some (q, s3)" using p by (auto simp: dump_probe_def Option.bind_eq_Some_conv)
    have s3: "calm a s3" using calm_all_fields_call [OF q s2] by simp
    show ?thesis
    proof (cases q)
      case (Inr fs)
      then obtain fds1 where "dump_each (df (da_values g = All_values)) (unseen (fd_index ` set (concat (map gd_fields gds))) fs) s3 = Some (fds1, s')"
        using p True q by (auto simp: dump_probe_def)
      then show ?thesis by (rule calm_dump_each) (use df s3 in blast)+
    qed (use p True q s3 in \<open>auto simp: dump_probe_def\<close>)
  qed (use p s2 in simp)
qed

lemma calm_dump_devices: "dump_devices fx mp g ds s = Some (dds, s') \<Longrightarrow> calm a s \<Longrightarrow> calm a s'"
proof (induction ds arbitrary: s dds)
  case (Cons d ds)
  show ?case
  proof (cases "da_devices g \<noteq> [] \<and> d \<notin> set (da_devices g)")
    case True
    then have "dump_devices fx mp g ds s = Some (dds, s')" using Cons.prems(1) by simp
    then show ?thesis by (rule Cons.IH [OF _ Cons.prems(2)])
  next
    case False
    then obtain dd s1 dds1 where "dump_device fx mp g d s = Some (dd, s1)" "dump_devices fx mp g ds s1 = Some (dds1, s')"
      using Cons.prems(1) by (auto simp: Option.bind_eq_Some_conv split: if_splits)
    then show ?thesis using Cons.IH Cons.prems(2) calm_dump_device by blast
  qed
qed simp

section \<open>What it writes down\<close>

text \<open>A value was asked for, and there it is or else the error; or it was not, and there is neither.\<close>

definition read_as :: "bool \<Rightarrow> field_dump \<Rightarrow> bool" where
  "read_as wanted fd \<longleftrightarrow> (fd_value fd \<noteq> None \<or> fd_value_error fd \<noteq> None) = wanted \<and> (fd_value fd = None \<or> fd_value_error fd = None)"

definition group_read_as :: "value_mode \<Rightarrow> menu list \<Rightarrow> group_dump \<Rightarrow> bool" where
  "group_read_as mode ms gd \<longleftrightarrow> list_ex (\<lambda>m. gd_menu gd = menu_tag m \<and> list_all (read_as (value_wants mode m)) (gd_fields gd)) ms"

definition device_dump_ok :: "dump_args \<Rightarrow> device_dump \<Rightarrow> bool" where
  "device_dump_ok g dd \<longleftrightarrow>
     list_all (group_read_as (da_values g) (da_menus g)) (dd_groups dd) \<and>
     list_all (read_as (da_values g = All_values)) (dd_ungrouped dd) \<and>
     distinct (map fd_index (dd_ungrouped dd)) \<and>
     fd_index ` set (dd_ungrouped dd) \<inter> fd_index ` set (concat (map gd_fields (dd_groups dd))) = {} \<and>
     (da_probe g \<or> dd_ungrouped dd = [])"

lemma dump_field_reads: "dump_field fx mp serial w addr f s = Some (fd, s') \<Longrightarrow> read_as w fd \<and> fd_index fd = fi_index f"
proof (cases w)
  case True
  moreover assume d: "dump_field fx mp serial w addr f s = Some (fd, s')"
  ultimately obtain r s1 where "field_value addr (fi_index f) s = Some (r, s1)" by (auto simp: dump_field_def Let_def)
  then show ?thesis using d True by (cases r) (auto simp: dump_field_def Let_def read_as_def dump_of_field_def)
qed (auto simp: dump_field_def Let_def read_as_def dump_of_field_def)

lemma dump_each_reads:
  "dump_each df fs s = Some (fds, s') \<Longrightarrow> (\<And>f s fd s'. df f s = Some (fd, s') \<Longrightarrow> read_as w fd \<and> fd_index fd = fi_index f) \<Longrightarrow>
     list_all (read_as w) fds \<and> map fd_index fds = map fi_index fs"
proof (induction fs arbitrary: s fds)
  case (Cons f fs)
  then obtain fd s1 fds1 where e: "df f s = Some (fd, s1)" "dump_each df fs s1 = Some (fds1, s')" "fds = fd # fds1"
    by (auto simp: Option.bind_eq_Some_conv)
  from Cons.IH [OF e(2)] Cons.prems(2) [OF e(1)] Cons.prems(2) show ?case by (auto simp: e(3))
qed simp

lemma dump_groups_reads:
  "dump_groups df m gs s = Some (gds, s') \<Longrightarrow> (\<And>f s fd s'. df f s = Some (fd, s') \<Longrightarrow> read_as w fd \<and> fd_index fd = fi_index f) \<Longrightarrow>
     list_all (\<lambda>gd. gd_menu gd = menu_tag m \<and> list_all (read_as w) (gd_fields gd)) gds"
proof (induction gs arbitrary: s gds)
  case (Cons g gs)
  then obtain fds s1 gds1 where e: "dump_each df (gi_fields g) s = Some (fds, s1)" "dump_groups df m gs s1 = Some (gds1, s')"
      "gds = \<lparr>gd_id = gi_id g, gd_name = gi_name g, gd_menu = menu_tag m, gd_fields = fds\<rparr> # gds1"
    by (auto simp: Option.bind_eq_Some_conv)
  from dump_each_reads [OF e(1)] Cons.IH [OF e(2)] Cons.prems(2) show ?case by (auto simp: e(3))
qed simp

lemma dump_menus_reads:
  "dump_menus df mode addr ms s = Some (errs, gds, s') \<Longrightarrow>
     (\<And>w f s fd s'. df w f s = Some (fd, s') \<Longrightarrow> read_as w fd \<and> fd_index fd = fi_index f) \<Longrightarrow> list_all (group_read_as mode ms) gds"
proof (induction ms arbitrary: s errs gds)
  case (Cons m ms)
  have more_menus: "list_all (group_read_as mode ms) xs \<Longrightarrow> list_all (group_read_as mode (m # ms)) xs" for xs
    by (auto simp: group_read_as_def elim!: list.pred_mono_strong)
  obtain r s1 where t: "tab_info addr m s = Some (r, s1)" using Cons.prems(1) by (auto simp: Option.bind_eq_Some_conv)
  show ?case
  proof (cases r)
    case (Inl e)
    then obtain errs1 where "dump_menus df mode addr ms s1 = Some (errs1, gds, s')"
      using Cons.prems(1) t by (auto simp: Option.bind_eq_Some_conv)
    from Cons.IH [OF this] Cons.prems(2) more_menus show ?thesis by blast
  next
    case (Inr gs)
    then obtain gds1 s2 errs1 gds2 where g: "dump_groups (df (value_wants mode m)) m gs s1 = Some (gds1, s2)"
      "dump_menus df mode addr ms s2 = Some (errs1, gds2, s')" "gds = gds1 @ gds2"
      using Cons.prems(1) t by (auto simp: Option.bind_eq_Some_conv)
    have "list_all (\<lambda>gd. gd_menu gd = menu_tag m \<and> list_all (read_as (value_wants mode m)) (gd_fields gd)) gds1"
      by (rule dump_groups_reads [OF g(1)]) (rule Cons.prems(2))
    then have "list_all (group_read_as mode (m # ms)) gds1"
      by (auto simp: group_read_as_def elim!: list.pred_mono_strong)
    moreover have "list_all (group_read_as mode (m # ms)) gds2" by (rule more_menus, rule Cons.IH [OF g(2)]) (rule Cons.prems(2))
    ultimately show ?thesis by (simp add: g(3))
  qed
qed simp

lemma unseen_fresh: "distinct (map fi_index (unseen seen fs)) \<and> fi_index ` set (unseen seen fs) \<inter> seen = {}"
  by (induction seen fs rule: unseen.induct) auto

lemma dump_device_ok: "dump_device fx mp g addr s = Some (dd, s') \<Longrightarrow> dd_address dd = addr \<and> device_dump_ok g dd"
proof -
  assume d: "dump_device fx mp g addr s = Some (dd, s')"
  obtain r s1 where r: "engine_identity addr s = Some (r, s1)" using d by (auto simp: dump_device_def Option.bind_eq_Some_conv)
  define df where "df = (\<lambda>wanted. dump_field fx mp (di_serial (case r of Inr i \<Rightarrow> i | Inl e \<Rightarrow> empty_identity)) wanted addr)"
  obtain errs gds s2 errs1 fds s3 where m: "dump_menus df (da_values g) addr (da_menus g) s1 = Some (errs, gds, s2)"
    and p: "(if da_probe g then dump_probe df (da_values g) addr (fd_index ` set (concat (map gd_fields gds))) s2
        else Some ([], [], s2)) = Some (errs1, fds, s3)"
    and dd: "dd_address dd = addr" "dd_groups dd = gds" "dd_ungrouped dd = fds"
    using d r unfolding dump_device_def Let_def df_def by (auto simp: Option.bind_eq_Some_conv)
  have df: "df w f s = Some (fd, t) \<Longrightarrow> read_as w fd \<and> fd_index fd = fi_index f" for w f s fd t
    unfolding df_def by (rule dump_field_reads)
  let ?seen = "fd_index ` set (concat (map gd_fields gds))"
  have gds: "list_all (group_read_as (da_values g) (da_menus g)) gds" by (rule dump_menus_reads [OF m df])
  have "fds = [] \<or> da_probe g \<and> list_all (read_as (da_values g = All_values)) fds \<and> (\<exists>fs. map fd_index fds = map fi_index (unseen ?seen fs))"
  proof (cases "da_probe g")
    case True
    then obtain q t where q: "all_fields addr s2 = Some (q, t)" using p by (auto simp: dump_probe_def Option.bind_eq_Some_conv)
    show ?thesis
    proof (cases q)
      case (Inr fs)
      then have "dump_each (df (da_values g = All_values)) (unseen ?seen fs) t = Some (fds, s3)"
        using p True q by (auto simp: dump_probe_def)
      then have "list_all (read_as (da_values g = All_values)) fds \<and> map fd_index fds = map fi_index (unseen ?seen fs)"
        by (rule dump_each_reads) (rule df)
      with True show ?thesis by blast
    qed (use p True q in \<open>auto simp: dump_probe_def\<close>)
  qed (use p in simp)
  then show ?thesis
  proof
    assume "fds = []"
    with gds dd show ?thesis by (simp add: device_dump_ok_def)
  next
    assume f: "da_probe g \<and> list_all (read_as (da_values g = All_values)) fds \<and> (\<exists>fs. map fd_index fds = map fi_index (unseen ?seen fs))"
    then obtain fs where fs: "map fd_index fds = map fi_index (unseen ?seen fs)" by blast
    have "distinct (map fd_index fds)" using unseen_fresh [of ?seen fs] by (simp only: fs)
    moreover have "set (map fd_index fds) \<inter> ?seen = {}" using unseen_fresh [of ?seen fs] unfolding fs by simp
    ultimately show ?thesis using f gds dd by (simp add: device_dump_ok_def)
  qed
qed

lemma dump_devices_ok:
  "dump_devices fx mp g ds s = Some (dds, s') \<Longrightarrow>
     map dd_address dds = filter (\<lambda>d. da_devices g = [] \<or> d \<in> set (da_devices g)) ds \<and> list_all (device_dump_ok g) dds"
proof (induction ds arbitrary: s dds)
  case (Cons d ds)
  show ?case
  proof (cases "da_devices g \<noteq> [] \<and> d \<notin> set (da_devices g)")
    case True
    then have "dump_devices fx mp g ds s = Some (dds, s')" using Cons.prems by simp
    from Cons.IH [OF this] True show ?thesis by simp
  next
    case False
    then obtain dd s1 dds1 where e: "dump_device fx mp g d s = Some (dd, s1)" "dump_devices fx mp g ds s1 = Some (dds1, s')" "dds = dd # dds1"
      using Cons.prems by (auto simp: Option.bind_eq_Some_conv split: if_splits)
    from Cons.IH [OF e(2)] dump_device_ok [OF e(1)] False show ?thesis by (auto simp: e(3))
  qed
qed simp

text \<open>C27. A dump asks and never writes, and it is the bus: the devices that were selected of those heard, in the
  order of their addresses; each group from a tab that was asked for, its fields with a value or the reason
  there is none exactly when the mode reads that tab; and, when the field space is probed, the fields no
  group lists, each once.\<close>

theorem dump_reads_the_selected_bus:
  assumes "collect_bus fx version file now g addrs s = Some (doc, s')"
  shows "(\<exists>new. b_sent s' = b_sent s @ new \<and> list_all (\<lambda>x. read_only (snd x)) new) \<and>
    map dd_address (dp_devices doc) = filter (\<lambda>d. da_devices g = [] \<or> d \<in> set (da_devices g)) (sort addrs) \<and>
    list_all (device_dump_ok g) (dp_devices doc)"
proof -
  obtain mp dds where d: "dump_devices fx mp g (sort addrs) s = Some (dds, s')" and doc: "dp_devices doc = dds"
    using assms by (auto simp: collect_bus_def Let_def)
  have "calm s s'" by (rule calm_dump_devices [OF d calm_refl])
  then have "\<exists>new. b_sent s' = b_sent s @ new \<and> list_all (\<lambda>x. read_only (snd x)) new" by (auto simp: calm_def)
  with dump_devices_ok [OF d] show ?thesis by (simp add: doc)
qed

definition switch_group :: group_info where
  "switch_group = \<lparr>gi_id = 0, gi_name = ''Status'', gi_menu = Monitoring, gi_fields = [a_switch]\<rparr>"

definition switch_bus :: sched where
  "switch_bus = upd_state (put_menu 1000 0x1234 Monitoring [switch_group]) quiet_start"

definition schema_only :: dump_args where
  "schema_only = \<lparr>da_output = None, da_menus = [Monitoring], da_values = No_values, da_devices = [], da_probe = False,
     da_pretty = True, da_timeout = None\<rparr>"

theorem dump_reads_the_selected_bus_witness:
  "\<exists>doc. collect_bus (\<lambda>x. []) ''1'' (None :: (string \<times> (error + mapping)) option) 0 schema_only [0x1234] switch_bus = Some (doc, switch_bus) \<and>
     map dd_address (dp_devices doc) = [0x1234] \<and> list_all (device_dump_ok schema_only) (dp_devices doc)"
proof -
  have k: "has_identity 0x1234 (b_state switch_bus)" "has_menu 0x1234 Monitoring (b_state switch_bus)"
    by (simp_all add: switch_bus_def upd_state_def put_menu_def entry_or_new_def has_menu_def has_identity_def Let_def)
  obtain sch i where sch: "state_schema 0x1234 (b_state switch_bus) = Some sch" "ds_groups sch = [switch_group]"
      "state_identity 0x1234 (b_state switch_bus) = Some i"
    by (simp add: switch_bus_def upd_state_def put_menu_def entry_or_new_def state_schema_def state_identity_def Let_def
        device_entry_new_def schema_from_identity_def quiet_start_def sched_start_def)
  have "\<exists>doc. collect_bus (\<lambda>x. []) ''1'' (None :: (string \<times> (error + mapping)) option) 0 schema_only [0x1234] switch_bus = Some (doc, switch_bus)"
    using k sch by (simp add: collect_bus_def dump_device_def engine_identity_def ensure_identity_def tab_info_def ensure_menu_def
        state_schema_ready_def schema_only_def switch_group_def value_wants_def dump_field_def Let_def)
  then obtain doc where doc: "collect_bus (\<lambda>x. []) ''1'' (None :: (string \<times> (error + mapping)) option) 0 schema_only [0x1234] switch_bus = Some (doc, switch_bus)" ..
  note r = dump_reads_the_selected_bus [OF doc]
  have "map dd_address (dp_devices doc) = [0x1234]" using r by (simp add: schema_only_def)
  moreover have "list_all (device_dump_ok schema_only) (dp_devices doc)" using r by (elim conjE)
  ultimately show ?thesis using doc by (intro exI [of _ doc] conjI)
qed

section \<open>Times and outputs\<close>

text \<open>Both programs of the repository that write a time write the same one, but for the milliseconds.\<close>

lemma same_time_as_the_daemon: "\<exists>t. iso8601_utc secs = t @ ''Z'' \<and> now_rfc3339 (1000 * secs) = t @ ''.000Z''"
proof -
  obtain y m d where c: "civil_from_days (int (secs div 86400)) = (y, m, d)" by (metis prod_cases3)
  have "secs mod 86400 div 3600 = secs div 3600 mod 24" using mod_mult2_eq [of secs 3600 24] by simp
  moreover have "secs mod 3600 div 60 = secs div 60 mod 60" using mod_mult2_eq [of secs 60 60] by simp
  moreover have "secs mod 86400 mod 3600 = secs mod 3600" "secs mod 86400 mod 60 = secs mod 60" by (simp_all add: mod_mod_cancel)
  ultimately have h: "secs mod 86400 div 3600 = secs div 3600 mod 24" "secs mod 86400 mod 3600 div 60 = secs div 60 mod 60"
    "secs mod 86400 mod 60 = secs mod 60" by simp_all
  have "iso8601_utc secs = (case civil_from_days (int (secs div 86400)) of (y, m, d) \<Rightarrow>
      fmt_pad 4 y @ ''-'' @ fmt_pad 2 m @ ''-'' @ fmt_pad 2 d @ ''T'' @ fmt_pad 2 (int (secs mod 86400 div 3600)) @ '':'' @
      fmt_pad 2 (int (secs mod 86400 mod 3600 div 60)) @ '':'' @ fmt_pad 2 (int (secs mod 86400 mod 60)) @ ''Z'')"
    unfolding iso8601_utc_def civil_from_days_def Let_def prod.case by (rule refl)
  moreover have "fmt_pad 3 0 = ''000''" by code_simp
  ultimately show ?thesis
    by (simp add: c h now_rfc3339_def)
qed

text \<open>Of two outputs given by \<open>-o\<close>, or one after a positional one, the later silently counts.\<close>

lemma later_output_counts:
  "map_sum id da_output (parse_dump_args [''a.json'', ''-o'', ''b.json'']) = Inr (Some ''b.json'')"
  by (simp add: parse_dump_args_def dump_option_def starts_with_def)

end
