(* ===== verification/Spec2Isabelle.thy ===== *)
theory Spec2Isabelle
  imports Usb Relay Reconnect Client Updates Framelog Putback WebProps StreamProps TuiProps TuiPath Dump
begin

text \<open>
  A model of masterbus: a Rust client for Mastervolt's MasterBus (crate \<open>masterbus\<close>) and the tools built
  on it that publish the bus to Signal K (crate \<open>masterbus-tools\<close>), with the theorems that make their parts
  correct.

  \<^bold>\<open>The program.\<close> A device on the bus answers CAN frames. A \<^emph>\<open>transport\<close> (USB, SocketCAN, or another
  process that relays its own) moves frames. The \<^emph>\<open>reader\<close> thread decodes every incoming frame, keeps the
  table of devices, caches values, and hands answers to whoever waits for them. The \<^emph>\<open>scheduler\<close> thread is
  the only one that sends: it runs the commands of the API (discovery, reads, writes, logins, subscriptions),
  paces what goes out, and polls what is subscribed. The \<^emph>\<open>API\<close> is a set of handles whose methods are
  commands to the scheduler. The \<^emph>\<open>tools\<close> keep a mapping from fields to Signal K paths, derive a plan for
  each entry, publish values and take them back by PUT over an HTTP API.

  \<^bold>\<open>Ground.\<close> Machine integers are words; an \<open>f32\<close> and an \<open>f64\<close> are their bit patterns with the rounding
  written out (theories F32 and F64). A Rust \<open>String\<close> is its UTF-8 bytes, one \<open>char\<close> a byte. Errors are
  values of a sum, Rust's \<open>Result\<close>. A \<open>BTreeMap\<close> is an association list in key order (Toolkit), a
  \<open>HashMap\<close> a map, or a list where its order is observable. Prelude and RustStr hold what of the standard
  library the code uses. Time is a number of milliseconds that passes only in waits and sleeps.

  \<^bold>\<open>The client\<close>, \<open>src/crates/masterbus/src\<close>:
  \<^item> Model (\<open>model.rs\<close>, \<open>value.rs\<close>, \<open>error.rs\<close>), Tab (\<open>protocol/tab.rs\<close>), Encode
    (\<open>protocol/encode.rs\<close>, \<open>bus_id.rs\<close>), Decode (\<open>protocol/decode.rs\<close>): the data and the frames. Keys puts
    each request next to its waiter key and shows that the key of a device's answer is the key of its request
    and of no other.
  \<^item> Codec states what a stream of frames relies on (locale \<open>frame_codec\<close>); Usb (\<open>transport/usb.rs\<close>) and
    Relay (\<open>transport/relay.rs\<close>) interpret it. Relay is a state machine over the wire, the clients and the
    owner; Reconnect (\<open>transport/reconnect.rs\<close>) is an inductive step relation with its reachable states.
  \<^item> Waiter (\<open>runtime/waiter.rs\<close>, locale \<open>reply_table\<close>), DevState (\<open>runtime/state.rs\<close>, locale
    \<open>value_cache\<close>) and Reader (\<open>runtime/reader.rs\<close>): what is shared between the threads.
  \<^item> Bus is the scheduler's view of the wire: a clock, the shared state, the frames on their way, the log
    \<open>b_sent\<close> of what was sent, and a parameter \<open>b_net\<close> that says what any history of requests is answered
    with, and when. While the scheduler waits, the reader handles what arrives.
  \<^item> Requests, Discovery and Schema (\<open>runtime/discovery.rs\<close>, \<open>strings.rs\<close>); Scheduler, Control and
    Polling (\<open>runtime/scheduler.rs\<close>: asking, writing, subscriptions and the loop); Framelog
    (\<open>runtime/framelog.rs\<close>); Engine (\<open>runtime/mod.rs\<close>), Api (\<open>api.rs\<close>), Settings (\<open>settings.rs\<close>).
  \<^item> What they promise: Turns and Quiet (locales \<open>quiet_turns\<close> and \<open>quiet_sched\<close>, interpreted for both of
    the scheduler's turns between requests: all that is not a write only asks), Writes (what a write puts on
    the bus), Texts (the chunks of a text, written against what the bus brings and fetched back),
    Returns (when reads and writes come back), Updates (what subscribers get), Client (the handles).

  \<^bold>\<open>The tools\<close>, \<open>src/crates/masterbus-tools/src\<close>:
  \<^item> Units (\<open>units.rs\<close>), SkPath and SignalK (\<open>signalk.rs\<close>), FieldMap (\<open>mapping.rs\<close>), Suggest
    (\<open>seed.rs\<close>, \<open>database.rs\<close>), Publish (\<open>publish.rs\<close>), WebApi (\<open>api.rs\<close>).
  \<^item> Putback shows that a published value sent back publishes the same again; WebFacts states what a handler
    relies on as locales over the bus operations (\<open>asking_bus\<close>, \<open>switching_bus\<close>) and interprets them on the
    client's calls; WebProps has the properties of requests.
  \<^item> Daemon and Stream (\<open>bin/masterbus-signalk.rs\<close>): the command line and the start of the daemon, the order of
    identification and the time stamps; activating a mapping, the main loop and the thread that accepts
    clients, an inductive step relation. StreamProps shows which subscriptions an activation leaves, that a
    mapping file is never seeded over, and what a client that joins may miss.
  \<^item> Tui, TuiMap and TuiKeys (\<open>bin/masterbus-tui/app.rs\<close> and \<open>main.rs\<close>, with Decimal for the singles that are
    typed): the state of the terminal program, each operation of its keys, the mapping editor, which modal
    takes a key, the main loop and the threads beside it as a step relation. TuiFacts has what every operation
    keeps; TuiProps the consistency of the state, quitting, and two defects; TuiPath what saving a path does
    and where the cursor goes.
  \<^item> SetField (\<open>bin/masterbus-set-field.rs\<close>) and Dump (\<open>bin/masterbus-dump.rs\<close>): the two command-line programs,
    with what they may send and what a dump lists.

  \<^bold>\<open>Loops.\<close> A loop is a recursive function with its measure. Only the fetch of a string
  (\<open>fetch_rounds\<close>) may run for ever, since a device may answer for ever; it is a \<open>partial_function\<close> into
  \<open>option\<close>, and every operation that may reach it gives an option, where \<open>None\<close> is not returning. The
  properties that say an operation returns are about fields that are known and are no text, and about the
  fetch of a text from a device that keeps it (Texts). No fuel is used in the model.

  \<^bold>\<open>Parameters.\<close> What answers on the bus (\<open>b_net\<close>), the file system and the host name (Settings), serde's
  JSON numbers and parsers, Unicode lower case, the shortest decimal of a single, and the bundled catalog of
  models are arguments. Their laws, where a property needs one, are named hypotheses (\<open>num_laws\<close> in
  Putback, \<open>text_device\<close> in Texts: a device that answers as PROTOCOL.md 4.4 documents).

  \<^bold>\<open>Not modelled.\<close> The SocketCAN transport, the opening of USB devices and sockets, threads and their locks
  (a handler or a command is one step), log lines and the texts of messages (they are constructors), the
  drawing of the terminal program (\<open>ui.rs\<close>), the JSON text of a dump, the C bindings, and the test
  doubles.
\<close>

end
